(* ===== verification/Prelude.thy ===== *)
theory Prelude
  imports Complex_Main "HOL-Library.Finite_Map" "HOL-Library.List_Lexorder"
    "HOL-Library.Char_ord" "HOL-Library.Word" "HOL-Library.Sublist"
begin

text \<open>
  Shared material of the development: the parts of Go's \<open>strings\<close>, \<open>strconv\<close> and
  \<open>sort\<close> packages the source calls, and the generic lemmas on lists, finite maps and results
  that the component theories share.

  Go strings are byte sequences, so a Go \<open>string\<close> and a \<open>[]byte\<close> are both a HOL
  \<open>string\<close> (a list of \<open>char\<close>, and a \<open>char\<close> is a byte).  A Go map is an \<open>fmap\<close> of
  HOL-Library.Finite_Map: finite, extensional, and evaluated by \<open>code_simp\<close>.
  \<open>strings.ToUpper\<close>, \<open>strings.ToLower\<close> and \<open>strings.EqualFold\<close> are modelled on
  the ASCII letters; the expression language they are used for is ASCII.
\<close>

named_theorems go_simps "equations of the standard library functions the model uses"

type_synonym bytes = string
type_synonym int32 = "32 word"

subsection \<open>Results\<close>

text \<open>\<open>bind r f\<close> is \<open>if err != nil { return err }\<close> followed by the rest \<open>f\<close>.\<close>

definition bind :: "'e + 'a \<Rightarrow> ('a \<Rightarrow> 'e + 'b) \<Rightarrow> 'e + 'b" where
  "bind r f = (case r of Inl e \<Rightarrow> Inl e | Inr x \<Rightarrow> f x)"

lemma bind_simps [simp]: "bind (Inl e) f = Inl e" "bind (Inr x) f = f x"
  by (simp_all add: bind_def)

lemma bind_cong [fundef_cong]:
  "r = r' \<Longrightarrow> (\<And>x. r' = Inr x \<Longrightarrow> f x = g x) \<Longrightarrow> bind r f = bind r' g"
  by (auto simp: bind_def split: sum.splits)

lemma bind_Inr_iff: "bind r f = Inr y \<longleftrightarrow> (\<exists>x. r = Inr x \<and> f x = Inr y)"
  by (cases r) auto

lemma bind_Inl_iff: "bind r f = Inl e \<longleftrightarrow> r = Inl e \<or> (\<exists>x. r = Inr x \<and> f x = Inl e)"
  by (cases r) auto

lemma bind_assoc: "bind (bind r f) g = bind r (\<lambda>x. bind (f x) g)"
  by (cases r) auto

definition is_ok :: "'e + 'a \<Rightarrow> bool" where
  "is_ok r = (case r of Inl _ \<Rightarrow> False | Inr _ \<Rightarrow> True)"

lemma is_ok_simps [simp]: "\<not> is_ok (Inl e)" "is_ok (Inr x)"
  by (simp_all add: is_ok_def)

lemma is_ok_bind: "is_ok (bind r f) \<longleftrightarrow> (\<exists>x. r = Inr x \<and> is_ok (f x))"
  by (cases r) auto

lemma is_okE [elim]: "is_ok r \<Longrightarrow> (\<And>x. r = Inr x \<Longrightarrow> P) \<Longrightarrow> P"
  by (cases r) auto

lemma is_ok_iff: "is_ok r \<longleftrightarrow> (\<exists>x. r = Inr x)"
  by (cases r) auto

subsection \<open>Characters and the strings package\<close>

definition is_space :: "char \<Rightarrow> bool" where
  "is_space c \<longleftrightarrow> c = CHR '' '' \<or> c = CHR 0x09 \<or> c = CHR 0x0A \<or> c = CHR 0x0D"

definition is_digit :: "char \<Rightarrow> bool" where
  "is_digit c \<longleftrightarrow> CHR ''0'' \<le> c \<and> c \<le> CHR ''9''"

definition is_lower :: "char \<Rightarrow> bool" where
  "is_lower c \<longleftrightarrow> CHR ''a'' \<le> c \<and> c \<le> CHR ''z''"

definition is_upper :: "char \<Rightarrow> bool" where
  "is_upper c \<longleftrightarrow> CHR ''A'' \<le> c \<and> c \<le> CHR ''Z''"

definition up_char :: "char \<Rightarrow> char" where
  "up_char c = (if is_lower c then char_of (of_char c - (32 :: nat)) else c)"

definition low_char :: "char \<Rightarrow> char" where
  "low_char c = (if is_upper c then char_of (of_char c + (32 :: nat)) else c)"

definition ToUpper :: "string \<Rightarrow> string" where
  "ToUpper s = map up_char s"

definition ToLower :: "string \<Rightarrow> string" where
  "ToLower s = map low_char s"

definition EqualFold :: "string \<Rightarrow> string \<Rightarrow> bool" where
  "EqualFold s t \<longleftrightarrow> ToUpper s = ToUpper t"

lemma EqualFold_Nil [simp]: "EqualFold [] (c # s) = False"
  by (simp add: EqualFold_def ToUpper_def)

definition HasPrefix :: "string \<Rightarrow> string \<Rightarrow> bool" where
  "HasPrefix s p \<longleftrightarrow> prefix p s"

text \<open>\<open>strings.Index\<close>, with \<open>None\<close> for the result -1.\<close>

fun Index :: "string \<Rightarrow> string \<Rightarrow> nat option" where
  "Index [] sub = (if sub = [] then Some 0 else None)"
| "Index (c # s) sub = (if prefix sub (c # s) then Some 0 else map_option Suc (Index s sub))"

definition Contains :: "string \<Rightarrow> string \<Rightarrow> bool" where
  "Contains s sub \<longleftrightarrow> Index s sub \<noteq> None"

text \<open>Searching skips the text that does not have the first character of the pattern.\<close>

lemma Index_skip: "c \<notin> set w \<Longrightarrow> Index (w @ s) (c # t) = map_option ((+) (length w)) (Index s (c # t))"
  by (induction w) (auto simp: option.map_comp comp_def option.map_ident map_option_case split: option.split)

lemma Index_absent: "c \<notin> set w \<Longrightarrow> Index w (c # t) = None"
  using Index_skip [of c w "[]" t] by simp

text \<open>\<open>strings.LastIndex\<close> of a one-character string.\<close>

fun LastIndexChar :: "string \<Rightarrow> char \<Rightarrow> nat option" where
  "LastIndexChar [] c = None"
| "LastIndexChar (d # s) c =
     (case LastIndexChar s c of
        Some i \<Rightarrow> Some (Suc i)
      | None \<Rightarrow> (if d = c then Some 0 else None))"

text \<open>\<open>strings.Split\<close> at a one-character separator: never the empty list.\<close>

fun SplitChar :: "char \<Rightarrow> string \<Rightarrow> string list" where
  "SplitChar c [] = [[]]"
| "SplitChar c (d # s) =
     (if d = c then [] # SplitChar c s
      else (case SplitChar c s of [] \<Rightarrow> [[d]] | w # ws \<Rightarrow> (d # w) # ws))"

fun Join :: "string list \<Rightarrow> string \<Rightarrow> string" where
  "Join [] sep = []"
| "Join [w] sep = w"
| "Join (w # v # ws) sep = w @ sep @ Join (v # ws) sep"

lemma SplitChar_nonempty [simp]: "SplitChar c s \<noteq> []"
  by (induction s) (auto split: list.splits)

lemma SplitChar_no_sep: "c \<notin> set s \<Longrightarrow> SplitChar c s = [s]"
  by (induction s) auto

lemma SplitChar_append: "c \<notin> set s \<Longrightarrow> SplitChar c (s @ c # t) = s # SplitChar c t"
  by (induction s) auto

lemma Join_Cons: "ws \<noteq> [] \<Longrightarrow> Join (w # ws) sep = w @ sep @ Join ws sep"
  by (cases ws) auto

lemma Join_SplitChar: "Join (SplitChar c s) [c] = s"
proof (induction s)
  case (Cons d s)
  then show ?case
    by (cases "SplitChar c s"; cases "tl (SplitChar c s)") auto
qed simp

lemma SplitChar_Join:
  "ws \<noteq> [] \<Longrightarrow> \<forall>w \<in> set ws. c \<notin> set w \<Longrightarrow> SplitChar c (Join ws [c]) = ws"
  by (induction ws rule: induct_list012) (auto simp: SplitChar_no_sep SplitChar_append)

text \<open>
  How many bytes \<open>utf8.DecodeRuneInString\<close> takes: those of a well-formed sequence, and one where there is none.
\<close>

definition rune_tail :: "nat \<Rightarrow> nat \<Rightarrow> nat \<Rightarrow> string \<Rightarrow> bool" where
  "rune_tail n lo hi s \<longleftrightarrow>
     (case take n s of
        [] \<Rightarrow> False
      | c # cs \<Rightarrow> lo \<le> of_char c \<and> of_char c \<le> hi \<and> length cs = n - 1 \<and>
          list_all (\<lambda>d. 0x80 \<le> (of_char d :: nat) \<and> of_char d \<le> (0xBF :: nat)) cs)"

definition rune_size :: "string \<Rightarrow> nat" where
  "rune_size s =
     (case s of
        [] \<Rightarrow> 0
      | c # cs \<Rightarrow>
          let b = of_char c in
          if 0xC2 \<le> b \<and> b \<le> 0xDF \<and> rune_tail 1 0x80 0xBF cs then 2
          else if b = 0xE0 \<and> rune_tail 2 0xA0 0xBF cs \<or> b = 0xED \<and> rune_tail 2 0x80 0x9F cs \<or>
            0xE1 \<le> b \<and> b \<le> (0xEF :: nat) \<and> b \<noteq> 0xED \<and> rune_tail 2 0x80 0xBF cs then 3
          else if b = 0xF0 \<and> rune_tail 3 0x90 0xBF cs \<or> b = 0xF4 \<and> rune_tail 3 0x80 0x8F cs \<or>
            0xF1 \<le> b \<and> b \<le> 0xF3 \<and> rune_tail 3 0x80 0xBF cs then 4
          else 1)"

lemma rune_size_pos: "s \<noteq> [] \<Longrightarrow> 0 < rune_size s"
  by (auto simp: rune_size_def Let_def split: list.split)

function explode :: "string \<Rightarrow> string list" where
  "explode s = (if s = [] then [] else take (rune_size s) s # explode (drop (rune_size s) s))"
  by pat_completeness auto
termination
  by (relation "measure length") (auto simp: rune_size_pos)

declare explode.simps [simp del]

lemma Join_explode: "Join (explode s) [] = s"
proof (induction s rule: explode.induct)
  case (1 s)
  show ?case
  proof (cases "explode (drop (rune_size s) s) = []")
    case True
    then have "drop (rune_size s) s = []" by (metis explode.simps list.distinct(1))
    with True show ?thesis by (cases "s = []") (simp_all add: explode.simps [of s])
  next
    case False
    then have "s \<noteq> []" by (auto simp: explode.simps)
    with 1 False show ?thesis by (simp add: explode.simps [of s] Join_Cons)
  qed
qed

text \<open>\<open>strings.Split\<close>; the empty separator splits into runes.\<close>

function Split :: "string \<Rightarrow> string \<Rightarrow> string list" where
  "Split s sep =
     (if sep = [] then explode s
      else (case Index s sep of
              None \<Rightarrow> [s]
            | Some i \<Rightarrow> take i s # Split (drop (i + length sep) s) sep))"
  by pat_completeness auto

lemma Index_Some: "Index s sub = Some i \<Longrightarrow> \<exists>t. s = take i s @ sub @ t \<and> i + length sub \<le> length s"
proof (induction s arbitrary: i)
  case (Cons c s)
  show ?case
  proof (cases "prefix sub (c # s)")
    case True
    with Cons.prems prefix_length_le [OF True] show ?thesis by (auto simp: prefix_def)
  next
    case False
    with Cons.prems obtain j where "Index s sub = Some j" "i = Suc j" by auto
    with Cons.IH [of j] show ?thesis by auto
  qed
qed (auto split: if_splits)

termination Split
proof (relation "measure (\<lambda>(s, sep). length s)", simp, clarsimp)
  fix s sep i
  assume "sep \<noteq> []" "Index s sep = Some i"
  with Index_Some [of s sep i] show "length s - (i + length sep) < length s"
    by (cases sep) auto
qed

declare Split.simps [simp del]

lemma Join_Split: "Join (Split s sep) sep = s"
proof (induction s sep rule: Split.induct)
  case (1 s sep)
  show ?case
  proof (cases "sep = [] \<or> Index s sep = None")
    case True
    then show ?thesis by (auto simp: Split.simps [of s sep] Join_explode)
  next
    case False
    then obtain i where i: "Index s sep = Some i" and sep: "sep \<noteq> []" by auto
    have ne: "Split t sep \<noteq> []" for t
      using sep by (subst Split.simps) (auto split: option.splits)
    from Index_Some [OF i] obtain t where t: "s = take i s @ sep @ t" "i \<le> length s" by auto
    then have d: "drop (i + length sep) s = t"
      by (metis append_assoc append_eq_conv_conj length_append length_take min.absorb2)
    have "Join (Split s sep) sep = take i s @ sep @ Join (Split (drop (i + length sep) s) sep) sep"
      using i sep ne by (simp add: Split.simps [of s sep] Join_Cons)
    with 1 [OF sep i] t d show ?thesis by simp
  qed
qed

lemma up_char_iff: "up_char c = CHR '' '' \<longleftrightarrow> c = CHR '' ''"
proof (cases "is_lower c")
  case True
  then have "(of_char (CHR ''a'') :: nat) \<le> of_char c" "(of_char c :: nat) \<le> of_char (CHR ''z'')"
    unfolding is_lower_def less_eq_char_def by blast+
  moreover have "(of_char (CHR ''a'') :: nat) = 97" "(of_char (CHR ''z'') :: nat) = 122"
    "(of_char (CHR '' '') :: nat) = 32"
    by simp_all
  ultimately have range: "97 \<le> (of_char c :: nat)" "(of_char c :: nat) \<le> 122" by linarith+
  have "(of_char (up_char c) :: nat) = of_char c - 32"
    using True range by (simp add: up_char_def)
  with range have "(of_char (up_char c) :: nat) \<noteq> 32" by linarith
  moreover have "c \<noteq> CHR '' ''" using range by auto
  ultimately show ?thesis by auto
qed (simp add: up_char_def)

lemma blank_ToUpper [simp]: "CHR '' '' \<in> set (ToUpper s) \<longleftrightarrow> CHR '' '' \<in> set s"
  unfolding ToUpper_def set_map image_iff by (metis up_char_iff)

lemma ToUpper_append [simp]: "ToUpper (s @ t) = ToUpper s @ ToUpper t"
  by (simp add: ToUpper_def)

lemma length_ToUpper [simp]: "length (ToUpper s) = length s"
  by (simp add: ToUpper_def)

subsection \<open>Decimal printing: strconv.FormatInt, fmt's verb d\<close>

definition digit_char :: "int \<Rightarrow> char" where
  "digit_char d = char_of (48 + d)"

function show_pos :: "int \<Rightarrow> string" where
  "show_pos n = (if n < 10 then [digit_char n] else show_pos (n div 10) @ [digit_char (n mod 10)])"
  by pat_completeness auto
termination
  by (relation "measure nat") auto

declare show_pos.simps [simp del]

definition show_int :: "int \<Rightarrow> string" where
  "show_int i = (if i < 0 then CHR ''-'' # show_pos (- i) else show_pos i)"

abbreviation show_nat :: "nat \<Rightarrow> string" where
  "show_nat n \<equiv> show_int (int n)"

definition digit_val :: "char \<Rightarrow> int" where
  "digit_val c = of_char c - 48"

definition digits_val :: "string \<Rightarrow> int" where
  "digits_val s = foldl (\<lambda>a c. a * 10 + digit_val c) 0 s"

lemma digit_char_val: "0 \<le> d \<Longrightarrow> d < 10 \<Longrightarrow> digit_val (digit_char d) = d"
  by (simp add: digit_val_def digit_char_def)

lemma digit_char_is_digit:
  assumes "0 \<le> d" "d < 10"
  shows "is_digit (digit_char d)"
proof -
  from assms have "d = 0 \<or> d = 1 \<or> d = 2 \<or> d = 3 \<or> d = 4 \<or> d = 5 \<or> d = 6 \<or> d = 7 \<or> d = 8 \<or> d = 9"
    by presburger
  then show ?thesis
    by (elim disjE) (hypsubst, code_simp)+
qed

lemma digits_val_snoc: "digits_val (s @ [c]) = digits_val s * 10 + digit_val c"
  by (simp add: digits_val_def)

lemma digits_val_show_pos: "0 \<le> n \<Longrightarrow> digits_val (show_pos n) = n"
proof (induction n rule: show_pos.induct)
  case (1 n)
  show ?case
  proof (cases "n < 10")
    case True
    with 1 show ?thesis by (simp add: show_pos.simps digits_val_def digit_char_val)
  next
    case False
    with 1 show ?thesis
      by (simp add: show_pos.simps [of n] digits_val_snoc digit_char_val)
  qed
qed

lemma show_pos_digits: "0 \<le> n \<Longrightarrow> \<forall>c \<in> set (show_pos n). is_digit c"
proof (induction n rule: show_pos.induct)
  case (1 n)
  then show ?case
    by (cases "n < 10") (auto simp: show_pos.simps [of n] digit_char_is_digit)
qed

lemma show_pos_nonempty [simp]: "show_pos n \<noteq> []"
  by (subst show_pos.simps) simp

lemma show_nat_eq: "show_nat n = show_pos (int n)"
  by (simp add: show_int_def)

lemma show_nat_inj: "show_nat m = show_nat n \<Longrightarrow> m = n"
  by (metis digits_val_show_pos show_nat_eq of_nat_0_le_iff of_nat_eq_iff)

subsection \<open>Finite maps\<close>

text \<open>The keys of a Go map after \<open>sort.Strings\<close>.\<close>

definition sorted_keys :: "('k :: linorder, 'v) fmap \<Rightarrow> 'k list" where
  "sorted_keys m = sorted_list_of_fset (fmdom m)"

lemma set_sorted_keys [simp]: "set (sorted_keys m) = fmdom' m"
  by (simp add: sorted_keys_def fmdom'_alt_def)

lemma sorted_sorted_keys [simp]: "sorted (sorted_keys m)"
  by (simp add: sorted_keys_def sorted_list_of_fset.rep_eq)

lemma distinct_sorted_keys [simp]: "distinct (sorted_keys m)"
  by (simp add: sorted_keys_def sorted_list_of_fset.rep_eq)

lemma fmupd_same [simp]: "fmlookup m k = Some v \<Longrightarrow> fmupd k v m = m"
  by (rule fmap_ext) auto

lemma fmdrop_absent [simp]: "fmlookup m k = None \<Longrightarrow> fmdrop k m = m"
  by (rule fmap_ext) auto

lemma fmmap_ident: "(\<And>v. v \<in> fmran' m \<Longrightarrow> f v = v) \<Longrightarrow> fmmap f m = m"
  by (simp add: fmap.map_ident_strong)

end
