(* ===== verification/GoFloat.thy ===== *)
theory GoFloat
  imports Prelude
begin

text \<open>
  The float64 arithmetic of Go that the numbers of the library pass through:
  \<open>strconv.ParseFloat\<close> and the \<open>%g\<close> verb of \<open>fmt.Sscanf\<close> (decimal notation only: no
  hexadecimal floats, no digit separators, no \<open>p\<close> exponents), addition, subtraction and comparison,
  \<open>int64(f)\<close> (as amd64 computes it out of range) and the shortest round-trip printing of
  \<open>strconv.FormatFloat(f, 'f', -1, 64)\<close>, \<open>FormatFloat(f, 'g', -1, 64)\<close> and \<open>%g\<close>.
  A finite double other than -0 is the rational it denotes; \<open>round64\<close> is the IEEE-754
  round-to-nearest-even, with the subnormal and overflow limits.
\<close>

datatype f64 = Fin rat | NegZero | PosInf | NegInf | NaN

subsection \<open>Rounding\<close>

definition pow2 :: "int \<Rightarrow> rat" where
  "pow2 e = (if 0 \<le> e then 2 ^ nat e else 1 / 2 ^ nat (- e))"

function bits :: "int \<Rightarrow> int" where
  "bits n = (if n \<le> 0 then 0 else 1 + bits (n div 2))"
  by pat_completeness auto
termination
  by (relation "measure nat") auto

declare bits.simps [simp del]

text \<open>The largest \<open>e\<close> with \<open>2 ^ e \<le> q\<close>, for positive \<open>q\<close>.\<close>

definition ilog2 :: "rat \<Rightarrow> int" where
  "ilog2 q =
     (let (n, d) = quotient_of q;
          e = bits n - bits d
      in if pow2 e \<le> q then e else e - 1)"

definition round_half_even :: "rat \<Rightarrow> int" where
  "round_half_even q =
     (let f = \<lfloor>q\<rfloor>; r = q - of_int f
      in if r < 1 / 2 then f else if 1 / 2 < r then f + 1 else if even f then f else f + 1)"

text \<open>
  The binary format with \<open>p\<close> bits of precision, least exponent \<open>emin\<close> of the last place and
  overflow at \<open>2 ^ emax\<close>; \<open>round32\<close> is the one of float32.
\<close>

definition round_ieee :: "int \<Rightarrow> int \<Rightarrow> int \<Rightarrow> rat \<Rightarrow> f64" where
  "round_ieee p emin emax q =
     (if q = 0 then Fin 0
      else let e = max (ilog2 \<bar>q\<bar> - (p - 1)) emin;
               v = of_int (round_half_even (\<bar>q\<bar> / pow2 e)) * pow2 e
           in if pow2 emax \<le> v then (if q < 0 then NegInf else PosInf)
              else if v = 0 \<and> q < 0 then NegZero
              else Fin (sgn q * v))"

definition round64 :: "rat \<Rightarrow> f64" where
  "round64 q = round_ieee 53 (- 1074) 1024 q"

definition round32 :: "rat \<Rightarrow> f64" where
  "round32 q = round_ieee 24 (- 149) 128 q"

definition f64_of_int :: "int \<Rightarrow> f64" where
  "f64_of_int i = round64 (of_int i)"

subsection \<open>Arithmetic and comparison\<close>

text \<open>The rational value of a finite double.\<close>

fun f64_val :: "f64 \<Rightarrow> rat option" where
  "f64_val (Fin q) = Some q"
| "f64_val NegZero = Some 0"
| "f64_val _ = None"

fun f64_neg :: "f64 \<Rightarrow> f64" where
  "f64_neg (Fin q) = (if q = 0 then NegZero else Fin (- q))"
| "f64_neg NegZero = Fin 0"
| "f64_neg PosInf = NegInf"
| "f64_neg NegInf = PosInf"
| "f64_neg NaN = NaN"

fun f64_add :: "f64 \<Rightarrow> f64 \<Rightarrow> f64" where
  "f64_add NaN b = NaN"
| "f64_add a NaN = NaN"
| "f64_add PosInf NegInf = NaN"
| "f64_add NegInf PosInf = NaN"
| "f64_add PosInf b = PosInf"
| "f64_add a PosInf = PosInf"
| "f64_add NegInf b = NegInf"
| "f64_add a NegInf = NegInf"
| "f64_add NegZero NegZero = NegZero"
| "f64_add NegZero (Fin q) = Fin q"
| "f64_add (Fin q) NegZero = Fin q"
| "f64_add (Fin p) (Fin q) = round64 (p + q)"

definition f64_sub :: "f64 \<Rightarrow> f64 \<Rightarrow> f64" where
  "f64_sub a b = f64_add a (f64_neg b)"

fun f64_less :: "f64 \<Rightarrow> f64 \<Rightarrow> bool" where
  "f64_less NaN b = False"
| "f64_less a NaN = False"
| "f64_less a NegInf = False"
| "f64_less NegInf b = True"
| "f64_less PosInf b = False"
| "f64_less a PosInf = True"
| "f64_less a b = (the (f64_val a) < the (f64_val b))"

definition f64_eq :: "f64 \<Rightarrow> f64 \<Rightarrow> bool" where
  "f64_eq a b \<longleftrightarrow> a \<noteq> NaN \<and> (a = b \<or> f64_val a \<noteq> None \<and> f64_val a = f64_val b)"

text \<open>The three-way comparison the source writes with \<open>af < bf\<close>, \<open>af > bf\<close>.\<close>

definition f64_cmp :: "f64 \<Rightarrow> f64 \<Rightarrow> int" where
  "f64_cmp a b = (if f64_less a b then - 1 else if f64_less b a then 1 else 0)"

text \<open>\<open>int64(f)\<close>: truncation; the minimum value where it does not fit (amd64).\<close>

definition int64_of_f64 :: "f64 \<Rightarrow> int" where
  "int64_of_f64 f =
     (case f64_val f of
        None \<Rightarrow> - (2 ^ 63)
      | Some q \<Rightarrow>
          (let i = (if 0 \<le> q then \<lfloor>q\<rfloor> else \<lceil>q\<rceil>)
           in if - (2 ^ 63) \<le> i \<and> i < 2 ^ 63 then i else - (2 ^ 63)))"

subsection \<open>Parsing\<close>

definition take_digits :: "string \<Rightarrow> string \<times> string" where
  "take_digits s = (takeWhile is_digit s, dropWhile is_digit s)"

text \<open>An optional sign: whether the number is negative, and the rest.\<close>

fun take_sign :: "string \<Rightarrow> bool \<times> string" where
  "take_sign [] = (False, [])"
| "take_sign (c # s) =
     (if c = CHR ''-'' then (True, s)
      else if c = CHR ''+'' then (False, s)
      else (False, c # s))"

definition apply_sign :: "bool \<Rightarrow> f64 \<Rightarrow> f64" where
  "apply_sign neg f = (if neg then f64_neg f else f)"

text \<open>The exponent part of a decimal number: \<open>None\<close> where the digits are missing.\<close>

fun parse_exponent :: "string \<Rightarrow> int option" where
  "parse_exponent [] = Some 0"
| "parse_exponent (c # s) =
     (if c = CHR ''e'' \<or> c = CHR ''E'' then
        (let (neg, s1) = take_sign s; (ds, rest) = take_digits s1
         in if ds = [] \<or> rest \<noteq> [] then None
            else Some (if neg then - digits_val ds else digits_val ds))
      else None)"

definition pow10 :: "int \<Rightarrow> rat" where
  "pow10 e = (if 0 \<le> e then 10 ^ nat e else 1 / 10 ^ nat (- e))"

text \<open>An unsigned decimal number of the shape digits, optional point and digits, optional exponent.\<close>

definition parse_decimal :: "string \<Rightarrow> rat option" where
  "parse_decimal s =
     (let (ip, s1) = take_digits s;
          (fp, s2) = (case s1 of c # s' \<Rightarrow> if c = CHR ''.'' then take_digits s' else ([], s1)
                               | [] \<Rightarrow> ([], []))
      in if ip = [] \<and> fp = [] then None
         else (case parse_exponent s2 of
                 None \<Rightarrow> None
               | Some e \<Rightarrow> Some (of_int (digits_val (ip @ fp)) * pow10 (e - int (length fp)))))"

text \<open>
  \<open>strconv.ParseFloat(s, 64)\<close>: \<open>None\<close> where it returns an error, which includes a decimal number
  whose value overflows.
\<close>

definition ParseFloat :: "string \<Rightarrow> f64 option" where
  "ParseFloat s =
     (let (neg, t) = take_sign s; l = ToLower t
      in if l = ''inf'' \<or> l = ''infinity'' then Some (apply_sign neg PosInf)
         else if ToLower s = ''nan'' then Some NaN
         else (case parse_decimal t of
                 None \<Rightarrow> None
               | Some q \<Rightarrow>
                   (let f = apply_sign neg (round64 q)
                    in if f = PosInf \<or> f = NegInf then None else Some f)))"

text \<open>The token the \<open>%g\<close> verb of \<open>fmt.Sscanf\<close> reads; what follows it is ignored.\<close>

definition scan_token :: "string \<Rightarrow> string" where
  "scan_token s0 =
     (let s = dropWhile is_space s0
      in if ToLower (take 3 s) = ''nan'' then take 3 s
         else
           let sg = (case s of c # _ \<Rightarrow> if c = CHR ''-'' \<or> c = CHR ''+'' then [c] else [] | [] \<Rightarrow> []);
               t = drop (length sg) s
           in if ToLower (take 3 t) = ''inf'' then sg @ take 3 t
              else
                let (ip, t1) = take_digits t;
                    (pt, t2) = (case t1 of c # t' \<Rightarrow>
                                  if c = CHR ''.'' then (c # fst (take_digits t'), snd (take_digits t'))
                                  else ([], t1)
                                | [] \<Rightarrow> ([], []));
                    ex = (case t2 of c # t' \<Rightarrow>
                            if c = CHR ''e'' \<or> c = CHR ''E'' then
                              (let es = (case t' of d # _ \<Rightarrow> if d = CHR ''-'' \<or> d = CHR ''+'' then [d] else []
                                                  | [] \<Rightarrow> [])
                               in c # es @ fst (take_digits (drop (length es) t')))
                            else []
                          | [] \<Rightarrow> [])
                in sg @ ip @ pt @ ex)"

definition Sscanf_g :: "string \<Rightarrow> f64 option" where
  "Sscanf_g s = ParseFloat (scan_token s)"

subsection \<open>Shortest printing\<close>

text \<open>The largest \<open>e\<close> with \<open>10 ^ e \<le> q\<close>, found from the base-2 logarithm by a few steps.\<close>

definition ilog10 :: "rat \<Rightarrow> int" where
  "ilog10 q =
     (let e = (ilog2 q * 30103) div 100000
      in if pow10 (e + 1) \<le> q then e + 1 else if pow10 e \<le> q then e else e - 1)"

text \<open>The decimals with \<open>n\<close> significant digits next to \<open>q\<close> that round back to \<open>q\<close>.\<close>

definition shortest_candidates :: "(rat \<Rightarrow> f64) \<Rightarrow> rat \<Rightarrow> nat \<Rightarrow> int list" where
  "shortest_candidates rnd q n =
     (let k = int n - 1 - ilog10 q;
          x = q * pow10 k;
          lo = \<lfloor>x\<rfloor>; hi = \<lceil>x\<rceil>
      in filter (\<lambda>c. rnd (of_int c * pow10 (- k)) = Fin q)
           (if x - of_int lo \<le> of_int hi - x then [lo, hi] else [hi, lo]))"

fun shortest_from :: "(rat \<Rightarrow> f64) \<Rightarrow> rat \<Rightarrow> nat list \<Rightarrow> int \<times> int" where
  "shortest_from rnd q [] = (\<lfloor>q * pow10 (16 - ilog10 q)\<rfloor>, 16 - ilog10 q)"
| "shortest_from rnd q (n # ns) =
     (case shortest_candidates rnd q n of
        c # _ \<Rightarrow> (c, int n - 1 - ilog10 q)
      | [] \<Rightarrow> shortest_from rnd q ns)"

text \<open>
  The shortest decimal digits of a positive double, and the position of the decimal point in them:
  \<open>(ds, dp)\<close> denotes \<open>0.ds * 10 ^ dp\<close>.  Seventeen digits always suffice.
\<close>

definition shortest :: "(rat \<Rightarrow> f64) \<Rightarrow> rat \<Rightarrow> string \<times> int" where
  "shortest rnd q =
     (let (c, k) = shortest_from rnd q [1..<18]; ds = show_int c
      in (rev (dropWhile (\<lambda>d. d = CHR ''0'') (rev ds)), int (length ds) - k))"

text \<open>The layouts \<open>%f\<close> and \<open>%e\<close> with the fewest digits.\<close>

definition layout_f :: "string \<Rightarrow> int \<Rightarrow> string" where
  "layout_f ds dp =
     (if dp \<le> 0 then ''0.'' @ replicate (nat (- dp)) CHR ''0'' @ ds
      else if int (length ds) \<le> dp then ds @ replicate (nat dp - length ds) CHR ''0''
      else take (nat dp) ds @ ''.'' @ drop (nat dp) ds)"

definition layout_e :: "string \<Rightarrow> int \<Rightarrow> string" where
  "layout_e ds dp =
     (let e = dp - 1; ed = show_int \<bar>e\<bar>
      in take 1 ds @ (if length ds > 1 then CHR ''.'' # drop 1 ds else []) @ ''e'' @
         (if e < 0 then ''-'' else ''+'') @ (if length ed < 2 then CHR ''0'' # ed else ed))"

text \<open>\<open>FormatFloat(f, 'f', -1, 64)\<close>.\<close>

fun FormatFloat_f :: "f64 \<Rightarrow> string" where
  "FormatFloat_f NaN = ''NaN''"
| "FormatFloat_f PosInf = ''+Inf''"
| "FormatFloat_f NegInf = ''-Inf''"
| "FormatFloat_f NegZero = ''-0''"
| "FormatFloat_f (Fin q) =
     (if q = 0 then ''0''
      else (if q < 0 then ''-'' else []) @
        (case shortest round64 \<bar>q\<bar> of (ds, dp) \<Rightarrow> layout_f ds dp))"

text \<open>The verb \<open>%g\<close> with the shortest digits for the given format: \<open>%e\<close> from exponent 6 on.\<close>

fun format_g :: "(rat \<Rightarrow> f64) \<Rightarrow> f64 \<Rightarrow> string" where
  "format_g rnd NaN = ''NaN''"
| "format_g rnd PosInf = ''+Inf''"
| "format_g rnd NegInf = ''-Inf''"
| "format_g rnd NegZero = ''-0''"
| "format_g rnd (Fin q) =
     (if q = 0 then ''0''
      else (if q < 0 then ''-'' else []) @
        (case shortest rnd \<bar>q\<bar> of (ds, dp) \<Rightarrow>
           if dp - 1 < - 4 \<or> 6 \<le> dp - 1 then layout_e ds dp else layout_f ds dp))"

text \<open>\<open>FormatFloat(f, 'g', -1, 64)\<close> and the verb \<open>%g\<close> of a float64, and of a float32.\<close>

definition FormatFloat_g :: "f64 \<Rightarrow> string" where
  "FormatFloat_g f = format_g round64 f"

definition FormatFloat32_g :: "f64 \<Rightarrow> string" where
  "FormatFloat32_g f = format_g round32 f"

subsection \<open>Rounding and parsing of small integers\<close>

lemma bits_bound: "n < 2 ^ k \<Longrightarrow> bits n \<le> int k"
proof (induction n arbitrary: k rule: bits.induct)
  case (1 n)
  show ?case
  proof (cases "n \<le> 0")
    case True
    then show ?thesis by (simp add: bits.simps)
  next
    case False
    with "1.prems" obtain j where k: "k = Suc j" by (cases k) auto
    with False "1.prems" have "bits (n div 2) \<le> int j"
      by (intro "1.IH") auto
    with False k show ?thesis by (simp add: bits.simps [of n])
  qed
qed

lemma ilog2_int: "n < 2 ^ k \<Longrightarrow> ilog2 (of_int n) \<le> int k - 1"
proof -
  assume "n < 2 ^ k"
  then have "bits n \<le> int k" by (rule bits_bound)
  moreover have "bits 1 = 1" by (simp add: bits.simps)
  ultimately show ?thesis by (simp add: ilog2_def Let_def)
qed

lemma round_half_even_int [simp]: "round_half_even (of_int i) = i"
  by (simp add: round_half_even_def)

lemma pow2_nonpos: "e \<le> 0 \<Longrightarrow> pow2 e = 1 / 2 ^ nat (- e)"
  by (cases "e = 0") (auto simp: pow2_def)

lemma round64_neg: "q > 0 \<Longrightarrow> round64 q = Fin q \<Longrightarrow> round64 (- q) = Fin (- q)"
  by (auto simp: round64_def round_ieee_def Let_def split: if_splits)

text \<open>
  The exponent of the last place is at most 0 below \<open>2 ^ 53\<close>, and at most 1 at \<open>2 ^ 53\<close> itself,
  so the scaled value is an integer and rounding does nothing.
\<close>

lemma round64_pos:
  assumes "0 < n" "n \<le> 2 ^ 53"
  shows "round64 (of_int n) = Fin (of_int n)"
proof -
  define e where "e = max (ilog2 (of_int n :: rat) - 52) (- 1074)"
  have r: "of_int (round_half_even (of_int n / pow2 e)) * pow2 e = (of_int n :: rat)"
  proof (cases "e \<le> 0")
    case True
    then have "(of_int n :: rat) / pow2 e = of_int (n * 2 ^ nat (- e))"
      by (simp add: pow2_nonpos)
    with True show ?thesis by (simp only: round_half_even_int) (simp add: pow2_nonpos)
  next
    case False
    have "e \<le> 1" using ilog2_int [of n 54] assms by (simp add: e_def)
    moreover have "\<not> n < 2 ^ 53" using False ilog2_int [of n 53] by (auto simp: e_def)
    ultimately have "e = 1" and n: "n = 2 ^ 53" using False assms by auto
    moreover have "(of_int n :: rat) / pow2 1 = of_int (2 ^ 52)"
      by (simp add: n pow2_def)
    ultimately show ?thesis
      by (simp only: round_half_even_int) (simp add: pow2_def)
  qed
  have "(of_int n :: rat) \<le> of_int (2 ^ 53)" using assms(2) by (simp only: of_int_le_iff)
  also have "\<dots> < pow2 1024" by (simp add: pow2_def)
  finally have "\<not> pow2 1024 \<le> (of_int n :: rat)" by simp
  then show ?thesis
    using assms r by (simp add: round64_def round_ieee_def Let_def flip: e_def)
qed

lemma round64_int:
  assumes "\<bar>n\<bar> \<le> 2 ^ 53"
  shows "round64 (of_int n) = Fin (of_int n)"
proof -
  consider "n = 0" | "0 < n" | "n < 0" by linarith
  then show ?thesis
  proof cases
    case 1
    then show ?thesis by (simp add: round64_def round_ieee_def)
  next
    case 2
    with round64_pos [of n] assms show ?thesis by simp
  next
    case 3
    with round64_pos [of "- n"] assms have "round64 (of_int (- n)) = Fin (of_int (- n))" by simp
    with 3 round64_neg [of "of_int (- n)"] show ?thesis by simp
  qed
qed

lemma digit_not_alpha: "is_digit c \<Longrightarrow> low_char c = c \<and> c \<noteq> CHR ''-'' \<and> c \<noteq> CHR ''+'' \<and> c \<noteq> CHR ''i'' \<and> c \<noteq> CHR ''n'' \<and> \<not> is_space c"
  by (auto simp: is_digit_def low_char_def is_upper_def is_space_def less_eq_char_def)

lemma take_sign_digit: "is_digit c \<Longrightarrow> take_sign (c # s) = (False, c # s)"
  using digit_not_alpha [of c] by simp

lemma take_digits_all: "\<forall>c \<in> set s. is_digit c \<Longrightarrow> take_digits s = (s, [])"
  by (auto simp: take_digits_def)

lemma parse_decimal_digits:
  "s \<noteq> [] \<Longrightarrow> \<forall>c \<in> set s. is_digit c \<Longrightarrow> parse_decimal s = Some (of_int (digits_val s))"
  by (simp add: parse_decimal_def take_digits_all pow10_def)

lemma ParseFloat_digits:
  assumes "s \<noteq> []" "\<forall>c \<in> set s. is_digit c" "digits_val s \<le> 2 ^ 53" "0 \<le> digits_val s"
  shows "ParseFloat s = Some (Fin (of_int (digits_val s)))"
    and "digits_val s \<noteq> 0 \<Longrightarrow> ParseFloat (CHR ''-'' # s) = Some (Fin (- of_int (digits_val s)))"
proof -
  from assms obtain c t where s: "s = c # t" and c: "is_digit c" by (cases s) auto
  have low: "ToLower s = c # ToLower t" using s c digit_not_alpha by (simp add: ToLower_def)
  have ni: "ToLower s \<noteq> ''inf''" "ToLower s \<noteq> ''infinity''" "ToLower s \<noteq> ''nan''"
    using low digit_not_alpha [OF c] by auto
  have r: "round64 (of_int (digits_val s)) = Fin (of_int (digits_val s))"
    using assms by (intro round64_int) simp
  show "ParseFloat s = Some (Fin (of_int (digits_val s)))"
    using assms ni r s c digit_not_alpha [OF c]
    by (simp add: ParseFloat_def parse_decimal_digits apply_sign_def)
  assume "digits_val s \<noteq> 0"
  moreover have "ToLower (CHR ''-'' # s) \<noteq> ''nan''"
    by (simp add: ToLower_def low_char_def is_upper_def less_eq_char_def)
  ultimately show "ParseFloat (CHR ''-'' # s) = Some (Fin (- of_int (digits_val s)))"
    using assms ni r by (simp add: ParseFloat_def parse_decimal_digits apply_sign_def)
qed

lemma ParseFloat_show_int:
  assumes "\<bar>i\<bar> \<le> 2 ^ 53"
  shows "ParseFloat (show_int i) = Some (Fin (of_int i))"
proof (cases "i < 0")
  case True
  then show ?thesis
    using assms ParseFloat_digits(2) [of "show_pos (- i)"]
    by (simp add: show_int_def show_pos_digits digits_val_show_pos)
next
  case False
  then show ?thesis
    using assms ParseFloat_digits(1) [of "show_pos i"]
    by (simp add: show_int_def show_pos_digits digits_val_show_pos)
qed

lemma scan_token_digits:
  assumes "s \<noteq> []" "\<forall>c \<in> set s. is_digit c"
  shows "scan_token s = s" and "scan_token (CHR ''-'' # s) = CHR ''-'' # s"
proof -
  from assms obtain c t where s: "s = c # t" and c: "is_digit c" by (cases s) auto
  note d = digit_not_alpha [OF c]
  have low: "ToLower (take 3 s) = c # ToLower (take 2 t)"
    using s d by (simp add: ToLower_def numeral_3_eq_3 numeral_2_eq_2)
  have "ToLower (take 3 s) \<noteq> ''nan''" "ToLower (take 3 s) \<noteq> ''inf''"
    using low d by auto
  then show "scan_token s = s" "scan_token (CHR ''-'' # s) = CHR ''-'' # s"
    using assms s d
    by (simp_all add: scan_token_def take_digits_all is_space_def ToLower_def Let_def
        low_char_def is_upper_def less_eq_char_def)
qed

lemma Sscanf_g_show_int:
  assumes "\<bar>i\<bar> \<le> 2 ^ 53"
  shows "Sscanf_g (show_int i) = Some (Fin (of_int i))"
proof -
  have "scan_token (show_int i) = show_int i"
    using scan_token_digits [OF show_pos_nonempty show_pos_digits, of "\<bar>i\<bar>"]
    by (cases "i < 0") (simp_all add: show_int_def)
  then show ?thesis using assms by (simp add: Sscanf_g_def ParseFloat_show_int)
qed

subsection \<open>Integers are exact up to 2 ^ 53\<close>

lemma f64_cmp_int: "f64_cmp (Fin (of_int a)) (Fin (of_int b)) = (if a < b then - 1 else if b < a then 1 else 0)"
  by (simp add: f64_cmp_def)

lemma f64_add_int:
  "\<bar>a + b\<bar> \<le> 2 ^ 53 \<Longrightarrow> f64_add (Fin (of_int a)) (Fin (of_int b)) = Fin (of_int (a + b))"
  using round64_int [of "a + b"] by simp

lemma f64_sub_int:
  "\<bar>a - b\<bar> \<le> 2 ^ 53 \<Longrightarrow> f64_sub (Fin (of_int a)) (Fin (of_int b)) = Fin (of_int (a - b))"
  using round64_int [of "a - b"] by (cases "b = 0") (auto simp: f64_sub_def)

lemma int64_of_f64_int: "- (2 ^ 63) \<le> i \<Longrightarrow> i < 2 ^ 63 \<Longrightarrow> int64_of_f64 (Fin (of_int i)) = i"
  by (simp add: int64_of_f64_def)

text \<open>The order the comparison functions use is a total preorder on the numbers that are not NaN.\<close>

lemma f64_less_irrefl [simp]: "\<not> f64_less a a"
  by (cases a) auto

lemma f64_cmp_antisym: "f64_cmp b a = - f64_cmp a b"
  by (cases a; cases b) (auto simp: f64_cmp_def)

lemma f64_cmp_self [simp]: "f64_cmp a a = 0"
  by (simp add: f64_cmp_def)

lemma f64_cmp_range: "f64_cmp a b \<in> {- 1, 0, 1}"
  by (simp add: f64_cmp_def)

end
