(* ===== verification/Errors.thy ===== *)
theory Errors
  imports Prelude
begin

text \<open>
  The error values of the library (\<open>errors.go\<close>, \<open>tx_errors.go\<close>).  An \<open>error\<close> of Go
  is a chain: a sentinel, the library's \<open>Error\<close> with its sentinel, cause and message, the
  \<open>TxCancelledError\<close> with its per-operation reasons, or an error built by \<open>fmt.Errorf\<close>,
  with or without a wrapped one.  The interpolated arguments of an \<open>fmt.Errorf\<close> message are not
  kept, and the constant text is abbreviated where several messages differ in one word only.  \<open>GoPanic\<close> marks the points where the code panics.  \<open>OutOfFuel\<close> is no
  error of the code: it is what a recursion bounded by fuel returns at its bound, and each parser
  comes with a lemma that its bound is never reached.
\<close>

datatype sentinel = ErrNotFound | ErrConditionFailed | ErrValidation | ErrTransactionCancelled

record TxCancelReason =
  Code :: string
  Message :: string

datatype error =
    Sentinel sentinel
  | DynErr sentinel "error option" string
  | TxCancelledError "TxCancelReason list"
  | Errorf string
  | ErrorfW string error
  | ContextErr
  | GoPanic string
  | OutOfFuel

type_synonym 'a result = "error + 'a"

text \<open>A panic is no returned error: what follows the call does not run.\<close>

definition is_panic :: "error \<Rightarrow> bool" where
  "is_panic e = (case e of GoPanic m \<Rightarrow> True | _ \<Rightarrow> False)"

definition panics :: "'a result \<Rightarrow> bool" where
  "panics r = (case r of Inl e \<Rightarrow> is_panic e | Inr _ \<Rightarrow> False)"

definition wrapError :: "sentinel \<Rightarrow> error \<Rightarrow> error" where
  "wrapError s cause = DynErr s (Some cause) []"

definition newError :: "sentinel \<Rightarrow> string \<Rightarrow> error" where
  "newError s msg = DynErr s None msg"

definition sentinel_text :: "sentinel \<Rightarrow> string" where
  "sentinel_text s = (case s of
      ErrNotFound \<Rightarrow> ''dynago: item not found''
    | ErrConditionFailed \<Rightarrow> ''dynago: condition check failed''
    | ErrValidation \<Rightarrow> ''dynago: validation error''
    | ErrTransactionCancelled \<Rightarrow> ''dynago: transaction cancelled'')"

definition reason_text :: "TxCancelReason \<Rightarrow> string" where
  "reason_text r =
     (if Code r = [] \<and> Message r = [] then ''None''
      else if Message r \<noteq> [] then Code r @ '': '' @ Message r
      else Code r)"

definition tx_error_text :: "TxCancelReason list \<Rightarrow> string" where
  "tx_error_text rs =
     (if rs = [] then ''dynago: transaction cancelled''
      else ''dynago: transaction cancelled: ['' @ Join (map reason_text rs) '', '' @ '']'')"

text \<open>The \<open>Error()\<close> methods.\<close>

fun error_text :: "error \<Rightarrow> string" where
  "error_text (Sentinel s) = sentinel_text s"
| "error_text (DynErr s cause msg) =
     (if msg \<noteq> [] then
        (case cause of Some c \<Rightarrow> msg @ '': '' @ error_text c | None \<Rightarrow> msg)
      else
        (case cause of
           Some c \<Rightarrow> sentinel_text s @ '': '' @ error_text c
         | None \<Rightarrow> sentinel_text s))"
| "error_text (TxCancelledError rs) = tx_error_text rs"
| "error_text (Errorf m) = m"
| "error_text (ErrorfW m e) = m @ '': '' @ error_text e"
| "error_text ContextErr = ''context canceled''"
| "error_text (GoPanic m) = m"
| "error_text OutOfFuel = []"

text \<open>\<open>TxCancelledError.Is\<close>.\<close>

definition tx_error_Is :: "TxCancelReason list \<Rightarrow> sentinel \<Rightarrow> bool" where
  "tx_error_Is rs target =
     (target = ErrTransactionCancelled \<or>
      target = ErrConditionFailed \<and>
        (\<exists>r \<in> set rs. Code r = ''ConditionalCheckFailed''))"

text \<open>
  \<open>errors.Is(err, target)\<close> for a sentinel target: the error itself, its \<open>Is\<close> method, then
  the error its \<open>Unwrap\<close> method gives.
\<close>

fun errors_Is :: "error \<Rightarrow> sentinel \<Rightarrow> bool" where
  "errors_Is (Sentinel s) t = (s = t)"
| "errors_Is (DynErr s cause msg) t =
     (s = t \<or> (case cause of Some c \<Rightarrow> errors_Is c t | None \<Rightarrow> False))"
| "errors_Is (TxCancelledError rs) t = tx_error_Is rs t"
| "errors_Is (Errorf m) t = False"
| "errors_Is (ErrorfW m e) t = errors_Is e t"
| "errors_Is ContextErr t = False"
| "errors_Is (GoPanic m) t = False"
| "errors_Is OutOfFuel t = False"

definition IsNotFound :: "error \<Rightarrow> bool" where
  "IsNotFound e = errors_Is e ErrNotFound"

definition IsCondCheckFailed :: "error \<Rightarrow> bool" where
  "IsCondCheckFailed e = errors_Is e ErrConditionFailed"

definition IsValidation :: "error \<Rightarrow> bool" where
  "IsValidation e = errors_Is e ErrValidation"

definition IsTxCancelled :: "error \<Rightarrow> bool" where
  "IsTxCancelled e = errors_Is e ErrTransactionCancelled"

text \<open>\<open>TxCancelReasons\<close>: \<open>errors.As\<close> finds the first \<open>TxCancelledError\<close> of the chain.\<close>

fun TxCancelReasons :: "error \<Rightarrow> TxCancelReason list option" where
  "TxCancelReasons (TxCancelledError rs) = Some rs"
| "TxCancelReasons (DynErr s cause msg) =
     (case cause of Some c \<Rightarrow> TxCancelReasons c | None \<Rightarrow> None)"
| "TxCancelReasons (ErrorfW m e) = TxCancelReasons e"
| "TxCancelReasons (Sentinel s) = None"
| "TxCancelReasons (Errorf m) = None"
| "TxCancelReasons ContextErr = None"
| "TxCancelReasons (GoPanic m) = None"
| "TxCancelReasons OutOfFuel = None"

lemmas error_predicates =
  IsNotFound_def IsCondCheckFailed_def IsValidation_def IsTxCancelled_def

lemma errors_Is_wrapError: "errors_Is (wrapError s c) t \<longleftrightarrow> s = t \<or> errors_Is c t"
  by (simp add: wrapError_def)

lemma errors_Is_newError [simp]: "errors_Is (newError s m) t \<longleftrightarrow> s = t"
  by (simp add: newError_def)

text \<open>The reasons reached through a chain explain what \<open>errors.Is\<close> reports for the chain.\<close>

lemma reasons_imply_cancelled: "TxCancelReasons e = Some rs \<Longrightarrow> IsTxCancelled e"
  by (induction e rule: TxCancelReasons.induct)
    (auto simp: IsTxCancelled_def tx_error_Is_def split: option.splits)

lemma reasons_imply_condition_failed:
  "TxCancelReasons e = Some rs \<Longrightarrow> r \<in> set rs \<Longrightarrow> Code r = ''ConditionalCheckFailed'' \<Longrightarrow>
   IsCondCheckFailed e"
  by (induction e rule: TxCancelReasons.induct)
    (auto simp: IsCondCheckFailed_def tx_error_Is_def split: option.splits)

end
