(* ===== verification/Attribute.thy ===== *)
theory Attribute
  imports GoFloat Errors
begin

text \<open>
  The data model (\<open>attribute.go\<close>, \<open>key.go\<close>): the attribute values, items, and the conversion
  of Go values into attribute values.

  \<open>AttributeValue\<close> is a struct with a \<open>Type\<close> tag and one populated field per tag, a sum type as
  its comment says; it is the datatype below, one constructor per tag, and \<open>ZeroAV\<close> is the zero
  value of the struct (tag 0), which reaches the \<open>default\<close> branches.  A nil map or slice in a field
  behaves in every operation modelled here as an empty one, so the two are not told apart.
\<close>

datatype AttributeValue =
    TypeS string
  | TypeN string
  | TypeB bytes
  | TypeBOOL bool
  | TypeNULL bool
  | TypeL "AttributeValue list"
  | TypeM "(string, AttributeValue) fmap"
  | TypeSS "string list"
  | TypeNS "string list"
  | TypeBS "bytes list"
  | ZeroAV

type_synonym item = "(string, AttributeValue) fmap"
type_synonym names = "(string, string) fmap"
type_synonym vals = "(string, AttributeValue) fmap"

text \<open>The \<open>Type\<close> field: \<open>iota + 1\<close> in the order of the constants.\<close>

fun av_tag :: "AttributeValue \<Rightarrow> nat" where
  "av_tag (TypeS _) = 1"
| "av_tag (TypeN _) = 2"
| "av_tag (TypeB _) = 3"
| "av_tag (TypeBOOL _) = 4"
| "av_tag (TypeNULL _) = 5"
| "av_tag (TypeL _) = 6"
| "av_tag (TypeM _) = 7"
| "av_tag (TypeSS _) = 8"
| "av_tag (TypeNS _) = 9"
| "av_tag (TypeBS _) = 10"
| "av_tag ZeroAV = 0"

subsection \<open>Go values\<close>

text \<open>
  The dynamic types an \<open>any\<close> argument is switched on; integers carry their kind, with the value
  in the kind's range.  \<open>AnyOther\<close> is every type the switches reject.
\<close>

datatype int_kind = KInt | KInt8 | KInt16 | KInt32 | KInt64 | KUint | KUint8 | KUint16 | KUint32 | KUint64

datatype any =
    AnyString string
  | AnyBool bool
  | AnyInt int_kind int
  | AnyFloat32 f64
  | AnyFloat64 f64
  | AnyBytes bytes
  | AnyStrings "string list"
  | AnyInts "int list"
  | AnyAV AttributeValue
  | AnyNil
  | AnyOther string

text \<open>\<open>toAttributeValue\<close> of \<open>key.go\<close>: key values only; panics on every other type.\<close>

fun toAttributeValue :: "any \<Rightarrow> AttributeValue result" where
  "toAttributeValue (AnyString s) = Inr (TypeS s)"
| "toAttributeValue (AnyInt k i) =
     (if k \<in> {KInt, KInt64, KUint, KUint64} then Inr (TypeN (show_int i))
      else Inl (GoPanic ''dynago.Key: unsupported value type''))"
| "toAttributeValue (AnyFloat64 f) = Inr (TypeN (FormatFloat_g f))"
| "toAttributeValue (AnyBytes b) = Inr (TypeB b)"
| "toAttributeValue _ = Inl (GoPanic ''dynago.Key: unsupported value type'')"

text \<open>\<open>anyToAttributeValue\<close> of \<open>condition.go\<close>.\<close>

fun anyToAttributeValue :: "any \<Rightarrow> AttributeValue result" where
  "anyToAttributeValue (AnyString s) = Inr (TypeS s)"
| "anyToAttributeValue (AnyBool b) = Inr (TypeBOOL b)"
| "anyToAttributeValue (AnyInt k i) = Inr (TypeN (show_int i))"
| "anyToAttributeValue (AnyFloat32 f) = Inr (TypeN (FormatFloat32_g f))"
| "anyToAttributeValue (AnyFloat64 f) = Inr (TypeN (FormatFloat_g f))"
| "anyToAttributeValue (AnyBytes b) = Inr (TypeB b)"
| "anyToAttributeValue (AnyStrings ss) = Inr (TypeSS ss)"
| "anyToAttributeValue (AnyAV v) = Inr v"
| "anyToAttributeValue AnyNil = Inr (TypeNULL True)"
| "anyToAttributeValue _ = Inl (GoPanic ''dynago: unsupported condition value type'')"

text \<open>\<open>goToAttributeValue\<close> of \<open>internal/expr/builder.go\<close>: the same, and \<open>[]int\<close> as a number set.\<close>

fun goToAttributeValue :: "any \<Rightarrow> AttributeValue result" where
  "goToAttributeValue (AnyString s) = Inr (TypeS s)"
| "goToAttributeValue (AnyBool b) = Inr (TypeBOOL b)"
| "goToAttributeValue (AnyInt k i) = Inr (TypeN (show_int i))"
| "goToAttributeValue (AnyFloat32 f) = Inr (TypeN (FormatFloat32_g f))"
| "goToAttributeValue (AnyFloat64 f) = Inr (TypeN (FormatFloat_g f))"
| "goToAttributeValue (AnyBytes b) = Inr (TypeB b)"
| "goToAttributeValue (AnyStrings ss) = Inr (TypeSS ss)"
| "goToAttributeValue (AnyInts is) = Inr (TypeNS (map show_int is))"
| "goToAttributeValue (AnyAV v) = Inr v"
| "goToAttributeValue AnyNil = Inr (TypeNULL True)"
| "goToAttributeValue (AnyOther t) = Inl (GoPanic ''expr: unsupported value type'')"

subsection \<open>Keys\<close>

record KeyValue =
  hashName :: string
  hashVal :: AttributeValue
  rangeName :: string
  rangeVal :: AttributeValue
  hasRange :: bool

definition KeyValue_Map :: "KeyValue \<Rightarrow> item" where
  "KeyValue_Map kv =
     (if hasRange kv then
        fmupd (rangeName kv) (rangeVal kv) (fmupd (hashName kv) (hashVal kv) fmempty)
      else fmupd (hashName kv) (hashVal kv) fmempty)"

text \<open>\<open>Key(pairs...)\<close>; the panics of \<open>Key\<close> are \<open>GoPanic\<close>.\<close>

fun Key :: "any list \<Rightarrow> KeyValue result" where
  "Key [AnyString n0, v0] =
     bind (toAttributeValue v0) (\<lambda>hv.
       Inr \<lparr>hashName = n0, hashVal = hv, rangeName = [], rangeVal = ZeroAV, hasRange = False\<rparr>)"
| "Key [AnyString n0, v0, AnyString n2, v2] =
     bind (toAttributeValue v0) (\<lambda>hv.
       bind (toAttributeValue v2) (\<lambda>rv.
         Inr \<lparr>hashName = n0, hashVal = hv, rangeName = n2, rangeVal = rv, hasRange = True\<rparr>))"
| "Key pairs = Inl (GoPanic ''dynago.Key: invalid arguments'')"

definition StringKey :: "string \<Rightarrow> string \<Rightarrow> KeyValue" where
  "StringKey name v =
     \<lparr>hashName = name, hashVal = TypeS v, rangeName = [], rangeVal = ZeroAV, hasRange = False\<rparr>"

definition StringPairKey :: "string \<Rightarrow> string \<Rightarrow> string \<Rightarrow> string \<Rightarrow> KeyValue" where
  "StringPairKey hn hv rn rv =
     \<lparr>hashName = hn, hashVal = TypeS hv, rangeName = rn, rangeVal = TypeS rv, hasRange = True\<rparr>"

text \<open>The allocation-free constructors build the keys the general one builds.\<close>

lemma Key_StringKey: "Key [AnyString n, AnyString v] = Inr (StringKey n v)"
  by (simp add: StringKey_def)

lemma Key_StringPairKey:
  "Key [AnyString n, AnyString v, AnyString m, AnyString w] = Inr (StringPairKey n v m w)"
  by (simp add: StringPairKey_def)

lemma KeyValue_Map_lookup:
  "fmlookup (KeyValue_Map kv) a =
     (if hasRange kv \<and> a = rangeName kv then Some (rangeVal kv)
      else if a = hashName kv then Some (hashVal kv) else None)"
  by (simp add: KeyValue_Map_def)

text \<open>Where both switches accept a value they build the same attribute value.\<close>

lemma conversions_agree:
  "toAttributeValue v = Inr a \<Longrightarrow> anyToAttributeValue v = Inr a"
  "anyToAttributeValue v = Inr a \<Longrightarrow> goToAttributeValue v = Inr a"
  by (cases v; auto split: if_splits)+

subsection \<open>Deep copies\<close>

text \<open>
  \<open>deepCopyAV\<close> and \<open>deepCopyItem\<close> of \<open>memdb.go\<close>.  Values are immutable in the model, so the
  copies are the values they copy; the lemmas say that no variant loses a field.
\<close>

primrec deepCopyAV :: "AttributeValue \<Rightarrow> AttributeValue" where
  "deepCopyAV (TypeS s) = TypeS s"
| "deepCopyAV (TypeN n) = TypeN n"
| "deepCopyAV (TypeB b) = TypeB (map id b)"
| "deepCopyAV (TypeBOOL b) = TypeBOOL b"
| "deepCopyAV (TypeNULL b) = TypeNULL b"
| "deepCopyAV (TypeL l) = TypeL (map deepCopyAV l)"
| "deepCopyAV (TypeM m) = TypeM (fmmap deepCopyAV m)"
| "deepCopyAV (TypeSS ss) = TypeSS (map id ss)"
| "deepCopyAV (TypeNS ns) = TypeNS (map id ns)"
| "deepCopyAV (TypeBS bs) = TypeBS (map (map id) bs)"
| "deepCopyAV ZeroAV = ZeroAV"

definition deepCopyItem :: "item \<Rightarrow> item" where
  "deepCopyItem it = fmmap deepCopyAV it"

lemma deepCopyAV_id [simp]: "deepCopyAV v = v"
  by (induction v) (auto simp: map_idI fmmap_ident)

lemma deepCopyItem_id [simp]: "deepCopyItem it = it"
  by (simp add: deepCopyItem_def fmmap_ident)

subsection \<open>Splitting composite keys\<close>

text \<open>\<open>SplitKey\<close> of \<open>splitkey.go\<close>.\<close>

definition SplitKey :: "string \<Rightarrow> string \<Rightarrow> string list" where
  "SplitKey key delimiter = Split key delimiter"

lemma Join_SplitKey: "Join (SplitKey key delimiter) delimiter = key"
  by (simp add: SplitKey_def Join_Split)

end
