(* ===== verification/Ast.thy ===== *)
theory Ast
  imports Attribute
begin

text \<open>
  The expression tree of \<open>internal/expr/ast.go\<close>.  The \<open>Node\<close> interface has seven
  implementations, the constructors of \<open>node\<close>; a nil \<open>Node\<close> field is \<open>None\<close>.
\<close>

datatype CompareOp = EQ | NE | LT | LE | GT | GE

datatype LogicalOp = AND | OR | NOT

datatype UpdateAction = SET | ADD | REMOVE | DELETE

text \<open>The \<open>String\<close> methods.\<close>

fun CompareOp_String :: "CompareOp \<Rightarrow> string" where
  "CompareOp_String EQ = ''=''"
| "CompareOp_String NE = ''<>''"
| "CompareOp_String LT = ''<''"
| "CompareOp_String LE = ''<=''"
| "CompareOp_String GT = ''>''"
| "CompareOp_String GE = ''>=''"

fun LogicalOp_String :: "LogicalOp \<Rightarrow> string" where
  "LogicalOp_String AND = ''AND''"
| "LogicalOp_String OR = ''OR''"
| "LogicalOp_String NOT = ''NOT''"

fun UpdateAction_String :: "UpdateAction \<Rightarrow> string" where
  "UpdateAction_String SET = ''SET''"
| "UpdateAction_String ADD = ''ADD''"
| "UpdateAction_String REMOVE = ''REMOVE''"
| "UpdateAction_String DELETE = ''DELETE''"

datatype node =
    CompareNode node CompareOp node
  | LogicalNode LogicalOp node "node option"
  | FuncNode string "node list"
  | PathNode "string list"
  | ValueNode AttributeValue
  | UpdateNode UpdateAction "string list" "node option"
  | ProjectionNode "string list list"

text \<open>\<open>parseCompareOp\<close>, the same code in \<open>builder.go\<close> and in \<open>memdb/expression.go\<close>.\<close>

definition parseCompareOp :: "string \<Rightarrow> CompareOp option" where
  "parseCompareOp tok =
     (if tok = ''='' then Some EQ
      else if tok = ''<>'' then Some NE
      else if tok = ''<'' then Some LT
      else if tok = ''<='' then Some LE
      else if tok = ''>'' then Some GT
      else if tok = ''>='' then Some GE
      else None)"

text \<open>The character classes of the tokenizers, one copy in each of the three packages.\<close>

definition isIdentStart :: "char \<Rightarrow> bool" where
  "isIdentStart ch \<longleftrightarrow> is_lower ch \<or> is_upper ch \<or> ch = CHR ''_''"

definition isIdentPart :: "char \<Rightarrow> bool" where
  "isIdentPart ch \<longleftrightarrow> isIdentStart ch \<or> is_digit ch"

text \<open>The current token of a parser, the empty string at the end.\<close>

definition peek :: "string list \<Rightarrow> string" where
  "peek ts = (case ts of [] \<Rightarrow> [] | t # _ \<Rightarrow> t)"

lemma peek_simps [simp]: "peek [] = []" "peek (t # ts) = t"
  by (simp_all add: peek_def)

definition expect :: "string \<Rightarrow> string list \<Rightarrow> string list result" where
  "expect tok ts =
     (case ts of
        [] \<Rightarrow> Inl (Errorf ''expected token but reached end'')
      | t # rest \<Rightarrow> if t = tok then Inr rest else Inl (Errorf ''expected another token''))"

lemma expect_simps [simp]:
  "expect tok (tok # ts) = Inr ts"
  "t \<noteq> tok \<Longrightarrow> expect tok (t # ts) = Inl (Errorf ''expected another token'')"
  "expect tok [] = Inl (Errorf ''expected token but reached end'')"
  by (simp_all add: expect_def)

lemma expect_Inr: "expect tok ts = Inr rest \<longleftrightarrow> ts = tok # rest"
  by (auto simp: expect_def split: list.splits if_splits)

lemma expect_fuel [simp]: "expect tok ts \<noteq> Inl OutOfFuel"
  by (auto simp: expect_def split: list.splits)

lemma parseCompareOp_String [simp]: "parseCompareOp (CompareOp_String op) = Some op"
  by (cases op) (simp_all add: parseCompareOp_def)

lemma CompareOp_String_inj: "CompareOp_String a = CompareOp_String b \<longleftrightarrow> a = b"
  by (cases a; cases b) auto

lemma parseCompareOp_Some: "parseCompareOp t = Some op \<longleftrightarrow> t = CompareOp_String op"
  by (cases op) (auto simp: parseCompareOp_def split: if_splits)

end
