(* ===== verification/Eval.thy ===== *)
theory Eval
  imports Ast
begin

text \<open>
  The evaluator of condition and filter expressions, \<open>internal/expr/eval.go\<close>.
  \<open>resolveNode\<close> returns a value, a flag and an error: \<open>Inr (Some v)\<close>, \<open>Inr None\<close> where the
  flag is false, and \<open>Inl e\<close>.
\<close>

subsection \<open>Paths\<close>

fun walk_path :: "string list \<Rightarrow> AttributeValue \<Rightarrow> AttributeValue option" where
  "walk_path [] v = Some v"
| "walk_path (p # ps) v =
     (case v of
        TypeM m \<Rightarrow> (case fmlookup m p of None \<Rightarrow> None | Some w \<Rightarrow> walk_path ps w)
      | _ \<Rightarrow> None)"

fun resolvePathValue :: "string list \<Rightarrow> item \<Rightarrow> AttributeValue option" where
  "resolvePathValue [] it = None"
| "resolvePathValue (p # ps) it =
     (case fmlookup it p of None \<Rightarrow> None | Some v \<Rightarrow> walk_path ps v)"

subsection \<open>Comparison\<close>

definition str_compare :: "string \<Rightarrow> string \<Rightarrow> int" where
  "str_compare a b = (if a < b then - 1 else if b < a then 1 else 0)"

text \<open>\<open>compareValues\<close>; the callers compare values of one type.\<close>

definition not_comparable :: "int result" where
  "not_comparable = Inl (Errorf ''eval: comparison not supported for type'')"

definition compare_numbers :: "string \<Rightarrow> string \<Rightarrow> int result" where
  "compare_numbers a b =
     (case ParseFloat a of
        None \<Rightarrow> Inl (ErrorfW ''eval: invalid number'' (Errorf a))
      | Some af \<Rightarrow>
          (case ParseFloat b of
             None \<Rightarrow> Inl (ErrorfW ''eval: invalid number'' (Errorf b))
           | Some bf \<Rightarrow> Inr (f64_cmp af bf)))"

definition compareValues :: "AttributeValue \<Rightarrow> AttributeValue \<Rightarrow> int result" where
  "compareValues a b =
     (case a of
        TypeS s \<Rightarrow> (case b of TypeS t \<Rightarrow> Inr (str_compare s t) | _ \<Rightarrow> not_comparable)
      | TypeN s \<Rightarrow> (case b of TypeN t \<Rightarrow> compare_numbers s t | _ \<Rightarrow> not_comparable)
      | TypeB s \<Rightarrow> (case b of TypeB t \<Rightarrow> Inr (str_compare s t) | _ \<Rightarrow> not_comparable)
      | TypeBOOL x \<Rightarrow>
          (case b of
             TypeBOOL y \<Rightarrow> Inr (if x = y then 0 else if \<not> x \<and> y then - 1 else 1)
           | _ \<Rightarrow> not_comparable)
      | _ \<Rightarrow> not_comparable)"

lemma compareValues_simps [simp]:
  "compareValues (TypeS s) (TypeS t) = Inr (str_compare s t)"
  "compareValues (TypeN m) (TypeN n) = compare_numbers m n"
  "compareValues (TypeB b) (TypeB c) = Inr (str_compare b c)"
  "compareValues (TypeBOOL x) (TypeBOOL y) = Inr (if x = y then 0 else if \<not> x \<and> y then - 1 else 1)"
  by (simp_all add: compareValues_def)

lemma compareValues_Inr:
  assumes "compareValues a b = Inr c"
  obtains (S) s t where "a = TypeS s" "b = TypeS t" "c = str_compare s t"
    | (N) m n where "a = TypeN m" "b = TypeN n" "compare_numbers m n = Inr c"
    | (B) s t where "a = TypeB s" "b = TypeB t" "c = str_compare s t"
    | (BOOL) x y where "a = TypeBOOL x" "b = TypeBOOL y"
        "c = (if x = y then 0 else if \<not> x \<and> y then - 1 else 1)"
  using assms
  by (auto simp: compareValues_def not_comparable_def split: AttributeValue.splits)

text \<open>The final switch of \<open>evalCompare\<close>.\<close>

fun apply_op :: "CompareOp \<Rightarrow> int \<Rightarrow> bool" where
  "apply_op EQ c = (c = 0)"
| "apply_op NE c = (c \<noteq> 0)"
| "apply_op LT c = (c < 0)"
| "apply_op LE c = (c \<le> 0)"
| "apply_op GT c = (c > 0)"
| "apply_op GE c = (c \<ge> 0)"

subsection \<open>Resolving nodes\<close>

definition size_of_value :: "AttributeValue \<Rightarrow> int result" where
  "size_of_value v =
     (case v of
        TypeS s \<Rightarrow> Inr (int (length s))
      | TypeB b \<Rightarrow> Inr (int (length b))
      | TypeL l \<Rightarrow> Inr (int (length l))
      | TypeM m \<Rightarrow> Inr (int (fcard (fmdom m)))
      | TypeSS ss \<Rightarrow> Inr (int (length ss))
      | TypeNS ns \<Rightarrow> Inr (int (length ns))
      | TypeBS bs \<Rightarrow> Inr (int (length bs))
      | _ \<Rightarrow> Inl (Errorf ''eval: size not supported for type''))"

fun resolveNode :: "node \<Rightarrow> item \<Rightarrow> AttributeValue option result"
and evalSize :: "node list \<Rightarrow> item \<Rightarrow> int result" where
  "resolveNode (PathNode parts) it = Inr (resolvePathValue parts it)"
| "resolveNode (ValueNode v) it = Inr (Some v)"
| "resolveNode (FuncNode name args) it =
     (if name = ''size'' then bind (evalSize args it) (\<lambda>sz. Inr (Some (TypeN (show_int sz))))
      else Inl (Errorf ''eval: cannot resolve function as value''))"
| "resolveNode (CompareNode l op r) it = Inl (Errorf ''eval: cannot resolve node as value'')"
| "resolveNode (LogicalNode op l r) it = Inl (Errorf ''eval: cannot resolve node as value'')"
| "resolveNode (UpdateNode a p v) it = Inl (Errorf ''eval: cannot resolve node as value'')"
| "resolveNode (ProjectionNode ps) it = Inl (Errorf ''eval: cannot resolve node as value'')"
| "evalSize [a] it =
     bind (resolveNode a it) (\<lambda>ov.
       case ov of None \<Rightarrow> Inr 0 | Some v \<Rightarrow> size_of_value v)"
| "evalSize [] it = Inl (Errorf ''eval: size requires 1 argument'')"
| "evalSize (a # b # as) it = Inl (Errorf ''eval: size requires 1 argument'')"

definition evalCompare :: "node \<Rightarrow> CompareOp \<Rightarrow> node \<Rightarrow> item \<Rightarrow> bool result" where
  "evalCompare l op r it =
     bind (resolveNode l it) (\<lambda>ol.
       bind (resolveNode r it) (\<lambda>or.
         case (ol, or) of
           (Some left, Some right) \<Rightarrow>
             (if av_tag left \<noteq> av_tag right then Inr False
              else bind (compareValues left right) (\<lambda>c. Inr (apply_op op c)))
         | _ \<Rightarrow> Inr False))"

subsection \<open>Functions\<close>

text \<open>The membership loop of \<open>contains\<close> over a list: elements that do not compare are skipped.\<close>

fun list_contains :: "AttributeValue list \<Rightarrow> AttributeValue \<Rightarrow> bool" where
  "list_contains [] operand = False"
| "list_contains (e # es) operand =
     (if av_tag e = av_tag operand \<and> compareValues e operand = Inr 0 then True
      else list_contains es operand)"

definition contains_value :: "AttributeValue \<Rightarrow> AttributeValue \<Rightarrow> bool" where
  "contains_value v operand =
     (case (v, operand) of
        (TypeS s, TypeS t) \<Rightarrow> Contains s t
      | (TypeL l, _) \<Rightarrow> list_contains l operand
      | (TypeSS ss, TypeS t) \<Rightarrow> t \<in> set ss
      | (TypeNS ns, TypeN t) \<Rightarrow> t \<in> set ns
      | _ \<Rightarrow> False)"

definition eval_exists :: "node list \<Rightarrow> item \<Rightarrow> bool result" where
  "eval_exists args it =
     (case args of
        [PathNode parts] \<Rightarrow> Inr (resolvePathValue parts it \<noteq> None)
      | [_] \<Rightarrow> Inl (Errorf ''eval: attribute_exists argument must be a path'')
      | _ \<Rightarrow> Inl (Errorf ''eval: attribute_exists requires 1 argument''))"

definition evalFunc :: "string \<Rightarrow> node list \<Rightarrow> item \<Rightarrow> bool result" where
  "evalFunc name args it =
     (if name = ''attribute_exists'' then eval_exists args it
      else if name = ''attribute_not_exists'' then bind (eval_exists args it) (\<lambda>b. Inr (\<not> b))
      else if name = ''begins_with'' then
        (case args of
           [a, b] \<Rightarrow>
             bind (resolveNode a it) (\<lambda>ov. bind (resolveNode b it) (\<lambda>op.
               case (ov, op) of
                 (Some (TypeS s), Some (TypeS p)) \<Rightarrow> Inr (HasPrefix s p)
               | _ \<Rightarrow> Inr False))
         | _ \<Rightarrow> Inl (Errorf ''eval: begins_with requires 2 arguments''))
      else if name = ''contains'' then
        (case args of
           [a, b] \<Rightarrow>
             bind (resolveNode a it) (\<lambda>ov. bind (resolveNode b it) (\<lambda>op.
               case (ov, op) of
                 (Some v, Some operand) \<Rightarrow> Inr (contains_value v operand)
               | _ \<Rightarrow> Inr False))
         | _ \<Rightarrow> Inl (Errorf ''eval: contains requires 2 arguments''))
      else if name = ''size'' then bind (evalSize args it) (\<lambda>sz. Inr (sz > 0))
      else Inl (Errorf ''eval: unknown function''))"

subsection \<open>The evaluator\<close>

text \<open>
  \<open>evalLogical\<close> over the results of its operands: the right one matters, its error included,
  only where the left one does not decide.
\<close>

fun evalLogical :: "LogicalOp \<Rightarrow> bool result \<Rightarrow> bool result \<Rightarrow> bool result" where
  "evalLogical AND l r = bind l (\<lambda>b. if \<not> b then Inr False else r)"
| "evalLogical OR l r = bind l (\<lambda>b. if b then Inr True else r)"
| "evalLogical NOT l r = bind l (\<lambda>b. Inr (\<not> b))"

text \<open>A missing right operand is the nil \<open>Node\<close>, which takes the default case of the switch.\<close>

fun Eval :: "node \<Rightarrow> item \<Rightarrow> bool result" where
  "Eval (CompareNode l op r) it = evalCompare l op r it"
| "Eval (LogicalNode op l r) it =
     evalLogical op (Eval l it)
       (case r of Some n \<Rightarrow> Eval n it | None \<Rightarrow> Inl (Errorf ''eval: unsupported node type''))"
| "Eval (FuncNode name args) it = evalFunc name args it"
| "Eval (PathNode parts) it = Inl (Errorf ''eval: unsupported node type'')"
| "Eval (ValueNode v) it = Inl (Errorf ''eval: unsupported node type'')"
| "Eval (UpdateNode a p v) it = Inl (Errorf ''eval: unsupported node type'')"
| "Eval (ProjectionNode ps) it = Inl (Errorf ''eval: unsupported node type'')"

subsection \<open>Properties of comparison\<close>

lemma str_compare_self [simp]: "str_compare a a = 0"
  by (simp add: str_compare_def)

lemma str_compare_eq_0 [simp]: "str_compare a b = 0 \<longleftrightarrow> a = b"
  by (auto simp: str_compare_def)

lemma str_compare_antisym: "str_compare b a = - str_compare a b"
  by (auto simp: str_compare_def)

lemma compare_numbers_antisym:
  "compare_numbers m n = Inr c \<Longrightarrow> compare_numbers n m = Inr (- c)"
  by (auto simp: compare_numbers_def intro: f64_cmp_antisym split: option.splits)

lemma compareValues_antisym:
  assumes "compareValues a b = Inr c"
  shows "compareValues b a = Inr (- c)"
  using assms
  by (cases rule: compareValues_Inr)
    (auto intro: str_compare_antisym compare_numbers_antisym)

lemma compareValues_type: "compareValues a b = Inr c \<Longrightarrow> av_tag a = av_tag b"
  by (erule compareValues_Inr) auto

text \<open>The operators come in complementary pairs, and swapping the operands mirrors them.\<close>

fun negate_op :: "CompareOp \<Rightarrow> CompareOp" where
  "negate_op EQ = NE" | "negate_op NE = EQ" | "negate_op LT = GE"
| "negate_op LE = GT" | "negate_op GT = LE" | "negate_op GE = LT"

fun mirror_op :: "CompareOp \<Rightarrow> CompareOp" where
  "mirror_op EQ = EQ" | "mirror_op NE = NE" | "mirror_op LT = GT"
| "mirror_op LE = GE" | "mirror_op GT = LT" | "mirror_op GE = LE"

lemma apply_op_negate: "apply_op (negate_op op) c \<longleftrightarrow> \<not> apply_op op c"
  by (cases op) auto

lemma apply_op_mirror: "apply_op (mirror_op op) c \<longleftrightarrow> apply_op op (- c)"
  by (cases op) auto

lemma evalCompare_values:
  "evalCompare (ValueNode a) op (ValueNode b) it =
     (if av_tag a \<noteq> av_tag b then Inr False
      else bind (compareValues a b) (\<lambda>c. Inr (apply_op op c)))"
  by (simp add: evalCompare_def)

lemma evalCompare_missing:
  assumes "resolvePathValue p it = None" "resolveNode r it = Inr v"
  shows "evalCompare (PathNode p) op r it = Inr False"
  using assms by (simp add: evalCompare_def)

text \<open>
  The domain of \<open>Eval\<close>: trees of comparisons, logical operators and known functions over operands
  that can be resolved never raise a node-type error.
\<close>

fun is_operand :: "node \<Rightarrow> bool" where
  "is_operand (PathNode p) = True"
| "is_operand (ValueNode v) = True"
| "is_operand _ = False"

lemma resolveNode_operand: "is_operand n \<Longrightarrow> \<exists>v. resolveNode n it = Inr v"
  by (cases n) auto

fun orderable :: "AttributeValue \<Rightarrow> bool" where
  "orderable (TypeS _) = True"
| "orderable (TypeN n) = (ParseFloat n \<noteq> None)"
| "orderable (TypeB _) = True"
| "orderable (TypeBOOL _) = True"
| "orderable _ = False"

lemma compareValues_orderable:
  "orderable a \<Longrightarrow> orderable b \<Longrightarrow> av_tag a = av_tag b \<Longrightarrow> \<exists>c. compareValues a b = Inr c"
  by (cases a; cases b) (auto simp: compare_numbers_def)

lemma compareValues_not_orderable: "\<not> orderable a \<Longrightarrow> \<exists>e. compareValues a b = Inl e"
  by (cases a)
    (auto simp: compareValues_def not_comparable_def compare_numbers_def
      split: AttributeValue.splits)

text \<open>Paths through nested maps resolve step by step.\<close>

lemma walk_path_append:
  "walk_path (ps @ qs) v = (case walk_path ps v of None \<Rightarrow> None | Some w \<Rightarrow> walk_path qs w)"
  by (induction ps arbitrary: v) (auto split: AttributeValue.splits option.splits)

lemma resolvePathValue_append:
  "ps \<noteq> [] \<Longrightarrow> resolvePathValue (ps @ qs) it =
     (case resolvePathValue ps it of None \<Rightarrow> None | Some w \<Rightarrow> walk_path qs w)"
  by (cases ps) (auto simp: walk_path_append split: option.splits)

end
