(* ===== verification/EvalUpdate.thy ===== *)
theory EvalUpdate
  imports Eval
begin

text \<open>
  Update expressions on items, \<open>internal/expr/eval_update.go\<close>: every action takes the item built so
  far and returns the next one or an error.  The code works on a copy of the item and drops it
  on an error, so an error leaves the caller's item as it was.
\<close>

subsection \<open>Nested paths\<close>

text \<open>The empty path indexes \<open>parts[0]\<close> out of range.\<close>

fun setNestedPath :: "string list \<Rightarrow> item \<Rightarrow> AttributeValue \<Rightarrow> item result" where
  "setNestedPath [] it v = Inl (GoPanic ''index out of range'')"
| "setNestedPath [p] it v = Inr (fmupd p v it)"
| "setNestedPath (p # q # ps) it v =
     (case fmlookup it p of
        None \<Rightarrow> bind (setNestedPath (q # ps) fmempty v) (\<lambda>inner. Inr (fmupd p (TypeM inner) it))
      | Some (TypeM m) \<Rightarrow> bind (setNestedPath (q # ps) m v) (\<lambda>m'. Inr (fmupd p (TypeM m') it))
      | Some _ \<Rightarrow> Inl (Errorf ''eval_update: path part is not a map''))"

fun removeNestedPath :: "string list \<Rightarrow> item \<Rightarrow> item" where
  "removeNestedPath [] it = it"
| "removeNestedPath [p] it = fmdrop p it"
| "removeNestedPath (p # q # ps) it =
     (case fmlookup it p of
        Some (TypeM m) \<Rightarrow> fmupd p (TypeM (removeNestedPath (q # ps) m)) it
      | _ \<Rightarrow> it)"

subsection \<open>Sets\<close>

text \<open>
  \<open>addToStringSet\<close>: the loop keeps a Go set of the members seen so far, which are those of the
  result list.
\<close>

definition addToStringSet :: "string list \<Rightarrow> string list \<Rightarrow> string list" where
  "addToStringSet existing add =
     fst (foldl (\<lambda>(result, seen) s.
        if s \<in> seen then (result, seen) else (result @ [s], insert s seen))
        (existing, set existing) add)"

definition removeFromStringSet :: "string list \<Rightarrow> string list \<Rightarrow> string list" where
  "removeFromStringSet existing remove = filter (\<lambda>s. s \<notin> set remove) existing"

text \<open>\<open>addToBinarySet\<close> compares with the existing members only, not with those added before.\<close>

definition addToBinarySet :: "bytes list \<Rightarrow> bytes list \<Rightarrow> bytes list" where
  "addToBinarySet existing add = foldl (\<lambda>result b. if b \<in> set existing then result else result @ [b]) existing add"

definition removeFromBinarySet :: "bytes list \<Rightarrow> bytes list \<Rightarrow> bytes list" where
  "removeFromBinarySet existing remove = filter (\<lambda>e. \<not> (\<exists>r \<in> set remove. e = r)) existing"

subsection \<open>Actions\<close>

text \<open>The value of an action: the three ways to have none are errors.\<close>

definition action_value :: "node option \<Rightarrow> item \<Rightarrow> AttributeValue result" where
  "action_value ov it =
     (case ov of
        None \<Rightarrow> Inl (Errorf ''eval_update: action requires a value'')
      | Some n \<Rightarrow>
          bind (resolveNode n it) (\<lambda>r.
            case r of
              None \<Rightarrow> Inl (Errorf ''eval_update: value could not be resolved'')
            | Some v \<Rightarrow> Inr v))"

definition applySet :: "string list \<Rightarrow> node option \<Rightarrow> item \<Rightarrow> item result" where
  "applySet path ov it = bind (action_value ov it) (\<lambda>v. setNestedPath path it v)"

definition add_float :: "string \<Rightarrow> string \<Rightarrow> string result" where
  "add_float a b =
     (case ParseFloat a of
        None \<Rightarrow> Inl (ErrorfW ''eval_update: invalid number'' (Errorf a))
      | Some ef \<Rightarrow>
          (case ParseFloat b of
             None \<Rightarrow> Inl (ErrorfW ''eval_update: invalid number'' (Errorf b))
           | Some vf \<Rightarrow> Inr (FormatFloat_f (f64_add ef vf))))"

text \<open>What ADD stores over an existing value.\<close>

definition add_values :: "AttributeValue \<Rightarrow> AttributeValue \<Rightarrow> AttributeValue result" where
  "add_values existing v =
     (case (existing, v) of
        (TypeN a, TypeN b) \<Rightarrow> bind (add_float a b) (\<lambda>s. Inr (TypeN s))
      | (TypeSS a, TypeSS b) \<Rightarrow> Inr (TypeSS (addToStringSet a b))
      | (TypeNS a, TypeNS b) \<Rightarrow> Inr (TypeNS (addToStringSet a b))
      | (TypeBS a, TypeBS b) \<Rightarrow> Inr (TypeBS (addToBinarySet a b))
      | _ \<Rightarrow> Inl (Errorf ''eval_update: ADD not supported for type''))"

definition applyAdd :: "string list \<Rightarrow> node option \<Rightarrow> item \<Rightarrow> item result" where
  "applyAdd path ov it =
     bind (action_value ov it) (\<lambda>v.
       case resolvePathValue path it of
         None \<Rightarrow> setNestedPath path it v
       | Some existing \<Rightarrow> bind (add_values existing v) (\<lambda>w. setNestedPath path it w))"

definition applyRemove :: "string list \<Rightarrow> item \<Rightarrow> item result" where
  "applyRemove path it =
     (if path = [] then Inl (GoPanic ''index out of range'') else Inr (removeNestedPath path it))"

definition delete_values :: "AttributeValue \<Rightarrow> AttributeValue \<Rightarrow> AttributeValue result" where
  "delete_values existing v =
     (case (existing, v) of
        (TypeSS a, TypeSS b) \<Rightarrow> Inr (TypeSS (removeFromStringSet a b))
      | (TypeNS a, TypeNS b) \<Rightarrow> Inr (TypeNS (removeFromStringSet a b))
      | (TypeBS a, TypeBS b) \<Rightarrow> Inr (TypeBS (removeFromBinarySet a b))
      | _ \<Rightarrow> Inl (Errorf ''eval_update: DELETE not supported for type''))"

definition applyDelete :: "string list \<Rightarrow> node option \<Rightarrow> item \<Rightarrow> item result" where
  "applyDelete path ov it =
     bind (action_value ov it) (\<lambda>v.
       case resolvePathValue path it of
         None \<Rightarrow> Inr it
       | Some existing \<Rightarrow> bind (delete_values existing v) (\<lambda>w. setNestedPath path it w))"

fun apply_action :: "UpdateAction \<Rightarrow> string list \<Rightarrow> node option \<Rightarrow> item \<Rightarrow> item result" where
  "apply_action SET path ov it = applySet path ov it"
| "apply_action ADD path ov it = applyAdd path ov it"
| "apply_action REMOVE path ov it = applyRemove path it"
| "apply_action DELETE path ov it = applyDelete path ov it"

text \<open>The loop of \<open>EvalUpdate\<close>.\<close>

fun EvalUpdate :: "node list \<Rightarrow> item \<Rightarrow> item result" where
  "EvalUpdate [] it = Inr it"
| "EvalUpdate (n # ns) it =
     (case n of
        UpdateNode action path ov \<Rightarrow> bind (apply_action action path ov it) (EvalUpdate ns)
      | _ \<Rightarrow> Inl (Errorf ''eval_update: expected UpdateNode''))"

subsection \<open>Properties of the set helpers\<close>

lemma addToStringSet_loop:
  "set (fst (foldl (\<lambda>(result, seen) s.
      if s \<in> seen then (result, seen) else (result @ [s], insert s seen)) (rs, set rs) add))
    = set rs \<union> set add"
  "distinct rs \<Longrightarrow> distinct (fst (foldl (\<lambda>(result, seen) s.
      if s \<in> seen then (result, seen) else (result @ [s], insert s seen)) (rs, set rs) add))"
proof (induction add arbitrary: rs)
  case (Cons a add)
  {
    case 1
    show ?case using Cons.IH(1) [of rs] Cons.IH(1) [of "rs @ [a]"] by auto
  next
    case 2
    then show ?case using Cons.IH(2) [of rs] Cons.IH(2) [of "rs @ [a]"] by auto
  }
qed auto

lemma set_addToStringSet: "set (addToStringSet a b) = set a \<union> set b"
  by (simp add: addToStringSet_def addToStringSet_loop)

lemma distinct_addToStringSet: "distinct a \<Longrightarrow> distinct (addToStringSet a b)"
  by (simp add: addToStringSet_def addToStringSet_loop)

lemma set_removeFromStringSet: "set (removeFromStringSet a b) = set a - set b"
  by (auto simp: removeFromStringSet_def)

lemma distinct_removeFromStringSet: "distinct a \<Longrightarrow> distinct (removeFromStringSet a b)"
  by (simp add: removeFromStringSet_def)

lemma set_addToBinarySet: "set (addToBinarySet a b) = set a \<union> set b"
proof -
  have "set (foldl (\<lambda>result b. if b \<in> set a then result else result @ [b]) rs b)
      = set rs \<union> (set b - set a)" for rs
    by (induction b arbitrary: rs) auto
  then show ?thesis by (auto simp: addToBinarySet_def)
qed

lemma set_removeFromBinarySet: "set (removeFromBinarySet a b) = set a - set b"
  by (auto simp: removeFromBinarySet_def)

subsection \<open>Properties of nested paths\<close>

text \<open>Reading back what was set, and the frame of a set: paths that fork off are untouched.\<close>

lemma walk_path_TypeM: "walk_path (p # ps) (TypeM m) = resolvePathValue (p # ps) m"
  by simp

lemma resolve_setNestedPath:
  "setNestedPath ps it v = Inr it' \<Longrightarrow> resolvePathValue ps it' = Some v"
proof (induction ps it v arbitrary: it' rule: setNestedPath.induct)
  case (3 p q ps it v)
  then show ?case
    by (auto simp: bind_Inr_iff walk_path_TypeM simp del: walk_path.simps(2)
        split: option.splits AttributeValue.splits)
qed auto

lemma setNestedPath_top:
  "setNestedPath (p # ps) it v = Inr it' \<Longrightarrow> a \<noteq> p \<Longrightarrow> fmlookup it' a = fmlookup it a"
  by (cases ps)
    (auto simp: bind_Inr_iff split: option.splits AttributeValue.splits)

text \<open>A set below the first part is a set in the map stored there, or in a new one.\<close>

lemma setNestedPath_deep:
  assumes "setNestedPath (p # q # ps) it v = Inr it'"
  obtains m m' where "fmlookup it p = None \<and> m = fmempty \<or> fmlookup it p = Some (TypeM m)"
    and "setNestedPath (q # ps) m v = Inr m'" and "it' = fmupd p (TypeM m') it"
  using assms
  by (auto simp: bind_Inr_iff split: option.splits AttributeValue.splits)

lemma setNestedPath_frame:
  assumes "setNestedPath (ps @ p # qs) it v = Inr it'" "a \<noteq> p"
  shows "resolvePathValue (ps @ a # as) it' = resolvePathValue (ps @ a # as) it"
  using assms(1)
proof (induction ps arbitrary: it it')
  case Nil
  with assms(2) show ?case by (simp add: setNestedPath_top)
next
  case (Cons r rs)
  obtain s ss where s: "rs @ p # qs = s # ss" by (cases rs) auto
  obtain t ts where t: "rs @ a # as = t # ts" by (cases rs) auto
  from Cons.prems have "setNestedPath (r # s # ss) it v = Inr it'" by (simp only: append_Cons s)
  then obtain m m' where
    m: "fmlookup it r = None \<and> m = fmempty \<or> fmlookup it r = Some (TypeM m)"
    and set: "setNestedPath (s # ss) m v = Inr m'" and it': "it' = fmupd r (TypeM m') it"
    by (rule setNestedPath_deep)
  have "resolvePathValue (t # ts) m' = resolvePathValue (t # ts) m"
    using Cons.IH [of m m'] set s t by simp
  with m it' t show ?case by auto
qed

text \<open>Setting at a one-part path, the only one the client's builders make, never fails.\<close>

lemma setNestedPath_flat [simp]: "setNestedPath [p] it v = Inr (fmupd p v it)"
  by simp

lemma resolve_removeNestedPath:
  "ps \<noteq> [] \<Longrightarrow> resolvePathValue ps (removeNestedPath ps it) = None"
  by (induction ps it rule: removeNestedPath.induct)
    (auto split: option.splits AttributeValue.splits)

text \<open>Only the first part of the path can change at the top level of the item.\<close>

lemma removeNestedPath_top:
  "a \<noteq> p \<Longrightarrow> fmlookup (removeNestedPath (p # ps) it) a = fmlookup it a"
  by (cases ps) (auto split: option.splits AttributeValue.splits)

lemma apply_action_top:
  "apply_action act (p # ps) ov it = Inr it' \<Longrightarrow> a \<noteq> p \<Longrightarrow> fmlookup it' a = fmlookup it a"
  by (cases act)
    (auto simp: applySet_def applyAdd_def applyRemove_def applyDelete_def bind_Inr_iff
      removeNestedPath_top dest: setNestedPath_top split: option.splits)

end
