(* ===== verification/MemExpr.thy ===== *)
theory MemExpr
  imports EvalUpdate
begin

text \<open>
  The expression strings of the in-memory backend, first half of \<open>memdb/expression.go\<close>:
  tokenizer, recursive-descent parser of condition and filter expressions, and their evaluation.

  A parser's state is the list of tokens left (\<open>tokens[pos:]\<close>), which each function returns with
  its node.  The mutual recursion is bounded by a fuel argument; \<open>parseExpressionToAST\<close> starts with
  \<open>expr_fuel\<close>, and \<open>parseOr_fuel\<close> shows that this is never used up, since every call that
  does not consume a token goes down one of a fixed number of levels.
\<close>

subsection \<open>Tokens\<close>

definition two_char_op :: "char \<Rightarrow> string \<Rightarrow> bool" where
  "two_char_op ch s =
     (case s of
        d # _ \<Rightarrow> [ch, d] = ''<>'' \<or> [ch, d] = ''<='' \<or> [ch, d] = ''>=''
      | [] \<Rightarrow> False)"

definition ident_tail :: "char \<Rightarrow> bool" where
  "ident_tail c \<longleftrightarrow> isIdentPart c \<or> c = CHR ''.''"

definition number_tail :: "char \<Rightarrow> bool" where
  "number_tail c \<longleftrightarrow> is_digit c \<or> c = CHR ''.''"

definition single_char_tok :: "char \<Rightarrow> bool" where
  "single_char_tok ch \<longleftrightarrow> ch \<in> set ''(),=<>+-''"

function mem_tokenizeExpr :: "string \<Rightarrow> string list" where
  "mem_tokenizeExpr [] = []"
| "mem_tokenizeExpr (ch # s) =
     (if is_space ch then mem_tokenizeExpr s
      else if two_char_op ch s then [ch, hd s] # mem_tokenizeExpr (tl s)
      else if single_char_tok ch then [ch] # mem_tokenizeExpr s
      else if ch = CHR '':'' \<or> ch = CHR ''#'' then
        (ch # takeWhile isIdentPart s) # mem_tokenizeExpr (dropWhile isIdentPart s)
      else if isIdentStart ch then
        (ch # takeWhile ident_tail s) # mem_tokenizeExpr (dropWhile ident_tail s)
      else if is_digit ch then
        (ch # takeWhile number_tail s) # mem_tokenizeExpr (dropWhile number_tail s)
      else mem_tokenizeExpr s)"
  by pat_completeness auto
termination
  by (relation "measure length")
    (auto simp: less_Suc_eq_le length_dropWhile_le two_char_op_def split: list.splits)

lemma mem_tokenizeExpr_nonempty: "t \<in> set (mem_tokenizeExpr s) \<Longrightarrow> t \<noteq> []"
proof (induction s rule: mem_tokenizeExpr.induct)
  case (2 ch s)
  then show ?case by (simp split: if_splits) blast+
qed simp

subsection \<open>Primary expressions\<close>

definition known_function :: "string \<Rightarrow> bool" where
  "known_function name \<longleftrightarrow>
     ToLower name \<in> {''attribute_exists'', ''attribute_not_exists'', ''begins_with'',
                     ''contains'', ''size'', ''attribute_type''}"

function (sequential) parsePrimary :: "nat \<Rightarrow> names \<Rightarrow> vals \<Rightarrow> string list \<Rightarrow> (node \<times> string list) result"
and parseFuncCall :: "nat \<Rightarrow> names \<Rightarrow> vals \<Rightarrow> string \<Rightarrow> string list \<Rightarrow> (node \<times> string list) result"
and parseArgs :: "nat \<Rightarrow> names \<Rightarrow> vals \<Rightarrow> node list \<Rightarrow> string list \<Rightarrow> (node list \<times> string list) result"
where
  "parsePrimary 0 nm vs ts = Inl OutOfFuel"
| "parsePrimary (Suc n) nm vs ts =
     (let tok = peek ts; rest = tl ts in
      if tok = [] then Inl (Errorf ''unexpected end of expression'')
      else if hd tok = CHR '':'' then
        (case fmlookup vs tok of
           None \<Rightarrow> Inl (Errorf ''unknown value placeholder'')
         | Some v \<Rightarrow> Inr (ValueNode v, rest))
      else if hd tok = CHR ''#'' then
        (case fmlookup nm tok of
           None \<Rightarrow> Inl (Errorf ''unknown name placeholder'')
         | Some resolved \<Rightarrow>
             if peek rest = ''('' then parseFuncCall n nm vs resolved rest
             else Inr (PathNode (SplitChar CHR ''.'' resolved), rest))
      else if isIdentStart (hd tok) then
        (if known_function tok \<and> peek rest = ''('' then parseFuncCall n nm vs tok rest
         else Inr (PathNode (SplitChar CHR ''.'' tok), rest))
      else Inl (Errorf ''unexpected token''))"
| "parseFuncCall 0 nm vs name ts = Inl OutOfFuel"
| "parseFuncCall (Suc n) nm vs name ts =
     bind (expect ''('' ts) (\<lambda>ts1.
       bind (parseArgs n nm vs [] ts1) (\<lambda>(args, ts2).
         bind (expect '')'' ts2) (\<lambda>ts3.
           Inr (FuncNode (ToLower name) args, ts3))))"
| "parseArgs 0 nm vs args ts = Inl OutOfFuel"
| "parseArgs (Suc n) nm vs args ts =
     (if peek ts = '')'' then Inr (args, ts)
      else bind (if args \<noteq> [] then expect '','' ts else Inr ts) (\<lambda>ts1.
             bind (parsePrimary n nm vs ts1) (\<lambda>(arg, ts2).
               parseArgs n nm vs (args @ [arg]) ts2)))"
  by pat_completeness auto
termination
  by (relation "measure (case_sum fst (case_sum fst fst))") auto

subsection \<open>Comparisons and logical operators\<close>

text \<open>The loop of the IN list: no node yet means that the first element is to come.\<close>

fun parseInList :: "nat \<Rightarrow> names \<Rightarrow> vals \<Rightarrow> node \<Rightarrow> node option \<Rightarrow> string list
    \<Rightarrow> (node option \<times> string list) result" where
  "parseInList 0 nm vs left acc ts = Inl OutOfFuel"
| "parseInList (Suc n) nm vs left acc ts =
     (if peek ts = '')'' then Inr (acc, ts)
      else bind (if acc \<noteq> None then expect '','' ts else Inr ts) (\<lambda>ts1.
             bind (parsePrimary n nm vs ts1) (\<lambda>(v, ts2).
               let cmp = CompareNode left EQ v in
               parseInList n nm vs left
                 (Some (case acc of None \<Rightarrow> cmp | Some node \<Rightarrow> LogicalNode OR node (Some cmp))) ts2)))"

definition never_true :: node where
  "never_true = CompareNode (ValueNode (TypeS [])) NE (ValueNode (TypeS []))"

text \<open>What follows the left operand: BETWEEN, IN, a comparison operator, or nothing.\<close>

definition parseSuffix :: "nat \<Rightarrow> names \<Rightarrow> vals \<Rightarrow> node \<Rightarrow> string list \<Rightarrow> (node \<times> string list) result" where
  "parseSuffix n nm vs left ts =
     (if EqualFold (peek ts) ''BETWEEN'' then
        bind (parsePrimary n nm vs (tl ts)) (\<lambda>(low, ts1).
          if \<not> EqualFold (peek ts1) ''AND'' then
            Inl (Errorf ''expected AND in BETWEEN expression'')
          else bind (parsePrimary n nm vs (tl ts1)) (\<lambda>(high, ts2).
            Inr (LogicalNode AND (CompareNode left GE low) (Some (CompareNode left LE high)), ts2)))
      else if EqualFold (peek ts) ''IN'' then
        bind (expect ''('' (tl ts)) (\<lambda>ts1.
          bind (parseInList n nm vs left None ts1) (\<lambda>(acc, ts2).
            bind (expect '')'' ts2) (\<lambda>ts3.
              Inr (case acc of None \<Rightarrow> never_true | Some node \<Rightarrow> node, ts3))))
      else (case parseCompareOp (peek ts) of
              Some op \<Rightarrow>
                bind (parsePrimary n nm vs (tl ts)) (\<lambda>(right, ts1).
                  Inr (CompareNode left op right, ts1))
            | None \<Rightarrow> Inr (left, ts)))"

function (sequential) parseOr :: "nat \<Rightarrow> names \<Rightarrow> vals \<Rightarrow> string list \<Rightarrow> (node \<times> string list) result"
and parseOrLoop :: "nat \<Rightarrow> names \<Rightarrow> vals \<Rightarrow> node \<Rightarrow> string list \<Rightarrow> (node \<times> string list) result"
and parseAnd :: "nat \<Rightarrow> names \<Rightarrow> vals \<Rightarrow> string list \<Rightarrow> (node \<times> string list) result"
and parseAndLoop :: "nat \<Rightarrow> names \<Rightarrow> vals \<Rightarrow> node \<Rightarrow> string list \<Rightarrow> (node \<times> string list) result"
and parseNot :: "nat \<Rightarrow> names \<Rightarrow> vals \<Rightarrow> string list \<Rightarrow> (node \<times> string list) result"
and parseComparison :: "nat \<Rightarrow> names \<Rightarrow> vals \<Rightarrow> string list \<Rightarrow> (node \<times> string list) result"
where
  "parseOr 0 nm vs ts = Inl OutOfFuel"
| "parseOr (Suc n) nm vs ts =
     bind (parseAnd n nm vs ts) (\<lambda>(left, ts1). parseOrLoop n nm vs left ts1)"
| "parseOrLoop 0 nm vs left ts = Inl OutOfFuel"
| "parseOrLoop (Suc n) nm vs left ts =
     (if EqualFold (peek ts) ''OR'' then
        bind (parseAnd n nm vs (tl ts)) (\<lambda>(right, ts1).
          parseOrLoop n nm vs (LogicalNode OR left (Some right)) ts1)
      else Inr (left, ts))"
| "parseAnd 0 nm vs ts = Inl OutOfFuel"
| "parseAnd (Suc n) nm vs ts =
     bind (parseNot n nm vs ts) (\<lambda>(left, ts1). parseAndLoop n nm vs left ts1)"
| "parseAndLoop 0 nm vs left ts = Inl OutOfFuel"
| "parseAndLoop (Suc n) nm vs left ts =
     (if EqualFold (peek ts) ''AND'' then
        bind (parseNot n nm vs (tl ts)) (\<lambda>(right, ts1).
          parseAndLoop n nm vs (LogicalNode AND left (Some right)) ts1)
      else Inr (left, ts))"
| "parseNot 0 nm vs ts = Inl OutOfFuel"
| "parseNot (Suc n) nm vs ts =
     (if EqualFold (peek ts) ''NOT'' then
        bind (parseNot n nm vs (tl ts)) (\<lambda>(operand, ts1).
          Inr (LogicalNode NOT operand None, ts1))
      else parseComparison n nm vs ts)"
| "parseComparison 0 nm vs ts = Inl OutOfFuel"
| "parseComparison (Suc n) nm vs ts =
     (if peek ts = ''('' then
        bind (parseOr n nm vs (tl ts)) (\<lambda>(inner, ts1).
          bind (expect '')'' ts1) (\<lambda>ts2. Inr (inner, ts2)))
      else bind (parsePrimary n nm vs ts) (\<lambda>(left, ts1). parseSuffix n nm vs left ts1))"
  by pat_completeness auto
termination
  by (relation "measure (case_sum (case_sum fst (case_sum fst fst)) (case_sum fst (case_sum fst fst)))")
    auto

definition expr_fuel :: "string list \<Rightarrow> nat" where
  "expr_fuel ts = 8 * length ts + 8"

definition parseExpressionToAST :: "string \<Rightarrow> names \<Rightarrow> vals \<Rightarrow> node result" where
  "parseExpressionToAST expression nm vs =
     (let ts = mem_tokenizeExpr expression in
      case parseOr (expr_fuel ts) nm vs ts of
        Inl e \<Rightarrow> Inl (ErrorfW ''memdb: expression parse error'' e)
      | Inr (node, rest) \<Rightarrow>
          if rest \<noteq> [] then Inl (Errorf ''memdb: unexpected token'') else Inr node)"

definition evalCondition :: "string \<Rightarrow> names \<Rightarrow> vals \<Rightarrow> item \<Rightarrow> bool result" where
  "evalCondition expression nm vs it =
     (if expression = [] then Inr True
      else bind (parseExpressionToAST expression nm vs) (\<lambda>node. Eval node it))"

subsection \<open>The fuel suffices\<close>

lemma primary_consumes:
  "parsePrimary n nm vs ts = Inr (x, ts') \<Longrightarrow> length ts' < length ts"
  "parseFuncCall n nm vs name ts = Inr (x, ts') \<Longrightarrow> length ts' < length ts"
  "parseArgs n nm vs args ts = Inr (xs, ts') \<Longrightarrow> length ts' \<le> length ts"
proof (induction n nm vs ts and n nm vs name ts and n nm vs args ts
    arbitrary: x ts' and x ts' and xs ts'
    rule: parsePrimary_parseFuncCall_parseArgs.induct)
  case (2 n nm vs ts)
  then show ?case
    by (cases ts) (fastforce simp: Let_def split: if_splits option.splits intro: less_SucI)+
next
  case (4 n nm vs name ts)
  then show ?case by (fastforce simp: bind_Inr_iff expect_Inr)
next
  case (6 n nm vs args ts)
  then show ?case
    by (fastforce simp: bind_Inr_iff expect_Inr split: if_splits)
qed auto

lemma primary_fuel:
  "3 * length ts < n \<Longrightarrow> parsePrimary n nm vs ts \<noteq> Inl OutOfFuel"
  "3 * length ts < n \<Longrightarrow> parseFuncCall n nm vs name ts \<noteq> Inl OutOfFuel"
  "3 * length ts + 1 < n \<Longrightarrow> parseArgs n nm vs args ts \<noteq> Inl OutOfFuel"
proof (induction n nm vs ts and n nm vs name ts and n nm vs args ts
    rule: parsePrimary_parseFuncCall_parseArgs.induct)
  case (2 n nm vs ts)
  then show ?case
    by (cases ts) (auto simp: Let_def split: option.splits)
next
  case (4 n nm vs name ts)
  then show ?case
    by (auto simp: bind_Inl_iff expect_Inr)
next
  case (6 n nm vs args ts)
  show ?case
  proof
    assume "parseArgs (Suc n) nm vs args ts = Inl OutOfFuel"
    then obtain ts1 where ts1: "(if args \<noteq> [] then expect '','' ts else Inr ts) = Inr ts1"
      and p: "peek ts \<noteq> '')''"
      and r: "bind (parsePrimary n nm vs ts1) (\<lambda>(arg, ts2). parseArgs n nm vs (args @ [arg]) ts2)
        = Inl OutOfFuel"
      by (auto simp: bind_Inl_iff split: if_splits)
    from ts1 have len: "length ts1 \<le> length ts" by (auto simp: expect_Inr split: if_splits)
    from "6.IH"(1) [OF p ts1] "6.prems" len
    have "parsePrimary n nm vs ts1 \<noteq> Inl OutOfFuel" by simp
    with r obtain arg ts2 where pr: "parsePrimary n nm vs ts1 = Inr (arg, ts2)"
      and "parseArgs n nm vs (args @ [arg]) ts2 = Inl OutOfFuel"
      by (auto simp: bind_Inl_iff)
    moreover have "length ts2 < length ts1" using primary_consumes(1) [OF pr] .
    ultimately show False using "6.IH"(2) [OF p ts1 pr refl] "6.prems" len by simp
  qed
qed auto

text \<open>The same facts in the form the proofs above them use: running dry bounds the fuel.\<close>

lemma primary_dry:
  "parsePrimary n nm vs ts = Inl OutOfFuel \<Longrightarrow> n \<le> 3 * length ts"
  using primary_fuel(1) [of ts n nm vs] by linarith

lemma parseInList_consumes:
  "parseInList n nm vs left acc ts = Inr (x, ts') \<Longrightarrow> length ts' \<le> length ts"
proof (induction n arbitrary: acc ts)
  case (Suc n)
  from Suc.prems show ?case
    by (auto simp: bind_Inr_iff expect_Inr Let_def split: if_splits
        dest!: primary_consumes(1) Suc.IH)
qed simp

lemma parseInList_dry:
  "parseInList n nm vs left acc ts = Inl OutOfFuel \<Longrightarrow> n \<le> 3 * length ts + 1"
proof (induction n arbitrary: acc ts)
  case (Suc n)
  from Suc.prems show ?case
    by (auto simp: bind_Inl_iff expect_Inr Let_def split: if_splits
        dest!: primary_dry primary_consumes(1) Suc.IH)
qed simp

lemma parseSuffix_consumes:
  "parseSuffix n nm vs left ts = Inr (x, ts') \<Longrightarrow> length ts' \<le> length ts"
  by (cases ts)
    (auto simp: parseSuffix_def bind_Inr_iff expect_Inr split: if_splits option.splits
      dest!: primary_consumes(1) parseInList_consumes)

lemma parseSuffix_dry:
  "parseSuffix n nm vs left ts = Inl OutOfFuel \<Longrightarrow> n \<le> 3 * length ts + 1"
  by (cases ts)
    (auto simp: parseSuffix_def bind_Inl_iff expect_Inr split: if_splits option.splits
      dest!: primary_dry parseInList_dry primary_consumes(1))

lemmas suffix_facts = parseSuffix_consumes parseSuffix_dry primary_consumes(1) primary_dry

text \<open>The logical levels: what a call leaves, then how much fuel it can use up.\<close>

lemma logical_consumes:
  "parseOr n nm vs ts = Inr (x, ts') \<Longrightarrow> length ts' < length ts"
  "parseOrLoop n nm vs left ts = Inr (x, ts') \<Longrightarrow> length ts' \<le> length ts"
  "parseAnd n nm vs ts = Inr (x, ts') \<Longrightarrow> length ts' < length ts"
  "parseAndLoop n nm vs left ts = Inr (x, ts') \<Longrightarrow> length ts' \<le> length ts"
  "parseNot n nm vs ts = Inr (x, ts') \<Longrightarrow> length ts' < length ts"
  "parseComparison n nm vs ts = Inr (x, ts') \<Longrightarrow> length ts' < length ts"
proof (induction n arbitrary: ts ts' x left)
  case (Suc n)
  {
    case 1
    then show ?case by (fastforce simp: bind_Inr_iff dest!: Suc.IH)
  next
    case 2
    then show ?case
      by (cases ts) (fastforce simp: bind_Inr_iff split: if_splits dest!: Suc.IH)+
  next
    case 3
    then show ?case by (fastforce simp: bind_Inr_iff dest!: Suc.IH)
  next
    case 4
    then show ?case
      by (cases ts) (fastforce simp: bind_Inr_iff split: if_splits dest!: Suc.IH)+
  next
    case 5
    then show ?case
      by (cases ts) (fastforce simp: bind_Inr_iff split: if_splits dest!: Suc.IH)+
  next
    case 6
    then show ?case
      by (cases ts)
        (fastforce simp: bind_Inr_iff expect_Inr split: if_splits dest!: Suc.IH suffix_facts)+
  }
qed simp_all

lemma logical_dry:
  "parseOr n nm vs ts = Inl OutOfFuel \<Longrightarrow> n \<le> 8 * length ts + 6"
  "parseOrLoop n nm vs left ts = Inl OutOfFuel \<Longrightarrow> n \<le> 8 * length ts + 4"
  "parseAnd n nm vs ts = Inl OutOfFuel \<Longrightarrow> n \<le> 8 * length ts + 5"
  "parseAndLoop n nm vs left ts = Inl OutOfFuel \<Longrightarrow> n \<le> 8 * length ts + 3"
  "parseNot n nm vs ts = Inl OutOfFuel \<Longrightarrow> n \<le> 8 * length ts + 4"
  "parseComparison n nm vs ts = Inl OutOfFuel \<Longrightarrow> n \<le> 8 * length ts + 3"
proof (induction n arbitrary: ts left)
  case (Suc n)
  {
    case 1
    then show ?case by (auto simp: bind_Inl_iff dest!: Suc.IH logical_consumes)
  next
    case 2
    then show ?case
      by (cases ts) (auto simp: bind_Inl_iff split: if_splits dest!: Suc.IH logical_consumes)+
  next
    case 3
    then show ?case by (auto simp: bind_Inl_iff dest!: Suc.IH logical_consumes)
  next
    case 4
    then show ?case
      by (cases ts) (auto simp: bind_Inl_iff split: if_splits dest!: Suc.IH logical_consumes)+
  next
    case 5
    then show ?case
      by (cases ts) (auto simp: bind_Inl_iff split: if_splits dest!: Suc.IH)+
  next
    case 6
    then show ?case
      by (cases ts)
        (auto simp: bind_Inl_iff expect_Inr split: if_splits dest!: Suc.IH suffix_facts)+
  }
qed simp_all

lemma parseOr_fuel: "parseOr (expr_fuel ts) nm vs ts \<noteq> Inl OutOfFuel"
  using logical_dry(1) [of "expr_fuel ts" nm vs ts] by (auto simp: expr_fuel_def)

end
