(* ===== verification/MemUpdate.thy ===== *)
theory MemUpdate
  imports MemExpr
begin

text \<open>
  Update expressions of the in-memory backend, second half of \<open>memdb/expression.go\<close>: the parser,
  the values an action can compute, and the application of the parsed actions to an item.

  As in \<open>MemExpr\<close>, a parser's state is the list of tokens left.  \<open>advance\<close> past the last token
  is an index out of range in the code, \<open>GoPanic\<close> here.
\<close>

subsection \<open>Numbers and sets\<close>

text \<open>\<open>parseFloat\<close> is \<open>Sscanf_g\<close>; the result the code ignores the error of is 0 then.\<close>

definition formatFloat :: "f64 \<Rightarrow> string" where
  "formatFloat f =
     (let i = int64_of_f64 f in
      if f64_eq f (f64_of_int i) then show_int i else FormatFloat_g f)"

definition float_error :: error where
  "float_error = Errorf ''memdb: invalid number''"

definition addNumbers :: "string \<Rightarrow> string \<Rightarrow> string result" where
  "addNumbers a b =
     (case Sscanf_g a of
        None \<Rightarrow> Inl float_error
      | Some af \<Rightarrow>
          (case Sscanf_g b of
             None \<Rightarrow> Inl float_error
           | Some bf \<Rightarrow> Inr (formatFloat (f64_add af bf))))"

definition subtractNumbers :: "string \<Rightarrow> string \<Rightarrow> string result" where
  "subtractNumbers a b =
     (case Sscanf_g a of
        None \<Rightarrow> Inl float_error
      | Some af \<Rightarrow>
          (case Sscanf_g b of
             None \<Rightarrow> Inl float_error
           | Some bf \<Rightarrow> Inr (formatFloat (f64_sub af bf))))"

definition mem_addToStringSet :: "string list \<Rightarrow> string list \<Rightarrow> string list" where
  "mem_addToStringSet existing add =
     fst (foldl (\<lambda>(result, seen) s.
        if s \<in> seen then (result, seen) else (result @ [s], insert s seen))
        (existing, set existing) add)"

definition mem_removeFromStringSet :: "string list \<Rightarrow> string list \<Rightarrow> string list" where
  "mem_removeFromStringSet existing remove = filter (\<lambda>s. s \<notin> set remove) existing"

subsection \<open>Paths\<close>

fun mem_walk_path :: "string list \<Rightarrow> AttributeValue \<Rightarrow> AttributeValue option" where
  "mem_walk_path [] v = Some v"
| "mem_walk_path (p # ps) v =
     (case v of
        TypeM m \<Rightarrow> (case fmlookup m p of None \<Rightarrow> None | Some w \<Rightarrow> mem_walk_path ps w)
      | _ \<Rightarrow> None)"

fun mem_resolvePathValue :: "string list \<Rightarrow> item \<Rightarrow> AttributeValue option" where
  "mem_resolvePathValue [] it = None"
| "mem_resolvePathValue (p # ps) it =
     (case fmlookup it p of None \<Rightarrow> None | Some v \<Rightarrow> mem_walk_path ps v)"

text \<open>
  \<open>setNestedPath\<close>: where a part of the path is not a map the item stays as it is, without an error.
  The paths are results of \<open>strings.Split\<close>, so they are not empty.
\<close>

fun mem_setNestedPath :: "string list \<Rightarrow> item \<Rightarrow> AttributeValue \<Rightarrow> item" where
  "mem_setNestedPath [] it v = it"
| "mem_setNestedPath [p] it v = fmupd p v it"
| "mem_setNestedPath (p # q # ps) it v =
     (case fmlookup it p of
        None \<Rightarrow> fmupd p (TypeM (mem_setNestedPath (q # ps) fmempty v)) it
      | Some (TypeM m) \<Rightarrow> fmupd p (TypeM (mem_setNestedPath (q # ps) m v)) it
      | Some _ \<Rightarrow> it)"

fun mem_removeNestedPath :: "string list \<Rightarrow> item \<Rightarrow> item" where
  "mem_removeNestedPath [] it = it"
| "mem_removeNestedPath [p] it = fmdrop p it"
| "mem_removeNestedPath (p # q # ps) it =
     (case fmlookup it p of
        Some (TypeM m) \<Rightarrow> fmupd p (TypeM (mem_removeNestedPath (q # ps) m)) it
      | _ \<Rightarrow> it)"

subsection \<open>Values of update expressions\<close>

datatype updateValue =
    literalValue AttributeValue
  | pathValue "string list"
  | arithmeticValue updateValue string updateValue
  | ifNotExistsValue "string list" updateValue
  | listAppendValue updateValue updateValue

definition arithmetic :: "string \<Rightarrow> AttributeValue \<Rightarrow> AttributeValue \<Rightarrow> AttributeValue result" where
  "arithmetic op left right =
     (case (left, right) of
        (TypeN a, TypeN b) \<Rightarrow>
          bind (if op = ''+'' then addNumbers a b
                else if op = ''-'' then subtractNumbers a b
                else Inl (Errorf ''memdb: unknown arithmetic op''))
            (\<lambda>r. Inr (TypeN r))
      | _ \<Rightarrow> Inl (Errorf ''memdb: arithmetic requires number types''))"

definition list_append :: "AttributeValue \<Rightarrow> AttributeValue \<Rightarrow> AttributeValue result" where
  "list_append left right =
     (case (left, right) of
        (TypeL a, TypeL b) \<Rightarrow> Inr (TypeL (a @ b))
      | _ \<Rightarrow> Inl (Errorf ''memdb: list_append requires list types''))"

text \<open>The \<open>resolveValue\<close> methods.\<close>

fun resolveValue :: "updateValue \<Rightarrow> item \<Rightarrow> AttributeValue result" where
  "resolveValue (literalValue v) it = Inr v"
| "resolveValue (pathValue parts) it =
     (case mem_resolvePathValue parts it of
        None \<Rightarrow> Inl (Errorf ''memdb: path not found'')
      | Some v \<Rightarrow> Inr v)"
| "resolveValue (arithmeticValue l op r) it =
     bind (resolveValue l it) (\<lambda>a. bind (resolveValue r it) (\<lambda>b. arithmetic op a b))"
| "resolveValue (ifNotExistsValue path d) it =
     (case mem_resolvePathValue path it of Some v \<Rightarrow> Inr v | None \<Rightarrow> resolveValue d it)"
| "resolveValue (listAppendValue l r) it =
     bind (resolveValue l it) (\<lambda>a. bind (resolveValue r it) (\<lambda>b. list_append a b))"

record updateOp =
  uop_action :: UpdateAction
  uop_path :: "string list"
  uop_value :: "updateValue option"

subsection \<open>The parser\<close>

definition isActionKeyword :: "string \<Rightarrow> bool" where
  "isActionKeyword tok \<longleftrightarrow> ToUpper tok \<in> {''SET'', ''ADD'', ''REMOVE'', ''DELETE''}"

definition resolvePath :: "names \<Rightarrow> string \<Rightarrow> string list" where
  "resolvePath nm tok =
     (case tok of
        c # _ \<Rightarrow>
          if c = CHR ''#'' then
            (case fmlookup nm tok of
               Some resolved \<Rightarrow> SplitChar CHR ''.'' resolved
             | None \<Rightarrow> SplitChar CHR ''.'' tok)
          else SplitChar CHR ''.'' tok
      | [] \<Rightarrow> SplitChar CHR ''.'' tok)"

definition resolveVal :: "names \<Rightarrow> vals \<Rightarrow> string \<Rightarrow> updateValue result" where
  "resolveVal nm vs tok =
     (if tok \<noteq> [] \<and> hd tok = CHR '':'' then
        (case fmlookup vs tok of
           None \<Rightarrow> Inl (Errorf ''memdb: unknown value placeholder'')
         | Some v \<Rightarrow> Inr (literalValue v))
      else if tok \<noteq> [] \<and> hd tok = CHR ''#'' then
        (case fmlookup nm tok of
           Some resolved \<Rightarrow> Inr (pathValue (SplitChar CHR ''.'' resolved))
         | None \<Rightarrow> Inl (Errorf ''memdb: unknown name placeholder''))
      else Inr (pathValue (SplitChar CHR ''.'' tok)))"

definition advance :: "string list \<Rightarrow> (string \<times> string list) result" where
  "advance ts =
     (case ts of [] \<Rightarrow> Inl (GoPanic ''index out of range'') | t # rest \<Rightarrow> Inr (t, rest))"

lemma advance_simps [simp]:
  "advance (t # ts) = Inr (t, ts)" "advance [] = Inl (GoPanic ''index out of range'')"
  by (simp_all add: advance_def)

lemma advance_Inr: "advance ts = Inr (t, rest) \<longleftrightarrow> ts = t # rest"
  by (cases ts) auto

lemma advance_fuel [simp]: "advance ts \<noteq> Inl OutOfFuel"
  by (cases ts) auto

text \<open>The checks \<open>if p.peek() != tok\<close> of the SET functions, followed by \<open>advance\<close>.\<close>

definition expect_peek :: "string \<Rightarrow> string list \<Rightarrow> string list result" where
  "expect_peek tok ts =
     (if peek ts \<noteq> tok then Inl (Errorf ''memdb: expected another token'') else Inr (tl ts))"

lemma expect_peek_Inr: "tok \<noteq> [] \<Longrightarrow> expect_peek tok ts = Inr rest \<longleftrightarrow> ts = tok # rest"
  by (cases ts) (auto simp: expect_peek_def)

lemma expect_peek_fuel [simp]: "expect_peek tok ts \<noteq> Inl OutOfFuel"
  by (simp add: expect_peek_def)

function (sequential) parseSetValue :: "nat \<Rightarrow> names \<Rightarrow> vals \<Rightarrow> string list \<Rightarrow> (updateValue \<times> string list) result"
and parseSetAtom :: "nat \<Rightarrow> names \<Rightarrow> vals \<Rightarrow> string list \<Rightarrow> (updateValue \<times> string list) result"
and parseSetFunction :: "nat \<Rightarrow> names \<Rightarrow> vals \<Rightarrow> string \<Rightarrow> string list \<Rightarrow> (updateValue \<times> string list) result"
where
  "parseSetValue 0 nm vs ts = Inl OutOfFuel"
| "parseSetValue (Suc n) nm vs ts =
     bind (parseSetAtom n nm vs ts) (\<lambda>(first, ts1).
       if peek ts1 = ''+'' \<or> peek ts1 = ''-'' then
         bind (parseSetAtom n nm vs (tl ts1)) (\<lambda>(second, ts2).
           Inr (arithmeticValue first (peek ts1) second, ts2))
       else Inr (first, ts1))"
| "parseSetAtom 0 nm vs ts = Inl OutOfFuel"
| "parseSetAtom (Suc n) nm vs ts =
     (let tok = peek ts; rest = tl ts in
      if tok = [] then Inl (Errorf ''memdb: unexpected end of expression'')
      else if hd tok = CHR '':'' then bind (resolveVal nm vs tok) (\<lambda>v. Inr (v, rest))
      else if hd tok = CHR ''#'' then
        (if peek rest = ''('' then
           parseSetFunction n nm vs (case fmlookup nm tok of Some r \<Rightarrow> r | None \<Rightarrow> tok) rest
         else (case fmlookup nm tok of
                 Some resolved \<Rightarrow> Inr (pathValue (SplitChar CHR ''.'' resolved), rest)
               | None \<Rightarrow> Inl (Errorf ''memdb: unknown name placeholder'')))
      else if isIdentStart (hd tok) then
        (if peek rest = ''('' then parseSetFunction n nm vs tok rest
         else Inr (pathValue (SplitChar CHR ''.'' tok), rest))
      else Inl (Errorf ''memdb: unexpected token in SET value''))"
| "parseSetFunction 0 nm vs name ts = Inl OutOfFuel"
| "parseSetFunction (Suc n) nm vs name ts =
     bind (advance ts) (\<lambda>(_, ts1).
       if ToLower name = ''if_not_exists'' then
         bind (advance ts1) (\<lambda>(pathTok, ts2).
           bind (expect_peek '','' ts2) (\<lambda>ts3.
             bind (parseSetValue n nm vs ts3) (\<lambda>(v, ts4).
               bind (expect_peek '')'' ts4) (\<lambda>ts5.
                 Inr (ifNotExistsValue (resolvePath nm pathTok) v, ts5)))))
       else if ToLower name = ''list_append'' then
         bind (parseSetValue n nm vs ts1) (\<lambda>(first, ts2).
           bind (expect_peek '','' ts2) (\<lambda>ts3.
             bind (parseSetValue n nm vs ts3) (\<lambda>(second, ts4).
               bind (expect_peek '')'' ts4) (\<lambda>ts5.
                 Inr (listAppendValue first second, ts5)))))
       else Inl (Errorf ''memdb: unknown SET function''))"
  by pat_completeness auto
termination
  by (relation "measure (case_sum fst (case_sum fst fst))") auto

definition skip_comma :: "string list \<Rightarrow> string list" where
  "skip_comma ts = (if peek ts = '','' then tl ts else ts)"

text \<open>The clause loops.  Each turn consumes a token, so the token count bounds the turns.\<close>

definition clause_end :: "string list \<Rightarrow> bool" where
  "clause_end ts \<longleftrightarrow> peek ts = [] \<or> isActionKeyword (peek ts)"

definition set_fuel :: "string list \<Rightarrow> nat" where
  "set_fuel ts = 3 * length ts + 3"

fun parseSetClauses :: "nat \<Rightarrow> names \<Rightarrow> vals \<Rightarrow> updateOp list \<Rightarrow> string list \<Rightarrow> (updateOp list \<times> string list) result" where
  "parseSetClauses 0 nm vs ops ts = Inl OutOfFuel"
| "parseSetClauses (Suc n) nm vs ops ts =
     (if clause_end ts then Inr (ops, ts)
      else bind (advance ts) (\<lambda>(pathTok, ts1).
             bind (expect_peek ''='' ts1) (\<lambda>ts2.
               bind (parseSetValue (set_fuel ts2) nm vs ts2) (\<lambda>(v, ts3).
                 parseSetClauses n nm vs
                   (ops @ [\<lparr>uop_action = SET, uop_path = resolvePath nm pathTok, uop_value = Some v\<rparr>])
                   (skip_comma ts3)))))"

fun parseAddDeleteClauses :: "nat \<Rightarrow> UpdateAction \<Rightarrow> names \<Rightarrow> vals \<Rightarrow> updateOp list \<Rightarrow> string list
    \<Rightarrow> (updateOp list \<times> string list) result" where
  "parseAddDeleteClauses 0 act nm vs ops ts = Inl OutOfFuel"
| "parseAddDeleteClauses (Suc n) act nm vs ops ts =
     (if clause_end ts then Inr (ops, ts)
      else bind (advance ts) (\<lambda>(pathTok, ts1).
             if clause_end ts1 then Inl (Errorf ''memdb: expected value after path'')
             else bind (advance ts1) (\<lambda>(valTok, ts2).
               bind (resolveVal nm vs valTok) (\<lambda>v.
                 parseAddDeleteClauses n act nm vs
                   (ops @ [\<lparr>uop_action = act, uop_path = resolvePath nm pathTok, uop_value = Some v\<rparr>])
                   (skip_comma ts2)))))"

fun parseRemoveClauses :: "nat \<Rightarrow> names \<Rightarrow> updateOp list \<Rightarrow> string list \<Rightarrow> (updateOp list \<times> string list) result" where
  "parseRemoveClauses 0 nm ops ts = Inl OutOfFuel"
| "parseRemoveClauses (Suc n) nm ops ts =
     (if clause_end ts then Inr (ops, ts)
      else bind (advance ts) (\<lambda>(pathTok, ts1).
             parseRemoveClauses n nm
               (ops @ [\<lparr>uop_action = REMOVE, uop_path = resolvePath nm pathTok, uop_value = None\<rparr>])
               (skip_comma ts1)))"

definition clause_fuel :: "string list \<Rightarrow> nat" where
  "clause_fuel ts = Suc (length ts)"

text \<open>\<open>parse\<close>, the loop over the sections of the expression.\<close>

fun parseSections :: "nat \<Rightarrow> names \<Rightarrow> vals \<Rightarrow> updateOp list \<Rightarrow> string list \<Rightarrow> updateOp list result" where
  "parseSections 0 nm vs ops ts = Inl OutOfFuel"
| "parseSections (Suc n) nm vs ops [] = Inr ops"
| "parseSections (Suc n) nm vs ops (tok # ts) =
     bind (if ToUpper tok = ''SET'' then parseSetClauses (clause_fuel ts) nm vs [] ts
           else if ToUpper tok = ''ADD'' then parseAddDeleteClauses (clause_fuel ts) ADD nm vs [] ts
           else if ToUpper tok = ''REMOVE'' then parseRemoveClauses (clause_fuel ts) nm [] ts
           else if ToUpper tok = ''DELETE'' then parseAddDeleteClauses (clause_fuel ts) DELETE nm vs [] ts
           else Inl (Errorf ''memdb: unexpected token in update expression''))
       (\<lambda>(new_ops, ts1). parseSections n nm vs (ops @ new_ops) ts1)"

definition parseUpdateExpression :: "string \<Rightarrow> names \<Rightarrow> vals \<Rightarrow> updateOp list result" where
  "parseUpdateExpression expression nm vs =
     (let ts = mem_tokenizeExpr expression in parseSections (clause_fuel ts) nm vs [] ts)"

subsection \<open>Applying the actions\<close>

definition mem_add_values :: "AttributeValue \<Rightarrow> AttributeValue \<Rightarrow> AttributeValue result" where
  "mem_add_values existing v =
     (case (existing, v) of
        (TypeN a, TypeN b) \<Rightarrow> bind (addNumbers a b) (\<lambda>s. Inr (TypeN s))
      | (TypeSS a, TypeSS b) \<Rightarrow> Inr (TypeSS (mem_addToStringSet a b))
      | (TypeNS a, TypeNS b) \<Rightarrow> Inr (TypeNS (mem_addToStringSet a b))
      | _ \<Rightarrow> Inl (Errorf ''memdb: ADD not supported for types''))"

text \<open>DELETE: no match of the types means no change, and no error.\<close>

definition mem_delete_values :: "AttributeValue \<Rightarrow> AttributeValue \<Rightarrow> AttributeValue option" where
  "mem_delete_values existing v =
     (case (existing, v) of
        (TypeSS a, TypeSS b) \<Rightarrow> Some (TypeSS (mem_removeFromStringSet a b))
      | (TypeNS a, TypeNS b) \<Rightarrow> Some (TypeNS (mem_removeFromStringSet a b))
      | _ \<Rightarrow> None)"

text \<open>A nil value is dereferenced by every action but REMOVE; the parser never makes one.\<close>

definition op_value :: "updateOp \<Rightarrow> item \<Rightarrow> AttributeValue result" where
  "op_value op it =
     (case uop_value op of
        None \<Rightarrow> Inl (GoPanic ''nil pointer dereference'')
      | Some v \<Rightarrow> resolveValue v it)"

definition apply_updateOp :: "updateOp \<Rightarrow> item \<Rightarrow> item result" where
  "apply_updateOp op it =
     (case uop_action op of
        SET \<Rightarrow> bind (op_value op it) (\<lambda>v. Inr (mem_setNestedPath (uop_path op) it v))
      | ADD \<Rightarrow>
          bind (op_value op it) (\<lambda>v.
            case mem_resolvePathValue (uop_path op) it of
              None \<Rightarrow> Inr (mem_setNestedPath (uop_path op) it v)
            | Some existing \<Rightarrow>
                bind (mem_add_values existing v) (\<lambda>w. Inr (mem_setNestedPath (uop_path op) it w)))
      | REMOVE \<Rightarrow> Inr (mem_removeNestedPath (uop_path op) it)
      | DELETE \<Rightarrow>
          bind (op_value op it) (\<lambda>v.
            case mem_resolvePathValue (uop_path op) it of
              None \<Rightarrow> Inr it
            | Some existing \<Rightarrow>
                (case mem_delete_values existing v of
                   None \<Rightarrow> Inr it
                 | Some w \<Rightarrow> Inr (mem_setNestedPath (uop_path op) it w))))"

fun evalUpdateNodes :: "updateOp list \<Rightarrow> item \<Rightarrow> item result" where
  "evalUpdateNodes [] it = Inr it"
| "evalUpdateNodes (op # ops) it = bind (apply_updateOp op it) (evalUpdateNodes ops)"

subsection \<open>The fuel suffices\<close>

lemma set_value_consumes:
  "parseSetValue n nm vs ts = Inr (x, ts') \<Longrightarrow> length ts' < length ts"
  "parseSetAtom n nm vs ts = Inr (x, ts') \<Longrightarrow> length ts' < length ts"
  "parseSetFunction n nm vs name ts = Inr (x, ts') \<Longrightarrow> length ts' < length ts"
proof (induction n arbitrary: ts ts' x name)
  case (Suc n)
  {
    case 1
    then show ?case by (fastforce simp: bind_Inr_iff split: if_splits dest!: Suc.IH)
  next
    case 2
    then show ?case
      by (cases ts)
        (fastforce simp: bind_Inr_iff Let_def split: if_splits option.splits dest!: Suc.IH)+
  next
    case 3
    then show ?case
      by (fastforce simp: bind_Inr_iff advance_Inr expect_peek_Inr split: if_splits dest!: Suc.IH)
  }
qed simp_all

lemma set_value_dry:
  "parseSetValue n nm vs ts = Inl OutOfFuel \<Longrightarrow> n \<le> 3 * length ts + 2"
  "parseSetAtom n nm vs ts = Inl OutOfFuel \<Longrightarrow> n \<le> 3 * length ts + 1"
  "parseSetFunction n nm vs name ts = Inl OutOfFuel \<Longrightarrow> n \<le> 3 * length ts + 3"
proof (induction n arbitrary: ts name)
  case (Suc n)
  {
    case 1
    then show ?case
      by (auto simp: bind_Inl_iff split: if_splits dest!: Suc.IH set_value_consumes)
  next
    case 2
    then show ?case
      by (cases ts)
        (auto simp: bind_Inl_iff Let_def resolveVal_def split: if_splits option.splits dest!: Suc.IH)
  next
    case 3
    then show ?case
      by (auto simp: bind_Inl_iff advance_Inr expect_peek_Inr split: if_splits
          dest!: Suc.IH set_value_consumes)
  }
qed simp_all

lemma parseSetValue_fuel: "parseSetValue (set_fuel ts) nm vs ts \<noteq> Inl OutOfFuel"
  using set_value_dry(1) [of "set_fuel ts" nm vs ts] by (auto simp: set_fuel_def)

lemma resolveVal_fuel [simp]: "resolveVal nm vs tok \<noteq> Inl OutOfFuel"
  by (auto simp: resolveVal_def split: option.splits)

lemma length_skip_comma: "length (skip_comma ts) \<le> length ts"
  by (simp add: skip_comma_def)

lemma skip_comma_bound [intro]: "length ts < k \<Longrightarrow> length (skip_comma ts) < k"
  using length_skip_comma [of ts] by linarith

lemma clauses_consume:
  "parseSetClauses n nm vs ops ts = Inr (x, ts') \<Longrightarrow> length ts' \<le> length ts"
  "parseAddDeleteClauses n act nm vs ops ts = Inr (x, ts') \<Longrightarrow> length ts' \<le> length ts"
  "parseRemoveClauses n nm ops ts = Inr (x, ts') \<Longrightarrow> length ts' \<le> length ts"
proof (induction n arbitrary: ts ops)
  case (Suc n)
  note le = order.trans [OF _ length_skip_comma]
  {
    case 1
    then show ?case
      by (auto simp: bind_Inr_iff advance_Inr expect_peek_Inr split: if_splits
          dest!: Suc.IH(1) set_value_consumes dest: le)
  next
    case 2
    then show ?case
      by (auto simp: bind_Inr_iff advance_Inr split: if_splits dest!: Suc.IH(2) dest: le)
  next
    case 3
    then show ?case
      by (auto simp: bind_Inr_iff advance_Inr split: if_splits dest!: Suc.IH(3) dest: le)
  }
qed simp_all

lemma clauses_dry:
  "parseSetClauses n nm vs ops ts = Inl OutOfFuel \<Longrightarrow> n \<le> length ts"
  "parseAddDeleteClauses n act nm vs ops ts = Inl OutOfFuel \<Longrightarrow> n \<le> length ts"
  "parseRemoveClauses n nm ops ts = Inl OutOfFuel \<Longrightarrow> n \<le> length ts"
proof (induction n arbitrary: ts ops)
  case (Suc n)
  note le = order.trans [OF _ length_skip_comma]
  {
    case 1
    then show ?case
      by (auto simp: bind_Inl_iff advance_Inr expect_peek_Inr parseSetValue_fuel split: if_splits
          dest!: Suc.IH(1) set_value_consumes dest: le)
  next
    case 2
    then show ?case
      by (auto simp: bind_Inl_iff advance_Inr split: if_splits dest!: Suc.IH(2) dest: le)
  next
    case 3
    then show ?case
      by (auto simp: bind_Inl_iff advance_Inr split: if_splits dest!: Suc.IH(3) dest: le)
  }
qed simp_all

lemma clauses_fuel:
  "parseSetClauses (clause_fuel ts) nm vs ops ts \<noteq> Inl OutOfFuel"
  "parseAddDeleteClauses (clause_fuel ts) act nm vs ops ts \<noteq> Inl OutOfFuel"
  "parseRemoveClauses (clause_fuel ts) nm ops ts \<noteq> Inl OutOfFuel"
  by (auto simp: clause_fuel_def simp del: parseSetClauses.simps parseAddDeleteClauses.simps
      parseRemoveClauses.simps dest: clauses_dry)

lemma parseSections_dry: "parseSections n nm vs ops ts = Inl OutOfFuel \<Longrightarrow> n \<le> length ts"
proof (induction n arbitrary: ops ts)
  case (Suc n)
  show ?case
  proof (cases ts)
    case Nil
    then show ?thesis using Suc.prems by simp
  next
    case (Cons tok rest)
    from Suc.prems Cons obtain new_ops ts1 where "length ts1 \<le> length rest"
      and "parseSections n nm vs (ops @ new_ops) ts1 = Inl OutOfFuel"
      by (auto simp: bind_Inl_iff clauses_fuel split: if_splits dest: clauses_consume)
    with Suc.IH [of "ops @ new_ops" ts1] Cons show ?thesis by simp
  qed
qed simp

lemma parseUpdateExpression_fuel: "parseUpdateExpression e nm vs \<noteq> Inl OutOfFuel"
  by (auto simp: parseUpdateExpression_def clause_fuel_def Let_def
      simp del: parseSections.simps dest: parseSections_dry)

subsection \<open>Exact integers\<close>

lemma formatFloat_int: "\<bar>i\<bar> \<le> 2 ^ 53 \<Longrightarrow> formatFloat (Fin (of_int i)) = show_int i"
  by (simp add: formatFloat_def int64_of_f64_int f64_of_int_def round64_int f64_eq_def)

lemma addNumbers_int:
  assumes "\<bar>a\<bar> \<le> 2 ^ 53" "\<bar>b\<bar> \<le> 2 ^ 53" "\<bar>a + b\<bar> \<le> 2 ^ 53"
  shows "addNumbers (show_int a) (show_int b) = Inr (show_int (a + b))"
  using assms by (simp add: addNumbers_def Sscanf_g_show_int f64_add_int formatFloat_int
      del: of_int_add f64_add.simps)

lemma subtractNumbers_int:
  assumes "\<bar>a\<bar> \<le> 2 ^ 53" "\<bar>b\<bar> \<le> 2 ^ 53" "\<bar>a - b\<bar> \<le> 2 ^ 53"
  shows "subtractNumbers (show_int a) (show_int b) = Inr (show_int (a - b))"
  using assms by (simp add: subtractNumbers_def Sscanf_g_show_int f64_sub_int formatFloat_int
      del: of_int_diff)

subsection \<open>Agreement with the client's evaluator\<close>

text \<open>The package has its own copies of the path and set helpers of \<open>internal/expr\<close>.\<close>

lemma mem_walk_path_eq: "mem_walk_path ps v = walk_path ps v"
  by (induction ps v rule: mem_walk_path.induct)
    (auto split: AttributeValue.splits option.splits)

lemma mem_resolvePathValue_eq: "mem_resolvePathValue ps it = resolvePathValue ps it"
  by (cases ps) (auto simp: mem_walk_path_eq split: option.splits)

lemma mem_setNestedPath_eq: "setNestedPath ps it v = Inr it' \<Longrightarrow> mem_setNestedPath ps it v = it'"
  by (induction ps it v arbitrary: it' rule: mem_setNestedPath.induct)
    (auto simp: bind_Inr_iff split: AttributeValue.splits option.splits)

lemma mem_removeNestedPath_eq: "mem_removeNestedPath ps it = removeNestedPath ps it"
  by (induction ps it rule: mem_removeNestedPath.induct)
    (auto split: AttributeValue.splits option.splits)

lemma mem_sets_eq:
  "mem_addToStringSet = addToStringSet" "mem_removeFromStringSet = removeFromStringSet"
  by (intro ext, simp add: mem_addToStringSet_def addToStringSet_def
      mem_removeFromStringSet_def removeFromStringSet_def)+

lemma mem_setNestedPath_top:
  "a \<noteq> p \<Longrightarrow> fmlookup (mem_setNestedPath (p # ps) it v) a = fmlookup it a"
  by (cases ps) (auto split: option.splits AttributeValue.splits)

text \<open>The updates of an action are confined to the attribute its path starts with.\<close>

lemma apply_updateOp_cases:
  assumes "apply_updateOp op it = Inr it'"
  obtains "it' = it" | w where "it' = mem_setNestedPath (uop_path op) it w"
  | "it' = mem_removeNestedPath (uop_path op) it"
  using assms
  by (cases "uop_action op"; cases "mem_resolvePathValue (uop_path op) it")
    (auto simp: apply_updateOp_def bind_Inr_iff split: option.splits)

lemma apply_updateOp_frame:
  assumes "apply_updateOp op it = Inr it'" "\<And>ps. uop_path op \<noteq> a # ps"
  shows "fmlookup it' a = fmlookup it a"
proof (cases "uop_path op")
  case Nil
  from assms(1) show ?thesis by (rule apply_updateOp_cases) (simp_all add: Nil)
next
  case (Cons p ps)
  with assms(2) have "a \<noteq> p" by auto
  from assms(1) show ?thesis
    by (rule apply_updateOp_cases)
      (simp_all add: Cons mem_setNestedPath_top mem_removeNestedPath_eq removeNestedPath_top \<open>a \<noteq> p\<close>)
qed

lemma evalUpdateNodes_frame:
  assumes "evalUpdateNodes ops it = Inr it'" "\<And>op ps. op \<in> set ops \<Longrightarrow> uop_path op \<noteq> a # ps"
  shows "fmlookup it' a = fmlookup it a"
  using assms
proof (induction ops arbitrary: it)
  case (Cons op ops)
  from Cons.prems(1) obtain it1
    where "apply_updateOp op it = Inr it1" and "evalUpdateNodes ops it1 = Inr it'"
    by (auto simp: bind_Inr_iff)
  with apply_updateOp_frame [of op it it1 a] Cons.IH [of it1] Cons.prems(2) show ?case by simp
qed simp

text \<open>
  The update of the client's tree language that an action of the backend stands for, where there is one: no
  arithmetic and no functions.
\<close>

definition node_of_value :: "updateValue \<Rightarrow> node option" where
  "node_of_value u =
     (case u of
        literalValue v \<Rightarrow> Some (ValueNode v)
      | pathValue p \<Rightarrow> Some (PathNode p)
      | _ \<Rightarrow> None)"

definition node_of_op :: "updateOp \<Rightarrow> node" where
  "node_of_op op =
     UpdateNode (uop_action op) (uop_path op) (Option.bind (uop_value op) node_of_value)"

text \<open>
  Where the two may differ: an ADD of numbers whose sum they print differently, and binary sets, which the backend
  does not know.
\<close>

definition comparable :: "updateOp \<Rightarrow> item \<Rightarrow> bool" where
  "comparable op it \<longleftrightarrow>
     (uop_action op \<in> {ADD, DELETE} \<longrightarrow>
      (case resolvePathValue (uop_path op) it of
         Some (TypeBS _) \<Rightarrow> False
       | Some (TypeN a) \<Rightarrow>
           (case op_value op it of
              Inr (TypeN b) \<Rightarrow> uop_action op = ADD \<longrightarrow> addNumbers a b = add_float a b
            | _ \<Rightarrow> True)
       | _ \<Rightarrow> True))"

text \<open>What the client's evaluator computes, the backend computes too, as long as no binary set is involved.\<close>

lemma op_value_refines:
  "action_value (Option.bind (uop_value op) node_of_value) it = Inr v \<Longrightarrow> op_value op it = Inr v"
  by (cases "uop_value op")
    (auto simp: action_value_def op_value_def node_of_value_def bind_Inr_iff mem_resolvePathValue_eq
      split: updateValue.splits option.splits)

lemma mem_add_values_refines:
  assumes "add_values a b = Inr w" "\<And>bs. a \<noteq> TypeBS bs"
    and "\<And>m n. a = TypeN m \<Longrightarrow> b = TypeN n \<Longrightarrow> addNumbers m n = add_float m n"
  shows "mem_add_values a b = Inr w"
  using assms
  by (cases a; cases b) (simp_all add: add_values_def mem_add_values_def mem_sets_eq)

lemma mem_delete_values_refines:
  assumes "delete_values a b = Inr w" "\<And>bs. a \<noteq> TypeBS bs"
  shows "mem_delete_values a b = Some w"
  using assms
  by (cases a; cases b) (simp_all add: delete_values_def mem_delete_values_def mem_sets_eq)

lemma apply_updateOp_refines:
  assumes run: "apply_action (uop_action op) (uop_path op) (Option.bind (uop_value op) node_of_value) it = Inr it'"
    and comp: "comparable op it"
  shows "apply_updateOp op it = Inr it'"
proof (cases "uop_action op")
  case SET
  with run show ?thesis
    by (auto simp: apply_updateOp_def applySet_def bind_Inr_iff dest!: op_value_refines mem_setNestedPath_eq)
next
  case REMOVE
  with run show ?thesis
    by (auto simp: apply_updateOp_def applyRemove_def mem_removeNestedPath_eq split: if_splits)
next
  case ADD
  from run [unfolded ADD] obtain v where v: "op_value op it = Inr v"
    and rest: "(case resolvePathValue (uop_path op) it of None \<Rightarrow> setNestedPath (uop_path op) it v
       | Some existing \<Rightarrow> bind (add_values existing v) (setNestedPath (uop_path op) it)) = Inr it'"
    by (auto simp: applyAdd_def bind_Inr_iff dest: op_value_refines)
  have "mem_add_values e v = Inr w"
    if "resolvePathValue (uop_path op) it = Some e" "add_values e v = Inr w" for e w
    using that(2)
  proof (rule mem_add_values_refines)
    show "e \<noteq> TypeBS bs" for bs using comp ADD that(1) by (auto simp: comparable_def)
    show "addNumbers m n = add_float m n" if "e = TypeN m" "v = TypeN n" for m n
      using comp v ADD that \<open>resolvePathValue (uop_path op) it = Some e\<close> by (simp add: comparable_def)
  qed
  with rest v ADD show ?thesis
    by (auto simp: apply_updateOp_def mem_resolvePathValue_eq bind_Inr_iff
        dest!: mem_setNestedPath_eq split: option.splits)
next
  case DELETE
  from run [unfolded DELETE] obtain v where v: "op_value op it = Inr v"
    and rest: "(case resolvePathValue (uop_path op) it of None \<Rightarrow> Inr it
       | Some existing \<Rightarrow> bind (delete_values existing v) (setNestedPath (uop_path op) it)) = Inr it'"
    by (auto simp: applyDelete_def bind_Inr_iff dest: op_value_refines)
  have "mem_delete_values e v = Some w"
    if "resolvePathValue (uop_path op) it = Some e" "delete_values e v = Inr w" for e w
    using that(2)
  proof (rule mem_delete_values_refines)
    show "e \<noteq> TypeBS bs" for bs using comp DELETE that(1) by (auto simp: comparable_def)
  qed
  with rest v DELETE show ?thesis
    by (auto simp: apply_updateOp_def mem_resolvePathValue_eq bind_Inr_iff
        dest!: mem_setNestedPath_eq split: option.splits)
qed

text \<open>The hypotheses along a run, and the two evaluators on whole updates.\<close>

fun comparable_run :: "updateOp list \<Rightarrow> item \<Rightarrow> bool" where
  "comparable_run [] it = True"
| "comparable_run (op # ops) it =
     (comparable op it \<and> (case apply_updateOp op it of Inr it' \<Rightarrow> comparable_run ops it' | Inl _ \<Rightarrow> True))"

lemma EvalUpdate_node_of_op:
  "EvalUpdate (node_of_op op # ns) it =
     bind (apply_action (uop_action op) (uop_path op) (Option.bind (uop_value op) node_of_value) it) (EvalUpdate ns)"
  by (simp add: node_of_op_def)

lemma evalUpdateNodes_refines:
  "EvalUpdate (map node_of_op ops) it = Inr it' \<Longrightarrow> comparable_run ops it \<Longrightarrow>
   evalUpdateNodes ops it = Inr it'"
proof (induction ops arbitrary: it)
  case (Cons op ops)
  from Cons.prems(1) obtain it1 where rest: "EvalUpdate (map node_of_op ops) it1 = Inr it'"
    and "apply_action (uop_action op) (uop_path op) (Option.bind (uop_value op) node_of_value) it = Inr it1"
    by (auto simp: EvalUpdate_node_of_op bind_Inr_iff simp del: EvalUpdate.simps(2))
  from this(2) Cons.prems(2) have "apply_updateOp op it = Inr it1"
    by (intro apply_updateOp_refines) auto
  with rest Cons show ?case by simp
qed simp

end
