(* ===== verification/MemTable.thy ===== *)
theory MemTable
  imports MemUpdate
begin

text \<open>
  The storage of the in-memory backend, the first part of \<open>memdb/memdb.go\<close>: table schemas, the two-level maps
  from hash key to range key to item, the global secondary indexes kept beside them, and the conversion
  of key attributes to map keys.

  A table's mutex is not part of its data; the operations of \<open>MemOps\<close> run under it.
\<close>

subsection \<open>Schemas\<close>

datatype KeyType = StringKeyType | NumberKeyType | BinaryKeyType

record KeyDef =
  KeyDef_Name :: string
  KeyDef_Type :: KeyType

record GSISchema =
  GSI_Name :: string
  GSI_HashKey :: KeyDef
  GSI_RangeKey :: "KeyDef option"

record TableSchema =
  HashKey :: KeyDef
  RangeKey :: "KeyDef option"
  GSIs :: "GSISchema list"

subsection \<open>Two-level storage\<close>

type_synonym store = "(string, (string, item) fmap) fmap"

text \<open>The body of \<open>storeItem\<close>, repeated for the indexes by \<open>updateGSIs\<close>.\<close>

definition store_put :: "string \<Rightarrow> string \<Rightarrow> item \<Rightarrow> store \<Rightarrow> store" where
  "store_put hash rng it st =
     (let st1 = (if fmlookup st hash = None then fmupd hash fmempty st else st) in
      fmupd hash (fmupd rng (deepCopyItem it) (the (fmlookup st1 hash))) st1)"

definition store_get :: "string \<Rightarrow> string \<Rightarrow> store \<Rightarrow> item option" where
  "store_get hash rng st =
     (case fmlookup st hash of None \<Rightarrow> None | Some r \<Rightarrow> fmlookup r rng)"

text \<open>A partition that becomes empty is removed.  \<open>updateGSIs\<close> deletes in the same way.\<close>

definition store_del :: "string \<Rightarrow> string \<Rightarrow> store \<Rightarrow> store" where
  "store_del hash rng st =
     (case fmlookup st hash of
        None \<Rightarrow> st
      | Some r \<Rightarrow>
          (let r' = fmdrop rng r in
           if r' = fmempty then fmdrop hash st else fmupd hash r' st))"

text \<open>No partition is empty: the maps the two deletions leave behind.\<close>

definition store_ok :: "store \<Rightarrow> bool" where
  "store_ok st \<longleftrightarrow> fmempty |\<notin>| fmran st"

lemma store_ok_lookup: "store_ok st \<longleftrightarrow> (\<forall>h. fmlookup st h \<noteq> Some fmempty)"
  by (auto simp: store_ok_def fmlookup_ran_iff)

subsection \<open>The interface of a keyed store\<close>

text \<open>
  What the operations rely on: a store is read through its keys, a write or a deletion changes the
  entry of its key only, and both keep the representation invariant.
\<close>

locale keyed_store =
  fixes empty :: 's
    and get :: "'k \<Rightarrow> 's \<Rightarrow> 'v option"
    and put :: "'k \<Rightarrow> 'v \<Rightarrow> 's \<Rightarrow> 's"
    and del :: "'k \<Rightarrow> 's \<Rightarrow> 's"
    and ok :: "'s \<Rightarrow> bool"
  assumes get_empty: "get k empty = None"
    and get_put: "get k (put j v s) = (if k = j then Some v else get k s)"
    and get_del: "get k (del j s) = (if k = j then None else get k s)"
    and ok_empty: "ok empty"
    and ok_put: "ok s \<Longrightarrow> ok (put k v s)"
    and ok_del: "ok s \<Longrightarrow> ok (del k s)"
    and ok_ext: "ok s \<Longrightarrow> ok t \<Longrightarrow> (\<And>k. get k s = get k t) \<Longrightarrow> s = t"
begin

text \<open>A write sequence: \<open>Some v\<close> puts, \<open>None\<close> deletes.\<close>

definition exec :: "'k \<times> 'v option \<Rightarrow> 's \<Rightarrow> 's" where
  "exec w s = (case snd w of Some v \<Rightarrow> put (fst w) v s | None \<Rightarrow> del (fst w) s)"

definition writes :: "('k \<times> 'v option) list \<Rightarrow> 's \<Rightarrow> 's" where
  "writes ws s = fold exec ws s"

lemma get_exec: "get k (exec w s) = (if k = fst w then snd w else get k s)"
  by (simp add: exec_def get_put get_del split: option.split)

lemma ok_writes: "ok s \<Longrightarrow> ok (writes ws s)"
  unfolding writes_def
  by (induction ws arbitrary: s) (auto simp: exec_def ok_put ok_del split: option.split)

text \<open>The last write to a key decides.\<close>

lemma get_writes: "get k (writes ws s) = (case map_of (rev ws) k of Some w \<Rightarrow> w | None \<Rightarrow> get k s)"
proof (induction ws rule: rev_induct)
  case (snoc w ws)
  then show ?case by (simp add: writes_def get_exec prod_eq_iff)
qed (simp add: writes_def)

text \<open>Writes to different keys commute; a write after a write to the same key replaces it.\<close>

lemma write_commute: "ok s \<Longrightarrow> fst v \<noteq> fst w \<Longrightarrow> exec v (exec w s) = exec w (exec v s)"
  using ok_writes [of s "[v, w]"] ok_writes [of s "[w, v]"]
  by (intro ok_ext) (auto simp: writes_def get_exec)

lemma write_again: "ok s \<Longrightarrow> fst v = fst w \<Longrightarrow> exec v (exec w s) = exec v s"
  using ok_writes [of s "[w, v]"] ok_writes [of s "[v]"]
  by (intro ok_ext) (auto simp: writes_def get_exec)

lemma put_put: "ok s \<Longrightarrow> put k v (put k u s) = put k v s"
  using write_again [of s "(k, Some v)" "(k, Some u)"] by (simp add: exec_def)

lemma del_put: "ok s \<Longrightarrow> get k s = None \<Longrightarrow> del k (put k v s) = s"
  by (rule ok_ext) (auto simp: ok_put ok_del get_put get_del)

lemma put_same: "ok s \<Longrightarrow> get k s = Some v \<Longrightarrow> put k v s = s"
  by (rule ok_ext) (auto simp: ok_put get_put)

lemma del_absent: "ok s \<Longrightarrow> get k s = None \<Longrightarrow> del k s = s"
  by (rule ok_ext) (auto simp: ok_del get_del)

end

subsection \<open>The two-level storage is a keyed store\<close>

definition kput :: "string \<times> string \<Rightarrow> item \<Rightarrow> store \<Rightarrow> store" where
  "kput k it st = store_put (fst k) (snd k) it st"

definition kget :: "string \<times> string \<Rightarrow> store \<Rightarrow> item option" where
  "kget k st = store_get (fst k) (snd k) st"

definition kdel :: "string \<times> string \<Rightarrow> store \<Rightarrow> store" where
  "kdel k st = store_del (fst k) (snd k) st"

lemma store_empty [simp]: "store_get h r fmempty = None" "store_ok fmempty"
  by (simp_all add: store_get_def store_ok_lookup)

lemma store_get_put:
  "store_get h r (store_put h' r' it st) = (if h = h' \<and> r = r' then Some it else store_get h r st)"
  by (auto simp: store_get_def store_put_def Let_def split: option.splits)

lemma store_get_del:
  "store_get h r (store_del h' r' st) = (if h = h' \<and> r = r' then None else store_get h r st)"
proof -
  have "fmdrop r' p = fmempty \<Longrightarrow> r \<noteq> r' \<Longrightarrow> fmlookup p r = None" for p :: "(string, item) fmap"
    by (metis fmempty_lookup fmlookup_drop)
  then show ?thesis
    by (auto simp: store_get_def store_del_def Let_def split: option.splits)
qed

lemma store_ok_put: "store_ok st \<Longrightarrow> store_ok (store_put h r it st)"
  by (auto simp: store_ok_lookup store_put_def Let_def)

lemma store_ok_del: "store_ok st \<Longrightarrow> store_ok (store_del h r st)"
  by (auto simp: store_ok_lookup store_del_def Let_def split: option.splits)

lemma store_ext:
  assumes "store_ok s" "store_ok t" "\<And>h r. store_get h r s = store_get h r t"
  shows "s = t"
proof (rule fmap_ext)
  fix h
  have part: "(\<And>r. (case a of None \<Rightarrow> None | Some p \<Rightarrow> fmlookup p r) =
       (case b of None \<Rightarrow> None | Some p \<Rightarrow> fmlookup p r)) \<Longrightarrow>
     a \<noteq> Some fmempty \<Longrightarrow> b \<noteq> Some fmempty \<Longrightarrow> a = b" for a b :: "(string, item) fmap option"
    by (cases a; cases b) (auto intro: fmap_ext)
  show "fmlookup s h = fmlookup t h"
    by (rule part) (use assms in \<open>simp_all add: store_get_def store_ok_lookup\<close>)
qed

interpretation ks: keyed_store fmempty kget kput kdel store_ok
proof unfold_locales
  show "s = t" if "store_ok s" "store_ok t" "\<And>k. kget k s = kget k t" for s t
    using that(3) [of "(_, _)"] by (intro store_ext that) (simp_all add: kget_def)
qed (auto simp: kget_def kput_def kdel_def store_get_put store_get_del store_ok_put store_ok_del prod_eq_iff)

subsection \<open>Tables\<close>

record gsiData =
  gsi_schema :: GSISchema
  gsi_items :: store

record tableData =
  td_schema :: TableSchema
  td_items :: store
  td_gsis :: "(string, gsiData) fmap"

type_synonym MemoryBackend = "(string, tableData) fmap"

definition New :: MemoryBackend where
  "New = fmempty"

text \<open>\<open>CreateTable\<close>; of two indexes of one name the later schema stays.\<close>

definition CreateTable :: "string \<Rightarrow> TableSchema \<Rightarrow> MemoryBackend \<Rightarrow> MemoryBackend result" where
  "CreateTable name schema m =
     (if fmlookup m name \<noteq> None then Inl (GoPanic ''memdb: table already exists'')
      else Inr (fmupd name
        \<lparr>td_schema = schema, td_items = fmempty,
         td_gsis = fold (\<lambda>gsi. fmupd (GSI_Name gsi) \<lparr>gsi_schema = gsi, gsi_items = fmempty\<rparr>)
                     (GSIs schema) fmempty\<rparr> m))"

definition table :: "string \<Rightarrow> MemoryBackend \<Rightarrow> tableData result" where
  "table name m =
     (case fmlookup m name of
        None \<Rightarrow> Inl (newError ErrValidation ''memdb: table does not exist'')
      | Some td \<Rightarrow> Inr td)"

text \<open>\<open>keyString\<close>: the empty string for every type a key cannot have.\<close>

definition keyString :: "AttributeValue \<Rightarrow> string" where
  "keyString av =
     (case av of
        TypeS s \<Rightarrow> ''S:'' @ s
      | TypeN n \<Rightarrow> ''N:'' @ n
      | TypeB b \<Rightarrow> ''B:'' @ b
      | _ \<Rightarrow> [])"

definition extractKey :: "TableSchema \<Rightarrow> item \<Rightarrow> (string \<times> string) result" where
  "extractKey sch it =
     (case fmlookup it (KeyDef_Name (HashKey sch)) of
        None \<Rightarrow> Inl (newError ErrValidation ''memdb: missing hash key'')
      | Some hv \<Rightarrow>
          if keyString hv = [] then Inl (newError ErrValidation ''memdb: invalid type for hash key'')
          else
            (case RangeKey sch of
               None \<Rightarrow> Inr (keyString hv, ''_'')
             | Some rd \<Rightarrow>
                 (case fmlookup it (KeyDef_Name rd) of
                    None \<Rightarrow> Inl (newError ErrValidation ''memdb: missing range key'')
                  | Some rv \<Rightarrow>
                      if keyString rv = [] then
                        Inl (newError ErrValidation ''memdb: invalid type for range key'')
                      else Inr (keyString hv, keyString rv))))"

definition extractKeyFromDef :: "item \<Rightarrow> KeyDef \<Rightarrow> KeyDef option \<Rightarrow> (string \<times> string) option" where
  "extractKeyFromDef it hashDef rangeDef =
     (case fmlookup it (KeyDef_Name hashDef) of
        None \<Rightarrow> None
      | Some hv \<Rightarrow>
          if keyString hv = [] then None
          else
            (case rangeDef of
               None \<Rightarrow> Some (keyString hv, ''_'')
             | Some rd \<Rightarrow>
                 (case fmlookup it (KeyDef_Name rd) of
                    None \<Rightarrow> None
                  | Some rv \<Rightarrow>
                      if keyString rv = [] then None else Some (keyString hv, keyString rv))))"

definition storeItem :: "string \<Rightarrow> string \<Rightarrow> item \<Rightarrow> tableData \<Rightarrow> tableData" where
  "storeItem hash rng it td = td\<lparr>td_items := store_put hash rng it (td_items td)\<rparr>"

definition getItem :: "string \<Rightarrow> string \<Rightarrow> tableData \<Rightarrow> item option" where
  "getItem hash rng td = store_get hash rng (td_items td)"

text \<open>\<open>deleteItem\<close> returns the old item, and changes nothing when there is none.\<close>

definition deleteItem :: "string \<Rightarrow> string \<Rightarrow> tableData \<Rightarrow> item option \<times> tableData" where
  "deleteItem hash rng td =
     (case store_get hash rng (td_items td) of
        None \<Rightarrow> (None, td)
      | Some it \<Rightarrow> (Some it, td\<lparr>td_items := store_del hash rng (td_items td)\<rparr>))"

text \<open>\<open>updateGSIs\<close>: for every index, remove the old item's entry, then add the new item's.\<close>

definition gsi_key :: "GSISchema \<Rightarrow> item \<Rightarrow> (string \<times> string) option" where
  "gsi_key g it = extractKeyFromDef it (GSI_HashKey g) (GSI_RangeKey g)"

definition gsi_remove :: "item option \<Rightarrow> gsiData \<Rightarrow> gsiData" where
  "gsi_remove old g =
     (case Option.bind old (gsi_key (gsi_schema g)) of
        None \<Rightarrow> g
      | Some (h, r) \<Rightarrow> g\<lparr>gsi_items := store_del h r (gsi_items g)\<rparr>)"

definition gsi_add :: "item option \<Rightarrow> gsiData \<Rightarrow> gsiData" where
  "gsi_add new g =
     (case new of
        None \<Rightarrow> g
      | Some it \<Rightarrow>
          (case gsi_key (gsi_schema g) it of
             None \<Rightarrow> g
           | Some (h, r) \<Rightarrow> g\<lparr>gsi_items := store_put h r it (gsi_items g)\<rparr>))"

definition gsi_write :: "item option \<Rightarrow> item option \<Rightarrow> gsiData \<Rightarrow> gsiData" where
  "gsi_write old new g = gsi_add new (gsi_remove old g)"

definition updateGSIs :: "item option \<Rightarrow> item option \<Rightarrow> tableData \<Rightarrow> tableData" where
  "updateGSIs old new td = td\<lparr>td_gsis := fmmap (gsi_write old new) (td_gsis td)\<rparr>"

text \<open>The two ways the operations write: replace the item at a key, or remove it.\<close>

definition put_at :: "string \<Rightarrow> string \<Rightarrow> item \<Rightarrow> tableData \<Rightarrow> tableData" where
  "put_at hash rng it td = updateGSIs (getItem hash rng td) (Some it) (storeItem hash rng it td)"

definition delete_at :: "string \<Rightarrow> string \<Rightarrow> tableData \<Rightarrow> tableData" where
  "delete_at hash rng td = (case deleteItem hash rng td of (old, td') \<Rightarrow> updateGSIs old None td')"

subsection \<open>Reading back\<close>

lemma kget_put_at: "kget k (td_items (put_at h r it td)) = (if k = (h, r) then Some it else kget k (td_items td))"
  by (auto simp: put_at_def updateGSIs_def storeItem_def kget_def store_get_put prod_eq_iff)

lemma kget_delete_at: "kget k (td_items (delete_at h r td)) = (if k = (h, r) then None else kget k (td_items td))"
  by (auto simp: delete_at_def deleteItem_def updateGSIs_def kget_def store_get_del prod_eq_iff
      split: option.splits)

lemma getItem_kget: "getItem h r td = kget (h, r) (td_items td)"
  by (simp add: getItem_def kget_def)

lemma schema_put_at [simp]: "td_schema (put_at h r it td) = td_schema td"
  and schema_delete_at [simp]: "td_schema (delete_at h r td) = td_schema td"
  by (simp_all add: put_at_def delete_at_def updateGSIs_def storeItem_def deleteItem_def split: option.split)

text \<open>An index after a write, by its keys: the old item's entry goes, the new item's comes.\<close>

lemma gsi_schema_parts [simp]:
  "gsi_schema (gsi_add new g) = gsi_schema g" "gsi_schema (gsi_remove old g) = gsi_schema g"
  "gsi_schema (gsi_write old new g) = gsi_schema g"
  by (simp_all add: gsi_write_def gsi_add_def gsi_remove_def split: option.split prod.split)

lemma kget_gsi_remove:
  "kget gk (gsi_items (gsi_remove old g)) =
     (if Option.bind old (gsi_key (gsi_schema g)) = Some gk then None else kget gk (gsi_items g))"
  by (auto simp: gsi_remove_def kget_def store_get_del split: option.split prod.split)

lemma kget_gsi_add:
  "kget gk (gsi_items (gsi_add new g)) =
     (if Option.bind new (gsi_key (gsi_schema g)) = Some gk then new else kget gk (gsi_items g))"
  by (auto simp: gsi_add_def kget_def store_get_put split: option.split prod.split)

lemma kget_gsi_write:
  "kget gk (gsi_items (gsi_write old new g)) =
     (if Option.bind new (gsi_key (gsi_schema g)) = Some gk then new
      else if Option.bind old (gsi_key (gsi_schema g)) = Some gk then None
      else kget gk (gsi_items g))"
  by (simp add: gsi_write_def kget_gsi_add kget_gsi_remove)

lemma gsis_put_at:
  "td_gsis (put_at h r it td) = fmmap (gsi_write (kget (h, r) (td_items td)) (Some it)) (td_gsis td)"
  by (simp add: put_at_def updateGSIs_def storeItem_def getItem_kget)

lemma gsis_delete_at:
  "td_gsis (delete_at h r td) = fmmap (gsi_write (kget (h, r) (td_items td)) None) (td_gsis td)"
  by (simp add: delete_at_def deleteItem_def updateGSIs_def kget_def split: option.split)

lemma store_ok_gsi_write: "store_ok (gsi_items g) \<Longrightarrow> store_ok (gsi_items (gsi_write old new g))"
  by (simp add: gsi_write_def gsi_add_def gsi_remove_def store_ok_put store_ok_del split: option.split prod.split)

subsection \<open>Invariants\<close>

text \<open>Every item is stored under its own key.\<close>

definition keys_ok :: "tableData \<Rightarrow> bool" where
  "keys_ok td \<longleftrightarrow> (\<forall>k it. kget k (td_items td) = Some it \<longrightarrow> extractKey (td_schema td) it = Inr k)"

text \<open>Every entry of an index is an item of the table, under its index key.\<close>

definition gsi_sound :: "store \<Rightarrow> gsiData \<Rightarrow> bool" where
  "gsi_sound st g \<longleftrightarrow>
     (\<forall>gk it. kget gk (gsi_items g) = Some it \<longrightarrow>
        gsi_key (gsi_schema g) it = Some gk \<and> (\<exists>k. kget k st = Some it))"

text \<open>Every item with an index key is the entry at that key.\<close>

definition gsi_complete :: "store \<Rightarrow> gsiData \<Rightarrow> bool" where
  "gsi_complete st g \<longleftrightarrow>
     (\<forall>k it gk. kget k st = Some it \<and> gsi_key (gsi_schema g) it = Some gk \<longrightarrow>
        kget gk (gsi_items g) = Some it)"

definition gsi_unique :: "store \<Rightarrow> GSISchema \<Rightarrow> bool" where
  "gsi_unique st g \<longleftrightarrow>
     (\<forall>k j it jt gk. kget k st = Some it \<and> kget j st = Some jt \<and> gsi_key g it = Some gk \<and> gsi_key g jt = Some gk
        \<longrightarrow> k = j)"

definition table_ok :: "tableData \<Rightarrow> bool" where
  "table_ok td \<longleftrightarrow>
     store_ok (td_items td) \<and> keys_ok td \<and>
     (\<forall>g \<in> fmran' (td_gsis td). store_ok (gsi_items g) \<and> gsi_sound (td_items td) g)"

lemma store_ok_put_at: "store_ok (td_items td) \<Longrightarrow> store_ok (td_items (put_at h r it td))"
  by (simp add: put_at_def updateGSIs_def storeItem_def store_ok_put)

lemma store_ok_delete_at: "store_ok (td_items td) \<Longrightarrow> store_ok (td_items (delete_at h r td))"
  by (simp add: delete_at_def deleteItem_def updateGSIs_def store_ok_del split: option.split)

lemma gsi_sound_put_at:
  assumes "gsi_sound (td_items td) g"
  shows "gsi_sound (td_items (put_at h r it td)) (gsi_write (kget (h, r) (td_items td)) (Some it) g)"
  using assms unfolding gsi_sound_def kget_gsi_write kget_put_at
  by (auto split: if_splits) (metis bind.bind_lunit)+

lemma gsi_sound_delete_at:
  assumes "gsi_sound (td_items td) g"
  shows "gsi_sound (td_items (delete_at h r td)) (gsi_write (kget (h, r) (td_items td)) None g)"
  using assms unfolding gsi_sound_def kget_gsi_write kget_delete_at
  by (auto split: if_splits) (metis bind.bind_lunit)+

lemma table_ok_put_at:
  assumes "table_ok td" "extractKey (td_schema td) it = Inr (h, r)"
  shows "table_ok (put_at h r it td)"
  using assms
  by (auto simp: table_ok_def store_ok_put_at keys_ok_def kget_put_at gsis_put_at
      store_ok_gsi_write gsi_sound_put_at)

lemma table_ok_delete_at: "table_ok td \<Longrightarrow> table_ok (delete_at h r td)"
  by (auto simp: table_ok_def store_ok_delete_at keys_ok_def kget_delete_at gsis_delete_at
      store_ok_gsi_write gsi_sound_delete_at)

text \<open>
  An index of unique keys is complete after a put if its keys are unique in the new table, and after a deletion in any case.
\<close>

lemma gsi_completeD:
  "gsi_complete st g \<Longrightarrow> kget k st = Some it \<Longrightarrow> gsi_key (gsi_schema g) it = Some gk \<Longrightarrow>
   kget gk (gsi_items g) = Some it"
  unfolding gsi_complete_def by blast

lemma keys_okD: "keys_ok td \<Longrightarrow> kget k (td_items td) = Some it \<Longrightarrow> extractKey (td_schema td) it = Inr k"
  unfolding keys_ok_def by blast

lemma keys_ok_inj:
  "keys_ok td \<Longrightarrow> kget k (td_items td) = Some it \<Longrightarrow> kget j (td_items td) = Some it \<Longrightarrow> k = j"
  by (metis keys_okD sum.inject(2))

lemma gsi_uniqueD:
  "gsi_unique st g \<Longrightarrow> kget k st = Some it \<Longrightarrow> kget j st = Some jt \<Longrightarrow> gsi_key g it = Some gk \<Longrightarrow>
   gsi_key g jt = Some gk \<Longrightarrow> k = j"
  unfolding gsi_unique_def by blast

lemma gsi_complete_put_at:
  assumes "keys_ok td" "gsi_complete (td_items td) g"
    and "gsi_unique (td_items (put_at h r it td)) (gsi_schema g)"
  shows "gsi_complete (td_items (put_at h r it td)) (gsi_write (kget (h, r) (td_items td)) (Some it) g)"
  unfolding gsi_complete_def
proof (intro allI impI, elim conjE)
  fix k jt gk
  assume jt: "kget k (td_items (put_at h r it td)) = Some jt"
    and key: "gsi_key (gsi_schema (gsi_write (kget (h, r) (td_items td)) (Some it) g)) jt = Some gk"
  have new: "kget (h, r) (td_items (put_at h r it td)) = Some it" by (simp add: kget_put_at)
  show "kget gk (gsi_items (gsi_write (kget (h, r) (td_items td)) (Some it) g)) = Some jt"
  proof (cases "k = (h, r)")
    case True
    with jt key show ?thesis by (simp add: kget_gsi_write kget_put_at)
  next
    case False
    with jt have old: "kget k (td_items td) = Some jt" by (simp add: kget_put_at)
    have entry: "kget gk (gsi_items g) = Some jt"
      using gsi_completeD [OF assms(2) old] key by simp
    have not_new: "gsi_key (gsi_schema g) it \<noteq> Some gk"
      using gsi_uniqueD [OF assms(3) jt new] key False by auto
    have not_old: "Option.bind (kget (h, r) (td_items td)) (gsi_key (gsi_schema g)) \<noteq> Some gk"
    proof
      assume "Option.bind (kget (h, r) (td_items td)) (gsi_key (gsi_schema g)) = Some gk"
      then obtain ot where "kget (h, r) (td_items td) = Some ot" "gsi_key (gsi_schema g) ot = Some gk"
        by (auto simp: bind_eq_Some_conv)
      with gsi_completeD [OF assms(2) this] entry have "kget (h, r) (td_items td) = Some jt" by simp
      with keys_ok_inj [OF assms(1) old] False show False by blast
    qed
    from entry not_new not_old show ?thesis by (simp add: kget_gsi_write)
  qed
qed

lemma gsi_complete_delete_at:
  assumes "keys_ok td" "gsi_complete (td_items td) g"
  shows "gsi_complete (td_items (delete_at h r td)) (gsi_write (kget (h, r) (td_items td)) None g)"
  unfolding gsi_complete_def
proof (intro allI impI, elim conjE)
  fix k jt gk
  assume jt: "kget k (td_items (delete_at h r td)) = Some jt"
    and key: "gsi_key (gsi_schema (gsi_write (kget (h, r) (td_items td)) None g)) jt = Some gk"
  from jt have old: "kget k (td_items td) = Some jt" and k: "k \<noteq> (h, r)"
    by (auto simp: kget_delete_at split: if_splits)
  have entry: "kget gk (gsi_items g) = Some jt"
    using gsi_completeD [OF assms(2) old] key by simp
  have "Option.bind (kget (h, r) (td_items td)) (gsi_key (gsi_schema g)) \<noteq> Some gk"
  proof
    assume "Option.bind (kget (h, r) (td_items td)) (gsi_key (gsi_schema g)) = Some gk"
    then obtain ot where "kget (h, r) (td_items td) = Some ot" "gsi_key (gsi_schema g) ot = Some gk"
      by (auto simp: bind_eq_Some_conv)
    with gsi_completeD [OF assms(2) this] entry have "kget (h, r) (td_items td) = Some jt" by simp
    with keys_ok_inj [OF assms(1) old] k show False by blast
  qed
  with entry show "kget gk (gsi_items (gsi_write (kget (h, r) (td_items td)) None g)) = Some jt"
    by (simp add: kget_gsi_write)
qed

subsection \<open>Key strings\<close>

text \<open>Key strings are faithful: values a key can have are equal when their key strings are.\<close>

lemma keyString_inj: "keyString a \<noteq> [] \<Longrightarrow> keyString a = keyString b \<Longrightarrow> a = b"
  by (cases a; cases b) (simp_all add: keyString_def)

lemma keyString_Nil: "keyString a = [] \<longleftrightarrow> av_tag a \<notin> {1, 2, 3}"
  by (cases a) (simp_all add: keyString_def)

lemma extractKey_FromDef:
  "extractKeyFromDef it (HashKey sch) (RangeKey sch) =
     (case extractKey sch it of Inl _ \<Rightarrow> None | Inr k \<Rightarrow> Some k)"
  by (simp add: extractKeyFromDef_def extractKey_def split: option.split)

text \<open>The key of an item depends on its key attributes only.\<close>

definition key_attrs :: "TableSchema \<Rightarrow> string set" where
  "key_attrs sch = insert (KeyDef_Name (HashKey sch)) (case RangeKey sch of None \<Rightarrow> {} | Some rd \<Rightarrow> {KeyDef_Name rd})"

lemma extractKey_cong:
  "(\<And>a. a \<in> key_attrs sch \<Longrightarrow> fmlookup it a = fmlookup it' a) \<Longrightarrow> extractKey sch it = extractKey sch it'"
  by (auto simp: extractKey_def key_attrs_def split: option.split)

text \<open>Items with the same key agree on the key attributes.\<close>

lemma extractKey_inj:
  assumes "extractKey sch it = Inr k" "extractKey sch it' = Inr k" "a \<in> key_attrs sch"
  shows "fmlookup it a = fmlookup it' a"
  using assms
  by (auto simp: extractKey_def key_attrs_def split: option.splits if_splits dest: keyString_inj)

lemma extractKey_fuel [simp]: "extractKey sch it \<noteq> Inl OutOfFuel"
  by (auto simp: extractKey_def newError_def split: option.split)

end
