(* ===== verification/KeyCond.thy ===== *)
theory KeyCond
  imports MemTable
begin

text \<open>
  The second part of \<open>memdb/memdb.go\<close>: projection expressions, and the key conditions of queries, which the
  backend parses from their text without the tokenizer of \<open>MemExpr\<close>.
\<close>

subsection \<open>Text helpers\<close>

definition is_blank :: "char \<Rightarrow> bool" where
  "is_blank c \<longleftrightarrow> c = CHR '' '' \<or> c = CHR 0x09"

definition trimSpace :: "string \<Rightarrow> string" where
  "trimSpace s = rev (dropWhile is_blank (rev (dropWhile is_blank s)))"

text \<open>\<open>splitCSV\<close>: the part since the last comma is kept beside the parts found.\<close>

fun splitCSV_loop :: "string list \<Rightarrow> string \<Rightarrow> string \<Rightarrow> string list" where
  "splitCSV_loop parts cur [] = parts @ [cur]"
| "splitCSV_loop parts cur (c # s) =
     (if c = CHR '','' then splitCSV_loop (parts @ [cur]) [] s
      else splitCSV_loop parts (cur @ [c]) s)"

definition splitCSV :: "string \<Rightarrow> string list" where
  "splitCSV s = splitCSV_loop [] [] s"

lemma splitCSV_loop_eq:
  "splitCSV_loop parts cur s =
     (case SplitChar CHR '','' s of [] \<Rightarrow> [] | w # ws \<Rightarrow> parts @ (cur @ w) # ws)"
  by (induction parts cur s rule: splitCSV_loop.induct) (auto split: list.split)

lemma splitCSV_eq: "splitCSV s = SplitChar CHR '','' s"
  by (simp add: splitCSV_def splitCSV_loop_eq split: list.split)

lemma trimSpace_ident [simp]:
  "s \<noteq> [] \<Longrightarrow> \<not> is_blank (hd s) \<Longrightarrow> \<not> is_blank (last s) \<Longrightarrow> trimSpace s = s"
  by (simp add: trimSpace_def dropWhile_eq_self_iff [THEN iffD2] hd_rev)

lemma trimSpace_Cons_blank [simp]: "is_blank c \<Longrightarrow> trimSpace (c # s) = trimSpace s"
  by (simp add: trimSpace_def)

lemma trimSpace_snoc_blank [simp]: "is_blank c \<Longrightarrow> trimSpace (s @ [c]) = trimSpace s"
proof (cases "\<forall>x \<in> set s. is_blank x")
  case True
  moreover assume "is_blank c"
  ultimately show ?thesis by (auto simp: trimSpace_def dropWhile_append2 dest: set_dropWhileD)
next
  case False
  moreover assume "is_blank c"
  ultimately show ?thesis by (auto simp: trimSpace_def dropWhile_append1)
qed

subsection \<open>Projections\<close>

fun parseProjection_loop :: "names \<Rightarrow> string list \<Rightarrow> string list" where
  "parseProjection_loop nm [] = []"
| "parseProjection_loop nm (part # parts) =
     (let p = trimSpace part in
      if p = [] then parseProjection_loop nm parts
      else if hd p = CHR ''#'' \<and> fmlookup nm p \<noteq> None
      then the (fmlookup nm p) # parseProjection_loop nm parts
      else p # parseProjection_loop nm parts)"

definition parseProjectionAttrs :: "string \<Rightarrow> names \<Rightarrow> string list" where
  "parseProjectionAttrs projection nm = parseProjection_loop nm (splitCSV projection)"

definition projectItem :: "item \<Rightarrow> string \<Rightarrow> names \<Rightarrow> item" where
  "projectItem it projection nm =
     (if projection = [] then it
      else fold (\<lambda>attr result.
             case fmlookup it attr of Some v \<Rightarrow> fmupd attr v result | None \<Rightarrow> result)
           (parseProjectionAttrs projection nm) fmempty)"

lemma project_fold:
  "fmlookup (fold (\<lambda>attr result. case fmlookup it attr of Some v \<Rightarrow> fmupd attr v result | None \<Rightarrow> result)
      attrs result) a = (if a \<in> set attrs \<and> fmlookup it a \<noteq> None then fmlookup it a else fmlookup result a)"
  by (induction attrs arbitrary: result) (auto split: option.splits)

lemma fmlookup_projectItem:
  "fmlookup (projectItem it projection nm) a =
     (if projection = [] \<or> a \<in> set (parseProjectionAttrs projection nm) then fmlookup it a else None)"
  by (simp add: projectItem_def project_fold)

text \<open>Projecting twice is projecting once.\<close>

lemma projectItem_idem: "projectItem (projectItem it p nm) p nm = projectItem it p nm"
  by (rule fmap_ext) (simp add: fmlookup_projectItem)

subsection \<open>Key conditions\<close>

record sortKeyCondition =
  sk_op :: string
  sk_value :: AttributeValue
  sk_value2 :: AttributeValue
  sk_attr :: string

definition vError :: "string \<Rightarrow> 'a result" where
  "vError msg = Inl (newError ErrValidation msg)"

definition resolveNamePlaceholder :: "string \<Rightarrow> names \<Rightarrow> string" where
  "resolveNamePlaceholder tok nm =
     (if tok \<noteq> [] \<and> hd tok = CHR ''#'' then
        (case fmlookup nm tok of Some resolved \<Rightarrow> resolved | None \<Rightarrow> tok)
      else tok)"

definition resolveValuePlaceholder :: "string \<Rightarrow> vals \<Rightarrow> AttributeValue result" where
  "resolveValuePlaceholder tok vs =
     (if tok \<noteq> [] \<and> hd tok = CHR '':'' then
        (case fmlookup vs tok of
           Some v \<Rightarrow> Inr v
         | None \<Rightarrow> vError ''memdb: unknown value placeholder'')
      else vError ''memdb: expected value placeholder'')"

text \<open>\<open>splitOnAND\<close>: the text before the position, the depth of parentheses, the text from the position on.\<close>

fun splitOnAND_loop :: "string \<Rightarrow> int \<Rightarrow> string \<Rightarrow> (string \<times> string) option" where
  "splitOnAND_loop before depth [] = None"
| "splitOnAND_loop before depth (c # rest) =
     (if c = CHR ''('' then splitOnAND_loop (before @ [c]) (depth + 1) rest
      else if c = CHR '')'' then splitOnAND_loop (before @ [c]) (depth - 1) rest
      else if depth = 0 \<and> prefix '' AND '' (ToUpper (c # rest)) \<and>
              \<not> Contains (ToUpper (trimSpace before)) '' BETWEEN '' then
        Some (trimSpace before, trimSpace (drop 5 (c # rest)))
      else splitOnAND_loop (before @ [c]) depth rest)"

definition splitOnAND :: "string \<Rightarrow> string list" where
  "splitOnAND s = (case splitOnAND_loop [] 0 s of Some (l, r) \<Rightarrow> [l, r] | None \<Rightarrow> [s])"

definition containsBETWEEN :: "string \<Rightarrow> bool" where
  "containsBETWEEN s \<longleftrightarrow> Contains (ToUpper s) '' BETWEEN ''"

text \<open>The slice \<open>part[openParen+1 : closeParen]\<close> panics when the parentheses are the wrong way round.\<close>

definition parseBeginsWith :: "string \<Rightarrow> names \<Rightarrow> vals \<Rightarrow> sortKeyCondition result" where
  "parseBeginsWith part nm vs =
     (case (Index part ''('', LastIndexChar part CHR '')'') of
        (Some openParen, Some closeParen) \<Rightarrow>
          if closeParen < openParen + 1 then Inl (GoPanic ''slice bounds out of range'')
          else
            (let inner = drop (openParen + 1) (take closeParen part) in
             case Index inner '','' of
               None \<Rightarrow> vError ''memdb: begins_with requires 2 arguments''
             | Some i \<Rightarrow>
                 bind (resolveValuePlaceholder (trimSpace (drop (i + 1) inner)) vs) (\<lambda>v.
                   Inr \<lparr>sk_op = ''begins_with'', sk_value = v, sk_value2 = ZeroAV,
                        sk_attr = resolveNamePlaceholder (trimSpace (take i inner)) nm\<rparr>))
      | _ \<Rightarrow> vError ''memdb: invalid begins_with expression'')"

definition parseBetween :: "string \<Rightarrow> names \<Rightarrow> vals \<Rightarrow> sortKeyCondition result" where
  "parseBetween part nm vs =
     (case Index (ToUpper part) '' BETWEEN '' of
        None \<Rightarrow> vError ''memdb: invalid BETWEEN expression''
      | Some betweenIdx \<Rightarrow>
          (let rest = drop (betweenIdx + 9) part in
           case Index (ToUpper rest) '' AND '' of
             None \<Rightarrow> vError ''memdb: BETWEEN requires AND''
           | Some andIdx \<Rightarrow>
               bind (resolveValuePlaceholder (trimSpace (take andIdx rest)) vs) (\<lambda>lo.
                 bind (resolveValuePlaceholder (trimSpace (drop (andIdx + 5) rest)) vs) (\<lambda>hi.
                   Inr \<lparr>sk_op = ''BETWEEN'', sk_value = lo, sk_value2 = hi,
                        sk_attr = resolveNamePlaceholder (trimSpace (take betweenIdx part)) nm\<rparr>))))"

text \<open>The operators are tried in this order, and the first that occurs anywhere in the part is taken.\<close>

definition comparison_ops :: "string list" where
  "comparison_ops = [''<='', ''>='', ''<>'', ''='', ''<'', ''>'']"

fun find_op :: "string \<Rightarrow> string list \<Rightarrow> (string \<times> nat) option" where
  "find_op part [] = None"
| "find_op part (op # ops) =
     (case Index part op of Some idx \<Rightarrow> Some (op, idx) | None \<Rightarrow> find_op part ops)"

definition parseSimpleComparison :: "string \<Rightarrow> names \<Rightarrow> vals \<Rightarrow> (string \<times> string \<times> AttributeValue) result" where
  "parseSimpleComparison part nm vs =
     (case find_op part comparison_ops of
        None \<Rightarrow> vError ''memdb: cannot parse key condition part''
      | Some (op, idx) \<Rightarrow>
          bind (resolveValuePlaceholder (trimSpace (drop (idx + length op) part)) vs) (\<lambda>v.
            Inr (resolveNamePlaceholder (trimSpace (take idx part)) nm, op, v)))"

text \<open>One turn of the loop of \<open>parseKeyCondition\<close>: the partition value and the sort condition found so far.\<close>

definition parseKeyPart :: "names \<Rightarrow> vals \<Rightarrow> string \<Rightarrow> KeyDef option \<Rightarrow> string
    \<Rightarrow> AttributeValue option \<times> sortKeyCondition option \<Rightarrow> (AttributeValue option \<times> sortKeyCondition option) result" where
  "parseKeyPart nm vs pkName rangeDef part0 acc =
     (let part = trimSpace part0 in
      if HasPrefix (ToLower part) ''begins_with('' \<or> HasPrefix (ToLower part) ''begins_with ('' then
        bind (parseBeginsWith part nm vs) (\<lambda>sc. Inr (fst acc, Some sc))
      else if containsBETWEEN part then
        bind (parseBetween part nm vs) (\<lambda>sc. Inr (fst acc, Some sc))
      else
        bind (parseSimpleComparison part nm vs) (\<lambda>(attr, op, v).
          if attr = pkName \<and> op = ''='' then Inr (Some v, snd acc)
          else if rangeDef \<noteq> None \<and> attr = KeyDef_Name (the rangeDef) then
            Inr (fst acc, Some \<lparr>sk_op = op, sk_value = v, sk_value2 = ZeroAV, sk_attr = attr\<rparr>)
          else vError ''memdb: unexpected attribute in key condition''))"

fun parseKeyParts :: "names \<Rightarrow> vals \<Rightarrow> string \<Rightarrow> KeyDef option \<Rightarrow> string list
    \<Rightarrow> AttributeValue option \<times> sortKeyCondition option \<Rightarrow> (AttributeValue option \<times> sortKeyCondition option) result" where
  "parseKeyParts nm vs pkName rangeDef [] acc = Inr acc"
| "parseKeyParts nm vs pkName rangeDef (part # parts) acc =
     bind (parseKeyPart nm vs pkName rangeDef part acc) (parseKeyParts nm vs pkName rangeDef parts)"

definition parseKeyCondition :: "string \<Rightarrow> names \<Rightarrow> vals \<Rightarrow> string \<Rightarrow> KeyDef option
    \<Rightarrow> (AttributeValue \<times> sortKeyCondition option) result" where
  "parseKeyCondition expression nm vs pkName rangeDef =
     (let parts = splitOnAND expression in
      if parts = [] \<or> length parts > 2 then vError ''memdb: invalid key condition expression''
      else bind (parseKeyParts nm vs pkName rangeDef parts (None, None)) (\<lambda>(pk, sk).
             case pk of
               None \<Rightarrow> vError ''memdb: partition key condition not found in key condition expression''
             | Some v \<Rightarrow> Inr (v, sk)))"

subsection \<open>Matching the sort key\<close>

text \<open>The error of \<open>parseFloat\<close> is ignored; its value is 0 then.\<close>

definition key_float :: "string \<Rightarrow> f64" where
  "key_float s = (case Sscanf_g s of Some f \<Rightarrow> f | None \<Rightarrow> Fin 0)"

definition compareKeyValues :: "AttributeValue \<Rightarrow> AttributeValue \<Rightarrow> int" where
  "compareKeyValues a b =
     (case a of
        TypeS s \<Rightarrow> (case b of TypeS t \<Rightarrow> str_compare s t | _ \<Rightarrow> 0)
      | TypeN m \<Rightarrow> (case b of TypeN n \<Rightarrow> f64_cmp (key_float m) (key_float n) | _ \<Rightarrow> 0)
      | TypeB s \<Rightarrow> (case b of TypeB t \<Rightarrow> str_compare s t | _ \<Rightarrow> 0)
      | _ \<Rightarrow> 0)"

definition begins_with_key :: "AttributeValue \<Rightarrow> AttributeValue \<Rightarrow> bool" where
  "begins_with_key a p =
     (case a of
        TypeS s \<Rightarrow> (case p of TypeS t \<Rightarrow> HasPrefix s t | _ \<Rightarrow> False)
      | TypeB s \<Rightarrow> (case p of TypeB t \<Rightarrow> length t \<le> length s \<and> take (length t) s = t | _ \<Rightarrow> False)
      | _ \<Rightarrow> False)"

definition matchesSortKeyCondition :: "item \<Rightarrow> sortKeyCondition \<Rightarrow> KeyDef option \<Rightarrow> bool" where
  "matchesSortKeyCondition it cond rangeDef =
     (if rangeDef = None then True
      else
        (case fmlookup it (sk_attr cond) of
           None \<Rightarrow> False
         | Some av \<Rightarrow>
             if sk_op cond = ''='' then keyString av = keyString (sk_value cond)
             else if sk_op cond = ''begins_with'' then begins_with_key av (sk_value cond)
             else if sk_op cond = ''<'' then compareKeyValues av (sk_value cond) < 0
             else if sk_op cond = ''<='' then compareKeyValues av (sk_value cond) \<le> 0
             else if sk_op cond = ''>'' then compareKeyValues av (sk_value cond) > 0
             else if sk_op cond = ''>='' then compareKeyValues av (sk_value cond) \<ge> 0
             else if sk_op cond = ''BETWEEN'' then
               compareKeyValues av (sk_value cond) \<ge> 0 \<and> compareKeyValues av (sk_value2 cond) \<le> 0
             else False))"

lemma compareKeyValues_antisym: "compareKeyValues b a = - compareKeyValues a b"
  by (auto simp: compareKeyValues_def str_compare_def intro: f64_cmp_antisym split: AttributeValue.split)

lemma begins_with_key_iff:
  "begins_with_key (TypeS s) (TypeS t) \<longleftrightarrow> prefix t s" "begins_with_key (TypeB s) (TypeB t) \<longleftrightarrow> prefix t s"
  by (auto simp: begins_with_key_def HasPrefix_def prefix_def) (metis append_take_drop_id)

subsection \<open>Reading the text of a key condition\<close>

definition no_break :: "string \<Rightarrow> bool" where
  "no_break w \<longleftrightarrow> (\<forall>c \<in> set w. c \<notin> set '' ()'')"

lemma split_skip: "no_break w \<Longrightarrow> splitOnAND_loop before d (w @ rest) = splitOnAND_loop (before @ w) d rest"
proof (induction w arbitrary: before)
  case (Cons c w)
  then have "up_char c \<noteq> CHR '' ''" by (auto simp: no_break_def up_char_iff)
  with Cons show ?case by (simp add: no_break_def ToUpper_def)
qed simp

lemma split_blank:
  "up_char c \<noteq> CHR ''A'' \<Longrightarrow>
   splitOnAND_loop before d (CHR '' '' # c # rest) = splitOnAND_loop (before @ '' '') d (c # rest)"
  by (simp add: ToUpper_def)

text \<open>Attribute names without the characters the key condition syntax uses.\<close>

definition attr_text :: "string \<Rightarrow> bool" where
  "attr_text a \<longleftrightarrow> (\<forall>c \<in> set a. c \<notin> set '' ()<>=,'' \<and> c \<noteq> CHR 0x09)"

lemma ident_attr_text: "\<forall>c \<in> set a. isIdentPart c \<Longrightarrow> attr_text a"
proof -
  have "\<forall>c \<in> set ([CHR 0x09] @ '' ()<>=,''). \<not> isIdentPart c" by code_simp
  moreover assume "\<forall>c \<in> set a. isIdentPart c"
  ultimately show ?thesis by (auto simp: attr_text_def)
qed

lemma no_break_attr: "attr_text a \<Longrightarrow> no_break (CHR ''#'' # a)"
  by (auto simp: attr_text_def no_break_def)

lemma trim_attr [simp]: "attr_text a \<Longrightarrow> trimSpace (CHR ''#'' # a) = CHR ''#'' # a"
  by (rule trimSpace_ident) (auto simp: attr_text_def is_blank_def split: if_splits dest: last_in_set)

lemma find_in_attr:
  "attr_text a \<Longrightarrow> c \<in> set '' ()<>=,'' \<Longrightarrow>
   Index (CHR ''#'' # a @ s) (c # t) = map_option ((+) (Suc (length a))) (Index s (c # t))"
  using Index_skip [of c "CHR ''#'' # a" s t] by (auto simp: attr_text_def)

lemma split_pk:
  "attr_text a \<Longrightarrow>
   splitOnAND_loop [] 0 (CHR ''#'' # a @ '' = :pk0'' @ rest) =
   splitOnAND_loop (CHR ''#'' # a @ '' = :pk0'') 0 rest"
proof -
  assume a: "attr_text a"
  have nb: "no_break ''=''" "no_break '':pk0''" by code_simp+
  have up: "up_char CHR ''='' \<noteq> CHR ''A''" "up_char CHR '':'' \<noteq> CHR ''A''" by code_simp+
  show ?thesis
    using split_skip [OF no_break_attr [OF a], of "[]" 0 "'' = :pk0'' @ rest"]
      split_skip [OF nb(1), of "(CHR ''#'' # a) @ '' ''" 0 "'' :pk0'' @ rest"]
      split_skip [OF nb(2), of "(CHR ''#'' # a) @ '' = ''" 0 rest]
    by (simp add: split_blank up del: splitOnAND_loop.simps)
qed

lemma between_in_attr:
  "attr_text a \<Longrightarrow> Contains (ToUpper (CHR ''#'' # a @ s)) '' BETWEEN '' \<longleftrightarrow> Contains (ToUpper s) '' BETWEEN ''"
proof -
  assume "attr_text a"
  then have "CHR '' '' \<notin> set (ToUpper (CHR ''#'' # a))" by (auto simp: attr_text_def)
  from Index_skip [OF this, of "ToUpper s"] show ?thesis
    using ToUpper_append [of "CHR ''#'' # a" s] by (simp add: Contains_def)
qed

lemma split_at_and:
  assumes "\<not> Contains (ToUpper (trimSpace before)) '' BETWEEN ''"
  shows "splitOnAND_loop before 0 ('' AND '' @ rest) = Some (trimSpace before, trimSpace rest)"
proof -
  have "ToUpper '' AND '' = '' AND ''" by code_simp
  then have "prefix '' AND '' (ToUpper ('' AND '' @ rest))" by (simp only: ToUpper_append) simp
  with assms show ?thesis by simp
qed

lemma trim_pk: "attr_text a \<Longrightarrow> trimSpace (CHR ''#'' # a @ '' = :pk0'') = CHR ''#'' # a @ '' = :pk0''"
  by (rule trimSpace_ident) (simp_all add: is_blank_def)

lemma not_between_pk: "attr_text a \<Longrightarrow> \<not> Contains (ToUpper (CHR ''#'' # a @ '' = :pk0'')) '' BETWEEN ''"
proof -
  have "\<not> Contains (ToUpper '' = :pk0'') '' BETWEEN ''" by code_simp
  moreover assume "attr_text a"
  ultimately show ?thesis by (simp only: between_in_attr simp_thms)
qed

lemma splitOnAND_pk: "attr_text a \<Longrightarrow> splitOnAND (CHR ''#'' # a @ '' = :pk0'') = [CHR ''#'' # a @ '' = :pk0'']"
  using split_pk [of a "[]"] by (simp add: splitOnAND_def)

lemma splitOnAND_pk_sk:
  "attr_text a \<Longrightarrow>
   splitOnAND (CHR ''#'' # a @ '' = :pk0 AND '' @ sk) = [CHR ''#'' # a @ '' = :pk0'', trimSpace sk]"
  using split_pk [of a "'' AND '' @ sk"] split_at_and [of "CHR ''#'' # a @ '' = :pk0''" sk]
  by (simp add: splitOnAND_def trim_pk not_between_pk)

text \<open>Comparisons.\<close>

lemma find_op_attr:
  assumes "attr_text a"
  shows "find_op (CHR ''#'' # a @ s) comparison_ops =
    map_option (\<lambda>(op, i). (op, Suc (length a) + i)) (find_op s comparison_ops)"
proof -
  have "\<forall>op \<in> set ops. op \<noteq> [] \<and> hd op \<in> set '' ()<>=,'' \<Longrightarrow>
    find_op (CHR ''#'' # a @ s) ops = map_option (\<lambda>(op, i). (op, Suc (length a) + i)) (find_op s ops)" for ops
  proof (induction ops)
    case (Cons op ops)
    then obtain c t where "op = c # t" "c \<in> set '' ()<>=,''" by (cases op) auto
    with find_in_attr [OF assms, of c s t] Cons show ?case
      by (simp del: Index.simps split: option.split)
  qed simp
  moreover have "\<forall>op \<in> set comparison_ops. op \<noteq> [] \<and> hd op \<in> set '' ()<>=,''" by code_simp
  ultimately show ?thesis by blast
qed

lemma parse_comparison:
  assumes "attr_text a" "find_op (CHR '' '' # s) comparison_ops = Some (op, 1)"
  shows "parseSimpleComparison (CHR ''#'' # a @ CHR '' '' # s) nm vs =
    bind (resolveValuePlaceholder (trimSpace (drop (length op) s)) vs)
      (\<lambda>v. Inr (resolveNamePlaceholder (CHR ''#'' # a) nm, op, v))"
  using assms trimSpace_snoc_blank [of "CHR '' ''" "CHR ''#'' # a"]
  by (simp add: parseSimpleComparison_def find_op_attr is_blank_def)

lemma resolve_attr: "fmlookup nm (CHR ''#'' # a) = Some b \<Longrightarrow> resolveNamePlaceholder (CHR ''#'' # a) nm = b"
  by (simp add: resolveNamePlaceholder_def)

lemma resolve_value: "fmlookup vs (CHR '':'' # p) = Some v \<Longrightarrow> resolveValuePlaceholder (CHR '':'' # p) vs = Inr v"
  by (simp add: resolveValuePlaceholder_def)

lemma not_begins_with:
  "\<not> HasPrefix (ToLower (CHR ''#'' # s)) ''begins_with(''" "\<not> HasPrefix (ToLower (CHR ''#'' # s)) ''begins_with (''"
proof -
  have "low_char CHR ''#'' = CHR ''#''" by code_simp
  then show "\<not> HasPrefix (ToLower (CHR ''#'' # s)) ''begins_with(''"
    "\<not> HasPrefix (ToLower (CHR ''#'' # s)) ''begins_with (''"
    by (simp_all add: HasPrefix_def ToLower_def)
qed

lemma parseKeyPart_pk:
  assumes "attr_text a" "fmlookup nm (CHR ''#'' # a) = Some a" "fmlookup vs '':pk0'' = Some v"
  shows "parseKeyPart nm vs a rd (CHR ''#'' # a @ '' = :pk0'') acc = Inr (Some v, snd acc)"
proof -
  have op: "find_op '' = :pk0'' comparison_ops = Some (''='', 1)" by code_simp
  have "trimSpace '' :pk0'' = '':pk0''" by code_simp
  then have "parseSimpleComparison (CHR ''#'' # a @ '' = :pk0'') nm vs = Inr (a, ''='', v)"
    using parse_comparison [OF assms(1) op] by (simp add: resolve_attr [OF assms(2)] resolve_value assms(3))
  with not_between_pk [OF assms(1)] show ?thesis
    by (simp add: parseKeyPart_def Let_def trim_pk [OF assms(1)] not_begins_with containsBETWEEN_def)
qed

lemma parseKeyPart_cmp:
  assumes "attr_text b" "fmlookup nm (CHR ''#'' # b) = Some b" "fmlookup vs '':sk0'' = Some w"
    and "op \<in> set [''='', ''<'', ''<='', ''>'', ''>='']" "rd = Some d" "KeyDef_Name d = b" "b \<noteq> pk"
  shows "parseKeyPart nm vs pk rd (CHR ''#'' # b @ CHR '' '' # op @ '' :sk0'') acc =
    Inr (fst acc, Some \<lparr>sk_op = op, sk_value = w, sk_value2 = ZeroAV, sk_attr = b\<rparr>)"
proof -
  have facts: "\<forall>op \<in> set [''='', ''<'', ''<='', ''>'', ''>='']. find_op (CHR '' '' # op @ '' :sk0'') comparison_ops = Some (op, 1) \<and>
      \<not> Contains (ToUpper (CHR '' '' # op @ '' :sk0'')) '' BETWEEN ''"
    by code_simp
  then have op: "find_op (CHR '' '' # op @ '' :sk0'') comparison_ops = Some (op, 1)"
    and nb: "\<not> Contains (ToUpper (CHR '' '' # op @ '' :sk0'')) '' BETWEEN ''"
    using assms(4) by blast+
  have "trimSpace '' :sk0'' = '':sk0''" by code_simp
  then have "parseSimpleComparison (CHR ''#'' # b @ CHR '' '' # op @ '' :sk0'') nm vs = Inr (b, op, w)"
    using parse_comparison [OF assms(1) op] by (simp add: resolve_attr [OF assms(2)] resolve_value assms(3))
  moreover have "trimSpace (CHR ''#'' # b @ CHR '' '' # op @ '' :sk0'') = CHR ''#'' # b @ CHR '' '' # op @ '' :sk0''"
    by (rule trimSpace_ident) (simp_all add: is_blank_def)
  moreover have "\<not> containsBETWEEN (CHR ''#'' # b @ CHR '' '' # op @ '' :sk0'')"
    using between_in_attr [OF assms(1)] nb by (simp only: containsBETWEEN_def simp_thms)
  ultimately show ?thesis
    using assms by (simp add: parseKeyPart_def Let_def not_begins_with)
qed

text \<open>begins_with and BETWEEN.\<close>

lemma LastIndexChar_snoc [simp]: "LastIndexChar (s @ [c]) c = Some (length s)"
  by (induction s) auto

lemma parseBeginsWith_text:
  assumes "attr_text b" "fmlookup nm (CHR ''#'' # b) = Some b" "fmlookup vs '':sk0'' = Some w"
  shows "parseBeginsWith (''begins_with('' @ CHR ''#'' # b @ '', :sk0)'') nm vs =
    Inr \<lparr>sk_op = ''begins_with'', sk_value = w, sk_value2 = ZeroAV, sk_attr = b\<rparr>"
proof -
  let ?inner = "CHR ''#'' # b @ '', :sk0''"
  have part: "''begins_with('' @ CHR ''#'' # b @ '', :sk0)'' = (''begins_with('' @ ?inner) @ '')''" by simp
  have "Index (''begins_with'' @ ''('' @ s) ''('' = Some 11" for s
    by (subst Index_skip) simp_all
  then have op: "Index ((''begins_with('' @ ?inner) @ '')'') ''('' = Some 11"
    by (simp del: Index.simps)
  have close: "LastIndexChar ((''begins_with('' @ ?inner) @ '')'') CHR '')'' = Some (12 + length ?inner)"
    by (subst LastIndexChar_snoc) simp
  have comma: "Index ?inner '','' = Some (Suc (length b))"
    using find_in_attr [OF assms(1), of "CHR '',''" "'', :sk0''" "[]"] by simp
  have mid: "n = length p \<Longrightarrow> m = length p + length q \<Longrightarrow> drop n (take m ((p @ q) @ r)) = q"
    for n m :: nat and p q r :: string by simp
  have inner: "drop (11 + 1) (take (12 + length ?inner) ((''begins_with('' @ ?inner) @ '')'')) = ?inner"
    by (rule mid) simp_all
  have "trimSpace '' :sk0'' = '':sk0''" by code_simp
  then have sk: "trimSpace (drop (Suc (length b) + 1) ?inner) = '':sk0''" by simp
  have attr: "trimSpace (take (Suc (length b)) ?inner) = CHR ''#'' # b"
    using assms(1) by simp
  have no_panic: "\<not> 12 + length ?inner < 11 + 1" by simp
  show ?thesis
    unfolding parseBeginsWith_def part op close option.case prod.case inner Let_def comma sk attr if_not_P [OF no_panic]
    by (simp add: resolve_value resolve_attr assms)
qed

lemma parseKeyPart_begins_with:
  assumes "attr_text b" "fmlookup nm (CHR ''#'' # b) = Some b" "fmlookup vs '':sk0'' = Some w"
  shows "parseKeyPart nm vs pk rd (''begins_with('' @ CHR ''#'' # b @ '', :sk0)'') acc =
    Inr (fst acc, Some \<lparr>sk_op = ''begins_with'', sk_value = w, sk_value2 = ZeroAV, sk_attr = b\<rparr>)"
proof -
  have "ToLower ''begins_with('' = ''begins_with(''" by code_simp
  then have "HasPrefix (ToLower (''begins_with('' @ s)) ''begins_with(''" for s
    by (simp only: HasPrefix_def ToLower_def map_append) simp
  moreover have "trimSpace (''begins_with('' @ CHR ''#'' # b @ '', :sk0)'') = ''begins_with('' @ CHR ''#'' # b @ '', :sk0)''"
    by (rule trimSpace_ident) (simp_all add: is_blank_def)
  ultimately show ?thesis
    using parseBeginsWith_text [OF assms] by (simp only: parseKeyPart_def Let_def) simp
qed

lemma parseKeyPart_between:
  assumes "attr_text b" "fmlookup nm (CHR ''#'' # b) = Some b"
    and "fmlookup vs '':sk0'' = Some lo" "fmlookup vs '':sk1'' = Some hi"
  shows "parseKeyPart nm vs pk rd (CHR ''#'' # b @ '' BETWEEN :sk0 AND :sk1'') acc =
    Inr (fst acc, Some \<lparr>sk_op = ''BETWEEN'', sk_value = lo, sk_value2 = hi, sk_attr = b\<rparr>)"
proof -
  let ?s = "'' BETWEEN :sk0 AND :sk1''"
  have trim: "trimSpace (CHR ''#'' # b @ ?s) = CHR ''#'' # b @ ?s"
    by (rule trimSpace_ident) (simp_all add: is_blank_def)
  have "Contains (ToUpper ?s) '' BETWEEN ''" by code_simp
  then have btw: "containsBETWEEN (CHR ''#'' # b @ ?s)"
    using between_in_attr [OF assms(1)] by (simp only: containsBETWEEN_def simp_thms)
  have "CHR '' '' \<notin> set (ToUpper (CHR ''#'' # b))" using assms(1) by (auto simp: attr_text_def)
  moreover have "Index (ToUpper ?s) '' BETWEEN '' = Some 0" by code_simp
  ultimately have idx: "Index (ToUpper (CHR ''#'' # b @ ?s)) '' BETWEEN '' = Some (Suc (length b))"
    using Index_skip [of "CHR '' ''" "ToUpper (CHR ''#'' # b)" "ToUpper ?s" "''BETWEEN ''"]
      ToUpper_append [of "CHR ''#'' # b" ?s] by simp
  have after: "n = length p \<Longrightarrow> s = p @ q \<Longrightarrow> drop n s = q" for n :: nat and p q s :: string by simp
  have rest: "drop (Suc (length b) + 9) (CHR ''#'' # b @ ?s) = '':sk0 AND :sk1''"
    by (rule after [where p = "CHR ''#'' # b @ '' BETWEEN ''"]) simp_all
  have and_idx: "Index (ToUpper '':sk0 AND :sk1'') '' AND '' = Some 4"
    and lo: "trimSpace (take 4 '':sk0 AND :sk1'') = '':sk0''"
    and hi: "trimSpace (drop (4 + 5) '':sk0 AND :sk1'') = '':sk1''"
    by code_simp+
  have attr: "trimSpace (take (Suc (length b)) (CHR ''#'' # b @ ?s)) = CHR ''#'' # b"
    using assms(1) by simp
  have "parseBetween (CHR ''#'' # b @ ?s) nm vs =
    Inr \<lparr>sk_op = ''BETWEEN'', sk_value = lo, sk_value2 = hi, sk_attr = b\<rparr>"
    unfolding parseBetween_def idx option.case Let_def rest and_idx lo hi attr
    by (simp add: resolve_value resolve_attr assms)
  with trim btw show ?thesis by (simp only: parseKeyPart_def Let_def not_begins_with) simp
qed

end
