(* ===== verification/MemRead.thy ===== *)
theory MemRead
  imports KeyCond
begin

text \<open>
  The read operations of the in-memory backend: \<open>GetItem\<close>, \<open>Query\<close>, \<open>Scan\<close>, \<open>BatchGetItem\<close> and
  \<open>TransactGetItems\<close> of \<open>memdb/memdb.go\<close>, with the requests and responses of \<open>backend.go\<close>.

  The response fields \<open>ConsumedCapacity\<close>, which the backend never sets, are left out.  An empty map
  stands for a nil start key, which the code tells apart by its length only.
\<close>

subsection \<open>Requests and responses\<close>

record GetItemRequest =
  gi_TableName :: string
  gi_Key :: item
  gi_ConsistentRead :: bool
  gi_ProjectionExpression :: string
  gi_Names :: names

record QueryRequest =
  q_TableName :: string
  q_IndexName :: string
  q_KeyConditionExpression :: string
  q_FilterExpression :: string
  q_ProjectionExpression :: string
  q_Names :: names
  q_Values :: vals
  q_Limit :: int32
  q_ScanIndexForward :: "bool option"
  q_ExclusiveStartKey :: item
  q_ConsistentRead :: bool

record ScanRequest =
  s_TableName :: string
  s_IndexName :: string
  s_FilterExpression :: string
  s_ProjectionExpression :: string
  s_Names :: names
  s_Values :: vals
  s_Limit :: int32
  s_ExclusiveStartKey :: item
  s_ConsistentRead :: bool

text \<open>\<open>QueryResponse\<close> and \<open>ScanResponse\<close> have the same fields.\<close>

record PageResponse =
  r_Items :: "item list"
  r_Count :: int32
  r_ScannedCount :: int32
  r_LastEvaluatedKey :: item

record KeysAndProjection =
  kp_Keys :: "item list"
  kp_ProjectionExpression :: string
  kp_Names :: names
  kp_ConsistentRead :: bool

record TransactGetItem =
  tg_TableName :: string
  tg_Key :: item
  tg_ProjectionExpression :: string
  tg_Names :: names

subsection \<open>Single items\<close>

text \<open>The common part of the three reads by key: \<open>None\<close> when there is no item.\<close>

definition read_item :: "tableData \<Rightarrow> item \<Rightarrow> string \<Rightarrow> names \<Rightarrow> item option result" where
  "read_item td key projection nm =
     bind (extractKey (td_schema td) key) (\<lambda>(hash, rng).
       Inr (map_option (\<lambda>it. projectItem (deepCopyItem it) projection nm) (getItem hash rng td)))"

definition GetItem :: "GetItemRequest \<Rightarrow> MemoryBackend \<Rightarrow> item option result" where
  "GetItem req m =
     bind (table (gi_TableName req) m) (\<lambda>td.
       read_item td (gi_Key req) (gi_ProjectionExpression req) (gi_Names req))"

subsection \<open>Pages\<close>

definition buildLastEvaluatedKey :: "item \<Rightarrow> KeyDef \<Rightarrow> KeyDef option \<Rightarrow> item" where
  "buildLastEvaluatedKey it hashDef rangeDef =
     (let key = (case fmlookup it (KeyDef_Name hashDef) of
                   Some v \<Rightarrow> fmupd (KeyDef_Name hashDef) (deepCopyAV v) fmempty
                 | None \<Rightarrow> fmempty) in
      case rangeDef of
        None \<Rightarrow> key
      | Some rd \<Rightarrow>
          (case fmlookup it (KeyDef_Name rd) of
             Some v \<Rightarrow> fmupd (KeyDef_Name rd) (deepCopyAV v) key
           | None \<Rightarrow> key))"

text \<open>The elements behind the first one that matches, all of them when none does.\<close>

fun skip_past :: "('a \<Rightarrow> bool) \<Rightarrow> 'a list \<Rightarrow> 'a list option" where
  "skip_past P [] = None"
| "skip_past P (x # xs) = (if P x then Some xs else skip_past P xs)"

definition after_start :: "('a \<Rightarrow> bool) \<Rightarrow> 'a list \<Rightarrow> 'a list" where
  "after_start P xs = (case skip_past P xs of Some ys \<Rightarrow> ys | None \<Rightarrow> xs)"

text \<open>The limit: the candidates kept, and whether there were more.\<close>

definition cut_page :: "int32 \<Rightarrow> 'a list \<Rightarrow> 'a list \<times> bool" where
  "cut_page limit cs =
     (if 0 < sint limit \<and> sint limit < int (length cs) then (take (nat (sint limit)) cs, True)
      else (cs, False))"

text \<open>The last loop of \<open>Query\<close> and \<open>Scan\<close>: filter, then project.\<close>

fun filter_page :: "string \<Rightarrow> string \<Rightarrow> names \<Rightarrow> vals \<Rightarrow> item list \<Rightarrow> item list result" where
  "filter_page fe pe nm vs [] = Inr []"
| "filter_page fe pe nm vs (c # cs) =
     bind (if fe = [] then Inr True else evalCondition fe nm vs c) (\<lambda>matched.
       if \<not> matched then filter_page fe pe nm vs cs
       else bind (filter_page fe pe nm vs cs) (\<lambda>rs. Inr (projectItem (deepCopyItem c) pe nm # rs)))"

definition make_page :: "int32 \<Rightarrow> string \<Rightarrow> string \<Rightarrow> names \<Rightarrow> vals \<Rightarrow> KeyDef \<Rightarrow> KeyDef option \<Rightarrow> item list
    \<Rightarrow> PageResponse result" where
  "make_page limit fe pe nm vs hashDef rangeDef cands =
     (case cut_page limit cands of
        (page, hasMore) \<Rightarrow>
          bind (filter_page fe pe nm vs page) (\<lambda>res.
            Inr \<lparr>r_Items = res, r_Count = word_of_int (int (length res)),
                 r_ScannedCount = word_of_int (int (length page)),
                 r_LastEvaluatedKey =
                   (if hasMore \<and> page \<noteq> [] then buildLastEvaluatedKey (last page) hashDef rangeDef
                    else fmempty)\<rparr>))"

definition empty_page :: PageResponse where
  "empty_page = \<lparr>r_Items = [], r_Count = 0, r_ScannedCount = 0, r_LastEvaluatedKey = fmempty\<rparr>"

subsection \<open>Query\<close>

text \<open>The storage to read and its key schema: the table's, or those of the index named.\<close>

definition read_source :: "string \<Rightarrow> tableData \<Rightarrow> (store \<times> KeyDef \<times> KeyDef option) result" where
  "read_source indexName td =
     (if indexName \<noteq> [] then
        (case fmlookup (td_gsis td) indexName of
           None \<Rightarrow> Inl (newError ErrValidation ''memdb: index does not exist'')
         | Some g \<Rightarrow> Inr (gsi_items g, GSI_HashKey (gsi_schema g), GSI_RangeKey (gsi_schema g)))
      else Inr (td_items td, HashKey (td_schema td), RangeKey (td_schema td)))"

text \<open>The range key string a start key points at.\<close>

definition start_range :: "KeyDef option \<Rightarrow> item \<Rightarrow> string" where
  "start_range rangeDef key =
     (case rangeDef of
        None \<Rightarrow> ''_''
      | Some rd \<Rightarrow> (case fmlookup key (KeyDef_Name rd) of Some rv \<Rightarrow> keyString rv | None \<Rightarrow> ''_''))"

text \<open>The range keys to visit: sorted, reversed on demand, from behind the start key on.\<close>

definition range_keys :: "bool option \<Rightarrow> (string, item) fmap \<Rightarrow> string list" where
  "range_keys forward part =
     (if forward = Some False then rev (sorted_keys part) else sorted_keys part)"

definition query_keys :: "bool option \<Rightarrow> item \<Rightarrow> KeyDef option \<Rightarrow> (string, item) fmap \<Rightarrow> string list" where
  "query_keys forward start rangeDef part =
     (if start = fmempty then range_keys forward part
      else after_start (\<lambda>rk. rk = start_range rangeDef start) (range_keys forward part))"

definition sk_matches :: "sortKeyCondition option \<Rightarrow> KeyDef option \<Rightarrow> item \<Rightarrow> bool" where
  "sk_matches sk rangeDef it =
     (case sk of None \<Rightarrow> True | Some cond \<Rightarrow> matchesSortKeyCondition it cond rangeDef)"

definition query_candidates :: "QueryRequest \<Rightarrow> sortKeyCondition option \<Rightarrow> KeyDef option \<Rightarrow> (string, item) fmap
    \<Rightarrow> item list" where
  "query_candidates req sk rangeDef part =
     filter (sk_matches sk rangeDef)
       (map (\<lambda>rk. the (fmlookup part rk))
         (query_keys (q_ScanIndexForward req) (q_ExclusiveStartKey req) rangeDef part))"

definition Query :: "QueryRequest \<Rightarrow> MemoryBackend \<Rightarrow> PageResponse result" where
  "Query req m =
     bind (table (q_TableName req) m) (\<lambda>td.
       bind (read_source (q_IndexName req) td) (\<lambda>(items, hashDef, rangeDef).
         bind (parseKeyCondition (q_KeyConditionExpression req) (q_Names req) (q_Values req)
                 (KeyDef_Name hashDef) rangeDef) (\<lambda>(pk, sk).
           case fmlookup items (keyString pk) of
             None \<Rightarrow> Inr empty_page
           | Some part \<Rightarrow>
               make_page (q_Limit req) (q_FilterExpression req) (q_ProjectionExpression req)
                 (q_Names req) (q_Values req) (HashKey (td_schema td)) (RangeKey (td_schema td))
                 (query_candidates req sk rangeDef part))))"

subsection \<open>Scan\<close>

definition scan_refs :: "store \<Rightarrow> (string \<times> string) list" where
  "scan_refs items =
     concat (map (\<lambda>hk. map (\<lambda>rk. (hk, rk)) (sorted_keys (the (fmlookup items hk)))) (sorted_keys items))"

definition start_hash :: "KeyDef \<Rightarrow> item \<Rightarrow> string" where
  "start_hash hashDef key =
     (case fmlookup key (KeyDef_Name hashDef) of Some hv \<Rightarrow> keyString hv | None \<Rightarrow> [])"

definition scan_keys :: "item \<Rightarrow> KeyDef \<Rightarrow> KeyDef option \<Rightarrow> store \<Rightarrow> (string \<times> string) list" where
  "scan_keys start hashDef rangeDef items =
     (if start = fmempty then scan_refs items
      else after_start (\<lambda>ref. fst ref = start_hash hashDef start \<and> snd ref = start_range rangeDef start)
             (scan_refs items))"

definition scan_candidates :: "ScanRequest \<Rightarrow> KeyDef \<Rightarrow> KeyDef option \<Rightarrow> store \<Rightarrow> item list" where
  "scan_candidates req hashDef rangeDef items =
     map (\<lambda>ref. the (kget ref items)) (scan_keys (s_ExclusiveStartKey req) hashDef rangeDef items)"

definition Scan :: "ScanRequest \<Rightarrow> MemoryBackend \<Rightarrow> PageResponse result" where
  "Scan req m =
     bind (table (s_TableName req) m) (\<lambda>td.
       bind (read_source (s_IndexName req) td) (\<lambda>(items, hashDef, rangeDef).
         make_page (s_Limit req) (s_FilterExpression req) (s_ProjectionExpression req)
           (s_Names req) (s_Values req) hashDef rangeDef (scan_candidates req hashDef rangeDef items)))"

subsection \<open>Batches and transactions\<close>

text \<open>
  A Go map is visited in no fixed order; the requests come in the order of the visit.  An operation
  that fails stops the loop.
\<close>

fun read_items :: "tableData \<Rightarrow> KeysAndProjection \<Rightarrow> item list \<Rightarrow> item list result" where
  "read_items td kp [] = Inr []"
| "read_items td kp (key # keys) =
     bind (read_item td key (kp_ProjectionExpression kp) (kp_Names kp)) (\<lambda>r.
       bind (read_items td kp keys) (\<lambda>rs. Inr (case r of Some it \<Rightarrow> it # rs | None \<Rightarrow> rs)))"

fun batch_get_tables :: "(string \<times> KeysAndProjection) list \<Rightarrow> MemoryBackend \<Rightarrow> (string, item list) fmap
    \<Rightarrow> (string, item list) fmap result" where
  "batch_get_tables [] m responses = Inr responses"
| "batch_get_tables ((tableName, kp) # reqs) m responses =
     bind (table tableName m) (\<lambda>td.
       bind (read_items td kp (kp_Keys kp)) (\<lambda>items.
         batch_get_tables reqs m (if items \<noteq> [] then fmupd tableName items responses else responses)))"

definition BatchGetItem :: "(string \<times> KeysAndProjection) list \<Rightarrow> MemoryBackend \<Rightarrow> (string, item list) fmap result" where
  "BatchGetItem reqs m =
     (if sum_list (map (\<lambda>(_, kp). length (kp_Keys kp)) reqs) > 100
      then Inl (newError ErrValidation ''memdb: BatchGetItem exceeds maximum of 100 keys'')
      else batch_get_tables reqs m fmempty)"

text \<open>\<open>TransactGetItems\<close> resolves all tables first; a response is nil where there is no item.\<close>

fun resolve_tables :: "string list \<Rightarrow> MemoryBackend \<Rightarrow> tableData list result" where
  "resolve_tables [] m = Inr []"
| "resolve_tables (t # ts) m =
     bind (table t m) (\<lambda>td. bind (resolve_tables ts m) (\<lambda>tds. Inr (td # tds)))"

fun transact_get :: "(TransactGetItem \<times> tableData) list \<Rightarrow> item option list result" where
  "transact_get [] = Inr []"
| "transact_get ((tgi, td) # rest) =
     bind (read_item td (tg_Key tgi) (tg_ProjectionExpression tgi) (tg_Names tgi)) (\<lambda>r.
       bind (transact_get rest) (\<lambda>rs. Inr (r # rs)))"

definition TransactGetItems :: "TransactGetItem list \<Rightarrow> MemoryBackend \<Rightarrow> item option list result" where
  "TransactGetItems tgis m =
     (if length tgis > 100 then
        Inl (newError ErrValidation ''memdb: TransactGetItems exceeds maximum of 100 operations'')
      else bind (resolve_tables (map tg_TableName tgis) m) (\<lambda>tds. transact_get (zip tgis tds)))"

subsection \<open>Filtering\<close>

definition passes :: "string \<Rightarrow> names \<Rightarrow> vals \<Rightarrow> item \<Rightarrow> bool" where
  "passes fe nm vs it \<longleftrightarrow> fe = [] \<or> evalCondition fe nm vs it = Inr True"

lemma filter_page_Inr:
  "filter_page fe pe nm vs cs = Inr rs \<Longrightarrow>
   rs = map (\<lambda>c. projectItem c pe nm) (filter (passes fe nm vs) cs)"
  by (induction cs arbitrary: rs) (auto simp: bind_Inr_iff passes_def split: if_splits)

lemma filter_page_Inl:
  "filter_page fe pe nm vs cs = Inl e \<Longrightarrow> \<exists>c \<in> set cs. evalCondition fe nm vs c = Inl e"
  by (induction cs) (auto simp: bind_Inl_iff split: if_splits)

lemma filter_page_append:
  "filter_page fe pe nm vs (cs @ ds) =
     bind (filter_page fe pe nm vs cs) (\<lambda>rs. bind (filter_page fe pe nm vs ds) (\<lambda>ss. Inr (rs @ ss)))"
proof (induction cs)
  case Nil
  show ?case by (cases "filter_page fe pe nm vs ds") auto
next
  case (Cons c cs)
  then show ?case by (auto simp: bind_assoc bind_def split: sum.splits)
qed

subsection \<open>The interface of paged reads\<close>

text \<open>
  A read visits keys in a fixed order and resumes behind the key a start key points at.  If the start
  key made from a visited item points at that item's key and no other, then every page continues where
  the last one ended.
\<close>

lemma take_filter_split:
  assumes "0 < n" "n \<le> length (filter Q xs)"
  obtains us k vs where "xs = us @ k # vs" "take n (filter Q xs) = filter Q us @ [k]"
    "drop n (filter Q xs) = filter Q vs" "Q k"
proof -
  have "\<exists>us k vs. xs = us @ k # vs \<and> take n (filter Q xs) = filter Q us @ [k] \<and>
      drop n (filter Q xs) = filter Q vs \<and> Q k"
    using assms
  proof (induction xs arbitrary: n)
    case (Cons x xs)
    show ?case
    proof (cases "Q x \<and> n = 1")
      case True
      then show ?thesis by (intro exI [of _ "[]"]) simp
    next
      case False
      let ?m = "if Q x then n - 1 else n"
      from Cons.prems False have "0 < ?m" "?m \<le> length (filter Q xs)" by (auto split: if_splits)
      from Cons.IH [OF this] obtain us k vs where ih: "xs = us @ k # vs"
        "take ?m (filter Q xs) = filter Q us @ [k]" "drop ?m (filter Q xs) = filter Q vs" "Q k"
        by blast
      then have "take n (filter Q (x # xs)) = filter Q (x # us) @ [k]"
        "drop n (filter Q (x # xs)) = filter Q vs"
        using Cons.prems False by (cases n; auto)+
      with ih show ?thesis by (metis append_Cons)
    qed
  qed simp
  with that show thesis by blast
qed

lemma skip_past_append: "(\<And>x. x \<in> set us \<Longrightarrow> \<not> P x) \<Longrightarrow> P k \<Longrightarrow> skip_past P (us @ k # vs) = Some vs"
  by (induction us) auto

lemma skip_past_suffix: "skip_past P xs = Some ys \<Longrightarrow> \<exists>pre. xs = pre @ ys"
  by (induction xs) (auto split: if_splits intro: exI [of _ "_ # _"])

lemma after_start_suffix: "\<exists>pre. xs = pre @ after_start P xs"
  by (auto simp: after_start_def split: option.split dest: skip_past_suffix)

text \<open>A reader that follows the start keys until a page has none.\<close>

fun read_pages :: "nat \<Rightarrow> (item \<Rightarrow> PageResponse result) \<Rightarrow> item \<Rightarrow> item list result" where
  "read_pages 0 get_page start = Inl OutOfFuel"
| "read_pages (Suc n) get_page start =
     bind (get_page start) (\<lambda>resp.
       if r_LastEvaluatedKey resp = fmempty then Inr (r_Items resp)
       else bind (read_pages n get_page (r_LastEvaluatedKey resp)) (\<lambda>rs. Inr (r_Items resp @ rs)))"

definition page_of :: "(item \<Rightarrow> item) \<Rightarrow> int32 \<Rightarrow> string \<Rightarrow> string \<Rightarrow> names \<Rightarrow> vals \<Rightarrow> item list \<Rightarrow> PageResponse result" where
  "page_of start_of limit fe pe nm vs cs =
     (case cut_page limit cs of
        (page, hasMore) \<Rightarrow>
          bind (filter_page fe pe nm vs page) (\<lambda>res.
            Inr \<lparr>r_Items = res, r_Count = word_of_int (int (length res)),
                 r_ScannedCount = word_of_int (int (length page)),
                 r_LastEvaluatedKey = (if hasMore \<and> page \<noteq> [] then start_of (last page) else fmempty)\<rparr>))"

lemma make_page_eq:
  "make_page limit fe pe nm vs hdef rdef cs = page_of (\<lambda>it. buildLastEvaluatedKey it hdef rdef) limit fe pe nm vs cs"
  by (simp add: make_page_def page_of_def)

lemma page_of_unlimited:
  "bind (page_of f 0 fe pe nm vs cs) (\<lambda>resp. Inr (r_Items resp)) = filter_page fe pe nm vs cs"
  by (cases "filter_page fe pe nm vs cs") (simp_all add: page_of_def cut_page_def)

locale paged_read =
  fixes visit :: "'s \<Rightarrow> 'k list"
    and item_at :: "'s \<Rightarrow> 'k \<Rightarrow> item"
    and start_of :: "'s \<Rightarrow> item \<Rightarrow> item"
    and points :: "'s \<Rightarrow> item \<Rightarrow> 'k \<Rightarrow> bool"
    and ok :: "'s \<Rightarrow> bool"
  assumes distinct_visit: "ok s \<Longrightarrow> distinct (visit s)"
    and start_nonempty: "ok s \<Longrightarrow> k \<in> set (visit s) \<Longrightarrow> start_of s (item_at s k) \<noteq> fmempty"
    and start_points: "ok s \<Longrightarrow> k \<in> set (visit s) \<Longrightarrow> j \<in> set (visit s) \<Longrightarrow>
      points s (start_of s (item_at s k)) j \<longleftrightarrow> j = k"
begin

definition remaining :: "'s \<Rightarrow> item \<Rightarrow> 'k list" where
  "remaining s start = (if start = fmempty then visit s else after_start (points s start) (visit s))"

definition cands :: "'s \<Rightarrow> (item \<Rightarrow> bool) \<Rightarrow> item \<Rightarrow> item list" where
  "cands s keep start = filter keep (map (item_at s) (remaining s start))"

lemma remaining_suffix: "\<exists>pre. visit s = pre @ remaining s start"
  using after_start_suffix by (auto simp: remaining_def)

text \<open>The page after a full one continues behind it.\<close>

lemma next_page:
  assumes "ok s" "0 < n" "n \<le> length (cands s keep start)"
  defines "next \<equiv> start_of s (last (take n (cands s keep start)))"
  shows "cands s keep next = drop n (cands s keep start)" "next \<noteq> fmempty"
proof -
  let ?Q = "keep \<circ> item_at s"
  obtain pre where pre: "visit s = pre @ remaining s start" using remaining_suffix by blast
  have c: "cands s keep start = map (item_at s) (filter ?Q (remaining s start))"
    by (simp add: cands_def filter_map)
  with assms have "n \<le> length (filter ?Q (remaining s start))" by simp
  from take_filter_split [OF assms(2) this] obtain us k vs where
    split: "remaining s start = us @ k # vs" "take n (filter ?Q (remaining s start)) = filter ?Q us @ [k]"
    "drop n (filter ?Q (remaining s start)) = filter ?Q vs"
    by blast
  have "take n (cands s keep start) = map (item_at s) (filter ?Q us @ [k])"
    by (simp only: c take_map split(2))
  then have "next": "next = start_of s (item_at s k)" by (simp add: next_def)
  have visit: "visit s = (pre @ us) @ k # vs" using pre split by simp
  then show ne: "next \<noteq> fmempty" using start_nonempty [OF assms(1), of k] "next" by simp
  have "skip_past (points s next) ((pre @ us) @ k # vs) = Some vs"
  proof (rule skip_past_append)
    show "points s next k" using start_points [OF assms(1)] visit "next" by simp
    fix x
    assume "x \<in> set (pre @ us)"
    then show "\<not> points s next x"
      using start_points [OF assms(1), of k x] distinct_visit [OF assms(1)] visit "next" by auto
  qed
  then have "remaining s next = vs" by (simp add: remaining_def after_start_def visit ne)
  then show "cands s keep next = drop n (cands s keep start)"
    by (simp add: cands_def c drop_map split(3) filter_map)
qed

text \<open>Whatever the limit, the pages together are the read without one, errors included.\<close>

lemma pages_complete:
  assumes "ok s" "length (cands s keep start) < fuel"
  shows "read_pages fuel (\<lambda>st. page_of (start_of s) limit fe pe nm vs (cands s keep st)) start =
    filter_page fe pe nm vs (cands s keep start)"
  using assms(2)
proof (induction fuel arbitrary: start)
  case (Suc fuel)
  let ?cs = "cands s keep start"
  show ?case
  proof (cases "0 < sint limit \<and> sint limit < int (length ?cs)")
    case True
    define n where "n = nat (sint limit)"
    from True have n: "0 < n" "n \<le> length ?cs" and ne: "take n ?cs \<noteq> []" by (auto simp: n_def)
    note step = next_page [OF assms(1) n]
    have IH: "read_pages fuel (\<lambda>st. page_of (start_of s) limit fe pe nm vs (cands s keep st))
        (start_of s (last (take n ?cs))) = filter_page fe pe nm vs (drop n ?cs)"
      using Suc.IH [of "start_of s (last (take n ?cs))"] Suc.prems n step(1) by simp
    have "cut_page limit ?cs = (take n ?cs, True)" using True by (simp add: cut_page_def n_def)
    moreover have "filter_page fe pe nm vs ?cs = bind (filter_page fe pe nm vs (take n ?cs))
        (\<lambda>rs. bind (filter_page fe pe nm vs (drop n ?cs)) (\<lambda>ss. Inr (rs @ ss)))"
      using filter_page_append [of fe pe nm vs "take n ?cs" "drop n ?cs"] by simp
    ultimately show ?thesis
      using step(2) ne IH by (simp add: page_of_def bind_assoc)
  next
    case False
    then have "cut_page limit ?cs = (?cs, False)" by (auto simp: cut_page_def)
    then show ?thesis
      by (cases "filter_page fe pe nm vs ?cs") (simp_all add: page_of_def)
  qed
qed simp

end

subsection \<open>Queries and scans of a table are paged reads\<close>

text \<open>A start key made from a stored item leads back to the item's keys.\<close>

lemma start_of_stored:
  assumes "extractKey sch it = Inr (h, r)"
  shows "start_hash (HashKey sch) (buildLastEvaluatedKey it (HashKey sch) (RangeKey sch)) = h"
    and "start_range (RangeKey sch) (buildLastEvaluatedKey it (HashKey sch) (RangeKey sch)) = r"
    and "buildLastEvaluatedKey it (HashKey sch) (RangeKey sch) \<noteq> fmempty"
proof -
  show "start_hash (HashKey sch) (buildLastEvaluatedKey it (HashKey sch) (RangeKey sch)) = h"
    "start_range (RangeKey sch) (buildLastEvaluatedKey it (HashKey sch) (RangeKey sch)) = r"
    using assms
    by (auto simp: extractKey_def buildLastEvaluatedKey_def start_hash_def start_range_def
        split: option.splits if_splits)
  have "fmlookup (buildLastEvaluatedKey it (HashKey sch) (RangeKey sch)) (KeyDef_Name (HashKey sch)) \<noteq> None"
    using assms by (auto simp: extractKey_def buildLastEvaluatedKey_def split: option.splits if_splits)
  then show "buildLastEvaluatedKey it (HashKey sch) (RangeKey sch) \<noteq> fmempty" by auto
qed

definition part_of :: "tableData \<Rightarrow> string \<Rightarrow> (string, item) fmap" where
  "part_of td h = (case fmlookup (td_items td) h of Some p \<Rightarrow> p | None \<Rightarrow> fmempty)"

definition table_start :: "tableData \<Rightarrow> item \<Rightarrow> item" where
  "table_start td it = buildLastEvaluatedKey it (HashKey (td_schema td)) (RangeKey (td_schema td))"

lemma set_range_keys: "set (range_keys fwd p) = fmdom' p"
  by (simp add: range_keys_def)

lemma part_of_kget: "fmlookup (part_of td h) r = kget (h, r) (td_items td)"
  by (simp add: part_of_def kget_def store_get_def split: option.split)

lemma part_of_key:
  "keys_ok td \<Longrightarrow> fmlookup (part_of td h) r = Some it \<Longrightarrow> extractKey (td_schema td) it = Inr (h, r)"
  by (simp add: part_of_kget keys_okD)

interpretation qp: paged_read
  "\<lambda>(td, h, fwd). range_keys fwd (part_of td h)"
  "\<lambda>(td, h, fwd) rk. the (fmlookup (part_of td h) rk)"
  "\<lambda>(td, h, fwd). table_start td"
  "\<lambda>(td, h, fwd) start rk. rk = start_range (RangeKey (td_schema td)) start"
  "\<lambda>(td, h, fwd). keys_ok td"
proof (unfold_locales, goal_cases)
  case (1 s)
  then show ?case by (auto simp: range_keys_def)
next
  case (2 s k)
  then show ?case
    by (auto simp: table_start_def set_range_keys fmlookup_dom'_iff dest!: part_of_key start_of_stored(3))
next
  case (3 s k j)
  then show ?case
    by (auto simp: table_start_def set_range_keys fmlookup_dom'_iff dest!: part_of_key start_of_stored(2))
qed

lemma set_scan_refs: "set (scan_refs st) = {k. kget k st \<noteq> None}"
proof -
  have "(h, r) \<in> set (scan_refs st) \<longleftrightarrow> h \<in> fmdom' st \<and> r \<in> fmdom' (the (fmlookup st h))" for h r
    by (auto simp: scan_refs_def)
  then have "(h, r) \<in> set (scan_refs st) \<longleftrightarrow> kget (h, r) st \<noteq> None" for h r
    by (auto simp: kget_def store_get_def fmlookup_dom'_iff split: option.splits)
  then show ?thesis by auto
qed

lemma distinct_scan_refs: "distinct (scan_refs st)"
proof -
  have "distinct hs \<Longrightarrow> distinct (concat (map (\<lambda>hk. map (\<lambda>rk. (hk, rk)) (sorted_keys (the (fmlookup st hk)))) hs))" for hs
    by (induction hs) (auto simp: distinct_map inj_on_def)
  then show ?thesis by (simp add: scan_refs_def)
qed

interpretation sp: paged_read
  "\<lambda>td. scan_refs (td_items td)"
  "\<lambda>td k. the (kget k (td_items td))"
  table_start
  "\<lambda>td start k. fst k = start_hash (HashKey (td_schema td)) start \<and> snd k = start_range (RangeKey (td_schema td)) start"
  keys_ok
proof (unfold_locales, goal_cases)
  case (1 s)
  show ?case by (rule distinct_scan_refs)
next
  case (2 s k)
  then obtain it where "kget k (td_items s) = Some it" by (auto simp: set_scan_refs)
  with keys_okD [OF 2(1) this] show ?case
    by (cases k) (auto simp: table_start_def dest: start_of_stored(3))
next
  case (3 s k j)
  then obtain it where "kget k (td_items s) = Some it" by (auto simp: set_scan_refs)
  with keys_okD [OF 3(1) this] show ?case
    by (cases k) (auto simp: table_start_def prod_eq_iff start_of_stored)
qed

text \<open>The candidates of the two operations are those of the interface.\<close>

lemma query_candidates_eq:
  "query_candidates req sk (RangeKey (td_schema td)) (part_of td h) =
     qp.cands (td, h, q_ScanIndexForward req) (sk_matches sk (RangeKey (td_schema td))) (q_ExclusiveStartKey req)"
  by (simp add: query_candidates_def qp.cands_def qp.remaining_def query_keys_def)

lemma scan_candidates_eq:
  "scan_candidates req (HashKey (td_schema td)) (RangeKey (td_schema td)) (td_items td) =
     sp.cands td (\<lambda>_. True) (s_ExclusiveStartKey req)"
  by (simp add: scan_candidates_def sp.cands_def sp.remaining_def scan_keys_def)

text \<open>The number of items in a table bounds the number of pages.\<close>

definition item_count :: "tableData \<Rightarrow> nat" where
  "item_count td = length (scan_refs (td_items td))"

lemma length_scan_cands: "length (sp.cands td keep start) \<le> item_count td"
proof -
  obtain pre where "scan_refs (td_items td) = pre @ sp.remaining td start"
    using sp.remaining_suffix by blast
  from arg_cong [OF this, where f = length]
  have "length (sp.remaining td start) \<le> item_count td" by (simp add: item_count_def)
  moreover have "length (sp.cands td keep start) \<le> length (sp.remaining td start)"
    unfolding sp.cands_def by (rule order.trans [OF length_filter_le]) simp
  ultimately show ?thesis by simp
qed

lemma length_range_keys: "length (range_keys fwd (part_of td h)) \<le> item_count td"
proof -
  let ?p = "part_of td h"
  have "distinct (range_keys fwd ?p)" by (simp add: range_keys_def)
  then have "length (range_keys fwd ?p) = card (fmdom' ?p)"
    by (metis distinct_card set_range_keys)
  also have "\<dots> = card ((\<lambda>r. (h, r)) ` fmdom' ?p)" by (simp add: card_image inj_on_def)
  also have "\<dots> \<le> card (set (scan_refs (td_items td)))"
    by (rule card_mono [OF finite_set]) (auto simp: set_scan_refs part_of_kget [symmetric] fmlookup_dom'_iff)
  also have "\<dots> \<le> item_count td" unfolding item_count_def by (rule card_length)
  finally show ?thesis .
qed

lemma length_query_cands: "length (qp.cands (td, h, fwd) keep start) \<le> item_count td"
proof -
  obtain pre where "range_keys fwd (part_of td h) = pre @ qp.remaining (td, h, fwd) start"
    using qp.remaining_suffix [of "(td, h, fwd)" start] by auto
  from arg_cong [OF this, where f = length] length_range_keys [of fwd td h]
  have "length (qp.remaining (td, h, fwd) start) \<le> item_count td" by simp
  moreover have "length (qp.cands (td, h, fwd) keep start) \<le> length (qp.remaining (td, h, fwd) start)"
    unfolding qp.cands_def by (rule order.trans [OF length_filter_le]) simp
  ultimately show ?thesis by simp
qed

lemma query_pages:
  assumes "fmlookup m (q_TableName req) = Some td" "keys_ok td" "q_IndexName req = []" "item_count td < fuel"
  shows "read_pages fuel (\<lambda>st. Query (req\<lparr>q_ExclusiveStartKey := st\<rparr>) m) start =
    bind (Query (req\<lparr>q_ExclusiveStartKey := start, q_Limit := 0\<rparr>) m) (\<lambda>resp. Inr (r_Items resp))"
proof (cases "parseKeyCondition (q_KeyConditionExpression req) (q_Names req) (q_Values req)
    (KeyDef_Name (HashKey (td_schema td))) (RangeKey (td_schema td))")
  case (Inl e)
  with assms show ?thesis by (cases fuel) (simp_all add: Query_def table_def read_source_def)
next
  case (Inr p)
  obtain pk sk where p: "p = (pk, sk)" by (cases p)
  show ?thesis
  proof (cases "fmlookup (td_items td) (keyString pk)")
    case None
    with assms Inr p show ?thesis
      by (cases fuel) (simp_all add: Query_def table_def read_source_def empty_page_def)
  next
    case (Some part)
    define s where "s = (td, keyString pk, q_ScanIndexForward req)"
    let ?keep = "sk_matches sk (RangeKey (td_schema td))"
    have part: "part = part_of td (keyString pk)" using Some by (simp add: part_of_def)
    have page: "Query (req\<lparr>q_ExclusiveStartKey := st, q_Limit := l\<rparr>) m =
        page_of (table_start td) l (q_FilterExpression req) (q_ProjectionExpression req) (q_Names req)
          (q_Values req) (qp.cands s ?keep st)" for st l
      using assms Inr p Some
      by (simp add: Query_def table_def read_source_def make_page_eq table_start_def [abs_def] part query_candidates_eq s_def)
    have limited: "Query (req\<lparr>q_ExclusiveStartKey := st\<rparr>) m =
        page_of (table_start td) (q_Limit req) (q_FilterExpression req) (q_ProjectionExpression req) (q_Names req)
          (q_Values req) (qp.cands s ?keep st)" for st
      using page [of "q_Limit req" st] by simp
    have "length (qp.cands s ?keep start) < fuel"
      using length_query_cands assms(4) unfolding s_def by (rule le_less_trans)
    from qp.pages_complete [OF _ this] assms(2) show ?thesis
      unfolding limited page by (simp add: page_of_unlimited s_def)
  qed
qed

lemma scan_pages:
  assumes "fmlookup m (s_TableName req) = Some td" "keys_ok td" "s_IndexName req = []" "item_count td < fuel"
  shows "read_pages fuel (\<lambda>st. Scan (req\<lparr>s_ExclusiveStartKey := st\<rparr>) m) start =
    bind (Scan (req\<lparr>s_ExclusiveStartKey := start, s_Limit := 0\<rparr>) m) (\<lambda>resp. Inr (r_Items resp))"
proof -
  have page: "Scan (req\<lparr>s_ExclusiveStartKey := st, s_Limit := l\<rparr>) m =
      page_of (table_start td) l (s_FilterExpression req) (s_ProjectionExpression req) (s_Names req)
        (s_Values req) (sp.cands td (\<lambda>_. True) st)" for st l
    using assms
    by (simp add: Scan_def table_def read_source_def make_page_eq table_start_def [abs_def] scan_candidates_eq)
  have limited: "Scan (req\<lparr>s_ExclusiveStartKey := st\<rparr>) m =
      page_of (table_start td) (s_Limit req) (s_FilterExpression req) (s_ProjectionExpression req) (s_Names req)
        (s_Values req) (sp.cands td (\<lambda>_. True) st)" for st
    using page [of "s_Limit req" st] by simp
  have "length (sp.cands td (\<lambda>_. True) start) < fuel"
    using length_scan_cands assms(4) by (rule le_less_trans)
  from sp.pages_complete [OF assms(2) this] show ?thesis
    unfolding limited page by (simp add: page_of_unlimited)
qed

end
