(* ===== verification/MemWrite.thy ===== *)
theory MemWrite
  imports MemRead
begin

text \<open>
  The write operations of the in-memory backend: \<open>PutItem\<close>, \<open>DeleteItem\<close>, \<open>UpdateItem\<close>, \<open>BatchWriteItem\<close> and
  \<open>TransactWriteItems\<close> of \<open>memdb/memdb.go\<close>.

  The single-item operations change nothing before their last point of failure, so they return the new
  backend or an error.  The other two can fail half-way: they return the outcome and the backend they
  leave behind.
\<close>

subsection \<open>Requests\<close>

record PutItemRequest =
  pi_TableName :: string
  pi_Item :: item
  pi_ConditionExpression :: string
  pi_Names :: names
  pi_Values :: vals
  pi_ReturnValues :: string

record DeleteItemRequest =
  di_TableName :: string
  di_Key :: item
  di_ConditionExpression :: string
  di_Names :: names
  di_Values :: vals
  di_ReturnValues :: string

record UpdateItemRequest =
  ui_TableName :: string
  ui_Key :: item
  ui_UpdateExpression :: string
  ui_ConditionExpression :: string
  ui_Names :: names
  ui_Values :: vals
  ui_ReturnValues :: string

text \<open>\<open>WriteRequest\<close> and \<open>TransactWriteItem\<close> are structs of pointers, of which one should be set.\<close>

record WriteRequest =
  wr_PutItem :: "item option"
  wr_DeleteItem :: "item option"

record TransactPut =
  tp_TableName :: string
  tp_Item :: item
  tp_ConditionExpression :: string
  tp_Names :: names
  tp_Values :: vals

record TransactDelete =
  tdel_TableName :: string
  tdel_Key :: item
  tdel_ConditionExpression :: string
  tdel_Names :: names
  tdel_Values :: vals

record TransactUpdate =
  tu_TableName :: string
  tu_Key :: item
  tu_UpdateExpression :: string
  tu_ConditionExpression :: string
  tu_Names :: names
  tu_Values :: vals

record TransactConditionCheck =
  tc_TableName :: string
  tc_Key :: item
  tc_ConditionExpression :: string
  tc_Names :: names
  tc_Values :: vals

record TransactWriteItem =
  tw_Put :: "TransactPut option"
  tw_Delete :: "TransactDelete option"
  tw_Update :: "TransactUpdate option"
  tw_ConditionCheck :: "TransactConditionCheck option"

subsection \<open>Single items\<close>

text \<open>The condition of a write, evaluated on the existing item or on an empty one.\<close>

definition existing_or_empty :: "item option \<Rightarrow> item" where
  "existing_or_empty oit = (case oit of Some it \<Rightarrow> it | None \<Rightarrow> fmempty)"

definition condition_failed :: error where
  "condition_failed = newError ErrConditionFailed ''memdb: condition check failed''"

definition check_condition :: "string \<Rightarrow> names \<Rightarrow> vals \<Rightarrow> item option \<Rightarrow> unit result" where
  "check_condition expression nm vs existing =
     (if expression = [] then Inr ()
      else bind (evalCondition expression nm vs (existing_or_empty existing)) (\<lambda>ok.
             if ok then Inr () else Inl condition_failed))"

definition put_table :: "PutItemRequest \<Rightarrow> tableData \<Rightarrow> tableData result" where
  "put_table req td =
     bind (extractKey (td_schema td) (pi_Item req)) (\<lambda>(hash, rng).
       bind (check_condition (pi_ConditionExpression req) (pi_Names req) (pi_Values req) (getItem hash rng td)) (\<lambda>_.
         Inr (put_at hash rng (pi_Item req) td)))"

definition PutItem :: "PutItemRequest \<Rightarrow> MemoryBackend \<Rightarrow> MemoryBackend result" where
  "PutItem req m =
     bind (table (pi_TableName req) m) (\<lambda>td.
       bind (put_table req td) (\<lambda>td'. Inr (fmupd (pi_TableName req) td' m)))"

definition delete_table :: "DeleteItemRequest \<Rightarrow> tableData \<Rightarrow> tableData result" where
  "delete_table req td =
     bind (extractKey (td_schema td) (di_Key req)) (\<lambda>(hash, rng).
       bind (check_condition (di_ConditionExpression req) (di_Names req) (di_Values req) (getItem hash rng td)) (\<lambda>_.
         Inr (delete_at hash rng td)))"

definition DeleteItem :: "DeleteItemRequest \<Rightarrow> MemoryBackend \<Rightarrow> MemoryBackend result" where
  "DeleteItem req m =
     bind (table (di_TableName req) m) (\<lambda>td.
       bind (delete_table req td) (\<lambda>td'. Inr (fmupd (di_TableName req) td' m)))"

text \<open>The item an update expression makes from the existing one, or from the key.\<close>

definition updated_item :: "string \<Rightarrow> names \<Rightarrow> vals \<Rightarrow> item \<Rightarrow> item option \<Rightarrow> item result" where
  "updated_item expression nm vs key existing =
     (let it = (case existing of Some e \<Rightarrow> deepCopyItem e | None \<Rightarrow> deepCopyItem key) in
      if expression = [] then Inr it
      else bind (parseUpdateExpression expression nm vs) (\<lambda>ops. evalUpdateNodes ops it))"

definition update_table :: "UpdateItemRequest \<Rightarrow> tableData \<Rightarrow> (item option \<times> tableData) result" where
  "update_table req td =
     bind (extractKey (td_schema td) (ui_Key req)) (\<lambda>(hash, rng).
       let existing = getItem hash rng td in
       bind (check_condition (ui_ConditionExpression req) (ui_Names req) (ui_Values req) existing) (\<lambda>_.
         bind (updated_item (ui_UpdateExpression req) (ui_Names req) (ui_Values req) (ui_Key req) existing) (\<lambda>it.
           Inr (if ui_ReturnValues req = ''ALL_NEW'' then Some (deepCopyItem it)
                else if ui_ReturnValues req = ''ALL_OLD'' then map_option deepCopyItem existing
                else None,
                put_at hash rng it td))))"

definition UpdateItem :: "UpdateItemRequest \<Rightarrow> MemoryBackend \<Rightarrow> (item option \<times> MemoryBackend) result" where
  "UpdateItem req m =
     bind (table (ui_TableName req) m) (\<lambda>td.
       bind (update_table req td) (\<lambda>(attrs, td'). Inr (attrs, fmupd (ui_TableName req) td' m)))"

subsection \<open>Batches\<close>

text \<open>One write of a batch; the switch takes the put first.\<close>

definition batch_write1 :: "WriteRequest \<Rightarrow> tableData \<Rightarrow> tableData result" where
  "batch_write1 wr td =
     (case wr_PutItem wr of
        Some it \<Rightarrow> bind (extractKey (td_schema td) it) (\<lambda>(hash, rng). Inr (put_at hash rng it td))
      | None \<Rightarrow>
          (case wr_DeleteItem wr of
             Some key \<Rightarrow> bind (extractKey (td_schema td) key) (\<lambda>(hash, rng). Inr (delete_at hash rng td))
           | None \<Rightarrow> Inr td))"

fun batch_writes :: "WriteRequest list \<Rightarrow> tableData \<Rightarrow> unit result \<times> tableData" where
  "batch_writes [] td = (Inr (), td)"
| "batch_writes (wr # wrs) td =
     (case batch_write1 wr td of Inl e \<Rightarrow> (Inl e, td) | Inr td' \<Rightarrow> batch_writes wrs td')"

text \<open>The tables of the request, in the order the loop visits them.\<close>

fun batch_write_tables :: "(string \<times> WriteRequest list) list \<Rightarrow> MemoryBackend \<Rightarrow> unit result \<times> MemoryBackend" where
  "batch_write_tables [] m = (Inr (), m)"
| "batch_write_tables ((tableName, wrs) # reqs) m =
     (case table tableName m of
        Inl e \<Rightarrow> (Inl e, m)
      | Inr td \<Rightarrow>
          (case batch_writes wrs td of
             (Inl e, td') \<Rightarrow> (Inl e, fmupd tableName td' m)
           | (Inr _, td') \<Rightarrow> batch_write_tables reqs (fmupd tableName td' m)))"

definition BatchWriteItem :: "(string \<times> WriteRequest list) list \<Rightarrow> MemoryBackend \<Rightarrow> unit result \<times> MemoryBackend" where
  "BatchWriteItem reqs m =
     (if sum_list (map (\<lambda>(_, wrs). length wrs) reqs) > 25
      then (Inl (newError ErrValidation ''memdb: BatchWriteItem exceeds maximum of 25 operations''), m)
      else batch_write_tables reqs m)"

subsection \<open>Transactions\<close>

definition txWriteTableName :: "TransactWriteItem \<Rightarrow> string" where
  "txWriteTableName twi =
     (case tw_Put twi of Some p \<Rightarrow> tp_TableName p
      | None \<Rightarrow> (case tw_Delete twi of Some d \<Rightarrow> tdel_TableName d
      | None \<Rightarrow> (case tw_Update twi of Some u \<Rightarrow> tu_TableName u
      | None \<Rightarrow> (case tw_ConditionCheck twi of Some c \<Rightarrow> tc_TableName c
      | None \<Rightarrow> []))))"

text \<open>The condition, its names and values, and the key of an operation.\<close>

definition tx_condition :: "TransactWriteItem \<Rightarrow> string \<times> names \<times> vals \<times> item" where
  "tx_condition twi =
     (case tw_Put twi of
        Some p \<Rightarrow> (tp_ConditionExpression p, tp_Names p, tp_Values p, tp_Item p)
      | None \<Rightarrow> (case tw_Delete twi of
        Some d \<Rightarrow> (tdel_ConditionExpression d, tdel_Names d, tdel_Values d, tdel_Key d)
      | None \<Rightarrow> (case tw_Update twi of
        Some u \<Rightarrow> (tu_ConditionExpression u, tu_Names u, tu_Values u, tu_Key u)
      | None \<Rightarrow> (case tw_ConditionCheck twi of
        Some c \<Rightarrow> (tc_ConditionExpression c, tc_Names c, tc_Values c, tc_Key c)
      | None \<Rightarrow> ([], fmempty, fmempty, fmempty)))))"

definition no_reason :: TxCancelReason where
  "no_reason = \<lparr>Code = [], Message = []\<rparr>"

definition failed_reason :: TxCancelReason where
  "failed_reason = \<lparr>Code = ''ConditionalCheckFailed'', Message = ''condition check failed''\<rparr>"

definition tx_check1 :: "TransactWriteItem \<Rightarrow> tableData \<Rightarrow> bool result" where
  "tx_check1 twi td =
     (case tx_condition twi of
        (condExpr, nm, vs, key) \<Rightarrow>
          if condExpr = [] then Inr True
          else bind (extractKey (td_schema td) key) (\<lambda>(hash, rng).
                 evalCondition condExpr nm vs (existing_or_empty (getItem hash rng td))))"

text \<open>The first pass: the reasons, in the order of the operations, and whether one failed.\<close>

fun tx_checks :: "(TransactWriteItem \<times> tableData) list \<Rightarrow> (TxCancelReason list \<times> bool) result" where
  "tx_checks [] = Inr ([], False)"
| "tx_checks ((twi, td) # rest) =
     bind (tx_check1 twi td) (\<lambda>ok.
       bind (tx_checks rest) (\<lambda>(reasons, anyFailed).
         Inr ((if ok then no_reason else failed_reason) # reasons, \<not> ok \<or> anyFailed)))"

text \<open>The second pass.\<close>

definition tx_apply1 :: "TransactWriteItem \<Rightarrow> tableData \<Rightarrow> tableData result" where
  "tx_apply1 twi td =
     (case tw_Put twi of
        Some p \<Rightarrow> bind (extractKey (td_schema td) (tp_Item p)) (\<lambda>(hash, rng). Inr (put_at hash rng (tp_Item p) td))
      | None \<Rightarrow> (case tw_Delete twi of
        Some d \<Rightarrow> bind (extractKey (td_schema td) (tdel_Key d)) (\<lambda>(hash, rng). Inr (delete_at hash rng td))
      | None \<Rightarrow> (case tw_Update twi of
        Some u \<Rightarrow>
          bind (extractKey (td_schema td) (tu_Key u)) (\<lambda>(hash, rng).
            bind (updated_item (tu_UpdateExpression u) (tu_Names u) (tu_Values u) (tu_Key u) (getItem hash rng td)) (\<lambda>it.
              Inr (put_at hash rng it td)))
      | None \<Rightarrow> Inr td)))"

text \<open>The tables were resolved before, so the lookup of a table does not fail here.\<close>

fun tx_applies :: "TransactWriteItem list \<Rightarrow> MemoryBackend \<Rightarrow> unit result \<times> MemoryBackend" where
  "tx_applies [] m = (Inr (), m)"
| "tx_applies (twi # twis) m =
     (case bind (table (txWriteTableName twi) m) (tx_apply1 twi) of
        Inl e \<Rightarrow> (Inl e, m)
      | Inr td \<Rightarrow> tx_applies twis (fmupd (txWriteTableName twi) td m))"

definition TransactWriteItems :: "TransactWriteItem list \<Rightarrow> MemoryBackend \<Rightarrow> unit result \<times> MemoryBackend" where
  "TransactWriteItems twis m =
     (if length twis > 100 then
        (Inl (newError ErrValidation ''memdb: TransactWriteItems exceeds maximum of 100 operations''), m)
      else
        (case bind (resolve_tables (map txWriteTableName twis) m) (\<lambda>tds. tx_checks (zip twis tds)) of
           Inl e \<Rightarrow> (Inl e, m)
         | Inr (reasons, anyFailed) \<Rightarrow>
             if anyFailed then (Inl (TxCancelledError reasons), m) else tx_applies twis m))"

subsection \<open>The backend as a map from keys to items\<close>

text \<open>The abstract state: table and key to item.  An item's key is its key in the table's schema.\<close>

definition lookup_item :: "MemoryBackend \<Rightarrow> string \<Rightarrow> string \<times> string \<Rightarrow> item option" where
  "lookup_item m t k = (case fmlookup m t of None \<Rightarrow> None | Some td \<Rightarrow> kget k (td_items td))"

definition item_key :: "MemoryBackend \<Rightarrow> string \<Rightarrow> item \<Rightarrow> (string \<times> string) result" where
  "item_key m t it = bind (table t m) (\<lambda>td. extractKey (td_schema td) it)"

definition same_schemas :: "MemoryBackend \<Rightarrow> MemoryBackend \<Rightarrow> bool" where
  "same_schemas m m' \<longleftrightarrow> fmmap td_schema m = fmmap td_schema m'"

lemma table_Inr: "table t m = Inr td \<longleftrightarrow> fmlookup m t = Some td"
  by (simp add: table_def newError_def split: option.split)

lemma item_key_same: "same_schemas m m' \<Longrightarrow> item_key m t it = item_key m' t it"
proof -
  assume "same_schemas m m'"
  then have "map_option td_schema (fmlookup m t) = map_option td_schema (fmlookup m' t)"
    unfolding same_schemas_def by (metis fmlookup_map)
  then show ?thesis
    by (cases "fmlookup m t"; cases "fmlookup m' t") (simp_all add: item_key_def table_def)
qed

lemma same_schemas_upd:
  "fmlookup m t = Some td \<Longrightarrow> td_schema td' = td_schema td \<Longrightarrow> same_schemas m (fmupd t td' m)"
  unfolding same_schemas_def by (rule fmap_ext) auto

lemma lookup_upd: "lookup_item (fmupd t td m) u k = (if u = t then kget k (td_items td) else lookup_item m u k)"
  by (simp add: lookup_item_def)

text \<open>The reads and writes of single items on this state.\<close>

lemma GetItem_lookup:
  "GetItem req m = bind (item_key m (gi_TableName req) (gi_Key req)) (\<lambda>k.
     Inr (map_option (\<lambda>it. projectItem it (gi_ProjectionExpression req) (gi_Names req))
       (lookup_item m (gi_TableName req) k)))"
  by (auto simp: GetItem_def read_item_def item_key_def lookup_item_def table_def getItem_kget bind_assoc
      intro!: bind_cong split: option.split)

lemma PutItem_refines:
  assumes "PutItem req m = Inr m'"
  obtains k where "item_key m (pi_TableName req) (pi_Item req) = Inr k"
    and "\<And>t j. lookup_item m' t j = (if t = pi_TableName req \<and> j = k then Some (pi_Item req) else lookup_item m t j)"
    and "same_schemas m m'"
    and "check_condition (pi_ConditionExpression req) (pi_Names req) (pi_Values req)
      (lookup_item m (pi_TableName req) k) = Inr ()"
proof -
  from assms obtain td h r where td: "fmlookup m (pi_TableName req) = Some td"
    and key: "extractKey (td_schema td) (pi_Item req) = Inr (h, r)"
    and cond: "check_condition (pi_ConditionExpression req) (pi_Names req) (pi_Values req) (getItem h r td) = Inr ()"
    and m': "m' = fmupd (pi_TableName req) (put_at h r (pi_Item req) td) m"
    by (auto simp: PutItem_def put_table_def bind_Inr_iff table_Inr)
  show thesis
  proof (rule that)
    show "item_key m (pi_TableName req) (pi_Item req) = Inr (h, r)"
      using td key by (simp add: item_key_def table_def)
    show "lookup_item m' t j = (if t = pi_TableName req \<and> j = (h, r) then Some (pi_Item req) else lookup_item m t j)" for t j
      using td by (simp add: m' lookup_upd kget_put_at) (simp add: lookup_item_def)
    show "same_schemas m m'" unfolding m' by (rule same_schemas_upd [OF td]) simp
    show "check_condition (pi_ConditionExpression req) (pi_Names req) (pi_Values req)
        (lookup_item m (pi_TableName req) (h, r)) = Inr ()"
      using td cond by (simp add: lookup_item_def getItem_kget)
  qed
qed

lemma DeleteItem_refines:
  assumes "DeleteItem req m = Inr m'"
  obtains k where "item_key m (di_TableName req) (di_Key req) = Inr k"
    and "\<And>t j. lookup_item m' t j = (if t = di_TableName req \<and> j = k then None else lookup_item m t j)"
    and "same_schemas m m'"
    and "check_condition (di_ConditionExpression req) (di_Names req) (di_Values req)
      (lookup_item m (di_TableName req) k) = Inr ()"
proof -
  from assms obtain td h r where td: "fmlookup m (di_TableName req) = Some td"
    and key: "extractKey (td_schema td) (di_Key req) = Inr (h, r)"
    and cond: "check_condition (di_ConditionExpression req) (di_Names req) (di_Values req) (getItem h r td) = Inr ()"
    and m': "m' = fmupd (di_TableName req) (delete_at h r td) m"
    by (auto simp: DeleteItem_def delete_table_def bind_Inr_iff table_Inr)
  show thesis
  proof (rule that)
    show "item_key m (di_TableName req) (di_Key req) = Inr (h, r)"
      using td key by (simp add: item_key_def table_def)
    show "lookup_item m' t j = (if t = di_TableName req \<and> j = (h, r) then None else lookup_item m t j)" for t j
      using td by (simp add: m' lookup_upd kget_delete_at) (simp add: lookup_item_def)
    show "same_schemas m m'" unfolding m' by (rule same_schemas_upd [OF td]) simp
    show "check_condition (di_ConditionExpression req) (di_Names req) (di_Values req)
        (lookup_item m (di_TableName req) (h, r)) = Inr ()"
      using td cond by (simp add: lookup_item_def getItem_kget)
  qed
qed

lemma UpdateItem_refines:
  assumes "UpdateItem req m = Inr (attrs, m')"
  obtains k it where "item_key m (ui_TableName req) (ui_Key req) = Inr k"
    and "updated_item (ui_UpdateExpression req) (ui_Names req) (ui_Values req) (ui_Key req)
      (lookup_item m (ui_TableName req) k) = Inr it"
    and "\<And>t j. lookup_item m' t j = (if t = ui_TableName req \<and> j = k then Some it else lookup_item m t j)"
    and "same_schemas m m'"
    and "check_condition (ui_ConditionExpression req) (ui_Names req) (ui_Values req)
      (lookup_item m (ui_TableName req) k) = Inr ()"
    and "attrs = (if ui_ReturnValues req = ''ALL_NEW'' then Some it
      else if ui_ReturnValues req = ''ALL_OLD'' then lookup_item m (ui_TableName req) k else None)"
proof -
  from assms obtain td h r it where td: "fmlookup m (ui_TableName req) = Some td"
    and key: "extractKey (td_schema td) (ui_Key req) = Inr (h, r)"
    and cond: "check_condition (ui_ConditionExpression req) (ui_Names req) (ui_Values req) (getItem h r td) = Inr ()"
    and it: "updated_item (ui_UpdateExpression req) (ui_Names req) (ui_Values req) (ui_Key req) (getItem h r td) = Inr it"
    and attrs: "attrs = (if ui_ReturnValues req = ''ALL_NEW'' then Some it
      else if ui_ReturnValues req = ''ALL_OLD'' then getItem h r td else None)"
    and m': "m' = fmupd (ui_TableName req) (put_at h r it td) m"
    by (auto simp: UpdateItem_def update_table_def bind_Inr_iff table_Inr Let_def option.map_ident cong: option.map_cong split: prod.splits)
  have look: "lookup_item m (ui_TableName req) (h, r) = getItem h r td"
    using td by (simp add: lookup_item_def getItem_kget)
  show thesis
  proof (rule that)
    show "item_key m (ui_TableName req) (ui_Key req) = Inr (h, r)"
      using td key by (simp add: item_key_def table_def)
    show "lookup_item m' t j = (if t = ui_TableName req \<and> j = (h, r) then Some it else lookup_item m t j)" for t j
      using td by (simp add: m' lookup_upd kget_put_at) (simp add: lookup_item_def)
    show "same_schemas m m'" unfolding m' by (rule same_schemas_upd [OF td]) simp
  qed (use cond it attrs look in simp_all)
qed

text \<open>The operations as functions of the abstract state: key, condition, effect.\<close>

definition put_item :: "MemoryBackend \<Rightarrow> string \<Rightarrow> string \<times> string \<Rightarrow> item \<Rightarrow> MemoryBackend" where
  "put_item m t k it = fmupd t (put_at (fst k) (snd k) it (the (fmlookup m t))) m"

lemma PutItem_eq:
  "PutItem req m = bind (item_key m (pi_TableName req) (pi_Item req)) (\<lambda>k.
     bind (check_condition (pi_ConditionExpression req) (pi_Names req) (pi_Values req)
       (lookup_item m (pi_TableName req) k)) (\<lambda>_.
       Inr (put_item m (pi_TableName req) k (pi_Item req))))"
proof (cases "fmlookup m (pi_TableName req)")
  case (Some td)
  then show ?thesis
    by (cases "extractKey (td_schema td) (pi_Item req)")
      (auto simp: PutItem_def put_table_def item_key_def table_def lookup_item_def getItem_kget
        put_item_def bind_assoc)
qed (simp add: PutItem_def item_key_def table_def)

lemma UpdateItem_eq:
  "UpdateItem req m = bind (item_key m (ui_TableName req) (ui_Key req)) (\<lambda>k.
     let existing = lookup_item m (ui_TableName req) k in
     bind (check_condition (ui_ConditionExpression req) (ui_Names req) (ui_Values req) existing) (\<lambda>_.
       bind (updated_item (ui_UpdateExpression req) (ui_Names req) (ui_Values req) (ui_Key req) existing) (\<lambda>it.
         Inr (if ui_ReturnValues req = ''ALL_NEW'' then Some it
              else if ui_ReturnValues req = ''ALL_OLD'' then existing else None,
              put_item m (ui_TableName req) k it))))"
proof (cases "fmlookup m (ui_TableName req)")
  case (Some td)
  have id: "map_option deepCopyItem e = e" for e by (simp add: option.map_ident cong: option.map_cong)
  from Some show ?thesis
    by (cases "extractKey (td_schema td) (ui_Key req)")
      (auto simp: UpdateItem_def update_table_def item_key_def table_def lookup_item_def getItem_kget
        put_item_def bind_assoc Let_def id cong: if_cong)
qed (simp add: UpdateItem_def item_key_def table_def)

text \<open>What an update does to the attributes its actions do not name.\<close>

lemma updated_item_frame:
  assumes "updated_item expression nm vs key existing = Inr new"
    and "\<And>ops op ps. parseUpdateExpression expression nm vs = Inr ops \<Longrightarrow> op \<in> set ops \<Longrightarrow> uop_path op \<noteq> a # ps"
  shows "fmlookup new a = fmlookup (case existing of Some e \<Rightarrow> e | None \<Rightarrow> key) a"
  using assms evalUpdateNodes_frame
  by (auto simp: updated_item_def Let_def bind_Inr_iff split: if_splits option.splits)

text \<open>A successful operation on one item, with its table and key.\<close>

inductive point_write :: "MemoryBackend \<Rightarrow> string \<Rightarrow> string \<times> string \<Rightarrow> MemoryBackend \<Rightarrow> bool" where
  put: "PutItem preq m = Inr m' \<Longrightarrow> item_key m (pi_TableName preq) (pi_Item preq) = Inr k \<Longrightarrow>
    point_write m (pi_TableName preq) k m'"
| delete: "DeleteItem dreq m = Inr m' \<Longrightarrow> item_key m (di_TableName dreq) (di_Key dreq) = Inr k \<Longrightarrow>
    point_write m (di_TableName dreq) k m'"
| update: "UpdateItem ureq m = Inr (attrs, m') \<Longrightarrow> item_key m (ui_TableName ureq) (ui_Key ureq) = Inr k \<Longrightarrow>
    point_write m (ui_TableName ureq) k m'"

lemma point_write_effect:
  assumes "point_write m t k m'"
  obtains it where "same_schemas m m'"
    and "\<And>u j. lookup_item m' u j = (if u = t \<and> j = k then it else lookup_item m u j)"
  using assms
proof cases
  case (put preq)
  from put(2) show thesis
    by (rule PutItem_refines) (use put that in simp)
next
  case (delete dreq)
  from delete(2) show thesis
    by (rule DeleteItem_refines) (use delete that in simp)
next
  case (update ureq attrs)
  from update(2) show thesis
    by (rule UpdateItem_refines) (use update that in simp)
qed

lemma point_write_frame:
  assumes "point_write m t k m'"
  shows "same_schemas m m'" "u \<noteq> t \<or> j \<noteq> k \<Longrightarrow> lookup_item m' u j = lookup_item m u j"
proof -
  obtain it where "same_schemas m m'"
    and "\<And>u j. lookup_item m' u j = (if u = t \<and> j = k then it else lookup_item m u j)"
    using assms by (rule point_write_effect) blast
  then show "same_schemas m m'" "u \<noteq> t \<or> j \<noteq> k \<Longrightarrow> lookup_item m' u j = lookup_item m u j"
    by auto
qed

subsection \<open>Reachable backends\<close>

text \<open>Every table of the backend satisfies the invariant of \<open>MemTable\<close>.\<close>

definition backend_ok :: "MemoryBackend \<Rightarrow> bool" where
  "backend_ok m \<longleftrightarrow> (\<forall>t td. fmlookup m t = Some td \<longrightarrow> table_ok td)"

text \<open>
  Updates whose actions leave the key attributes alone.  The code does not check this, and without it
  an item may end up under a key that is not its own.
\<close>

definition op_touches :: "string set \<Rightarrow> updateOp \<Rightarrow> bool" where
  "op_touches as op \<longleftrightarrow> (case uop_path op of [] \<Rightarrow> False | a # _ \<Rightarrow> a \<in> as)"

definition keeps_key :: "TableSchema \<Rightarrow> string \<Rightarrow> names \<Rightarrow> vals \<Rightarrow> bool" where
  "keeps_key sch expression nm vs \<longleftrightarrow>
     (case parseUpdateExpression expression nm vs of
        Inl _ \<Rightarrow> True
      | Inr ops \<Rightarrow> \<not> list_ex (op_touches (key_attrs sch)) ops)"

definition tx_keeps_key :: "MemoryBackend \<Rightarrow> TransactWriteItem \<Rightarrow> bool" where
  "tx_keeps_key m twi \<longleftrightarrow>
     (case tw_Update twi of
        None \<Rightarrow> True
      | Some u \<Rightarrow>
          (case fmlookup m (txWriteTableName twi) of
             None \<Rightarrow> True
           | Some td \<Rightarrow> keeps_key (td_schema td) (tu_UpdateExpression u) (tu_Names u) (tu_Values u)))"

lemma evalUpdateNodes_keeps_key:
  assumes "evalUpdateNodes ops it = Inr it'" "\<not> list_ex (op_touches (key_attrs sch)) ops"
  shows "extractKey sch it' = extractKey sch it"
proof (rule extractKey_cong)
  fix a
  assume "a \<in> key_attrs sch"
  with assms(2) have "op \<in> set ops \<Longrightarrow> uop_path op \<noteq> a # ps" for op ps
    by (auto simp: list_ex_iff op_touches_def)
  with assms(1) show "fmlookup it' a = fmlookup it a" by (intro evalUpdateNodes_frame) auto
qed

lemma updated_item_key:
  assumes "updated_item expression nm vs key existing = Inr it" "keeps_key sch expression nm vs"
    and "extractKey sch key = Inr k" "\<And>e. existing = Some e \<Longrightarrow> extractKey sch e = Inr k"
  shows "extractKey sch it = Inr k"
  using assms
  by (auto simp: updated_item_def keeps_key_def bind_Inr_iff Let_def evalUpdateNodes_keeps_key
      split: if_splits option.splits)

lemma table_ok_key: "table_ok td \<Longrightarrow> getItem h r td = Some e \<Longrightarrow> extractKey (td_schema td) e = Inr (h, r)"
  by (auto simp: table_ok_def getItem_kget intro: keys_okD)

lemma backend_ok_upd: "backend_ok m \<Longrightarrow> table_ok td \<Longrightarrow> backend_ok (fmupd t td m)"
  by (auto simp: backend_ok_def)

lemma backend_okD: "backend_ok m \<Longrightarrow> fmlookup m t = Some td \<Longrightarrow> table_ok td"
  by (auto simp: backend_ok_def)

lemma backend_ok_New: "backend_ok New"
  by (simp add: backend_ok_def New_def)

lemma new_gsis_empty:
  "fmlookup (fold (\<lambda>gsi. fmupd (GSI_Name gsi) \<lparr>gsi_schema = gsi, gsi_items = fmempty\<rparr>) gs g0) n = Some g \<Longrightarrow>
   (\<And>n g. fmlookup g0 n = Some g \<Longrightarrow> gsi_items g = fmempty) \<Longrightarrow> gsi_items g = fmempty"
proof (induction gs arbitrary: g0)
  case (Cons a gs)
  show ?case
  proof (rule Cons.IH)
    show "fmlookup (fold (\<lambda>gsi. fmupd (GSI_Name gsi) \<lparr>gsi_schema = gsi, gsi_items = fmempty\<rparr>) gs
        (fmupd (GSI_Name a) \<lparr>gsi_schema = a, gsi_items = fmempty\<rparr> g0)) n = Some g"
      using Cons.prems(1) by simp
    show "gsi_items g = fmempty"
      if "fmlookup (fmupd (GSI_Name a) \<lparr>gsi_schema = a, gsi_items = fmempty\<rparr> g0) n = Some g" for n g
      using that Cons.prems(2) by (auto split: if_splits)
  qed
qed simp

lemma kget_empty [simp]: "kget k fmempty = None"
  by (simp add: kget_def)

lemma backend_ok_CreateTable: "backend_ok m \<Longrightarrow> CreateTable name sch m = Inr m' \<Longrightarrow> backend_ok m'"
  by (auto simp: CreateTable_def table_ok_def keys_ok_def gsi_sound_def fmlookup_ran'_iff
      split: if_splits intro!: backend_ok_upd dest!: new_gsis_empty)

lemma put_table_ok: "table_ok td \<Longrightarrow> put_table req td = Inr td' \<Longrightarrow> table_ok td'"
  by (auto simp: put_table_def bind_Inr_iff table_ok_put_at)

lemma delete_table_ok: "table_ok td \<Longrightarrow> delete_table req td = Inr td' \<Longrightarrow> table_ok td'"
  by (auto simp: delete_table_def bind_Inr_iff table_ok_delete_at)

lemma update_table_ok:
  "table_ok td \<Longrightarrow> update_table req td = Inr (attrs, td') \<Longrightarrow>
   keeps_key (td_schema td) (ui_UpdateExpression req) (ui_Names req) (ui_Values req) \<Longrightarrow> table_ok td'"
  by (auto simp: update_table_def bind_Inr_iff Let_def intro!: table_ok_put_at
      elim!: updated_item_key dest: table_ok_key)

lemma batch_write1_ok: "table_ok td \<Longrightarrow> batch_write1 wr td = Inr td' \<Longrightarrow> table_ok td'"
  by (auto simp: batch_write1_def bind_Inr_iff table_ok_put_at table_ok_delete_at split: option.splits)

lemma batch_writes_ok: "table_ok td \<Longrightarrow> table_ok (snd (batch_writes wrs td))"
  by (induction wrs td rule: batch_writes.induct) (auto split: sum.split dest: batch_write1_ok)

lemma batch_write_tables_ok: "backend_ok m \<Longrightarrow> backend_ok (snd (batch_write_tables reqs m))"
proof (induction reqs arbitrary: m)
  case (Cons req reqs)
  obtain t wrs where req: "req = (t, wrs)" by (cases req)
  show ?case
  proof (cases "table t m")
    case (Inr td)
    with Cons.prems have "table_ok (snd (batch_writes wrs td))"
      by (auto simp: table_Inr intro: batch_writes_ok backend_okD)
    then have "backend_ok (fmupd t (snd (batch_writes wrs td)) m)"
      using Cons.prems by (simp add: backend_ok_upd)
    with Cons.IH [OF this] Inr req show ?thesis
      by (cases "batch_writes wrs td") (auto split: sum.split)
  qed (use Cons.prems req in simp)
qed simp

lemma tx_apply1_ok:
  assumes "table_ok td" "tx_apply1 twi td = Inr td'"
    and "\<And>u. tw_Update twi = Some u \<Longrightarrow> keeps_key (td_schema td) (tu_UpdateExpression u) (tu_Names u) (tu_Values u)"
  shows "table_ok td'" and "td_schema td' = td_schema td"
  using assms
  by (auto simp: tx_apply1_def bind_Inr_iff table_ok_put_at table_ok_delete_at split: option.splits
      intro!: table_ok_put_at elim!: updated_item_key dest: table_ok_key)

lemma tx_keeps_key_same: "same_schemas m m' \<Longrightarrow> tx_keeps_key m twi = tx_keeps_key m' twi"
proof -
  assume "same_schemas m m'"
  then have "map_option td_schema (fmlookup m t) = map_option td_schema (fmlookup m' t)" for t
    unfolding same_schemas_def by (metis fmlookup_map)
  from this [of "txWriteTableName twi"] show ?thesis
    by (auto simp: tx_keeps_key_def split: option.splits)
qed

lemma tx_applies_ok:
  "backend_ok m \<Longrightarrow> list_all (tx_keeps_key m) twis \<Longrightarrow> backend_ok (snd (tx_applies twis m))"
proof (induction twis m rule: tx_applies.induct)
  case (2 twi twis m)
  show ?case
  proof (cases "bind (table (txWriteTableName twi) m) (tx_apply1 twi)")
    case (Inr td')
    then obtain td where td: "fmlookup m (txWriteTableName twi) = Some td" and app: "tx_apply1 twi td = Inr td'"
      by (auto simp: bind_Inr_iff table_Inr)
    have keeps: "keeps_key (td_schema td) (tu_UpdateExpression u) (tu_Names u) (tu_Values u)"
      if "tw_Update twi = Some u" for u
      using "2.prems"(2) td that by (simp add: tx_keeps_key_def)
    note ok = tx_apply1_ok [OF backend_okD [OF "2.prems"(1) td] app keeps]
    have "same_schemas m (fmupd (txWriteTableName twi) td' m)"
      using td ok(2) by (rule same_schemas_upd)
    then have "list_all (tx_keeps_key (fmupd (txWriteTableName twi) td' m)) twis"
      using "2.prems"(2) by (auto simp: list_all_iff tx_keeps_key_same)
    with 2 Inr ok show ?thesis by (simp add: backend_ok_upd)
  qed (use 2 in simp)
qed simp

text \<open>The states a client can bring the backend into.\<close>

inductive backend_step :: "MemoryBackend \<Rightarrow> MemoryBackend \<Rightarrow> bool" where
  create: "CreateTable name sch m = Inr m' \<Longrightarrow> backend_step m m'"
| put: "PutItem preq m = Inr m' \<Longrightarrow> backend_step m m'"
| delete: "DeleteItem dreq m = Inr m' \<Longrightarrow> backend_step m m'"
| update: "UpdateItem ureq m = Inr (attrs, m') \<Longrightarrow>
    (\<And>td. fmlookup m (ui_TableName ureq) = Some td \<Longrightarrow>
      keeps_key (td_schema td) (ui_UpdateExpression ureq) (ui_Names ureq) (ui_Values ureq)) \<Longrightarrow>
    backend_step m m'"
| batch: "BatchWriteItem reqs m = (res, m') \<Longrightarrow> backend_step m m'"
| transact: "TransactWriteItems twis m = (res, m') \<Longrightarrow> list_all (tx_keeps_key m) twis \<Longrightarrow> backend_step m m'"

inductive reachable :: "MemoryBackend \<Rightarrow> bool" where
  new: "reachable New"
| step: "reachable m \<Longrightarrow> backend_step m m' \<Longrightarrow> reachable m'"

lemma backend_step_ok: "backend_step m m' \<Longrightarrow> backend_ok m \<Longrightarrow> backend_ok m'"
proof (induction rule: backend_step.induct)
  case (create name sch m m')
  then show ?case by (simp add: backend_ok_CreateTable)
next
  case (put preq m m')
  then show ?case
    by (auto simp: PutItem_def bind_Inr_iff table_Inr intro!: backend_ok_upd intro: put_table_ok backend_okD)
next
  case (delete dreq m m')
  then show ?case
    by (auto simp: DeleteItem_def bind_Inr_iff table_Inr intro!: backend_ok_upd intro: delete_table_ok backend_okD)
next
  case (update ureq m attrs m')
  then show ?case
    by (auto simp: UpdateItem_def bind_Inr_iff table_Inr intro!: backend_ok_upd intro: update_table_ok backend_okD)
next
  case (batch reqs m res m')
  then show ?case
    using batch_write_tables_ok [of m reqs] by (auto simp: BatchWriteItem_def split: if_splits)
next
  case (transact twis m res m')
  then show ?case
    using tx_applies_ok [of m twis]
    by (auto simp: TransactWriteItems_def split: if_splits sum.splits prod.splits)
qed

lemma reachable_ok: "reachable m \<Longrightarrow> backend_ok m"
  by (induction rule: reachable.induct) (auto simp: backend_ok_New intro: backend_step_ok)

subsection \<open>Batches are write sequences\<close>

text \<open>The write of the keyed store a batch write stands for.\<close>

definition write_of :: "TableSchema \<Rightarrow> WriteRequest \<Rightarrow> ((string \<times> string) \<times> item option) list" where
  "write_of sch wr =
     (case wr_PutItem wr of
        Some it \<Rightarrow> (case extractKey sch it of Inr k \<Rightarrow> [(k, Some it)] | Inl _ \<Rightarrow> [])
      | None \<Rightarrow>
          (case wr_DeleteItem wr of
             Some key \<Rightarrow> (case extractKey sch key of Inr k \<Rightarrow> [(k, None)] | Inl _ \<Rightarrow> [])
           | None \<Rightarrow> []))"

lemma items_put_at: "td_items (put_at h r it td) = kput (h, r) it (td_items td)"
  by (simp add: put_at_def updateGSIs_def storeItem_def kput_def)

lemma items_delete_at: "store_ok (td_items td) \<Longrightarrow> td_items (delete_at h r td) = kdel (h, r) (td_items td)"
  by (rule ks.ok_ext)
    (simp_all add: store_ok_delete_at ks.ok_del kget_delete_at ks.get_del split: if_splits)

lemma batch_write1_writes:
  assumes "batch_write1 wr td = Inr td'" "store_ok (td_items td)"
  shows "td_items td' = ks.writes (write_of (td_schema td) wr) (td_items td)" "td_schema td' = td_schema td"
  using assms
  by (auto simp: batch_write1_def write_of_def bind_Inr_iff ks.writes_def ks.exec_def items_put_at items_delete_at
      split: option.splits sum.splits)

lemma writes_append: "ks.writes (vs @ ws) st = ks.writes ws (ks.writes vs st)"
  by (simp add: ks.writes_def)

lemma batch_writes_items:
  "batch_writes wrs td = (Inr (), td') \<Longrightarrow> store_ok (td_items td) \<Longrightarrow>
   td_items td' = ks.writes (concat (map (write_of (td_schema td)) wrs)) (td_items td)"
proof (induction wrs arbitrary: td)
  case (Cons wr wrs)
  from Cons.prems(1) obtain td1 where step: "batch_write1 wr td = Inr td1" and rest: "batch_writes wrs td1 = (Inr (), td')"
    by (auto split: sum.splits)
  note w = batch_write1_writes [OF step Cons.prems(2)]
  have "store_ok (td_items td1)" unfolding w(1) by (rule ks.ok_writes) (rule Cons.prems)
  from Cons.IH [OF rest this] w show ?case by (simp add: writes_append)
qed (simp add: ks.writes_def)

subsection \<open>Transactions\<close>

lemma resolve_tables_Inr:
  "resolve_tables ts m = Inr tds \<longleftrightarrow> list_all2 (\<lambda>t td. fmlookup m t = Some td) ts tds"
  by (induction ts arbitrary: tds) (auto simp: bind_Inr_iff table_Inr list_all2_Cons1)

text \<open>Every condition is evaluated on the state before the transaction.\<close>

definition tx_check_on :: "MemoryBackend \<Rightarrow> TransactWriteItem \<Rightarrow> bool result" where
  "tx_check_on m twi = bind (table (txWriteTableName twi) m) (tx_check1 twi)"

lemma tx_checks_Inr:
  assumes "resolve_tables (map txWriteTableName twis) m = Inr tds"
    and "list_all2 (\<lambda>twi ok. tx_check_on m twi = Inr ok) twis oks"
  shows "tx_checks (zip twis tds) =
    Inr (map (\<lambda>ok. if ok then no_reason else failed_reason) oks, False \<in> set oks)"
  using assms
proof (induction twis arbitrary: tds oks)
  case (Cons twi twis)
  then show ?case
    by (auto simp: bind_Inr_iff list_all2_Cons1 tx_check_on_def split: prod.splits)
qed simp

lemma tx_checks_all:
  assumes "resolve_tables (map txWriteTableName twis) m = Inr tds" "tx_checks (zip twis tds) = Inr (rs, False)"
  shows "list_all (\<lambda>twi. tx_check_on m twi = Inr True) twis"
  using assms
  by (induction twis arbitrary: tds rs) (auto simp: bind_Inr_iff tx_check_on_def)

text \<open>A cancelled transaction changes nothing, and gives one reason per operation.\<close>

lemma transact_cancelled:
  assumes "length twis \<le> 100" "resolve_tables (map txWriteTableName twis) m = Inr tds"
    and "list_all2 (\<lambda>twi ok. tx_check_on m twi = Inr ok) twis oks" "False \<in> set oks"
  shows "TransactWriteItems twis m =
    (Inl (TxCancelledError (map (\<lambda>ok. if ok then no_reason else failed_reason) oks)), m)"
  using assms tx_checks_Inr [OF assms(2,3)] by (simp add: TransactWriteItems_def)

text \<open>Which operations cannot fail in the second pass.\<close>

definition tx_sure :: "MemoryBackend \<Rightarrow> TransactWriteItem \<Rightarrow> bool" where
  "tx_sure m twi \<longleftrightarrow>
     (case tw_Put twi of
        Some p \<Rightarrow> is_ok (item_key m (tp_TableName p) (tp_Item p))
      | None \<Rightarrow> (case tw_Delete twi of
        Some d \<Rightarrow> is_ok (item_key m (tdel_TableName d) (tdel_Key d))
      | None \<Rightarrow> (case tw_Update twi of
        Some u \<Rightarrow> tu_UpdateExpression u = [] \<and> is_ok (item_key m (tu_TableName u) (tu_Key u))
      | None \<Rightarrow> True)))"

lemma tx_apply1_sure:
  assumes "tx_sure m twi" "fmlookup m (txWriteTableName twi) = Some td"
  shows "is_ok (tx_apply1 twi td)"
  using assms
  by (auto simp: tx_sure_def tx_apply1_def item_key_def table_def txWriteTableName_def is_ok_bind
      updated_item_def Let_def split: option.splits elim!: is_okE)

lemma tx_apply1_schema: "tx_apply1 twi td = Inr td' \<Longrightarrow> td_schema td' = td_schema td"
  by (auto simp: tx_apply1_def bind_Inr_iff split: option.splits)

lemma tx_sure_same: "same_schemas m m' \<Longrightarrow> tx_sure m twi = tx_sure m' twi"
  by (simp add: tx_sure_def item_key_same split: option.split)

lemma tx_applies_sure:
  assumes "list_all (tx_sure m) twis" "\<forall>twi \<in> set twis. fmlookup m (txWriteTableName twi) \<noteq> None"
  shows "fst (tx_applies twis m) = Inr ()"
  using assms
proof (induction twis arbitrary: m)
  case (Cons twi twis)
  then obtain td where td: "fmlookup m (txWriteTableName twi) = Some td" by auto
  with Cons.prems tx_apply1_sure [of m twi td] obtain td' where app: "tx_apply1 twi td = Inr td'"
    by (auto simp: is_ok_iff)
  have same: "same_schemas m (fmupd (txWriteTableName twi) td' m)"
    using td tx_apply1_schema [OF app] by (rule same_schemas_upd)
  have "fst (tx_applies twis (fmupd (txWriteTableName twi) td' m)) = Inr ()"
    using Cons.prems tx_sure_same [OF same] by (intro Cons.IH) (auto simp: list_all_iff)
  with td app show ?case by (simp add: table_def)
qed simp

text \<open>All or nothing, for transactions whose second pass cannot fail.\<close>

lemma transact_atomic:
  assumes "list_all (tx_sure m) twis" "TransactWriteItems twis m = (res, m')"
  shows "(\<exists>e. res = Inl e) \<and> m' = m \<or> res = Inr () \<and> (res, m') = tx_applies twis m"
proof (cases "length twis \<le> 100 \<and> (\<exists>tds rs. resolve_tables (map txWriteTableName twis) m = Inr tds \<and>
    tx_checks (zip twis tds) = Inr (rs, False))")
  case True
  then obtain tds rs where res: "resolve_tables (map txWriteTableName twis) m = Inr tds"
    "tx_checks (zip twis tds) = Inr (rs, False)" by blast
  then have "\<forall>twi \<in> set twis. fmlookup m (txWriteTableName twi) \<noteq> None"
    by (auto simp: resolve_tables_Inr list_all2_conv_all_nth in_set_conv_nth)
  from tx_applies_sure [OF assms(1) this] res True assms(2) show ?thesis
    by (auto simp: TransactWriteItems_def prod_eq_iff)
next
  case False
  with assms(2) show ?thesis
    by (auto simp: TransactWriteItems_def bind_Inr_iff split: if_splits sum.splits prod.splits)
qed

text \<open>A transaction that commits found all its conditions true, and is the sequence of its writes.\<close>

lemma transact_commits:
  assumes "TransactWriteItems twis m = (Inr (), m')"
  shows "list_all (\<lambda>twi. tx_check_on m twi = Inr True) twis" "tx_applies twis m = (Inr (), m')"
  using assms tx_checks_all
  by (auto simp: TransactWriteItems_def bind_Inr_iff split: if_splits sum.splits prod.splits)

end
