(* ===== verification/MemTokens.thy ===== *)
theory MemTokens
  imports MemUpdate
begin

text \<open>
  The tokenizer of the in-memory backend on text that is made of tokens: what the client prints, the
  backend reads back token by token.
\<close>

text \<open>Words, placeholders and operators, and what may follow them without extending them.\<close>

definition word_tok :: "string \<Rightarrow> bool" where
  "word_tok t \<longleftrightarrow> (case t of [] \<Rightarrow> False | c # w \<Rightarrow> isIdentStart c \<and> list_all ident_tail w)"

definition ref_tok :: "string \<Rightarrow> bool" where
  "ref_tok t \<longleftrightarrow> (case t of [] \<Rightarrow> False | c # w \<Rightarrow> (c = CHR '':'' \<or> c = CHR ''#'') \<and> list_all isIdentPart w)"

definition op_tok :: "string \<Rightarrow> bool" where
  "op_tok t \<longleftrightarrow> t \<in> {''<>'', ''<='', ''>=''} \<or> (\<exists>c. t = [c] \<and> single_char_tok c)"

definition num_tok :: "string \<Rightarrow> bool" where
  "num_tok t \<longleftrightarrow> (case t of [] \<Rightarrow> False | c # w \<Rightarrow> is_digit c \<and> list_all number_tail w)"

definition valid_tok :: "string \<Rightarrow> bool" where
  "valid_tok t \<longleftrightarrow> word_tok t \<or> ref_tok t \<or> op_tok t \<or> num_tok t"

text \<open>Characters that end every token: blanks, commas and parentheses.\<close>

definition is_stop :: "char \<Rightarrow> bool" where
  "is_stop c \<longleftrightarrow> c \<in> set '' ,()''"

definition stopped :: "string \<Rightarrow> bool" where
  "stopped s \<longleftrightarrow> (case s of [] \<Rightarrow> True | c # _ \<Rightarrow> is_stop c)"

lemma stopped_simps [simp]: "stopped []" "stopped (c # s) \<longleftrightarrow> is_stop c"
  by (simp_all add: stopped_def)

lemma is_stop_simps [simp]: "is_stop CHR '' ''" "is_stop CHR '',''" "is_stop CHR ''(''" "is_stop CHR '')''"
  by (simp_all add: is_stop_def)

lemma stop_not_tail: "is_stop c \<Longrightarrow> \<not> ident_tail c \<and> \<not> isIdentPart c \<and> \<not> number_tail c \<and> c \<noteq> CHR ''='' \<and> c \<noteq> CHR ''>''"
proof -
  have "\<forall>c \<in> set '' ,()''. \<not> ident_tail c \<and> \<not> number_tail c \<and> \<not> isIdentPart c \<and> c \<noteq> CHR ''='' \<and> c \<noteq> CHR ''>''" by code_simp
  moreover assume "is_stop c"
  ultimately show ?thesis by (auto simp: is_stop_def)
qed

lemma start_not_other:
  assumes "isIdentStart c"
  shows "\<not> is_space c" "\<not> single_char_tok c" "c \<noteq> CHR '':''" "c \<noteq> CHR ''#''" "c \<noteq> CHR ''<''" "c \<noteq> CHR ''>''"
proof -
  have "\<forall>c \<in> set ([CHR 0x09, CHR 0x0A, CHR 0x0D] @ '' (),=<>+-:#''). \<not> isIdentStart c" by code_simp
  with assms show "\<not> is_space c" "\<not> single_char_tok c" "c \<noteq> CHR '':''" "c \<noteq> CHR ''#''"
    "c \<noteq> CHR ''<''" "c \<noteq> CHR ''>''"
    by (auto simp: is_space_def single_char_tok_def)
qed

lemma digit_not_other:
  assumes "is_digit c"
  shows "\<not> is_space c" "\<not> single_char_tok c" "c \<noteq> CHR '':''" "c \<noteq> CHR ''#''" "c \<noteq> CHR ''<''" "c \<noteq> CHR ''>''"
    "\<not> isIdentStart c"
proof -
  have "\<forall>c \<in> set ([CHR 0x09, CHR 0x0A, CHR 0x0D] @ '' (),=<>+-:#''). \<not> is_digit c" by code_simp
  with assms show "\<not> is_space c" "\<not> single_char_tok c" "c \<noteq> CHR '':''" "c \<noteq> CHR ''#''"
    "c \<noteq> CHR ''<''" "c \<noteq> CHR ''>''"
    by (auto simp: is_space_def single_char_tok_def)
  have order: "\<not> CHR ''a'' \<le> CHR ''9''" "\<not> CHR ''A'' \<le> CHR ''9''" "\<not> CHR ''_'' \<le> CHR ''9''" by code_simp+
  from assms have "c \<le> CHR ''9''" by (simp add: is_digit_def)
  with order have "\<not> CHR ''a'' \<le> c" "\<not> CHR ''A'' \<le> c" "c \<noteq> CHR ''_''" by (blast intro: order_trans)+
  then show "\<not> isIdentStart c" by (simp add: isIdentStart_def is_lower_def is_upper_def)
qed

lemma two_char_op_head: "two_char_op c s \<Longrightarrow> c = CHR ''<'' \<or> c = CHR ''>''"
  by (auto simp: two_char_op_def split: list.splits)

lemma takeWhile_tail: "list_all P w \<Longrightarrow> (case s of [] \<Rightarrow> True | c # _ \<Rightarrow> \<not> P c) \<Longrightarrow>
  takeWhile P (w @ s) = w \<and> dropWhile P (w @ s) = s"
  by (induction w) (auto split: list.splits)

lemma tokenize_blank [simp]: "mem_tokenizeExpr (CHR '' '' # s) = mem_tokenizeExpr s"
  by (simp add: is_space_def)

lemma tokenize_tok:
  assumes "valid_tok t" "stopped s"
  shows "mem_tokenizeExpr (t @ s) = t # mem_tokenizeExpr s"
proof -
  have tail: "(case s of [] \<Rightarrow> True | c # _ \<Rightarrow> \<not> ident_tail c)" "(case s of [] \<Rightarrow> True | c # _ \<Rightarrow> \<not> isIdentPart c)"
    "(case s of [] \<Rightarrow> True | c # _ \<Rightarrow> \<not> number_tail c)"
    using assms(2) stop_not_tail by (auto split: list.split)
  consider (word) c w where "t = c # w" "isIdentStart c" "list_all ident_tail w"
    | (ref) c w where "t = c # w" "c = CHR '':'' \<or> c = CHR ''#''" "list_all isIdentPart w"
    | (two) "t \<in> {''<>'', ''<='', ''>=''}" | (single) c where "t = [c]" "single_char_tok c"
    | (num) c w where "t = c # w" "is_digit c" "list_all number_tail w"
    using assms(1) by (auto simp: valid_tok_def word_tok_def ref_tok_def op_tok_def num_tok_def split: list.splits)
  then show ?thesis
  proof cases
    case word
    with start_not_other [OF word(2)] takeWhile_tail [OF word(3) tail(1)] show ?thesis
      by (auto dest: two_char_op_head)
  next
    case ref
    then have "\<not> is_space c" "\<not> single_char_tok c" by (auto simp: is_space_def single_char_tok_def)
    with ref takeWhile_tail [OF ref(3) tail(2)] show ?thesis
      by (auto dest: two_char_op_head)
  next
    case two
    then show ?thesis by (auto simp: two_char_op_def is_space_def)
  next
    case single
    have "\<not> two_char_op c s"
      using assms(2) by (auto simp: two_char_op_def dest: stop_not_tail split: list.splits)
    moreover have "\<not> is_space c" using single(2) by (auto simp: is_space_def single_char_tok_def)
    ultimately show ?thesis using single by simp
  next
    case num
    with digit_not_other [OF num(2)] takeWhile_tail [OF num(3) tail(3)] show ?thesis
      by (auto dest: two_char_op_head)
  qed
qed

text \<open>Tokens joined by blanks read back as themselves.\<close>

declare mem_tokenizeExpr.simps(2) [simp del]

lemma tokenize_Join: "list_all valid_tok ts \<Longrightarrow> mem_tokenizeExpr (Join ts '' '') = ts"
proof (induction ts rule: induct_list012)
  case (2 t)
  with tokenize_tok [of t "[]"] show ?case by simp
next
  case (3 t u ts)
  with tokenize_tok [of t "'' '' @ Join (u # ts) '' ''"] show ?case by simp
qed simp

text \<open>Text that gives tokens wherever it stands, and texts separated by commas or blanks.\<close>

fun comma_sep :: "string list list \<Rightarrow> string list" where
  "comma_sep [] = []"
| "comma_sep [ts] = ts"
| "comma_sep (ts # us # uss) = ts @ '','' # comma_sep (us # uss)"

definition toks_to :: "string \<Rightarrow> string list \<Rightarrow> bool" where
  "toks_to p ts \<longleftrightarrow> (\<forall>s. stopped s \<longrightarrow> mem_tokenizeExpr (p @ s) = ts @ mem_tokenizeExpr s)"

lemma toks_valid: "valid_tok t \<Longrightarrow> toks_to t [t]"
  by (simp add: toks_to_def tokenize_tok)

lemma toks_blank: "toks_to p ts \<Longrightarrow> toks_to q us \<Longrightarrow> toks_to (p @ '' '' @ q) (ts @ us)"
  by (simp add: toks_to_def)

lemma tokenize_comma: "mem_tokenizeExpr ('', '' @ s) = '','' # mem_tokenizeExpr s"
proof -
  have "valid_tok '',''" by (simp add: valid_tok_def op_tok_def single_char_tok_def)
  from tokenize_tok [OF this, of "'' '' @ s"] show ?thesis by simp
qed

lemma toks_comma: "toks_to p ts \<Longrightarrow> toks_to q us \<Longrightarrow> toks_to (p @ '', '' @ q) (ts @ '','' # us)"
  using tokenize_comma by (simp add: toks_to_def)

lemma toks_Join_comma:
  "\<forall>x \<in> set xs. toks_to (f x) (g x) \<Longrightarrow> xs \<noteq> [] \<Longrightarrow> toks_to (Join (map f xs) '', '') (comma_sep (map g xs))"
proof (induction xs rule: induct_list012)
  case (3 x y xs)
  then have "toks_to (Join (map f (y # xs)) '', '') (comma_sep (map g (y # xs)))" by simp
  with toks_comma [of "f x" "g x"] 3(3) show ?case by simp
qed simp_all

lemma toks_Join_blank:
  "\<forall>x \<in> set xs. toks_to (f x) (g x) \<Longrightarrow> xs \<noteq> [] \<Longrightarrow> toks_to (Join (map f xs) '' '') (concat (map g xs))"
proof (induction xs rule: induct_list012)
  case (3 x y xs)
  then have "toks_to (Join (map f (y # xs)) '' '') (concat (map g (y # xs)))" by simp
  with toks_blank [of "f x" "g x"] 3(3) show ?case by simp
qed simp_all

text \<open>Parentheses and commas need nothing behind them to end.\<close>

lemma tokenize_mark [simp]:
  "mem_tokenizeExpr (CHR ''('' # s) = ''('' # mem_tokenizeExpr s"
  "mem_tokenizeExpr (CHR '')'' # s) = '')'' # mem_tokenizeExpr s"
  by (simp_all add: mem_tokenizeExpr.simps(2) two_char_op_def single_char_tok_def is_space_def split: list.split)

end
