(* ===== verification/Condition.thy ===== *)
theory Condition
  imports Ast
begin

text \<open>
  The condition expressions of the client (\<open>condition.go\<close>): the text with \<open>?\<close> placeholders is split
  into tokens, attribute names become aliases and placeholders become numbered value references.
\<close>

record conditionExpr =
  ce_expression :: string
  ce_names :: names
  ce_values :: vals

subsection \<open>The tokenizer\<close>

definition isCondIdentStart :: "char \<Rightarrow> bool" where
  "isCondIdentStart ch \<longleftrightarrow> is_lower ch \<or> is_upper ch \<or> ch = CHR ''_''"

definition isCondIdentPart :: "char \<Rightarrow> bool" where
  "isCondIdentPart ch \<longleftrightarrow> isCondIdentStart ch \<or> is_digit ch"

definition cond_tail :: "char \<Rightarrow> bool" where
  "cond_tail c \<longleftrightarrow> isCondIdentPart c \<or> c = CHR ''.'' \<or> c = CHR ''_''"

definition cond_number_tail :: "char \<Rightarrow> bool" where
  "cond_number_tail c \<longleftrightarrow> is_digit c \<or> c = CHR ''.''"

definition cond_two_char :: "char \<Rightarrow> string \<Rightarrow> bool" where
  "cond_two_char ch s =
     (case s of d # _ \<Rightarrow> [ch, d] \<in> {''<>'', ''<='', ''>=''} | [] \<Rightarrow> False)"

definition cond_single_char :: "char \<Rightarrow> bool" where
  "cond_single_char ch \<longleftrightarrow> ch \<in> set ''?(),=<>''"

function tokenizeExpr :: "string \<Rightarrow> string list" where
  "tokenizeExpr [] = []"
| "tokenizeExpr (ch # s) =
     (if is_space ch then tokenizeExpr s
      else if cond_two_char ch s then [ch, hd s] # tokenizeExpr (tl s)
      else if cond_single_char ch then [ch] # tokenizeExpr s
      else if isCondIdentStart ch \<or> ch = CHR ''#'' then
        (ch # takeWhile cond_tail s) # tokenizeExpr (dropWhile cond_tail s)
      else if is_digit ch then
        (ch # takeWhile cond_number_tail s) # tokenizeExpr (dropWhile cond_number_tail s)
      else tokenizeExpr s)"
  by pat_completeness auto
termination
  by (relation "measure length")
    (auto simp: less_Suc_eq_le length_dropWhile_le cond_two_char_def split: list.splits)

subsection \<open>Translation\<close>

definition isOperator :: "string \<Rightarrow> bool" where
  "isOperator tok \<longleftrightarrow> tok \<in> {''='', ''<>'', ''<'', ''<='', ''>'', ''>=''}"

record condBuilder =
  cb_names :: names
  cb_values :: vals
  cb_valueIdx :: nat

definition placeholder :: "nat \<Rightarrow> string" where
  "placeholder i = '':v'' @ show_nat i"

text \<open>
  The loop over the tokens: the values not used yet, the tokens put out.  \<open>tokens[i+1]\<close> is the head of
  the rest.
\<close>

fun translate_loop :: "string list \<Rightarrow> any list \<Rightarrow> condBuilder \<Rightarrow> (string list \<times> any list \<times> condBuilder) result" where
  "translate_loop [] vs cb = Inr ([], vs, cb)"
| "translate_loop (tok # rest) vs cb =
     (if ToUpper tok \<in> {''AND'', ''OR'', ''NOT''} then
        bind (translate_loop rest vs cb) (\<lambda>(out, r). Inr (ToUpper tok # out, r))
      else if isOperator tok then
        bind (translate_loop rest vs cb) (\<lambda>(out, r). Inr (tok # out, r))
      else if tok \<in> {''('', '')'', '',''} then
        bind (translate_loop rest vs cb) (\<lambda>(out, r). Inr (tok # out, r))
      else if tok = ''?'' then
        (case vs of
           [] \<Rightarrow> Inl (Errorf ''dynago: not enough values for placeholder'')
         | v # vs' \<Rightarrow>
             bind (anyToAttributeValue v) (\<lambda>av.
               bind (translate_loop rest vs'
                      (cb\<lparr>cb_valueIdx := Suc (cb_valueIdx cb),
                          cb_values := fmupd (placeholder (cb_valueIdx cb)) av (cb_values cb)\<rparr>))
                 (\<lambda>(out, r). Inr (placeholder (cb_valueIdx cb) # out, r))))
      else if rest \<noteq> [] \<and> hd rest = ''('' then
        bind (translate_loop rest vs cb) (\<lambda>(out, r). Inr (tok # out, r))
      else
        bind (translate_loop rest vs (cb\<lparr>cb_names := fmupd (CHR ''#'' # tok) tok (cb_names cb)\<rparr>))
          (\<lambda>(out, r). Inr ((CHR ''#'' # tok) # out, r)))"

definition translate :: "condBuilder \<Rightarrow> string \<Rightarrow> any list \<Rightarrow> (string \<times> condBuilder) result" where
  "translate cb expression vs =
     bind (translate_loop (tokenizeExpr expression) vs cb) (\<lambda>(out, left, cb').
       if left \<noteq> [] then Inl (Errorf ''dynago: unused values'') else Inr (Join out '' '', cb'))"

definition buildCondition :: "string \<Rightarrow> any list \<Rightarrow> conditionExpr result" where
  "buildCondition expression vs =
     bind (translate \<lparr>cb_names = fmempty, cb_values = fmempty, cb_valueIdx = 0\<rparr> expression vs) (\<lambda>(out, cb).
       Inr \<lparr>ce_expression = out, ce_names = cb_names cb, ce_values = cb_values cb\<rparr>)"

definition buildAttrNotExists :: "string \<Rightarrow> conditionExpr" where
  "buildAttrNotExists attr =
     (let alias = CHR ''#'' # attr in
      \<lparr>ce_expression = ''attribute_not_exists('' @ alias @ '')'',
       ce_names = fmupd alias attr fmempty, ce_values = fmempty\<rparr>)"

definition mergeConditions :: "conditionExpr \<Rightarrow> conditionExpr \<Rightarrow> conditionExpr" where
  "mergeConditions a b =
     \<lparr>ce_expression = ''('' @ ce_expression a @ '') AND ('' @ ce_expression b @ '')'',
      ce_names = ce_names a ++\<^sub>f ce_names b,
      ce_values = ce_values a ++\<^sub>f ce_values b\<rparr>"

text \<open>The options that add a condition: the first one is kept as it is, the next ones are merged.\<close>

definition add_condition :: "conditionExpr \<Rightarrow> conditionExpr option \<Rightarrow> conditionExpr" where
  "add_condition cond old = (case old of Some c \<Rightarrow> mergeConditions c cond | None \<Rightarrow> cond)"

text \<open>A condition that cannot be built makes the option panic.\<close>

definition must_build :: "string \<Rightarrow> string \<Rightarrow> any list \<Rightarrow> conditionExpr result" where
  "must_build what expression vs =
     (case buildCondition expression vs of Inl _ \<Rightarrow> Inl (GoPanic what) | Inr c \<Rightarrow> Inr c)"

subsection \<open>Properties\<close>

text \<open>Every name alias stands for the name behind its hash sign.\<close>

definition aliases_ok :: "names \<Rightarrow> bool" where
  "aliases_ok nm \<longleftrightarrow> (\<forall>k v. fmlookup nm k = Some v \<longrightarrow> k = CHR ''#'' # v)"

lemma aliases_ok_empty [simp]: "aliases_ok fmempty"
  by (simp add: aliases_ok_def)

lemma aliases_ok_upd [simp]: "aliases_ok nm \<Longrightarrow> aliases_ok (fmupd (CHR ''#'' # a) a nm)"
  by (auto simp: aliases_ok_def)

lemma aliases_ok_add: "aliases_ok nm \<Longrightarrow> aliases_ok nm' \<Longrightarrow> aliases_ok (nm ++\<^sub>f nm')"
  by (auto simp: aliases_ok_def split: if_splits)

lemma aliases_okD: "aliases_ok nm \<Longrightarrow> fmlookup nm (CHR ''#'' # a) = Some b \<Longrightarrow> b = a"
  by (auto simp: aliases_ok_def)

lemma placeholder_inj [simp]: "placeholder i = placeholder j \<longleftrightarrow> i = j"
  by (auto simp: placeholder_def dest: show_nat_inj)

end
