(* ===== verification/Builder.thy ===== *)
theory Builder
  imports Eval
begin

text \<open>
  The condition parser and the update constructors of \<open>internal/expr/builder.go\<close>.  The parser reads
  the text with its \<open>?\<close> placeholders directly: its state is the tokens left and the arguments left,
  which every function returns with its node.  The recursion is bounded by fuel as in \<open>MemExpr\<close>, and
  \<open>ParseCondition_fuel\<close> shows that the bound is never reached.
\<close>

subsection \<open>Tokens\<close>

definition bld_tail :: "char \<Rightarrow> bool" where
  "bld_tail c \<longleftrightarrow> isIdentPart c \<or> c = CHR ''.''"

definition bld_number_tail :: "char \<Rightarrow> bool" where
  "bld_number_tail c \<longleftrightarrow> is_digit c \<or> c = CHR ''.''"

definition bld_two_char :: "char \<Rightarrow> string \<Rightarrow> bool" where
  "bld_two_char ch s =
     (case s of d # _ \<Rightarrow> [ch, d] \<in> {''<>'', ''<='', ''>=''} | [] \<Rightarrow> False)"

definition bld_single_char :: "char \<Rightarrow> bool" where
  "bld_single_char ch \<longleftrightarrow> ch \<in> set ''?(),=<>''"

function tokenize :: "string \<Rightarrow> string list" where
  "tokenize [] = []"
| "tokenize (ch # s) =
     (if is_space ch then tokenize s
      else if bld_two_char ch s then [ch, hd s] # tokenize (tl s)
      else if bld_single_char ch then [ch] # tokenize s
      else if isIdentStart ch \<or> ch = CHR ''#'' then
        (ch # takeWhile bld_tail s) # tokenize (dropWhile bld_tail s)
      else if is_digit ch then
        (ch # takeWhile bld_number_tail s) # tokenize (dropWhile bld_number_tail s)
      else tokenize s)"
  by pat_completeness auto
termination
  by (relation "measure length")
    (auto simp: less_Suc_eq_le length_dropWhile_le bld_two_char_def split: list.splits)

subsection \<open>Paths and update nodes\<close>

definition TrimHash :: "string \<Rightarrow> string" where
  "TrimHash s = (case s of c # t \<Rightarrow> if c = CHR ''#'' then t else s | [] \<Rightarrow> [])"

definition parsePath :: "string \<Rightarrow> string list" where
  "parsePath s = SplitChar CHR ''.'' (TrimHash s)"

definition parsePathNode :: "string \<Rightarrow> node" where
  "parsePathNode tok = PathNode (SplitChar CHR ''.'' (TrimHash tok))"

definition BuildSet :: "string \<Rightarrow> any \<Rightarrow> node result" where
  "BuildSet attr v =
     bind (goToAttributeValue v) (\<lambda>av. Inr (UpdateNode SET (parsePath attr) (Some (ValueNode av))))"

definition BuildAdd :: "string \<Rightarrow> any \<Rightarrow> node result" where
  "BuildAdd attr v =
     bind (goToAttributeValue v) (\<lambda>av. Inr (UpdateNode ADD (parsePath attr) (Some (ValueNode av))))"

definition BuildRemove :: "string \<Rightarrow> node" where
  "BuildRemove attr = UpdateNode REMOVE (parsePath attr) None"

definition BuildDelete :: "string \<Rightarrow> any \<Rightarrow> node result" where
  "BuildDelete attr v =
     bind (goToAttributeValue v) (\<lambda>av. Inr (UpdateNode DELETE (parsePath attr) (Some (ValueNode av))))"

subsection \<open>The parser\<close>

type_synonym 'a parsed = "('a \<times> string list \<times> any list) result"

text \<open>The value placeholder of \<open>parsePrimary\<close>.\<close>

definition take_arg :: "any list \<Rightarrow> string list \<Rightarrow> node parsed" where
  "take_arg as ts =
     (case as of
        [] \<Rightarrow> Inl (Errorf ''expr: not enough arguments for placeholder'')
      | v # as' \<Rightarrow> bind (goToAttributeValue v) (\<lambda>av. Inr (ValueNode av, ts, as')))"

function (sequential) bld_parsePrimary :: "nat \<Rightarrow> string list \<Rightarrow> any list \<Rightarrow> node parsed"
and bld_parseFuncCall :: "nat \<Rightarrow> string \<Rightarrow> string list \<Rightarrow> any list \<Rightarrow> node parsed"
and bld_parseArgs :: "nat \<Rightarrow> node list \<Rightarrow> string list \<Rightarrow> any list \<Rightarrow> node list parsed"
where
  "bld_parsePrimary 0 ts as = Inl OutOfFuel"
| "bld_parsePrimary (Suc n) ts as =
     (let tok = peek ts; rest = tl ts in
      if tok = [] then Inl (Errorf ''expr: unexpected end of expression'')
      else if tok = ''?'' then take_arg as rest
      else if isIdentStart (hd tok) \<or> hd tok = CHR ''#'' then
        (if peek rest = ''('' then bld_parseFuncCall n tok rest as
         else Inr (parsePathNode tok, rest, as))
      else Inl (Errorf ''expr: unexpected token''))"
| "bld_parseFuncCall 0 name ts as = Inl OutOfFuel"
| "bld_parseFuncCall (Suc n) name ts as =
     bind (expect ''('' ts) (\<lambda>ts1.
       bind (bld_parseArgs n [] ts1 as) (\<lambda>(args, ts2, as2).
         bind (expect '')'' ts2) (\<lambda>ts3. Inr (FuncNode name args, ts3, as2))))"
| "bld_parseArgs 0 args ts as = Inl OutOfFuel"
| "bld_parseArgs (Suc n) args ts as =
     (if peek ts = '')'' then Inr (args, ts, as)
      else bind (if args \<noteq> [] then expect '','' ts else Inr ts) (\<lambda>ts1.
             bind (bld_parsePrimary n ts1 as) (\<lambda>(arg, ts2, as2).
               bld_parseArgs n (args @ [arg]) ts2 as2)))"
  by pat_completeness auto
termination
  by (relation "measure (case_sum fst (case_sum fst fst))") auto

text \<open>What may follow the first operand.\<close>

definition bld_parseSuffix :: "nat \<Rightarrow> node \<Rightarrow> string list \<Rightarrow> any list \<Rightarrow> node parsed" where
  "bld_parseSuffix n left ts as =
     (case parseCompareOp (peek ts) of
        Some op \<Rightarrow>
          bind (bld_parsePrimary n (tl ts) as) (\<lambda>(right, ts1, as1).
            Inr (CompareNode left op right, ts1, as1))
      | None \<Rightarrow> Inr (left, ts, as))"

function (sequential) bld_parseOr :: "nat \<Rightarrow> string list \<Rightarrow> any list \<Rightarrow> node parsed"
and bld_parseOrLoop :: "nat \<Rightarrow> node \<Rightarrow> string list \<Rightarrow> any list \<Rightarrow> node parsed"
and bld_parseAnd :: "nat \<Rightarrow> string list \<Rightarrow> any list \<Rightarrow> node parsed"
and bld_parseAndLoop :: "nat \<Rightarrow> node \<Rightarrow> string list \<Rightarrow> any list \<Rightarrow> node parsed"
and bld_parseNot :: "nat \<Rightarrow> string list \<Rightarrow> any list \<Rightarrow> node parsed"
and bld_parseComparison :: "nat \<Rightarrow> string list \<Rightarrow> any list \<Rightarrow> node parsed"
where
  "bld_parseOr 0 ts as = Inl OutOfFuel"
| "bld_parseOr (Suc n) ts as =
     bind (bld_parseAnd n ts as) (\<lambda>(left, ts1, as1). bld_parseOrLoop n left ts1 as1)"
| "bld_parseOrLoop 0 left ts as = Inl OutOfFuel"
| "bld_parseOrLoop (Suc n) left ts as =
     (if EqualFold (peek ts) ''OR'' then
        bind (bld_parseAnd n (tl ts) as) (\<lambda>(right, ts1, as1).
          bld_parseOrLoop n (LogicalNode OR left (Some right)) ts1 as1)
      else Inr (left, ts, as))"
| "bld_parseAnd 0 ts as = Inl OutOfFuel"
| "bld_parseAnd (Suc n) ts as =
     bind (bld_parseNot n ts as) (\<lambda>(left, ts1, as1). bld_parseAndLoop n left ts1 as1)"
| "bld_parseAndLoop 0 left ts as = Inl OutOfFuel"
| "bld_parseAndLoop (Suc n) left ts as =
     (if EqualFold (peek ts) ''AND'' then
        bind (bld_parseNot n (tl ts) as) (\<lambda>(right, ts1, as1).
          bld_parseAndLoop n (LogicalNode AND left (Some right)) ts1 as1)
      else Inr (left, ts, as))"
| "bld_parseNot 0 ts as = Inl OutOfFuel"
| "bld_parseNot (Suc n) ts as =
     (if EqualFold (peek ts) ''NOT'' then
        bind (bld_parseNot n (tl ts) as) (\<lambda>(operand, ts1, as1).
          Inr (LogicalNode NOT operand None, ts1, as1))
      else bld_parseComparison n ts as)"
| "bld_parseComparison 0 ts as = Inl OutOfFuel"
| "bld_parseComparison (Suc n) ts as =
     (if peek ts = ''('' then
        bind (bld_parseOr n (tl ts) as) (\<lambda>(inner, ts1, as1).
          bind (expect '')'' ts1) (\<lambda>ts2. Inr (inner, ts2, as1)))
      else bind (bld_parsePrimary n ts as) (\<lambda>(left, ts1, as1). bld_parseSuffix n left ts1 as1))"
  by pat_completeness auto
termination
  by (relation "measure (case_sum (case_sum fst (case_sum fst fst)) (case_sum fst (case_sum fst fst)))")
    auto

definition bld_fuel :: "string list \<Rightarrow> nat" where
  "bld_fuel ts = 8 * length ts + 8"

definition ParseCondition :: "string \<Rightarrow> any list \<Rightarrow> node result" where
  "ParseCondition expression args =
     (let ts = tokenize expression in
      bind (bld_parseOr (bld_fuel ts) ts args) (\<lambda>(node, rest, left).
        if rest \<noteq> [] then Inl (Errorf ''expr: unexpected token'')
        else if left \<noteq> [] then Inl (Errorf ''expr: unused arguments'')
        else Inr node))"

subsection \<open>The fuel suffices\<close>

lemma goToAttributeValue_fuel [simp]: "goToAttributeValue v \<noteq> Inl OutOfFuel"
  by (cases v) auto

lemma take_arg_fuel [simp]: "take_arg as ts \<noteq> Inl OutOfFuel"
  by (auto simp: take_arg_def bind_Inl_iff split: list.splits)

lemma take_arg_Inr: "take_arg as ts = Inr (x, ts', as') \<Longrightarrow> ts' = ts"
  by (auto simp: take_arg_def bind_Inr_iff split: list.splits)

lemma bld_primary_consumes:
  "bld_parsePrimary n ts as = Inr (x, ts', as') \<Longrightarrow> length ts' < length ts"
  "bld_parseFuncCall n name ts as = Inr (x, ts', as') \<Longrightarrow> length ts' < length ts"
  "bld_parseArgs n args ts as = Inr (xs, ts', as') \<Longrightarrow> length ts' \<le> length ts"
proof (induction n arbitrary: x xs args name ts as ts' as')
  case (Suc n)
  {
    case 1
    then show ?case
      by (cases ts) (auto simp: Let_def split: if_splits dest!: take_arg_Inr Suc.IH(2))
  next
    case 2
    then show ?case by (auto simp: bind_Inr_iff expect_Inr dest!: Suc.IH(3))
  next
    case 3
    then show ?case
      by (fastforce simp: bind_Inr_iff expect_Inr split: if_splits dest!: Suc.IH(1) Suc.IH(3))
  }
qed simp_all

lemma bld_primary_dry:
  "bld_parsePrimary n ts as = Inl OutOfFuel \<Longrightarrow> n \<le> 3 * length ts"
  "bld_parseFuncCall n name ts as = Inl OutOfFuel \<Longrightarrow> n \<le> 3 * length ts"
  "bld_parseArgs n args ts as = Inl OutOfFuel \<Longrightarrow> n \<le> 3 * length ts + 1"
proof (induction n arbitrary: args name ts as)
  case (Suc n)
  {
    case 1
    then show ?case
      by (cases ts) (auto simp: Let_def split: if_splits dest!: Suc.IH(2))
  next
    case 2
    then show ?case by (auto simp: bind_Inl_iff expect_Inr dest!: Suc.IH(3))
  next
    case 3
    then show ?case
      by (auto simp: bind_Inl_iff expect_Inr split: if_splits
          dest!: Suc.IH(1) Suc.IH(3) bld_primary_consumes(1))
  }
qed simp_all

lemma bld_suffix_consumes: "bld_parseSuffix n left ts as = Inr (x, ts', as') \<Longrightarrow> length ts' \<le> length ts"
  by (cases ts)
    (auto simp: bld_parseSuffix_def bind_Inr_iff split: option.splits dest!: bld_primary_consumes(1))

lemma bld_suffix_dry: "bld_parseSuffix n left ts as = Inl OutOfFuel \<Longrightarrow> n \<le> 3 * length ts"
  by (cases ts) (auto simp: bld_parseSuffix_def bind_Inl_iff split: option.splits dest!: bld_primary_dry(1))

lemmas bld_suffix_facts =
  bld_suffix_consumes bld_suffix_dry bld_primary_consumes(1) bld_primary_dry(1)

lemma bld_logical_consumes:
  "bld_parseOr n ts as = Inr (x, ts', as') \<Longrightarrow> length ts' < length ts"
  "bld_parseOrLoop n left ts as = Inr (x, ts', as') \<Longrightarrow> length ts' \<le> length ts"
  "bld_parseAnd n ts as = Inr (x, ts', as') \<Longrightarrow> length ts' < length ts"
  "bld_parseAndLoop n left ts as = Inr (x, ts', as') \<Longrightarrow> length ts' \<le> length ts"
  "bld_parseNot n ts as = Inr (x, ts', as') \<Longrightarrow> length ts' < length ts"
  "bld_parseComparison n ts as = Inr (x, ts', as') \<Longrightarrow> length ts' < length ts"
proof (induction n arbitrary: ts as ts' as' x left)
  case (Suc n)
  {
    case 1 then show ?case by (fastforce simp: bind_Inr_iff dest!: Suc.IH)
  next
    case 2
    then show ?case by (cases ts) (fastforce simp: bind_Inr_iff split: if_splits dest!: Suc.IH)+
  next
    case 3 then show ?case by (fastforce simp: bind_Inr_iff dest!: Suc.IH)
  next
    case 4
    then show ?case by (cases ts) (fastforce simp: bind_Inr_iff split: if_splits dest!: Suc.IH)+
  next
    case 5
    then show ?case by (cases ts) (fastforce simp: bind_Inr_iff split: if_splits dest!: Suc.IH)+
  next
    case 6
    then show ?case
      by (cases ts)
        (fastforce simp: bind_Inr_iff expect_Inr split: if_splits dest!: Suc.IH bld_suffix_facts)+
  }
qed simp_all

lemma bld_logical_dry:
  "bld_parseOr n ts as = Inl OutOfFuel \<Longrightarrow> n \<le> 8 * length ts + 6"
  "bld_parseOrLoop n left ts as = Inl OutOfFuel \<Longrightarrow> n \<le> 8 * length ts + 4"
  "bld_parseAnd n ts as = Inl OutOfFuel \<Longrightarrow> n \<le> 8 * length ts + 5"
  "bld_parseAndLoop n left ts as = Inl OutOfFuel \<Longrightarrow> n \<le> 8 * length ts + 3"
  "bld_parseNot n ts as = Inl OutOfFuel \<Longrightarrow> n \<le> 8 * length ts + 4"
  "bld_parseComparison n ts as = Inl OutOfFuel \<Longrightarrow> n \<le> 8 * length ts + 3"
proof (induction n arbitrary: ts as left)
  case (Suc n)
  {
    case 1 then show ?case by (auto simp: bind_Inl_iff dest!: Suc.IH bld_logical_consumes)
  next
    case 2
    then show ?case
      by (cases ts) (auto simp: bind_Inl_iff split: if_splits dest!: Suc.IH bld_logical_consumes)+
  next
    case 3 then show ?case by (auto simp: bind_Inl_iff dest!: Suc.IH bld_logical_consumes)
  next
    case 4
    then show ?case
      by (cases ts) (auto simp: bind_Inl_iff split: if_splits dest!: Suc.IH bld_logical_consumes)+
  next
    case 5
    then show ?case by (cases ts) (auto simp: bind_Inl_iff split: if_splits dest!: Suc.IH)+
  next
    case 6
    then show ?case
      by (cases ts)
        (auto simp: bind_Inl_iff expect_Inr split: if_splits dest!: Suc.IH bld_suffix_facts)+
  }
qed simp_all

lemma bld_parseOr_fuel: "bld_parseOr (bld_fuel ts) ts as \<noteq> Inl OutOfFuel"
  using bld_logical_dry(1) [of "bld_fuel ts" ts as] by (auto simp: bld_fuel_def)

lemma ParseCondition_fuel: "ParseCondition e as \<noteq> Inl OutOfFuel"
  using bld_parseOr_fuel [of "tokenize e" as]
  by (auto simp: ParseCondition_def Let_def bind_Inl_iff split: if_splits)

end
