(* ===== verification/CondEquiv.thy ===== *)
theory CondEquiv
  imports MemTokens Condition Builder
begin

text \<open>
  The two ways a condition reaches an evaluator: \<open>ParseCondition\<close> of \<open>internal/expr\<close> parses the text with
  its placeholders, while the client's \<open>buildCondition\<close> rewrites the text and the in-memory backend
  parses what it gets.  On the common language both give the same tree.
\<close>

subsection \<open>One tokenizer, written twice\<close>

lemma cond_classes: "isCondIdentStart = isIdentStart" "cond_tail = bld_tail" "cond_number_tail = bld_number_tail"
  "cond_two_char = bld_two_char" "cond_single_char = bld_single_char"
  by (auto simp: fun_eq_iff cond_single_char_def bld_single_char_def isCondIdentStart_def isIdentStart_def isCondIdentPart_def isIdentPart_def
      cond_tail_def bld_tail_def cond_number_tail_def bld_number_tail_def cond_two_char_def bld_two_char_def)

lemma tokenizers_agree: "tokenizeExpr s = tokenize s"
  by (induction s rule: tokenize.induct) (simp_all add: cond_classes)

subsection \<open>The tokens put out\<close>

definition is_logical :: "string \<Rightarrow> bool" where
  "is_logical t \<longleftrightarrow> ToUpper t \<in> {''AND'', ''OR'', ''NOT''}"

definition is_symbol :: "string \<Rightarrow> bool" where
  "is_symbol t \<longleftrightarrow> isOperator t \<or> t \<in> {''('', '')'', '',''}"

text \<open>Tokens passed on: keywords, in upper case, symbols, and the names of functions.\<close>

definition copied :: "string \<Rightarrow> string list \<Rightarrow> bool" where
  "copied t ts \<longleftrightarrow> is_logical t \<or> is_symbol t \<or> t \<noteq> ''?'' \<and> peek ts = ''(''"

definition passed :: "string \<Rightarrow> string" where
  "passed t = (if is_logical t then ToUpper t else t)"

fun out_toks :: "nat \<Rightarrow> string list \<Rightarrow> string list" where
  "out_toks i [] = []"
| "out_toks i (t # ts) =
     (if copied t ts then passed t # out_toks i ts
      else if t = ''?'' then placeholder i # out_toks (Suc i) ts
      else (CHR ''#'' # t) # out_toks i ts)"

text \<open>The maps of the request hold what the tokens put out refer to.\<close>

fun bound :: "names \<Rightarrow> vals \<Rightarrow> nat \<Rightarrow> string list \<Rightarrow> any list \<Rightarrow> bool" where
  "bound nm vs i [] as \<longleftrightarrow> True"
| "bound nm vs i (t # ts) as \<longleftrightarrow>
     (if copied t ts then bound nm vs i ts as
      else if t = ''?'' then
        (\<exists>v as' av. as = v # as' \<and> anyToAttributeValue v = Inr av \<and>
           fmlookup vs (placeholder i) = Some av \<and> bound nm vs (Suc i) ts as')
      else fmlookup nm (CHR ''#'' # t) = Some t \<and> bound nm vs i ts as)"

text \<open>One turn of the loop, in these terms.\<close>

definition with_value :: "AttributeValue \<Rightarrow> condBuilder \<Rightarrow> condBuilder" where
  "with_value av cb =
     cb\<lparr>cb_valueIdx := Suc (cb_valueIdx cb), cb_values := fmupd (placeholder (cb_valueIdx cb)) av (cb_values cb)\<rparr>"

definition with_name :: "string \<Rightarrow> condBuilder \<Rightarrow> condBuilder" where
  "with_name t cb = cb\<lparr>cb_names := fmupd (CHR ''#'' # t) t (cb_names cb)\<rparr>"

lemma builder_parts [simp]:
  "cb_valueIdx (with_value av cb) = Suc (cb_valueIdx cb)" "cb_names (with_value av cb) = cb_names cb"
  "cb_values (with_value av cb) = fmupd (placeholder (cb_valueIdx cb)) av (cb_values cb)"
  "cb_valueIdx (with_name t cb) = cb_valueIdx cb" "cb_values (with_name t cb) = cb_values cb"
  "cb_names (with_name t cb) = fmupd (CHR ''#'' # t) t (cb_names cb)"
  by (simp_all add: with_value_def with_name_def)

definition put_tok :: "string \<Rightarrow> (string list \<times> 'a) result \<Rightarrow> (string list \<times> 'a) result" where
  "put_tok t r = bind r (\<lambda>(out, x). Inr (t # out, x))"

lemma put_tok_Inr: "put_tok t r = Inr (out, x) \<longleftrightarrow> (\<exists>out'. r = Inr (out', x) \<and> out = t # out')"
  by (auto simp: put_tok_def bind_Inr_iff)

lemma translate_Cons:
  "translate_loop (t # ts) vs cb =
     (if copied t ts then put_tok (passed t) (translate_loop ts vs cb)
      else if t = ''?'' then
        (case vs of
           [] \<Rightarrow> Inl (Errorf ''dynago: not enough values for placeholder'')
         | v # vs' \<Rightarrow>
             bind (anyToAttributeValue v) (\<lambda>av.
               put_tok (placeholder (cb_valueIdx cb)) (translate_loop ts vs' (with_value av cb))))
      else put_tok (CHR ''#'' # t) (translate_loop ts vs (with_name t cb)))"
proof -
  have hd: "(ts \<noteq> [] \<and> hd ts = ''('') \<longleftrightarrow> peek ts = ''(''" by (cases ts) auto
  show ?thesis
    unfolding translate_loop.simps hd put_tok_def with_value_def with_name_def
    by (cases "is_logical t"; cases "is_symbol t"; cases "t = ''?''"; cases "peek ts = ''(''")
      (auto simp: copied_def passed_def is_logical_def is_symbol_def)
qed

declare translate_loop.simps(2) [simp del]

lemma translate_pass:
  "copied t ts \<Longrightarrow> translate_loop (t # ts) vs cb = put_tok (passed t) (translate_loop ts vs cb)"
  by (simp add: translate_Cons)

lemma translate_name:
  "\<not> copied t ts \<Longrightarrow> t \<noteq> ''?'' \<Longrightarrow>
   translate_loop (t # ts) vs cb = put_tok (CHR ''#'' # t) (translate_loop ts vs (with_name t cb))"
  by (simp add: translate_Cons)

lemma translate_val:
  assumes "\<not> copied t ts" "t = ''?''" "translate_loop (t # ts) vs cb = Inr (out, left, cb')"
  obtains v vs' av out' where "vs = v # vs'" "anyToAttributeValue v = Inr av"
    "translate_loop ts vs' (with_value av cb) = Inr (out', left, cb')" "out = placeholder (cb_valueIdx cb) # out'"
  using assms by (auto simp: translate_Cons put_tok_Inr bind_Inr_iff split: list.splits)

lemmas translate_step = translate_pass translate_name put_tok_Inr

lemma translate_induct [case_names Nil pass val name]:
  assumes "\<And>vs cb. P [] vs cb"
    and "\<And>t ts vs cb. copied t ts \<Longrightarrow> P ts vs cb \<Longrightarrow> P (t # ts) vs cb"
    and "\<And>t ts vs cb. \<not> copied t ts \<Longrightarrow> t = ''?'' \<Longrightarrow> (\<And>v vs' av. vs = v # vs' \<Longrightarrow> P ts vs' (with_value av cb)) \<Longrightarrow> P (t # ts) vs cb"
    and "\<And>t ts vs cb. \<not> copied t ts \<Longrightarrow> t \<noteq> ''?'' \<Longrightarrow> P ts vs (with_name t cb) \<Longrightarrow> P (t # ts) vs cb"
  shows "P ts vs cb"
proof (induction ts arbitrary: vs cb)
  case (Cons t ts)
  show ?case
  proof (cases "copied t ts")
    case True
    then show ?thesis by (rule assms(2) [OF _ Cons])
  next
    case False
    then show ?thesis by (cases "t = ''?''") (rule assms(3) [OF _ _ Cons], simp_all, rule assms(4) [OF _ _ Cons])
  qed
qed (rule assms(1))

text \<open>What the loop puts in the maps stays there: aliases repeat, placeholders are fresh.\<close>

lemma translate_loop_aliases:
  "translate_loop ts vs cb = Inr (out, left, cb') \<Longrightarrow> aliases_ok (cb_names cb) \<Longrightarrow> aliases_ok (cb_names cb')"
proof (induction ts vs cb arbitrary: out rule: translate_induct)
  case (val t ts vs cb)
  from val(1,2,4) show ?case by (rule translate_val) (use val(3,5) in simp)
qed (auto simp: translate_step)

lemma translate_loop_keeps_names:
  "translate_loop ts vs cb = Inr (out, left, cb') \<Longrightarrow> aliases_ok (cb_names cb) \<Longrightarrow>
   fmlookup (cb_names cb) k = Some v \<Longrightarrow> fmlookup (cb_names cb') k = Some v"
proof (induction ts vs cb arbitrary: out rule: translate_induct)
  case (val t ts vs cb)
  from val(1,2,4) show ?case by (rule translate_val) (use val(3,5,6) in simp)
next
  case (name t ts vs cb)
  have "fmlookup (cb_names (with_name t cb)) k = Some v"
    using name(6) aliases_okD [OF name(5), of t v] by auto
  moreover from name(1,2,4) obtain out' where "translate_loop ts vs (with_name t cb) = Inr (out', left, cb')"
    by (auto simp: translate_step)
  ultimately show ?case using name(3,5) by simp
qed (auto simp: translate_step)

lemma translate_loop_keeps_values:
  "translate_loop ts vs cb = Inr (out, left, cb') \<Longrightarrow> j < cb_valueIdx cb \<Longrightarrow>
   fmlookup (cb_values cb') (placeholder j) = fmlookup (cb_values cb) (placeholder j)"
proof (induction ts vs cb arbitrary: out rule: translate_induct)
  case (val t ts vs cb)
  from val(1,2,4) show ?case by (rule translate_val) (use val(3,5) in simp)
qed (auto simp: translate_step)

lemma translate_loop_out:
  "translate_loop ts vs cb = Inr (out, left, cb') \<Longrightarrow> aliases_ok (cb_names cb) \<Longrightarrow>
   out = out_toks (cb_valueIdx cb) ts \<and> bound (cb_names cb') (cb_values cb') (cb_valueIdx cb) ts vs"
proof (induction ts vs cb arbitrary: out rule: translate_induct)
  case (val t ts vs cb)
  from val(1,2,4) show ?case
  proof (rule translate_val)
    fix v vs' av out'
    assume v: "vs = v # vs'" "anyToAttributeValue v = Inr av"
      and step: "translate_loop ts vs' (with_value av cb) = Inr (out', left, cb')"
      and out: "out = placeholder (cb_valueIdx cb) # out'"
    have "fmlookup (cb_values cb') (placeholder (cb_valueIdx cb)) = Some av"
      using translate_loop_keeps_values [OF step, of "cb_valueIdx cb"] by simp
    with val(3) [OF v(1) step] val(1,2,5) v out show ?thesis by simp
  qed
next
  case (name t ts vs cb)
  then obtain out' where step: "translate_loop ts vs (with_name t cb) = Inr (out', left, cb')"
    and out: "out = (CHR ''#'' # t) # out'"
    by (auto simp: translate_step)
  have "fmlookup (cb_names cb') (CHR ''#'' # t) = Some t"
    using translate_loop_keeps_names [OF step, of "CHR ''#'' # t" t] name(5) by simp
  with name step out show ?case by simp
qed (auto simp: translate_step)

subsection \<open>The parsers in step\<close>

text \<open>The common language: no aliases or dotted paths, and neither IN nor BETWEEN.\<close>

definition cond_toks :: "string list \<Rightarrow> bool" where
  "cond_toks ts \<longleftrightarrow>
     (\<forall>t \<in> set ts. t \<noteq> [] \<and> CHR ''#'' \<notin> set t \<and> CHR ''.'' \<notin> set t \<and> ToUpper t \<notin> {''IN'', ''BETWEEN''})"

definition corr :: "names \<Rightarrow> vals \<Rightarrow> nat \<Rightarrow> string list \<Rightarrow> any list \<Rightarrow> bool" where
  "corr nm vs i ts as \<longleftrightarrow> cond_toks ts \<and> bound nm vs i ts as"

fun supported :: "node \<Rightarrow> bool" where
  "supported (CompareNode l op r) \<longleftrightarrow> supported l \<and> supported r"
| "supported (LogicalNode op l None) \<longleftrightarrow> supported l"
| "supported (LogicalNode op l (Some r)) \<longleftrightarrow> supported l \<and> supported r"
| "supported (FuncNode name args) \<longleftrightarrow> known_function name \<and> ToLower name = name \<and> list_all supported args"
| "supported (PathNode parts) \<longleftrightarrow> list_all (\<lambda>p. \<not> is_logical p) parts"
| "supported (ValueNode v) \<longleftrightarrow> True"
| "supported _ \<longleftrightarrow> False"

definition emit :: "nat \<Rightarrow> string \<Rightarrow> string list \<Rightarrow> string" where
  "emit i t ts = (if copied t ts then passed t else if t = ''?'' then placeholder i else CHR ''#'' # t)"

definition nxt :: "nat \<Rightarrow> string \<Rightarrow> nat" where
  "nxt i t = (if t = ''?'' then Suc i else i)"

lemma question_not_passed [simp]: "\<not> copied ''?'' ts"
  by (simp add: copied_def is_logical_def is_symbol_def isOperator_def ToUpper_def up_char_def is_lower_def less_eq_char_def)

lemma out_toks_Cons: "out_toks i (t # ts) = emit i t ts # out_toks (nxt i t) ts"
  by (auto simp: emit_def nxt_def)

lemma out_toks_Nil [simp]: "out_toks i ts = [] \<longleftrightarrow> ts = []"
  by (cases ts) (auto simp: out_toks_Cons)

lemma length_out_toks [simp]: "length (out_toks i ts) = length ts"
  by (induction ts arbitrary: i) (simp_all add: out_toks_Cons)

declare out_toks.simps(2) [simp del]

lemma corr_tl: "corr nm vs i ts as \<Longrightarrow> peek ts \<noteq> ''?'' \<Longrightarrow> corr nm vs i (tl ts) as \<and> tl (out_toks i ts) = out_toks i (tl ts)"
  by (cases ts) (auto simp: corr_def cond_toks_def out_toks_Cons nxt_def split: if_splits)

lemma logical_words:
  assumes "is_logical t"
  shows "ToUpper (ToUpper t) = ToUpper t" "\<not> is_symbol t" "\<not> is_symbol (ToUpper t)"
    "parseCompareOp t = None" "parseCompareOp (ToUpper t) = None"
proof -
  have word: "ToUpper t = ''AND'' \<or> ToUpper t = ''OR'' \<or> ToUpper t = ''NOT''"
    using assms by (simp add: is_logical_def)
  moreover have "ToUpper ''AND'' = ''AND''" "ToUpper ''OR'' = ''OR''" "ToUpper ''NOT'' = ''NOT''" by code_simp+
  ultimately show "ToUpper (ToUpper t) = ToUpper t" by auto
  from word show "\<not> is_symbol (ToUpper t)" "parseCompareOp (ToUpper t) = None"
    by (auto simp: is_symbol_def isOperator_def parseCompareOp_def)
  have "length t \<noteq> 1 \<and> t \<notin> {''<>'', ''<='', ''>=''}"
    using word length_ToUpper [of t] by (auto simp: ToUpper_def up_char_def is_lower_def less_eq_char_def)
  then show "\<not> is_symbol t" "parseCompareOp t = None"
    by (auto simp: is_symbol_def isOperator_def parseCompareOp_def)
qed

text \<open>What the parsers look at in the current token.\<close>

lemma is_symbol_cases: "is_symbol t \<longleftrightarrow> parseCompareOp t \<noteq> None \<or> t \<in> {''('', '')'', '',''}"
  by (auto simp: is_symbol_def isOperator_def parseCompareOp_def)

lemma emit_cases:
  obtains "is_logical t" "emit i t ts = ToUpper t" | "\<not> is_logical t" "emit i t ts = t"
  | "\<not> is_logical t" "\<not> is_symbol t" "emit i t ts = placeholder i" "t = ''?''"
  | "\<not> is_logical t" "\<not> is_symbol t" "emit i t ts = CHR ''#'' # t" "peek ts \<noteq> ''(''" "t \<noteq> ''?''"
  by (cases "is_logical t"; cases "is_symbol t"; cases "t = ''?''"; cases "peek ts = ''(''")
    (auto simp: emit_def copied_def passed_def)

lemma placeholder_not_symbol: "\<not> is_symbol (placeholder i)" "\<not> is_symbol (CHR ''#'' # t)"
  by (auto simp: placeholder_def is_symbol_def isOperator_def)

lemma emit_symbol:
  "x \<in> {''('', '')'', '',''} \<Longrightarrow> emit i t ts = x \<longleftrightarrow> t = x"
  "parseCompareOp (emit i t ts) = parseCompareOp t"
proof -
  show "x \<in> {''('', '')'', '',''} \<Longrightarrow> emit i t ts = x \<longleftrightarrow> t = x"
    using placeholder_not_symbol(1) [of i] placeholder_not_symbol(2) [of t] logical_words(2,3) [of t] is_symbol_cases [of x]
    by (cases rule: emit_cases [of t i ts]) auto
  show "parseCompareOp (emit i t ts) = parseCompareOp t"
    using placeholder_not_symbol(1) [of i] placeholder_not_symbol(2) [of t] logical_words(4,5) [of t] is_symbol_cases
    by (cases rule: emit_cases [of t i ts]) auto
qed

lemma fold_not_letter: "c \<in> set ''#:'' \<Longrightarrow> k \<noteq> [] \<Longrightarrow> hd k \<notin> set ''#:'' \<Longrightarrow> ToUpper (c # s) \<noteq> k"
  by (auto simp: ToUpper_def up_char_def is_lower_def less_eq_char_def)

lemma emit_fold:
  "k \<in> {''AND'', ''OR'', ''NOT''} \<Longrightarrow> EqualFold (emit i t ts) k \<longleftrightarrow> EqualFold t k"
  "k \<in> {''IN'', ''BETWEEN''} \<Longrightarrow> ToUpper t \<notin> {''IN'', ''BETWEEN''} \<Longrightarrow> \<not> EqualFold (emit i t ts) k"
proof -
  have up: "ToUpper ''AND'' = ''AND''" "ToUpper ''OR'' = ''OR''" "ToUpper ''NOT'' = ''NOT''"
    "ToUpper ''IN'' = ''IN''" "ToUpper ''BETWEEN'' = ''BETWEEN''" "ToUpper ''?'' = ''?''" by code_simp+
  show "EqualFold (emit i t ts) k \<longleftrightarrow> EqualFold t k" if k: "k \<in> {''AND'', ''OR'', ''NOT''}"
    using k logical_words(1) [of t]
    by (cases rule: emit_cases [of t i ts])
      (auto simp: EqualFold_def up fold_not_letter placeholder_def is_logical_def)
  show "\<not> EqualFold (emit i t ts) k" if k: "k \<in> {''IN'', ''BETWEEN''}" "ToUpper t \<notin> {''IN'', ''BETWEEN''}"
    using k logical_words(1) [of t]
    by (cases rule: emit_cases [of t i ts])
      (auto simp: EqualFold_def up fold_not_letter placeholder_def is_logical_def)
qed

lemma peek_out:
  "x \<in> {''('', '')'', '',''} \<Longrightarrow> peek (out_toks i ts) = x \<longleftrightarrow> peek ts = x"
  "parseCompareOp (peek (out_toks i ts)) = parseCompareOp (peek ts)"
  "k \<in> {''AND'', ''OR'', ''NOT''} \<Longrightarrow> EqualFold (peek (out_toks i ts)) k \<longleftrightarrow> EqualFold (peek ts) k"
  "k \<in> {''IN'', ''BETWEEN''} \<Longrightarrow> cond_toks ts \<Longrightarrow> \<not> EqualFold (peek (out_toks i ts)) k"
  using emit_symbol emit_fold by (cases ts; force simp: out_toks_Cons cond_toks_def)+

lemma not_question: "x \<in> {''('', '')'', '',''} \<Longrightarrow> x \<noteq> ''?''" "EqualFold t k \<Longrightarrow> k \<in> {''AND'', ''OR'', ''NOT''} \<Longrightarrow> t \<noteq> ''?''"
  "parseCompareOp t = Some op \<Longrightarrow> t \<noteq> ''?''"
  by (auto simp: EqualFold_def ToUpper_def up_char_def is_lower_def less_eq_char_def parseCompareOp_def)

lemma expect_out:
  assumes "x \<in> {''('', '')'', '',''}" "expect x ts = Inr ts1" "corr nm vs i ts as"
  shows "expect x (out_toks i ts) = Inr (out_toks i ts1) \<and> corr nm vs i ts1 as"
proof -
  from assms(2) have ts: "ts = x # ts1" by (simp add: expect_Inr)
  with assms(1) have "emit i x ts1 = x" using emit_symbol(1) [of x i x ts1] by simp
  with corr_tl [OF assms(3)] not_question(1) [OF assms(1)] ts show ?thesis
    by (simp add: out_toks_Cons nxt_def)
qed

lemma bld_parseArgs_prefix: "bld_parseArgs n args ts as = Inr (xs, ts', as') \<Longrightarrow> prefix args xs"
proof (induction n arbitrary: args ts as)
  case (Suc n)
  then show ?case
    by (auto simp: bind_Inr_iff split: if_splits dest!: Suc.IH append_prefixD)
qed simp

lemma bld_parseFuncCall_name:
  "bld_parseFuncCall n name ts as = Inr (x, ts', as') \<Longrightarrow> \<exists>args. x = FuncNode name args"
  by (cases n) (auto simp: bind_Inr_iff)

lemma function_not_logical: "known_function t \<Longrightarrow> \<not> is_logical t"
proof
  assume "known_function t" "is_logical t"
  then have "length (ToLower t) \<ge> 4" "length (ToUpper t) \<le> 3"
    by (auto simp: known_function_def is_logical_def simp del: length_ToUpper)
  then show False by (simp add: ToLower_def ToUpper_def)
qed

lemma SplitChar_word: "CHR ''.'' \<notin> set t \<Longrightarrow> CHR ''#'' \<notin> set t \<Longrightarrow> SplitChar CHR ''.'' (TrimHash t) = [t]"
  by (cases t) (auto simp: TrimHash_def SplitChar_no_sep)

text \<open>A primary that the first parser accepts: a placeholder, a function or a name.\<close>

lemma primary_step:
  assumes "bld_parsePrimary (Suc n) ts as = Inr (x, ts', as')" "corr nm vs i ts as" "supported x"
    and call: "\<And>name ts as i. bld_parseFuncCall n name ts as = Inr (x, ts', as') \<Longrightarrow> corr nm vs i ts as \<Longrightarrow>
      \<exists>i'. parseFuncCall n nm vs name (out_toks i ts) = Inr (x, out_toks i' ts') \<and> corr nm vs i' ts' as'"
  shows "\<exists>i'. parsePrimary (Suc n) nm vs (out_toks i ts) = Inr (x, out_toks i' ts') \<and> corr nm vs i' ts' as'"
proof -
  from assms(1) obtain t rest where ts: "ts = t # rest" by (cases ts) auto
  with assms(2) have t: "t \<noteq> []" "CHR ''#'' \<notin> set t" "CHR ''.'' \<notin> set t" by (simp_all add: corr_def cond_toks_def)
  show ?thesis
  proof (cases "t = ''?''")
    case True
    with assms(2) ts obtain v as2 av where v: "as = v # as2" "anyToAttributeValue v = Inr av"
      "fmlookup vs (placeholder i) = Some av" "bound nm vs (Suc i) rest as2"
      by (auto simp: corr_def)
    with assms(1) True ts have x: "x = ValueNode av" "ts' = rest" "as' = as2"
      using conversions_agree(2) [OF v(2)] by (auto simp: Let_def take_arg_def)
    have "corr nm vs (Suc i) rest as2" using v(4) assms(2) ts by (auto simp: corr_def cond_toks_def)
    with v(3) x ts True show ?thesis
      by (intro exI [of _ "Suc i"]) (simp add: Let_def out_toks_Cons emit_def nxt_def placeholder_def)
  next
    case False
    with assms(1) ts t have start: "isIdentStart (hd t)"
      by (cases t) (auto simp: Let_def split: if_splits)
    from False ts corr_tl [OF assms(2)] have rest: "corr nm vs i rest as" "out_toks i ts = emit i t rest # out_toks i rest"
      by (auto simp: out_toks_Cons nxt_def)
    show ?thesis
    proof (cases "peek rest = ''(''")
      case True
      with assms(1) ts t start False have pcall: "bld_parseFuncCall n t rest as = Inr (x, ts', as')" by (simp add: Let_def)
      have name: "known_function t" "\<not> is_logical t"
        using bld_parseFuncCall_name [OF pcall] assms(3) function_not_logical by auto
      with False True have emit: "emit i t rest = t" by (simp add: emit_def copied_def passed_def)
      have colon: "hd t \<noteq> CHR '':''" "hd t \<noteq> CHR ''#''" using start_not_other [OF start] by simp_all
      from call [OF pcall rest(1)] show ?thesis
        using rest(2) emit colon start t True name peek_out(1) [of "''(''" i rest] by (simp add: Let_def)
    next
      case other: False
      with assms(1) ts t start False have x: "x = PathNode [t]" "ts' = rest" "as' = as"
        by (auto simp: Let_def parsePathNode_def SplitChar_word)
      with assms(3) have "\<not> is_logical t" by simp
      moreover have "\<not> is_symbol t"
        using start start_not_other(2,5,6) [OF start] t by (cases t) (auto simp: is_symbol_def isOperator_def single_char_tok_def)
      ultimately have "emit i t rest = CHR ''#'' # t" "fmlookup nm (CHR ''#'' # t) = Some t"
        using other False assms(2) ts by (auto simp: emit_def copied_def corr_def)
      with x rest other peek_out(1) [of "''(''" i rest] SplitChar_no_sep [OF t(3)] show ?thesis by (auto simp: Let_def)
    qed
  qed
qed

lemma primary_agrees:
  "bld_parsePrimary n ts as = Inr (x, ts', as') \<Longrightarrow> corr nm vs i ts as \<Longrightarrow> supported x \<Longrightarrow>
   \<exists>i'. parsePrimary n nm vs (out_toks i ts) = Inr (x, out_toks i' ts') \<and> corr nm vs i' ts' as'"
  "bld_parseFuncCall n name ts as = Inr (x, ts', as') \<Longrightarrow> corr nm vs i ts as \<Longrightarrow> supported x \<Longrightarrow>
   \<exists>i'. parseFuncCall n nm vs name (out_toks i ts) = Inr (x, out_toks i' ts') \<and> corr nm vs i' ts' as'"
  "bld_parseArgs n args ts as = Inr (xs, ts', as') \<Longrightarrow> corr nm vs i ts as \<Longrightarrow> list_all supported xs \<Longrightarrow>
   \<exists>i'. parseArgs n nm vs args (out_toks i ts) = Inr (xs, out_toks i' ts') \<and> corr nm vs i' ts' as'"
proof (induction n arbitrary: x xs args name ts as ts' as' i)
  case (Suc n)
  {
    case 1
    then show ?case by (rule primary_step) (rule Suc.IH(2) [OF _ _ 1(3)])
  next
    case 2
    then obtain ts1 args ts2 as2 where p: "expect ''('' ts = Inr ts1" "bld_parseArgs n [] ts1 as = Inr (args, ts2, as2)"
      "expect '')'' ts2 = Inr ts'" "x = FuncNode name args" "as' = as2"
      by (auto simp: bind_Inr_iff)
    from expect_out [OF _ p(1) 2(2)] have e1: "expect ''('' (out_toks i ts) = Inr (out_toks i ts1)" "corr nm vs i ts1 as" by auto
    from Suc.IH(3) [OF p(2) e1(2)] 2(3) p(4) obtain i2 where
      a: "parseArgs n nm vs [] (out_toks i ts1) = Inr (args, out_toks i2 ts2)" "corr nm vs i2 ts2 as2" by auto
    from expect_out [OF _ p(3) a(2)] have e2: "expect '')'' (out_toks i2 ts2) = Inr (out_toks i2 ts')" "corr nm vs i2 ts' as2" by auto
    with e1 a p 2(3) show ?case by (intro exI [of _ i2]) simp
  next
    case 3
    show ?case
    proof (cases "peek ts = '')''")
      case True
      with 3 peek_out(1) [of "'')''" i ts] show ?thesis by auto
    next
      case False
      with 3(1) obtain ts1 arg ts2 as2 where p: "(if args \<noteq> [] then expect '','' ts else Inr ts) = Inr ts1"
        "bld_parsePrimary n ts1 as = Inr (arg, ts2, as2)" "bld_parseArgs n (args @ [arg]) ts2 as2 = Inr (xs, ts', as')"
        by (auto simp: bind_Inr_iff)
      have e1: "(if args \<noteq> [] then expect '','' (out_toks i ts) else Inr (out_toks i ts)) = Inr (out_toks i ts1)" "corr nm vs i ts1 as"
        using p(1) expect_out [of "'',''" ts ts1 nm vs i as] 3(2) by (auto split: if_splits)
      have "supported arg" using bld_parseArgs_prefix [OF p(3)] 3(3) by (auto simp: prefix_def)
      from Suc.IH(1) [OF p(2) e1(2) this] obtain i2 where
        a: "parsePrimary n nm vs (out_toks i ts1) = Inr (arg, out_toks i2 ts2)" "corr nm vs i2 ts2 as2" by blast
      from Suc.IH(3) [OF p(3) a(2) 3(3)] False peek_out(1) [of "'')''" i ts] e1 a show ?thesis by auto
    qed
  }
qed simp_all

text \<open>What a loop returns contains what it starts with.\<close>

lemma loops_keep_left:
  "bld_parseOrLoop n left ts as = Inr (x, ts', as') \<Longrightarrow> supported x \<Longrightarrow> supported left"
  "bld_parseAndLoop n left ts as = Inr (x, ts', as') \<Longrightarrow> supported x \<Longrightarrow> supported left"
  by (induction n arbitrary: left ts as; fastforce simp: bind_Inr_iff split: if_splits)+

lemma suffix_keeps_left: "bld_parseSuffix n left ts as = Inr (x, ts', as') \<Longrightarrow> supported x \<Longrightarrow> supported left"
  by (auto simp: bld_parseSuffix_def bind_Inr_iff split: option.splits)

lemma suffix_agrees:
  assumes "bld_parseSuffix n left ts as = Inr (x, ts', as')" "corr nm vs i ts as" "supported x"
  shows "\<exists>i'. parseSuffix n nm vs left (out_toks i ts) = Inr (x, out_toks i' ts') \<and> corr nm vs i' ts' as'"
proof -
  have plain: "\<not> EqualFold (peek (out_toks i ts)) ''BETWEEN''" "\<not> EqualFold (peek (out_toks i ts)) ''IN''"
    using assms(2) peek_out(4) by (auto simp: corr_def)
  show ?thesis
  proof (cases "parseCompareOp (peek ts)")
    case None
    with assms plain peek_out(2) [of i ts] show ?thesis
      by (auto simp: bld_parseSuffix_def parseSuffix_def)
  next
    case (Some op)
    with assms(1) obtain right where p: "bld_parsePrimary n (tl ts) as = Inr (right, ts', as')" "x = CompareNode left op right"
      by (auto simp: bld_parseSuffix_def bind_Inr_iff)
    from corr_tl [OF assms(2)] not_question(3) [OF Some]
    have tl: "corr nm vs i (tl ts) as" "tl (out_toks i ts) = out_toks i (tl ts)" by auto
    from primary_agrees(1) [OF p(1) tl(1)] p(2) assms(3) obtain i' where
      "parsePrimary n nm vs (out_toks i (tl ts)) = Inr (right, out_toks i' ts')" "corr nm vs i' ts' as'" by auto
    with p(2) plain tl(2) Some peek_out(2) [of i ts] show ?thesis by (auto simp: parseSuffix_def)
  qed
qed

text \<open>A step over a keyword or an opening parenthesis, in both parsers.\<close>

lemma keyword_step:
  assumes "corr nm vs i ts as" "k \<in> {''AND'', ''OR'', ''NOT''}" "EqualFold (peek ts) k"
  shows "EqualFold (peek (out_toks i ts)) k" "corr nm vs i (tl ts) as" "tl (out_toks i ts) = out_toks i (tl ts)"
  using assms peek_out(3) [of k i ts] corr_tl [of nm vs i ts as] not_question(2) [of "peek ts" k] by auto

lemma paren_step:
  assumes "corr nm vs i ts as" "peek ts = ''(''"
  shows "peek (out_toks i ts) = ''(''" "corr nm vs i (tl ts) as" "tl (out_toks i ts) = out_toks i (tl ts)"
  using assms peek_out(1) [of "''(''" i ts] corr_tl [of nm vs i ts as] by auto

lemma logical_agrees:
  "bld_parseOr n ts as = Inr (x, ts', as') \<Longrightarrow> corr nm vs i ts as \<Longrightarrow> supported x \<Longrightarrow>
   \<exists>i'. parseOr n nm vs (out_toks i ts) = Inr (x, out_toks i' ts') \<and> corr nm vs i' ts' as'"
  "bld_parseOrLoop n left ts as = Inr (x, ts', as') \<Longrightarrow> corr nm vs i ts as \<Longrightarrow> supported x \<Longrightarrow>
   \<exists>i'. parseOrLoop n nm vs left (out_toks i ts) = Inr (x, out_toks i' ts') \<and> corr nm vs i' ts' as'"
  "bld_parseAnd n ts as = Inr (x, ts', as') \<Longrightarrow> corr nm vs i ts as \<Longrightarrow> supported x \<Longrightarrow>
   \<exists>i'. parseAnd n nm vs (out_toks i ts) = Inr (x, out_toks i' ts') \<and> corr nm vs i' ts' as'"
  "bld_parseAndLoop n left ts as = Inr (x, ts', as') \<Longrightarrow> corr nm vs i ts as \<Longrightarrow> supported x \<Longrightarrow>
   \<exists>i'. parseAndLoop n nm vs left (out_toks i ts) = Inr (x, out_toks i' ts') \<and> corr nm vs i' ts' as'"
  "bld_parseNot n ts as = Inr (x, ts', as') \<Longrightarrow> corr nm vs i ts as \<Longrightarrow> supported x \<Longrightarrow>
   \<exists>i'. parseNot n nm vs (out_toks i ts) = Inr (x, out_toks i' ts') \<and> corr nm vs i' ts' as'"
  "bld_parseComparison n ts as = Inr (x, ts', as') \<Longrightarrow> corr nm vs i ts as \<Longrightarrow> supported x \<Longrightarrow>
   \<exists>i'. parseComparison n nm vs (out_toks i ts) = Inr (x, out_toks i' ts') \<and> corr nm vs i' ts' as'"
proof (induction n arbitrary: x left ts as ts' as' i)
  case (Suc n)
  {
    case 1
    then obtain l ts1 as1 where p: "bld_parseAnd n ts as = Inr (l, ts1, as1)" "bld_parseOrLoop n l ts1 as1 = Inr (x, ts', as')"
      by (auto simp: bind_Inr_iff)
    from Suc.IH(3) [OF p(1) 1(2) loops_keep_left(1) [OF p(2) 1(3)]] obtain i1 where
      a: "parseAnd n nm vs (out_toks i ts) = Inr (l, out_toks i1 ts1)" "corr nm vs i1 ts1 as1" by blast
    from Suc.IH(2) [OF p(2) a(2) 1(3)] a(1) show ?case by auto
  next
    case 2
    show ?case
    proof (cases "EqualFold (peek ts) ''OR''")
      case True
      note step = keyword_step [OF 2(2) _ True]
      from 2(1) True obtain r ts1 as1 where p: "bld_parseAnd n (tl ts) as = Inr (r, ts1, as1)"
        "bld_parseOrLoop n (LogicalNode OR left (Some r)) ts1 as1 = Inr (x, ts', as')"
        by (auto simp: bind_Inr_iff)
      from loops_keep_left(1) [OF p(2) 2(3)] have "supported r" by simp
      from Suc.IH(3) [OF p(1) step(2) this] obtain i1 where
        a: "parseAnd n nm vs (out_toks i (tl ts)) = Inr (r, out_toks i1 ts1)" "corr nm vs i1 ts1 as1" by blast
      from Suc.IH(2) [OF p(2) a(2) 2(3)] a(1) step show ?thesis by auto
    next
      case False
      with 2 peek_out(3) [of "''OR''" i ts] show ?thesis by auto
    qed
  next
    case 3
    then obtain l ts1 as1 where p: "bld_parseNot n ts as = Inr (l, ts1, as1)" "bld_parseAndLoop n l ts1 as1 = Inr (x, ts', as')"
      by (auto simp: bind_Inr_iff)
    from Suc.IH(5) [OF p(1) 3(2) loops_keep_left(2) [OF p(2) 3(3)]] obtain i1 where
      a: "parseNot n nm vs (out_toks i ts) = Inr (l, out_toks i1 ts1)" "corr nm vs i1 ts1 as1" by blast
    from Suc.IH(4) [OF p(2) a(2) 3(3)] a(1) show ?case by auto
  next
    case 4
    show ?case
    proof (cases "EqualFold (peek ts) ''AND''")
      case True
      note step = keyword_step [OF 4(2) _ True]
      from 4(1) True obtain r ts1 as1 where p: "bld_parseNot n (tl ts) as = Inr (r, ts1, as1)"
        "bld_parseAndLoop n (LogicalNode AND left (Some r)) ts1 as1 = Inr (x, ts', as')"
        by (auto simp: bind_Inr_iff)
      from loops_keep_left(2) [OF p(2) 4(3)] have "supported r" by simp
      from Suc.IH(5) [OF p(1) step(2) this] obtain i1 where
        a: "parseNot n nm vs (out_toks i (tl ts)) = Inr (r, out_toks i1 ts1)" "corr nm vs i1 ts1 as1" by blast
      from Suc.IH(4) [OF p(2) a(2) 4(3)] a(1) step show ?thesis by auto
    next
      case False
      with 4 peek_out(3) [of "''AND''" i ts] show ?thesis by auto
    qed
  next
    case 5
    show ?case
    proof (cases "EqualFold (peek ts) ''NOT''")
      case True
      note step = keyword_step [OF 5(2) _ True]
      from 5(1) True obtain l where p: "bld_parseNot n (tl ts) as = Inr (l, ts', as')" "x = LogicalNode NOT l None"
        by (auto simp: bind_Inr_iff)
      from Suc.IH(5) [OF p(1) step(2)] 5(3) p(2) step show ?thesis by auto
    next
      case False
      with 5(1) have "bld_parseComparison n ts as = Inr (x, ts', as')" by simp
      from Suc.IH(6) [OF this 5(2,3)] False peek_out(3) [of "''NOT''" i ts] show ?thesis by auto
    qed
  next
    case 6
    show ?case
    proof (cases "peek ts = ''(''")
      case True
      note step = paren_step [OF 6(2) True]
      from 6(1) True obtain ts1 where p: "bld_parseOr n (tl ts) as = Inr (x, ts1, as')" "expect '')'' ts1 = Inr ts'"
        by (auto simp: bind_Inr_iff)
      from Suc.IH(1) [OF p(1) step(2) 6(3)] obtain i1 where
        a: "parseOr n nm vs (out_toks i (tl ts)) = Inr (x, out_toks i1 ts1)" "corr nm vs i1 ts1 as'" by blast
      from expect_out [OF _ p(2) a(2)] a(1) step show ?thesis by auto
    next
      case False
      with 6(1) obtain l ts1 as1 where p: "bld_parsePrimary n ts as = Inr (l, ts1, as1)"
        "bld_parseSuffix n l ts1 as1 = Inr (x, ts', as')"
        by (auto simp: bind_Inr_iff)
      from primary_agrees(1) [OF p(1) 6(2) suffix_keeps_left [OF p(2) 6(3)]] obtain i1 where
        a: "parsePrimary n nm vs (out_toks i ts) = Inr (l, out_toks i1 ts1)" "corr nm vs i1 ts1 as1" by blast
      from suffix_agrees [OF p(2) a(2) 6(3)] a(1) False peek_out(1) [of "''(''" i ts] show ?thesis by auto
    qed
  }
qed simp_all

subsection \<open>The text in between\<close>

text \<open>The kinds of tokens the tokenizer makes.\<close>

definition word_or_number :: "string \<Rightarrow> bool" where
  "word_or_number t \<longleftrightarrow> (case t of [] \<Rightarrow> False
     | c # w \<Rightarrow> (isIdentStart c \<and> list_all bld_tail w) \<or> (is_digit c \<and> list_all bld_number_tail w))"

lemma list_all_takeWhile: "list_all P (takeWhile P w)"
  by (induction w) auto

lemma two_char_tok: "bld_two_char ch s \<Longrightarrow> \<exists>d u. s = d # u \<and> [ch, d] \<in> {''<>'', ''<='', ''>=''}"
  by (auto simp: bld_two_char_def split: list.splits)

lemma single_char_kind: "bld_single_char ch \<Longrightarrow> is_symbol [ch] \<or> [ch] = ''?''"
  by (auto simp: bld_single_char_def is_symbol_def isOperator_def)

text \<open>One turn of the tokenizer: the token found, if any, and the text behind it.\<close>

definition tok_step :: "char \<Rightarrow> string \<Rightarrow> string option \<times> string" where
  "tok_step ch s =
     (if is_space ch then (None, s)
      else if bld_two_char ch s then (Some [ch, hd s], tl s)
      else if bld_single_char ch then (Some [ch], s)
      else if isIdentStart ch \<or> ch = CHR ''#'' then (Some (ch # takeWhile bld_tail s), dropWhile bld_tail s)
      else if is_digit ch then (Some (ch # takeWhile bld_number_tail s), dropWhile bld_number_tail s)
      else (None, s))"

lemma tokenize_step:
  "tokenize (ch # s) = (case tok_step ch s of (None, r) \<Rightarrow> tokenize r | (Some t, r) \<Rightarrow> t # tokenize r)"
  by (simp add: tok_step_def)

lemma tok_step_suffix: "suffix (snd (tok_step ch s)) s"
  by (simp add: tok_step_def suffix_tl suffix_dropWhile)

lemma tokenize_first: "t \<in> set (tokenize s) \<Longrightarrow> \<exists>ch u r. suffix (ch # u) s \<and> tok_step ch u = (Some t, r)"
proof (induction s rule: length_induct)
  case (1 s)
  show ?case
  proof (cases s)
    case (Cons ch u)
    obtain ot r where step: "tok_step ch u = (ot, r)" by (cases "tok_step ch u")
    show ?thesis
    proof (cases "ot = Some t")
      case True
      with step Cons show ?thesis by blast
    next
      case False
      with 1(2) step Cons have "t \<in> set (tokenize r)"
        by (auto simp: tokenize_step simp del: tokenize.simps(2) split: option.splits)
      moreover have sfx: "suffix r u" using tok_step_suffix [of ch u] step by simp
      ultimately obtain ch' u' r' where "suffix (ch' # u') r" "tok_step ch' u' = (Some t, r')"
        using 1(1) Cons suffix_length_le [OF sfx] by (metis length_Cons less_Suc_eq_le)
      with sfx Cons show ?thesis by (meson suffix_ConsI suffix_order.trans)
    qed
  qed (use 1 in simp)
qed

lemma tok_step_cases:
  assumes "tok_step ch u = (Some t, r)"
  obtains d w where "u = d # w" "t = [ch, d]" "t \<in> {''<>'', ''<='', ''>=''}"
  | "bld_single_char ch" "t = [ch]"
  | "isIdentStart ch \<or> ch = CHR ''#''" "t = ch # takeWhile bld_tail u"
  | "is_digit ch" "t = ch # takeWhile bld_number_tail u"
proof (cases "bld_two_char ch u")
  case True
  with assms have "t = [ch, hd u]" by (simp add: tok_step_def split: if_splits)
  with two_char_tok [OF True] that(1) show ?thesis by auto
next
  case False
  with assms that show ?thesis by (simp add: tok_step_def split: if_splits)
qed

lemma tokenize_kinds:
  assumes "t \<in> set (tokenize s)"
  shows "is_symbol t \<or> t = ''?'' \<or> word_or_number t \<or> CHR ''#'' \<in> set t"
proof -
  obtain ch u r where "tok_step ch u = (Some t, r)" using tokenize_first [OF assms] by blast
  then show ?thesis
  proof (cases rule: tok_step_cases)
    case 1
    then show ?thesis by (auto simp: is_symbol_def isOperator_def)
  next
    case 2
    with single_char_kind show ?thesis by blast
  qed (auto simp: word_or_number_def list_all_takeWhile)
qed

lemma tokenize_chars:
  assumes "t \<in> set (tokenize s)" "c \<in> set t"
  shows "c \<in> set s"
proof -
  obtain ch u r where u: "suffix (ch # u) s" "tok_step ch u = (Some t, r)" using tokenize_first [OF assms(1)] by blast
  from u(2) assms(2) have "c \<in> set (ch # u)"
    by (cases rule: tok_step_cases) (auto dest: set_takeWhileD)
  with set_mono_suffix [OF u(1)] show ?thesis by blast
qed

lemma tokenize_nonempty:
  assumes "t \<in> set (tokenize s)"
  shows "t \<noteq> []"
proof -
  obtain ch u r where "tok_step ch u = (Some t, r)" using tokenize_first [OF assms] by blast
  then show ?thesis by (cases rule: tok_step_cases) auto
qed

lemma valid_placeholder: "valid_tok (placeholder i)"
proof -
  have "\<forall>c \<in> set (show_nat i). is_digit c" using show_pos_digits [of "int i"] by (simp add: show_nat_eq)
  moreover have "isIdentPart CHR ''v''" by code_simp
  ultimately have "ref_tok (placeholder i)"
    by (auto simp: ref_tok_def placeholder_def isIdentPart_def list_all_iff)
  then show ?thesis by (simp add: valid_tok_def)
qed

lemma valid_alias:
  assumes "word_or_number t" "CHR ''.'' \<notin> set t"
  shows "valid_tok (CHR ''#'' # t)"
proof -
  obtain c w where t: "t = c # w" "isIdentPart c" "list_all bld_tail w \<or> list_all bld_number_tail w"
    using assms(1) by (auto simp: word_or_number_def isIdentPart_def split: list.splits)
  with assms(2) have "list_all isIdentPart w"
    by (auto simp: list_all_iff bld_tail_def bld_number_tail_def isIdentPart_def)
  with t show ?thesis by (simp add: valid_tok_def ref_tok_def)
qed

lemma valid_word: "word_or_number t \<Longrightarrow> valid_tok t"
  by (auto simp: word_or_number_def valid_tok_def word_tok_def num_tok_def bld_tail_def [abs_def] ident_tail_def [abs_def]
      bld_number_tail_def [abs_def] number_tail_def [abs_def] split: list.splits)

lemma valid_symbol: "is_symbol t \<Longrightarrow> valid_tok t"
  by (auto simp: is_symbol_def isOperator_def valid_tok_def op_tok_def single_char_tok_def)

lemma valid_logical: "is_logical t \<Longrightarrow> valid_tok (ToUpper t)"
proof -
  have "valid_tok ''AND''" "valid_tok ''OR''" "valid_tok ''NOT''"
    by (auto simp: valid_tok_def word_tok_def isIdentStart_def is_upper_def ident_tail_def isIdentPart_def less_eq_char_def)
  then show "is_logical t \<Longrightarrow> valid_tok (ToUpper t)" by (auto simp: is_logical_def)
qed

lemma out_toks_valid:
  assumes "cond_toks ts" "\<forall>t \<in> set ts. is_symbol t \<or> t = ''?'' \<or> word_or_number t \<or> CHR ''#'' \<in> set t"
  shows "list_all valid_tok (out_toks i ts)"
  using assms
proof (induction ts arbitrary: i)
  case (Cons t ts)
  have "valid_tok (emit i t ts)"
  proof (cases rule: emit_cases [of t i ts])
    case 1
    then show ?thesis by (simp add: valid_logical)
  next
    case 2
    moreover have "t \<noteq> ''?''" using 2 by (auto simp: emit_def placeholder_def)
    moreover have "is_symbol t \<or> t = ''?'' \<or> word_or_number t" using Cons.prems by (auto simp: cond_toks_def)
    ultimately show ?thesis using valid_symbol valid_word by auto
  next
    case 3
    then show ?thesis by (simp add: valid_placeholder)
  next
    case 4
    then show ?thesis using Cons.prems valid_alias by (auto simp: cond_toks_def)
  qed
  with Cons show ?case by (simp add: out_toks_Cons cond_toks_def)
qed simp

text \<open>The text sent to the backend is parsed to the tree of the other parser.\<close>

lemma built_condition_parses:
  assumes build: "buildCondition e vals = Inr ce" and parse: "ParseCondition e vals = Inr node"
    and "supported node" and plain: "cond_toks (tokenize e)"
  shows "parseExpressionToAST (ce_expression ce) (ce_names ce) (ce_values ce) = Inr node \<and> ce_expression ce \<noteq> []"
proof -
  let ?ts = "tokenize e"
  obtain out left cb' where t: "translate_loop ?ts vals \<lparr>cb_names = fmempty, cb_values = fmempty, cb_valueIdx = 0\<rparr> = Inr (out, left, cb')"
    and ce: "ce = \<lparr>ce_expression = Join out '' '', ce_names = cb_names cb', ce_values = cb_values cb'\<rparr>"
    using build by (auto simp: buildCondition_def translate_def bind_Inr_iff tokenizers_agree split: if_splits)
  from translate_loop_out [OF t] have out: "out = out_toks 0 ?ts" and
    "corr (cb_names cb') (cb_values cb') 0 ?ts vals"
    using plain by (simp_all add: corr_def)
  moreover from parse have p: "bld_parseOr (bld_fuel ?ts) ?ts vals = Inr (node, [], [])"
    by (auto simp: ParseCondition_def Let_def bind_Inr_iff split: if_splits)
  ultimately obtain i' where "parseOr (bld_fuel ?ts) (cb_names cb') (cb_values cb') out = Inr (node, out_toks i' [])"
    using logical_agrees(1) \<open>supported node\<close> by blast
  moreover have "mem_tokenizeExpr (Join out '' '') = out"
    using out_toks_valid [OF plain, of 0] tokenize_kinds out by (intro tokenize_Join) blast
  moreover have "bld_fuel ?ts = expr_fuel out" by (simp add: bld_fuel_def expr_fuel_def out)
  moreover have "out \<noteq> []" using bld_logical_consumes(1) [OF p] out by auto
  ultimately show ?thesis
    by (auto simp: parseExpressionToAST_def ce Let_def)
qed

text \<open>
  Where the two routes part: a word with a \<open>#\<close> is taken for an alias nobody bound, and an upper-case function
  name is known to the in-memory backend only.
\<close>

lemma outside_the_scope:
  "case (buildCondition ''#age >= ?'' [AnyInt KInt 3], ParseCondition ''#age >= ?'' [AnyInt KInt 3]) of
     (Inr ce, Inr node) \<Rightarrow>
       (let it = fmap_of_list [(''age'', TypeN ''30'')] in
        \<not> is_ok (evalCondition (ce_expression ce) (ce_names ce) (ce_values ce) it) \<and> Eval node it = Inr True)
   | _ \<Rightarrow> False"
  "case (buildCondition ''CONTAINS(tags, ?)'' [AnyString ''a''], ParseCondition ''CONTAINS(tags, ?)'' [AnyString ''a'']) of
     (Inr ce, Inr node) \<Rightarrow>
       (let it = fmap_of_list [(''tags'', TypeSS [''a''])] in
        evalCondition (ce_expression ce) (ce_names ce) (ce_values ce) it = Inr True \<and> \<not> is_ok (Eval node it))
   | _ \<Rightarrow> False"
  by code_simp+

end
