(* ===== verification/GoTime.thy ===== *)
theory GoTime
  imports Prelude
begin

text \<open>
  The parts of Go's \<open>time\<close> and \<open>strconv\<close> packages the encoder uses: instants, RFC 3339 text, and
  the integer parsers.  A \<open>time.Time\<close> is its instant, seconds since 1970 and nanoseconds; its location
  does not matter to the code, which converts to UTC before it prints and after it parses.
\<close>

record gotime =
  t_sec :: int
  t_nsec :: int

subsection \<open>The calendar\<close>

definition is_leap :: "int \<Rightarrow> bool" where
  "is_leap y \<longleftrightarrow> y mod 4 = 0 \<and> (y mod 100 \<noteq> 0 \<or> y mod 400 = 0)"

definition month_days :: "int \<Rightarrow> nat \<Rightarrow> int" where
  "month_days y m =
     (if m = 2 then (if is_leap y then 29 else 28) else if m \<in> {4, 6, 9, 11} then 30 else 31)"

text \<open>Days from 1 January of year 1 to 1 January of year \<open>y + 1\<close>.\<close>

definition year_days :: "int \<Rightarrow> int" where
  "year_days y = 365 * y + y div 4 - y div 100 + y div 400"

fun month_start :: "int \<Rightarrow> nat \<Rightarrow> int" where
  "month_start y 0 = 0"
| "month_start y (Suc m) = month_start y m + month_days y (Suc m)"

text \<open>The day number of a date, counted from 1 January of year 1.\<close>

definition day_number :: "int \<Rightarrow> nat \<Rightarrow> int \<Rightarrow> int" where
  "day_number y m d = year_days (y - 1) + month_start y (m - 1) + (d - 1)"

text \<open>
  And back: cut off 400-year cycles, centuries, 4-year cycles and years; a last century or year can be
  one day longer.
\<close>

definition split_year :: "int \<Rightarrow> int \<times> int" where
  "split_year n =
     (let c400 = n div 146097; r400 = n mod 146097;
          c100 = min 3 (r400 div 36524); r100 = r400 - 36524 * c100;
          c4 = r100 div 1461; r4 = r100 mod 1461;
          c1 = min 3 (r4 div 365)
      in (400 * c400 + 100 * c100 + 4 * c4 + c1, r4 - 365 * c1))"

fun find_month :: "int \<Rightarrow> nat \<Rightarrow> nat \<Rightarrow> int \<Rightarrow> nat \<times> int" where
  "find_month y 0 m r = (m, r + 1)"
| "find_month y (Suc k) m r =
     (if r < month_days y m then (m, r + 1) else find_month y k (Suc m) (r - month_days y m))"

definition date_of :: "int \<Rightarrow> int \<times> nat \<times> int" where
  "date_of n = (case split_year n of (y0, yday) \<Rightarrow>
     (case find_month (y0 + 1) 11 1 yday of (m, d) \<Rightarrow> (y0 + 1, m, d)))"

definition unix_epoch_day :: int where
  "unix_epoch_day = 719162"

subsection \<open>Printing\<close>

definition pad :: "nat \<Rightarrow> int \<Rightarrow> string" where
  "pad w i =
     (let ds = show_pos \<bar>i\<bar> in (if i < 0 then ''-'' else []) @ replicate (w - length ds) CHR ''0'' @ ds)"

text \<open>\<open>t.UTC().Format(time.RFC3339)\<close>.\<close>

definition format_RFC3339 :: "gotime \<Rightarrow> string" where
  "format_RFC3339 t =
     (case date_of (t_sec t div 86400 + unix_epoch_day) of
        (y, m, d) \<Rightarrow>
          let s = t_sec t mod 86400 in
          pad 4 y @ ''-'' @ pad 2 (int m) @ ''-'' @ pad 2 d @ ''T'' @
          pad 2 (s div 3600) @ '':'' @ pad 2 (s mod 3600 div 60) @ '':'' @ pad 2 (s mod 60) @ ''Z'')"

subsection \<open>Parsing\<close>

text \<open>\<open>getnum\<close>: two digits, or one digit where the width is not fixed.\<close>

fun getnum :: "bool \<Rightarrow> string \<Rightarrow> (int \<times> string) option" where
  "getnum fixed (a # b # s) =
     (if \<not> is_digit a then None
      else if is_digit b then Some (digit_val a * 10 + digit_val b, s)
      else if fixed then None else Some (digit_val a, b # s))"
| "getnum fixed [a] = (if is_digit a \<and> \<not> fixed then Some (digit_val a, []) else None)"
| "getnum fixed [] = None"

definition ranged :: "int \<Rightarrow> int \<Rightarrow> (int \<times> string) option \<Rightarrow> (int \<times> string) option" where
  "ranged lo hi r = (case r of Some (n, s) \<Rightarrow> if lo \<le> n \<and> n \<le> hi then r else None | None \<Rightarrow> None)"

definition skip_char :: "char \<Rightarrow> string \<Rightarrow> string option" where
  "skip_char c s = (case s of d # r \<Rightarrow> if c = d then Some r else None | [] \<Rightarrow> None)"

definition parse_year :: "string \<Rightarrow> (int \<times> string) option" where
  "parse_year s =
     (if length s \<ge> 4 \<and> list_all is_digit (take 4 s) then Some (digits_val (take 4 s), drop 4 s) else None)"

text \<open>The optional fraction of the seconds: nine digits count, the rest is skipped.\<close>

definition parse_fraction :: "string \<Rightarrow> int \<times> string" where
  "parse_fraction s =
     (case s of
        c # r \<Rightarrow>
          if (c = CHR ''.'' \<or> c = CHR '','') \<and> r \<noteq> [] \<and> is_digit (hd r) then
            (let ds = take 9 (takeWhile is_digit r)
             in (digits_val ds * 10 ^ (9 - length ds), dropWhile is_digit r))
          else (0, s)
      | [] \<Rightarrow> (0, []))"

text \<open>The zone, as an offset in seconds.\<close>

definition parse_zone :: "string \<Rightarrow> (int \<times> string) option" where
  "parse_zone s =
     (case s of
        c # r \<Rightarrow>
          if c = CHR ''Z'' then Some (0, r)
          else if length s < 6 \<or> s ! 3 \<noteq> CHR '':'' then None
          else Option.bind (ranged 0 24 (getnum True (take 2 r))) (\<lambda>(h, _).
                 Option.bind (ranged 0 60 (getnum True (take 2 (drop 4 s)))) (\<lambda>(m, _).
                   if c = CHR ''+'' then Some ((h * 60 + m) * 60, drop 6 s)
                   else if c = CHR ''-'' then Some (- ((h * 60 + m) * 60), drop 6 s)
                   else None))
      | [] \<Rightarrow> None)"

text \<open>\<open>time.Parse(time.RFC3339Nano, s)\<close>, which accepts what the layout without fraction accepts.\<close>

definition parse_RFC3339 :: "string \<Rightarrow> gotime option" where
  "parse_RFC3339 s0 =
     Option.bind (parse_year s0) (\<lambda>(y, s1).
     Option.bind (skip_char CHR ''-'' s1) (\<lambda>s2.
     Option.bind (ranged 1 12 (getnum True s2)) (\<lambda>(m, s3).
     Option.bind (skip_char CHR ''-'' s3) (\<lambda>s4.
     Option.bind (getnum True s4) (\<lambda>(d, s5).
     Option.bind (skip_char CHR ''T'' s5) (\<lambda>s6.
     Option.bind (ranged 0 23 (getnum False s6)) (\<lambda>(h, s7).
     Option.bind (skip_char CHR '':'' s7) (\<lambda>s8.
     Option.bind (ranged 0 59 (getnum True s8)) (\<lambda>(mi, s9).
     Option.bind (skip_char CHR '':'' s9) (\<lambda>s10.
     Option.bind (ranged 0 59 (getnum True s10)) (\<lambda>(sec, s11).
     case parse_fraction s11 of (ns, s12) \<Rightarrow>
     Option.bind (parse_zone s12) (\<lambda>(off, s13).
       if s13 \<noteq> [] \<or> d < 1 \<or> d > month_days y (nat m) then None
       else Some \<lparr>t_sec = (day_number y (nat m) d - unix_epoch_day) * 86400 + h * 3600 + mi * 60 + sec - off,
                  t_nsec = ns\<rparr>))))))))))))"

subsection \<open>Integers: strconv.ParseInt and ParseUint, base 10 and 64 bits\<close>

definition parse_digits :: "string \<Rightarrow> int option" where
  "parse_digits s = (if s \<noteq> [] \<and> list_all is_digit s then Some (digits_val s) else None)"

definition ParseInt :: "string \<Rightarrow> int option" where
  "ParseInt s =
     (let neg = (s \<noteq> [] \<and> hd s = CHR ''-'');
          ds = (if s \<noteq> [] \<and> (hd s = CHR ''-'' \<or> hd s = CHR ''+'') then tl s else s)
      in Option.bind (parse_digits ds) (\<lambda>n.
           let i = (if neg then - n else n) in
           if - (2 ^ 63) \<le> i \<and> i < 2 ^ 63 then Some i else None))"

definition ParseUint :: "string \<Rightarrow> int option" where
  "ParseUint s = Option.bind (parse_digits s) (\<lambda>n. if n < 2 ^ 64 then Some n else None)"

lemma digit_not_sign: "is_digit c \<Longrightarrow> c \<noteq> CHR ''-'' \<and> c \<noteq> CHR ''+''"
  by (auto simp: is_digit_def less_eq_char_def)

lemma show_pos_head: "0 \<le> n \<Longrightarrow> is_digit (hd (show_pos n)) \<and> list_all is_digit (show_pos n)"
  using show_pos_digits [of n] by (simp add: list_all_iff)

lemma ParseInt_show_int: "- (2 ^ 63) \<le> i \<Longrightarrow> i < 2 ^ 63 \<Longrightarrow> ParseInt (show_int i) = Some i"
  using show_pos_head [of i] show_pos_head [of "- i"] digits_val_show_pos [of i] digits_val_show_pos [of "- i"]
    digit_not_sign [of "hd (show_pos i)"]
  by (auto simp: ParseInt_def show_int_def parse_digits_def Let_def)

lemma ParseUint_show_int: "0 \<le> i \<Longrightarrow> i < 2 ^ 64 \<Longrightarrow> ParseUint (show_int i) = Some i"
  using show_pos_head [of i] digits_val_show_pos [of i]
  by (auto simp: ParseUint_def show_int_def parse_digits_def)

lemma ParseInt_range: "ParseInt s = Some i \<Longrightarrow> - (2 ^ 63) \<le> i \<and> i < 2 ^ 63"
  by (auto simp: ParseInt_def Let_def bind_eq_Some_conv split: if_splits)

subsection \<open>The calendar is a bijection\<close>

lemma split_year:
  assumes "split_year n = (y0, yday)"
  shows "year_days y0 + yday = n" "0 \<le> yday" "yday < (if is_leap (y0 + 1) then 366 else 365)"
proof -
  define c400 r400 where r400: "c400 = n div 146097" "r400 = n mod 146097"
  define c100 r100 where r100: "c100 = min 3 (r400 div 36524)" "r100 = r400 - 36524 * c100"
  define c4 r4 where r4: "c4 = r100 div 1461" "r4 = r100 mod 1461"
  define c1 where c1: "c1 = min 3 (r4 div 365)"
  have y: "y0 = 400 * c400 + 100 * c100 + 4 * c4 + c1" "yday = r4 - 365 * c1"
    using assms unfolding split_year_def Let_def prod.inject r400 r100 r4 c1 by (auto simp only:)
  have n: "n = 146097 * c400 + r400" "0 \<le> r400" "r400 < 146097" using r400 by simp_all
  have b100: "0 \<le> c100" "c100 \<le> 3" "0 \<le> r100" "r100 \<le> 36524" "c100 < 3 \<Longrightarrow> r100 < 36524"
    using n r100 by (auto simp: min_def)
  have b4: "r100 = 1461 * c4 + r4" "0 \<le> r4" "r4 < 1461" using r4 by simp_all
  have c4: "0 \<le> c4" "c4 \<le> 24" using b4 b100 by linarith+
  have q: "0 \<le> r4 div 365" "365 * (r4 div 365) \<le> r4" "r4 < 365 * (r4 div 365) + 365"
    using b4 mult_div_mod_eq [of 365 r4] pos_mod_bound [of 365 r4] pos_mod_sign [of 365 r4]
    by (simp_all add: pos_imp_zdiv_nonneg_iff del: mult_div_mod_eq)
  have b1: "0 \<le> c1" "c1 \<le> 3" "0 \<le> yday" "c1 < 3 \<Longrightarrow> yday < 365" "yday \<le> 365"
  proof -
    consider "r4 div 365 \<le> 3" "c1 = r4 div 365" | "4 \<le> r4 div 365" "c1 = 3" unfolding c1 by linarith
    then show "0 \<le> c1" "c1 \<le> 3" "0 \<le> yday" "c1 < 3 \<Longrightarrow> yday < 365" "yday \<le> 365"
      using q b4 y(2) by (cases; linarith)+
  qed
  have div: "y0 div 4 = 100 * c400 + 25 * c100 + c4" "y0 div 100 = 4 * c400 + c100" "y0 div 400 = c400"
    by (rule int_div_pos_eq [where r = c1], use y(1) b1 in simp_all)
      (rule int_div_pos_eq [where r = "4 * c4 + c1"], use y(1) b1 c4 in simp_all,
       rule int_div_pos_eq [where r = "100 * c100 + 4 * c4 + c1"], use y(1) b1 c4 b100 in simp_all)
  show "year_days y0 + yday = n"
    unfolding year_days_def div using y n b4 r100 by linarith
  show "0 \<le> yday" by (rule b1)
  show "yday < (if is_leap (y0 + 1) then 366 else 365)"
  proof (cases "yday = 365")
    case True
    with b1 have 3: "c1 = 3" by linarith
    with True y have "r4 = 1460" by simp
    with b4 b100 c4 have 24: "c4 < 24 \<or> c100 = 3" by linarith
    have "y0 + 1 = 4 * (100 * c400 + 25 * c100 + c4 + 1)" using y 3 by simp
    then have 4: "(y0 + 1) mod 4 = 0" by simp
    have "(y0 + 1) mod 100 \<noteq> 0 \<or> (y0 + 1) mod 400 = 0"
    proof (cases "c4 = 24")
      case True
      with 24 have "y0 + 1 = 400 * (c400 + 1)" using y 3 by simp
      then show ?thesis by simp
    next
      case False
      with c4 have "c4 \<le> 23" by simp
      with c4 have small: "0 < 4 * c4 + 4" "4 * c4 + 4 < 100" by simp_all
      have "y0 + 1 = (4 * c400 + c100) * 100 + (4 * c4 + 4)" using y 3 by simp
      then have "(y0 + 1) mod 100 = (4 * c4 + 4) mod 100" by (metis mod_mult_self3)
      with small show ?thesis by simp
    qed
    with 4 show ?thesis using b1 by (simp add: is_leap_def)
  qed (use b1 in simp)
qed

lemma month_days_pos: "28 \<le> month_days y m" "month_days y m \<le> 31"
  by (auto simp: month_days_def)

lemma find_month:
  "find_month y k m r = (m', d) \<Longrightarrow> 0 \<le> r \<Longrightarrow> 1 \<le> m \<Longrightarrow>
   r < month_start y (m + k) - month_start y (m - 1) \<Longrightarrow>
   month_start y (m' - 1) + (d - 1) = month_start y (m - 1) + r \<and> m \<le> m' \<and> m' \<le> m + k \<and>
   1 \<le> d \<and> d \<le> month_days y m'"
proof (induction y k m r rule: find_month.induct)
  case (1 y m r)
  then show ?case by (cases m) auto
next
  case (2 y k m r)
  show ?case
  proof (cases "r < month_days y m")
    case True
    with 2 show ?thesis by auto
  next
    case False
    have m: "month_start y m = month_start y (m - 1) + month_days y m" using 2(4) by (cases m) auto
    with 2 False have "month_start y (m' - 1) + (d - 1) = month_start y m + (r - month_days y m) \<and> Suc m \<le> m' \<and>
        m' \<le> Suc m + k \<and> 1 \<le> d \<and> d \<le> month_days y m'" by auto
    with m show ?thesis by auto
  qed
qed

lemma month_start_year: "month_start y 12 = (if is_leap y then 366 else 365)"
  by (simp add: numeral_eq_Suc month_days_def)

lemma date_of:
  assumes "date_of n = (y, m, d)"
  shows "day_number y m d = n" "1 \<le> m" "m \<le> 12" "1 \<le> d" "d \<le> month_days y m"
proof -
  obtain y0 yday where s: "split_year n = (y0, yday)" by (cases "split_year n")
  with assms have y: "y = y0 + 1" and f: "find_month y 11 1 yday = (m, d)"
    by (auto simp: date_of_def split: prod.splits)
  have "yday < month_start y (1 + 11) - month_start y (1 - 1)"
    using split_year(3) [OF s] y month_start_year [of y] by simp
  from find_month [OF f split_year(2) [OF s] _ this] have
    "month_start y (m - 1) + (d - 1) = yday" "1 \<le> m" "m \<le> 12" "1 \<le> d" "d \<le> month_days y m" by simp_all
  with split_year(1) [OF s] y show "day_number y m d = n" "1 \<le> m" "m \<le> 12" "1 \<le> d" "d \<le> month_days y m"
    by (simp_all add: day_number_def)
qed

subsection \<open>Printed times parse back\<close>

lemma pad2:
  assumes "0 \<le> i" "i < 100"
  shows "\<exists>a b. pad 2 i = [a, b] \<and> is_digit a \<and> is_digit b \<and> digit_val a * 10 + digit_val b = i"
proof (cases "i < 10")
  case True
  have "is_digit CHR ''0''" "digit_val CHR ''0'' = 0" by code_simp+
  with True assms digit_char_is_digit [of i] digit_char_val [of i] show ?thesis
    by (auto simp: pad_def show_pos.simps [of i])
next
  case False
  with assms have "0 \<le> i div 10" "i div 10 < 10" "0 \<le> i mod 10" "i mod 10 < 10" by auto
  with False digit_char_is_digit [of "i div 10"] digit_char_is_digit [of "i mod 10"]
    digit_char_val [of "i div 10"] digit_char_val [of "i mod 10"] assms show ?thesis
    by (auto simp: pad_def show_pos.simps [of i] show_pos.simps [of "i div 10"])
qed

lemma getnum_pad:
  assumes "0 \<le> i" "i < 100"
  shows "getnum fixed (pad 2 i @ s) = Some (i, s)"
  using pad2 [OF assms] by auto

lemma digits_val_append: "digits_val (s @ t) = digits_val s * 10 ^ length t + digits_val t"
proof (induction t rule: rev_induct)
  case (snoc c t)
  then show ?case
    by (simp add: digits_val_snoc [of "s @ t", simplified] digits_val_snoc algebra_simps)
qed (simp add: digits_val_def)

lemma digits_val_zeros: "digits_val (replicate k CHR ''0'') = 0"
proof (induction k)
  case (Suc k)
  have "digits_val (CHR ''0'' # replicate k CHR ''0'') = digits_val [CHR ''0''] * 10 ^ k + 0"
    using digits_val_append [of "[CHR ''0'']" "replicate k CHR ''0''"] Suc by simp
  moreover have "digits_val [CHR ''0''] = 0" by code_simp
  ultimately show ?case by simp
qed (simp add: digits_val_def)

lemma show_pos_length: "0 \<le> i \<Longrightarrow> i < 10 ^ Suc k \<Longrightarrow> length (show_pos i) \<le> Suc k"
proof (induction k arbitrary: i)
  case 0
  then show ?case by (simp add: show_pos.simps [of i])
next
  case (Suc k)
  have "length (show_pos (i div 10)) \<le> Suc k" using Suc by (intro Suc.IH) auto
  then show ?case by (subst show_pos.simps) auto
qed

lemma parse_year_pad:
  assumes "0 \<le> y" "y \<le> 9999"
  shows "parse_year (pad 4 y @ s) = Some (y, s)"
proof -
  have len: "length (show_pos y) \<le> 4" using show_pos_length [of y 3] assms by simp
  have pad: "pad 4 y = replicate (4 - length (show_pos y)) CHR ''0'' @ show_pos y"
    using assms by (simp add: pad_def Let_def)
  have digit0: "is_digit CHR ''0''" by code_simp
  have "length (pad 4 y) = 4" using pad len by simp
  moreover have "list_all is_digit (pad 4 y)"
    using show_pos_head [OF assms(1)] pad digit0 by (auto simp: list_all_iff)
  moreover have "digits_val (pad 4 y) = y"
    using pad assms by (simp add: digits_val_append digits_val_zeros digits_val_show_pos)
  ultimately show ?thesis by (simp add: parse_year_def)
qed

text \<open>The years that print with four digits.\<close>

definition four_digit_year :: "gotime \<Rightarrow> bool" where
  "four_digit_year t \<longleftrightarrow> (case date_of (t_sec t div 86400 + unix_epoch_day) of (y, m, d) \<Rightarrow> 0 \<le> y \<and> y \<le> 9999)"

lemma parse_parts:
  assumes "0 \<le> y" "y \<le> 9999" "1 \<le> m" "m \<le> 12" "1 \<le> d" "d \<le> month_days y m"
    and "0 \<le> h" "h \<le> 23" "0 \<le> mi" "mi \<le> 59" "0 \<le> sec" "sec \<le> 59"
  shows "parse_RFC3339 (pad 4 y @ CHR ''-'' # pad 2 (int m) @ CHR ''-'' # pad 2 d @ CHR ''T'' #
      pad 2 h @ CHR '':'' # pad 2 mi @ CHR '':'' # pad 2 sec @ ''Z'') =
    Some \<lparr>t_sec = (day_number y m d - unix_epoch_day) * 86400 + h * 3600 + mi * 60 + sec, t_nsec = 0\<rparr>"
proof -
  have "d < 100" using assms(6) month_days_pos(2) [of y m] by linarith
  then have num: "getnum f (pad 2 (int m) @ u) = Some (int m, u)" "getnum f (pad 2 d @ u) = Some (d, u)"
    "getnum f (pad 2 h @ u) = Some (h, u)" "getnum f (pad 2 mi @ u) = Some (mi, u)"
    "getnum f (pad 2 sec @ u) = Some (sec, u)" for f u
    using assms by (simp_all add: getnum_pad)
  have rng: "ranged 1 12 (Some (int m, u)) = Some (int m, u)" "ranged 0 23 (Some (h, u)) = Some (h, u)"
    "ranged 0 59 (Some (mi, u)) = Some (mi, u)" "ranged 0 59 (Some (sec, u)) = Some (sec, u)" for u
    using assms by (simp_all add: ranged_def)
  have skip: "skip_char c (c # u) = Some u" for c u by (simp add: skip_char_def)
  have zone: "parse_fraction ''Z'' = (0, ''Z'')" "parse_zone ''Z'' = Some (0, [])" by code_simp+
  have day: "([] \<noteq> ([] :: string) \<or> d < 1 \<or> month_days y (nat (int m)) < d) = False" using assms by simp
  show ?thesis
    unfolding parse_RFC3339_def parse_year_pad [OF assms(1,2)] Option.bind.simps prod.case skip num rng zone day if_False
    by simp
qed

lemma parse_format_RFC3339:
  assumes "four_digit_year t"
  shows "parse_RFC3339 (format_RFC3339 t) = Some \<lparr>t_sec = t_sec t, t_nsec = 0\<rparr>"
proof -
  obtain y m d where date: "date_of (t_sec t div 86400 + unix_epoch_day) = (y, m, d)"
    by (metis prod_cases3)
  note c = date_of [OF date]
  define s h mi sec where parts: "s = t_sec t mod 86400" "h = s div 3600" "mi = s mod 3600 div 60" "sec = s mod 60"
  have y: "0 \<le> y" "y \<le> 9999" using assms date by (simp_all add: four_digit_year_def)
  have s: "0 \<le> s" "s < 86400" by (simp_all add: parts)
  then have range: "0 \<le> h" "h \<le> 23" "0 \<le> mi" "mi \<le> 59" "0 \<le> sec" "sec \<le> 59"
    unfolding parts(2-4) by linarith+
  have "s mod 60 = s mod 3600 mod 60" by (simp add: mod_mod_cancel)
  then have sum: "h * 3600 + mi * 60 + sec = s"
    using div_mult_mod_eq [of s 3600] div_mult_mod_eq [of "s mod 3600" 60] unfolding parts(2-4) by linarith
  have "format_RFC3339 t = pad 4 y @ CHR ''-'' # pad 2 (int m) @ CHR ''-'' # pad 2 d @ CHR ''T'' #
      pad 2 h @ CHR '':'' # pad 2 mi @ CHR '':'' # pad 2 sec @ ''Z''"
    by (simp add: format_RFC3339_def date parts Let_def)
  moreover have "(day_number y m d - unix_epoch_day) * 86400 + h * 3600 + mi * 60 + sec = t_sec t"
  proof -
    have "day_number y m d - unix_epoch_day = t_sec t div 86400" using c(1) by simp
    then have "(day_number y m d - unix_epoch_day) * 86400 + (h * 3600 + mi * 60 + sec) = t_sec t"
      by (simp only: sum parts(1) div_mult_mod_eq)
    then show ?thesis by (simp only: add.assoc)
  qed
  ultimately show ?thesis
    using parse_parts [OF y c(2-5) range] by simp
qed

end
