(* ===== verification/Codec.thy ===== *)
theory Codec
  imports GoTime Attribute
begin

text \<open>
  Go types and values as the \<open>reflect\<close> package shows them to the encoder, and the struct tags of
  \<open>codec.go\<close>.

  A type is a finite tree, so recursive Go types are not represented.  \<open>GNamed\<close> is a declared type with its
  underlying type, \<open>GOther\<close> stands for the kinds the encoder rejects (channels, functions, arrays, complex
  numbers, interfaces); its values are only told apart by whether they are nil, which they can be for \<open>interface\<close>.  An interface
  value that holds a \<open>Marshaler\<close> is not represented.  A map is listed in the order of its keys.
\<close>

record field_meta =
  fm_Name :: string
  fm_exported :: bool
  fm_tag :: string

datatype gotype =
    GString
  | GBool
  | GInt int_kind
  | GFloat32
  | GFloat64
  | GTime
  | GSlice gotype
  | GMap gotype gotype
  | GPointer gotype
  | GStruct "(field_meta \<times> gotype) list"
  | GNamed string gotype
  | GOther string

datatype goval =
    VString string
  | VBool bool
  | VInt int
  | VFloat f64
  | VTime gotime
  | VSlice "goval list option"
  | VMap "(string \<times> goval) list option"
  | VPtr "goval option"
  | VStruct "goval list"
  | VOther bool

text \<open>Wrapping an error on its way up; a panic passes unchanged.\<close>

definition on_error :: "(error \<Rightarrow> error) \<Rightarrow> 'a result \<Rightarrow> 'a result" where
  "on_error f r =
     (case r of
        Inl e \<Rightarrow> Inl (case e of GoPanic m \<Rightarrow> GoPanic m | _ \<Rightarrow> f e)
      | Inr x \<Rightarrow> Inr x)"

lemma on_error_Inr [simp]: "on_error f (Inr x) = Inr x" "on_error f r = Inr x \<longleftrightarrow> r = Inr x"
  by (auto simp: on_error_def split: sum.splits)

text \<open>The type behind the names: what \<open>Kind\<close>, \<open>Elem\<close> and \<open>Field\<close> look at.\<close>

fun strip :: "gotype \<Rightarrow> gotype" where
  "strip (GNamed n t) = strip t"
| "strip t = t"

lemma size_strip: "size (strip t) \<le> size t"
  by (induction t rule: strip.induct) auto

lemma strip_sizes:
  "strip t = GPointer e \<Longrightarrow> size e < size t" "strip t = GSlice e \<Longrightarrow> size e < size t"
  "strip t = GMap k e \<Longrightarrow> size e < size t"
  "strip t = GStruct fs \<Longrightarrow> size_list (size_prod (\<lambda>_. 0) size) fs < size t"
  using size_strip [of t] by simp_all

lemma strip_strip [simp]: "strip (strip t) = strip t"
  by (induction t rule: strip.induct) auto

lemma strip_not_named [simp]: "strip t \<noteq> GNamed n u"
  by (induction t rule: strip.induct) auto

fun int_bits :: "int_kind \<Rightarrow> nat" where
  "int_bits KInt8 = 8" | "int_bits KUint8 = 8"
| "int_bits KInt16 = 16" | "int_bits KUint16 = 16"
| "int_bits KInt32 = 32" | "int_bits KUint32 = 32"
| "int_bits KInt = 64" | "int_bits KUint = 64"
| "int_bits KInt64 = 64" | "int_bits KUint64 = 64"

definition is_signed :: "int_kind \<Rightarrow> bool" where
  "is_signed k \<longleftrightarrow> k \<in> {KInt, KInt8, KInt16, KInt32, KInt64}"

definition int_in_range :: "int_kind \<Rightarrow> int \<Rightarrow> bool" where
  "int_in_range k i \<longleftrightarrow>
     (if is_signed k then - (2 ^ (int_bits k - 1)) \<le> i \<and> i < 2 ^ (int_bits k - 1)
      else 0 \<le> i \<and> i < 2 ^ int_bits k)"

text \<open>What \<open>SetInt\<close> and \<open>SetUint\<close> store: the low bits.\<close>

definition wrap_int :: "int_kind \<Rightarrow> int \<Rightarrow> int" where
  "wrap_int k i =
     (let b = int_bits k; r = i mod 2 ^ b in
      if is_signed k \<and> 2 ^ (b - 1) \<le> r then r - 2 ^ b else r)"

lemma int_bits_pos [simp]: "0 < int_bits k"
  by (cases k) auto

lemma wrap_in_range: "int_in_range k (wrap_int k i)"
proof -
  define H :: int where "H = 2 ^ (int_bits k - 1)"
  have two: "(2 :: int) ^ int_bits k = 2 * H"
    using power_Suc [of "2 :: int" "int_bits k - 1"] by (simp add: H_def)
  have "0 < H" by (simp add: H_def)
  then have "0 \<le> i mod (2 * H)" "i mod (2 * H) < 2 * H" by simp_all
  then show ?thesis
    unfolding int_in_range_def wrap_int_def Let_def two H_def [symmetric] by (auto simp: not_le)
qed

lemma wrap_ident: "int_in_range k i \<Longrightarrow> wrap_int k i = i"
proof -
  assume r: "int_in_range k i"
  have two: "(2 :: int) ^ int_bits k = 2 * 2 ^ (int_bits k - 1)"
    using power_Suc [of "2 :: int" "int_bits k - 1"] by simp
  show ?thesis
  proof (cases "0 \<le> i")
    case True
    with r two have "i mod 2 ^ int_bits k = i"
      by (intro mod_pos_pos_trivial) (auto simp: int_in_range_def split: if_splits)
    with r True show ?thesis by (auto simp: wrap_int_def int_in_range_def Let_def)
  next
    case False
    with r have s: "is_signed k" "- (2 ^ (int_bits k - 1)) \<le> i" by (auto simp: int_in_range_def split: if_splits)
    have "i mod 2 ^ int_bits k = (i + 2 ^ int_bits k) mod 2 ^ int_bits k" by simp
    also have "\<dots> = i + 2 ^ int_bits k"
      by (rule mod_pos_pos_trivial) (use s False two in auto)
    finally show ?thesis using s False two by (auto simp: wrap_int_def Let_def)
  qed
qed

text \<open>The zero value of a type.\<close>

definition zero_time :: gotime where
  "zero_time = \<lparr>t_sec = - 62135596800, t_nsec = 0\<rparr>"

fun zero_value :: "gotype \<Rightarrow> goval" where
  "zero_value GString = VString []"
| "zero_value GBool = VBool False"
| "zero_value (GInt k) = VInt 0"
| "zero_value GFloat32 = VFloat (Fin 0)"
| "zero_value GFloat64 = VFloat (Fin 0)"
| "zero_value GTime = VTime zero_time"
| "zero_value (GSlice t) = VSlice None"
| "zero_value (GMap k t) = VMap None"
| "zero_value (GPointer t) = VPtr None"
| "zero_value (GStruct fs) = VStruct (map (\<lambda>(m, t). zero_value t) fs)"
| "zero_value (GNamed n t) = zero_value t"
| "zero_value (GOther k) = VOther True"

text \<open>Values of a type.\<close>

fun has_type :: "gotype \<Rightarrow> goval \<Rightarrow> bool" where
  "has_type GString v \<longleftrightarrow> (case v of VString s \<Rightarrow> True | _ \<Rightarrow> False)"
| "has_type GBool v \<longleftrightarrow> (case v of VBool b \<Rightarrow> True | _ \<Rightarrow> False)"
| "has_type (GInt k) v \<longleftrightarrow> (case v of VInt i \<Rightarrow> int_in_range k i | _ \<Rightarrow> False)"
| "has_type GFloat32 v \<longleftrightarrow> (case v of VFloat f \<Rightarrow> True | _ \<Rightarrow> False)"
| "has_type GFloat64 v \<longleftrightarrow> (case v of VFloat f \<Rightarrow> True | _ \<Rightarrow> False)"
| "has_type GTime v \<longleftrightarrow> (case v of VTime t \<Rightarrow> True | _ \<Rightarrow> False)"
| "has_type (GSlice t) v \<longleftrightarrow>
     (case v of VSlice o1 \<Rightarrow> (case o1 of None \<Rightarrow> True | Some vs \<Rightarrow> list_all (has_type t) vs) | _ \<Rightarrow> False)"
| "has_type (GMap k t) v \<longleftrightarrow>
     (case v of
        VMap o1 \<Rightarrow> (case o1 of None \<Rightarrow> True
                   | Some kvs \<Rightarrow> sorted (map fst kvs) \<and> distinct (map fst kvs) \<and> list_all (\<lambda>(_, w). has_type t w) kvs)
      | _ \<Rightarrow> False)"
| "has_type (GPointer t) v \<longleftrightarrow>
     (case v of VPtr o1 \<Rightarrow> (case o1 of None \<Rightarrow> True | Some w \<Rightarrow> has_type t w) | _ \<Rightarrow> False)"
| "has_type (GStruct fs) v \<longleftrightarrow>
     (case v of VStruct vs \<Rightarrow> list_all2 (\<lambda>(m, t) w. has_type t w) fs vs | _ \<Rightarrow> False)"
| "has_type (GNamed n t) v \<longleftrightarrow> has_type t v"
| "has_type (GOther k) v \<longleftrightarrow> (case v of VOther n \<Rightarrow> True | _ \<Rightarrow> False)"

subsection \<open>Struct tags\<close>

record fieldOptions =
  fo_Name :: string
  fo_Skip :: bool
  fo_OmitEmpty :: bool
  fo_Hash :: bool
  fo_Range :: bool
  fo_GSI :: string
  fo_Set :: bool
  fo_UnixTime :: bool

definition no_options :: fieldOptions where
  "no_options = \<lparr>fo_Name = [], fo_Skip = False, fo_OmitEmpty = False, fo_Hash = False, fo_Range = False,
                 fo_GSI = [], fo_Set = False, fo_UnixTime = False\<rparr>"

definition is_white :: "char \<Rightarrow> bool" where
  "is_white c \<longleftrightarrow> c = CHR '' '' \<or> (CHR 0x09 \<le> c \<and> c \<le> CHR 0x0D)"

definition TrimSpace :: "string \<Rightarrow> string" where
  "TrimSpace s = rev (dropWhile is_white (rev (dropWhile is_white s)))"

definition isKnownOption :: "string \<Rightarrow> bool" where
  "isKnownOption s \<longleftrightarrow>
     s \<in> {''hash'', ''range'', ''omitempty'', ''set'', ''unixtime''} \<or> HasPrefix s ''gsi:''"

text \<open>One part of the tag; \<open>first\<close> is \<open>i == 0\<close>.\<close>

definition apply_part :: "bool \<Rightarrow> string \<Rightarrow> fieldOptions \<Rightarrow> fieldOptions" where
  "apply_part first part0 opts =
     (let part = TrimSpace part0 in
      if first \<and> part \<noteq> [] \<and> \<not> isKnownOption part then opts\<lparr>fo_Name := part\<rparr>
      else if part = ''hash'' then opts\<lparr>fo_Hash := True\<rparr>
      else if part = ''range'' then opts\<lparr>fo_Range := True\<rparr>
      else if HasPrefix part ''gsi:'' then opts\<lparr>fo_GSI := drop 4 part\<rparr>
      else if part = ''omitempty'' then opts\<lparr>fo_OmitEmpty := True\<rparr>
      else if part = ''set'' then opts\<lparr>fo_Set := True\<rparr>
      else if part = ''unixtime'' then opts\<lparr>fo_UnixTime := True\<rparr>
      else opts)"

definition parseTag :: "field_meta \<Rightarrow> fieldOptions" where
  "parseTag sf =
     (if fm_tag sf = [] then no_options\<lparr>fo_Name := fm_Name sf\<rparr>
      else if fm_tag sf = ''-'' then no_options\<lparr>fo_Skip := True\<rparr>
      else
        (case SplitChar CHR '','' (fm_tag sf) of
           [] \<Rightarrow> no_options\<lparr>fo_Name := fm_Name sf\<rparr>
         | p # ps \<Rightarrow>
             let opts = fold (apply_part False) ps (apply_part True p no_options) in
             if fo_Name opts = [] then opts\<lparr>fo_Name := fm_Name sf\<rparr> else opts))"

text \<open>What \<open>buildCodec\<close> keeps of a field, if anything.\<close>

definition field_codec :: "field_meta \<Rightarrow> fieldOptions option" where
  "field_codec sf =
     (if \<not> fm_exported sf then None
      else let opts = parseTag sf in if fo_Skip opts then None else Some opts)"

type_synonym typeCodec = "(nat \<times> field_meta \<times> gotype \<times> fieldOptions) list"

definition buildCodec :: "(field_meta \<times> gotype) list \<Rightarrow> typeCodec" where
  "buildCodec fs =
     concat (map (\<lambda>(i, (sf, t)). case field_codec sf of None \<Rightarrow> [] | Some opts \<Rightarrow> [(i, sf, t, opts)])
       (enumerate 0 fs))"

definition fields_of :: "gotype \<Rightarrow> (field_meta \<times> gotype) list" where
  "fields_of t = (case strip t of GStruct fs \<Rightarrow> fs | _ \<Rightarrow> [])"

text \<open>The cache of \<open>getCodec\<close>: looked up by type, filled on the first access.\<close>

definition getCodec :: "gotype \<Rightarrow> (gotype, typeCodec) fmap \<Rightarrow> typeCodec \<times> (gotype, typeCodec) fmap" where
  "getCodec t cache =
     (case fmlookup cache t of
        Some c \<Rightarrow> (c, cache)
      | None \<Rightarrow> (let codec = buildCodec (fields_of t) in (codec, fmupd t codec cache)))"

definition cache_ok :: "(gotype, typeCodec) fmap \<Rightarrow> bool" where
  "cache_ok cache \<longleftrightarrow> (\<forall>t c. fmlookup cache t = Some c \<longrightarrow> c = buildCodec (fields_of t))"

text \<open>The cache is transparent: whatever was looked up before, a type gets the codec of its fields.\<close>

lemma getCodec_transparent:
  assumes "cache_ok cache"
  shows "fst (getCodec t cache) = buildCodec (fields_of t)" "cache_ok (snd (getCodec t cache))"
  using assms by (auto simp: getCodec_def cache_ok_def Let_def split: option.splits)

subsection \<open>Zero values have their type\<close>

lemma zero_value_has_type: "has_type t (zero_value t)"
proof (induction t)
  case (GInt k)
  then show ?case by (cases k) (simp_all add: int_in_range_def is_signed_def)
next
  case (GStruct fs)
  have "list_all2 (\<lambda>(m, t) w. has_type t w) fs (map (\<lambda>(m, t). zero_value t) fs)"
    unfolding list_all2_map2 by (rule list.rel_refl_strong) (use GStruct in fastforce)
  then show ?case by simp
qed simp_all

lemma has_type_strip: "has_type t v \<longleftrightarrow> has_type (strip t) v"
  by (induction t v rule: has_type.induct) auto

lemma zero_value_strip: "zero_value t = zero_value (strip t)"
  by (induction t rule: zero_value.induct) auto

end
