(* ===== verification/Marshalling.thy ===== *)
theory Marshalling
  imports Codec
begin

text \<open>
  Encoding Go values as attribute values (\<open>marshal.go\<close>).  The methods a program gives its types are a
  parameter: what \<open>MarshalDynamo\<close> returns on a value or a pointer receiver, by the name of the type.
  \<open>addr\<close> says whether the value is addressable, which decides if pointer methods are found.
\<close>

record methods =
  me_Marshal :: "string \<Rightarrow> (goval \<Rightarrow> AttributeValue result) option"
  me_MarshalPtr :: "string \<Rightarrow> (goval option \<Rightarrow> AttributeValue result) option"
  me_Unmarshal :: "string \<Rightarrow> (AttributeValue \<Rightarrow> goval \<Rightarrow> goval result) option"

definition no_methods :: methods where
  "no_methods = \<lparr>me_Marshal = (\<lambda>_. None), me_MarshalPtr = (\<lambda>_. None), me_Unmarshal = (\<lambda>_. None)\<rparr>"

definition marshal_error :: "string \<Rightarrow> 'a result" where
  "marshal_error msg = Inl (newError ErrValidation msg)"

text \<open>The checks for the \<open>Marshaler\<close> interface.\<close>

definition marshaler_call :: "methods \<Rightarrow> bool \<Rightarrow> gotype \<Rightarrow> goval \<Rightarrow> AttributeValue result option" where
  "marshaler_call ms addr t v =
     (case t of
        GNamed n _ \<Rightarrow>
          (case me_Marshal ms n of
             Some f \<Rightarrow> Some (f v)
           | None \<Rightarrow> if addr then map_option (\<lambda>f. f (Some v)) (me_MarshalPtr ms n) else None)
      | GPointer (GNamed n _) \<Rightarrow>
          (case v of
             VPtr w \<Rightarrow>
               (case me_MarshalPtr ms n of
                  Some f \<Rightarrow> Some (f w)
                | None \<Rightarrow>
                    map_option (\<lambda>f. case w of Some x \<Rightarrow> f x | None \<Rightarrow> Inl (GoPanic ''nil pointer dereference''))
                      (me_Marshal ms n))
           | _ \<Rightarrow> None)
      | _ \<Rightarrow> None)"

definition FormatFloat32_f :: "f64 \<Rightarrow> string" where
  "FormatFloat32_f f =
     (case f of
        NaN \<Rightarrow> ''NaN'' | PosInf \<Rightarrow> ''+Inf'' | NegInf \<Rightarrow> ''-Inf'' | NegZero \<Rightarrow> ''-0''
      | Fin q \<Rightarrow>
          if q = 0 then ''0''
          else (if q < 0 then ''-'' else []) @ (case shortest round32 \<bar>q\<bar> of (ds, dp) \<Rightarrow> layout_f ds dp))"

subsection \<open>Elements without nesting\<close>

definition marshalTime :: "gotime \<Rightarrow> fieldOptions \<Rightarrow> AttributeValue" where
  "marshalTime t opts =
     (if fo_UnixTime opts then TypeN (show_int (t_sec t)) else TypeS (format_RFC3339 t))"

definition val_string :: "goval \<Rightarrow> string" where
  "val_string v = (case v of VString s \<Rightarrow> s | _ \<Rightarrow> [])"

definition val_int :: "goval \<Rightarrow> int" where
  "val_int v = (case v of VInt i \<Rightarrow> i | _ \<Rightarrow> 0)"

definition val_float :: "goval \<Rightarrow> f64" where
  "val_float v = (case v of VFloat f \<Rightarrow> f | _ \<Rightarrow> Fin 0)"

text \<open>\<open>v.Bytes()\<close>; a nil slice has no bytes.\<close>

definition val_bytes :: "goval \<Rightarrow> bytes" where
  "val_bytes v = (case v of VSlice o1 \<Rightarrow> (case o1 of Some bs \<Rightarrow> map (\<lambda>b. char_of (val_int b)) bs | None \<Rightarrow> []) | _ \<Rightarrow> [])"

abbreviation byteSliceType :: gotype where
  "byteSliceType \<equiv> GSlice (GInt KUint8)"

definition marshalSet :: "gotype \<Rightarrow> goval list \<Rightarrow> AttributeValue result" where
  "marshalSet elemType vs =
     (if strip elemType = GString then Inr (TypeSS (map val_string vs))
      else if elemType = byteSliceType then Inr (TypeBS (map val_bytes vs))
      else (case strip elemType of
              GInt k \<Rightarrow> Inr (TypeNS (map (\<lambda>v. show_int (val_int v)) vs))
            | GFloat32 \<Rightarrow> Inr (TypeNS (map (\<lambda>v. FormatFloat_f (val_float v)) vs))
            | GFloat64 \<Rightarrow> Inr (TypeNS (map (\<lambda>v. FormatFloat_f (val_float v)) vs))
            | _ \<Rightarrow> marshal_error ''dynago.Marshal: unsupported set element type''))"

text \<open>\<open>isZero\<close>, used for \<open>omitempty\<close>.\<close>

definition isZero :: "gotype \<Rightarrow> goval \<Rightarrow> bool" where
  "isZero t v =
     (case v of
        VString s \<Rightarrow> s = []
      | VBool b \<Rightarrow> \<not> b
      | VInt i \<Rightarrow> i = 0
      | VFloat f \<Rightarrow> f = Fin 0 \<or> f = NegZero
      | VSlice o1 \<Rightarrow> (case o1 of None \<Rightarrow> True | Some vs \<Rightarrow> vs = [])
      | VMap o1 \<Rightarrow> (case o1 of None \<Rightarrow> True | Some kvs \<Rightarrow> kvs = [])
      | VPtr o1 \<Rightarrow> o1 = None
      | VTime ti \<Rightarrow> t = GTime \<and> ti = zero_time
      | VStruct vs \<Rightarrow> False
      | VOther n \<Rightarrow> strip t = GOther ''interface'' \<and> n)"

subsection \<open>Values\<close>

text \<open>A pointer field is looked through once; a nil one is left out.\<close>

definition field_elem :: "bool \<Rightarrow> gotype \<Rightarrow> goval \<Rightarrow> (bool \<times> gotype \<times> goval) option" where
  "field_elem addr t v =
     (case strip t of
        GPointer e \<Rightarrow> (case v of VPtr o1 \<Rightarrow> map_option (\<lambda>w. (True, e, w)) o1 | _ \<Rightarrow> Some (addr, t, v))
      | _ \<Rightarrow> Some (addr, t, v))"

lemma field_elem_size [simp]: "field_elem addr t v = Some (a, e, w) \<Longrightarrow> size w \<le> size v"
  by (auto simp: field_elem_def split: gotype.splits goval.splits)

text \<open>
  \<open>marshalValue\<close> with the loops of \<open>marshalSlice\<close>, \<open>marshalMap\<close>, \<open>marshalStruct\<close> and \<open>Marshal\<close>.  The
  field loop goes through the codec of the type and the fields of the value together.
\<close>

function (sequential) marshalValue :: "methods \<Rightarrow> bool \<Rightarrow> gotype \<Rightarrow> goval \<Rightarrow> fieldOptions \<Rightarrow> AttributeValue result"
and marshalElems :: "methods \<Rightarrow> gotype \<Rightarrow> goval list \<Rightarrow> AttributeValue list result"
and marshalEntries :: "methods \<Rightarrow> gotype \<Rightarrow> (string \<times> goval) list \<Rightarrow> item \<Rightarrow> item result"
and marshalFields :: "string \<Rightarrow> methods \<Rightarrow> bool \<Rightarrow> (field_meta \<times> gotype) list \<Rightarrow> goval list \<Rightarrow> item \<Rightarrow> item result"
where
  "marshalValue ms addr t v opts =
     (case marshaler_call ms addr t v of
        Some r \<Rightarrow> r
      | None \<Rightarrow>
          (case v of
             VTime ti \<Rightarrow> if t = GTime then Inr (marshalTime ti opts) else Inr (TypeM fmempty)
           | VString s \<Rightarrow> Inr (TypeS s)
           | VBool b \<Rightarrow> Inr (TypeBOOL b)
           | VInt i \<Rightarrow> Inr (TypeN (show_int i))
           | VFloat f \<Rightarrow> Inr (TypeN (if strip t = GFloat32 then FormatFloat32_f f else FormatFloat_f f))
           | VSlice o1 \<Rightarrow>
               if t = byteSliceType then Inr (TypeB (val_bytes v))
               else (case (o1, strip t) of
                       (None, _) \<Rightarrow> Inr (TypeNULL True)
                     | (Some vs, GSlice e) \<Rightarrow>
                         if fo_Set opts then marshalSet e vs
                         else bind (marshalElems ms e vs) (\<lambda>l. Inr (TypeL l))
                     | _ \<Rightarrow> marshal_error ''dynago.Marshal: unsupported type'')
           | VMap o1 \<Rightarrow>
               (case (o1, strip t) of
                  (None, _) \<Rightarrow> Inr (TypeNULL True)
                | (Some kvs, GMap k e) \<Rightarrow>
                    if strip k \<noteq> GString then marshal_error ''dynago.Marshal: map key must be string''
                    else bind (marshalEntries ms e kvs fmempty) (\<lambda>m. Inr (TypeM m))
                | _ \<Rightarrow> marshal_error ''dynago.Marshal: unsupported type'')
           | VStruct vs \<Rightarrow>
               bind (marshalFields ''field'' ms addr (fields_of t) vs fmempty) (\<lambda>m. Inr (TypeM m))
           | VPtr o1 \<Rightarrow>
               (case (o1, strip t) of
                  (None, _) \<Rightarrow> Inr (TypeNULL True)
                | (Some w, GPointer e) \<Rightarrow> marshalValue ms True e w opts
                | _ \<Rightarrow> marshal_error ''dynago.Marshal: unsupported type'')
           | VOther n \<Rightarrow> marshal_error ''dynago.Marshal: unsupported type''))"
| "marshalElems ms e [] = Inr []"
| "marshalElems ms e (v # vs) =
     bind (marshalValue ms True e v no_options) (\<lambda>av.
       bind (marshalElems ms e vs) (\<lambda>avs. Inr (av # avs)))"
| "marshalEntries ms e [] m = Inr m"
| "marshalEntries ms e ((k, v) # kvs) m =
     bind (marshalValue ms False e v no_options) (\<lambda>av. marshalEntries ms e kvs (fmupd k av m))"
| "marshalFields msg ms addr ((sf, t) # fs) (v # vs) m =
     (case field_codec sf of
        None \<Rightarrow> marshalFields msg ms addr fs vs m
      | Some opts \<Rightarrow>
          (case field_elem addr t v of
             None \<Rightarrow> marshalFields msg ms addr fs vs m
           | Some (a, e, w) \<Rightarrow>
               if fo_OmitEmpty opts \<and> isZero e w then marshalFields msg ms addr fs vs m
               else bind (on_error (ErrorfW msg) (marshalValue ms a e w opts)) (\<lambda>av.
                      marshalFields msg ms addr fs vs (fmupd (fo_Name opts) av m))))"
| "marshalFields msg ms addr _ _ m = Inr m"
  by pat_completeness auto
termination
  by (relation "measure (case_sum
        (case_sum (\<lambda>(ms, addr, t, v, opts). size v) (\<lambda>(ms, e, vs). size_list size vs))
        (case_sum (\<lambda>(ms, e, kvs, m). size_list (size_prod (\<lambda>_. 0) size) kvs)
           (\<lambda>(msg, ms, addr, fs, vs, m). size_list size vs)))")
    (auto simp: field_elem_def split: goval.splits gotype.splits)

text \<open>\<open>Marshal\<close>: pointers are followed to a struct; the argument \<open>nil\<close> is \<open>None\<close>.\<close>

fun deref_value :: "bool \<Rightarrow> gotype \<Rightarrow> goval \<Rightarrow> (bool \<times> gotype \<times> goval) result" where
  "deref_value addr t (VPtr o1) =
     (case (strip t, o1) of
        (GPointer e, Some w) \<Rightarrow> deref_value True e w
      | _ \<Rightarrow> marshal_error ''dynago.Marshal: nil pointer'')"
| "deref_value addr t v = Inr (addr, t, v)"

definition Marshal :: "methods \<Rightarrow> (gotype \<times> goval) option \<Rightarrow> item result" where
  "Marshal ms x =
     (case x of
        None \<Rightarrow> marshal_error ''dynago.Marshal: nil value''
      | Some (t0, v0) \<Rightarrow>
          bind (deref_value False t0 v0) (\<lambda>(addr, t, v).
            case v of
              VStruct vs \<Rightarrow> marshalFields ''dynago.Marshal: field'' ms addr (fields_of t) vs fmempty
            | VTime _ \<Rightarrow> Inr fmempty
            | _ \<Rightarrow> marshal_error ''dynago.Marshal: expected struct''))"

declare marshalValue.simps [simp del]

lemma marshaler_call_no_methods [simp]: "marshaler_call no_methods addr t v = None"
  by (auto simp: marshaler_call_def no_methods_def split: gotype.splits goval.splits)

end
