(* ===== verification/Unmarshalling.thy ===== *)
theory Unmarshalling
  imports Marshalling
begin

text \<open>
  Decoding attribute values into Go values (\<open>unmarshal.go\<close>).  The destination is given by its type and its
  current value, and the function returns its new value.  The entries of a map are visited in key order.
\<close>

definition expected :: "string \<Rightarrow> 'a result" where
  "expected what = Inl (Errorf (''expected '' @ what))"

text \<open>The loops over list elements and map entries; the first error ends them.\<close>

fun collect :: "string \<Rightarrow> ('a \<Rightarrow> 'b result) \<Rightarrow> 'a list \<Rightarrow> 'b list result" where
  "collect msg f [] = Inr []"
| "collect msg f (x # xs) =
     bind (on_error (ErrorfW msg) (f x)) (\<lambda>y. bind (collect msg f xs) (\<lambda>ys. Inr (y # ys)))"

definition parse_failure :: "string \<Rightarrow> 'a result" where
  "parse_failure what = Inl (ErrorfW what (Errorf ''strconv: parsing failed''))"

definition unmarshalTime :: "AttributeValue \<Rightarrow> fieldOptions \<Rightarrow> goval result" where
  "unmarshalTime av opts =
     (if fo_UnixTime opts then
        (case av of
           TypeN n \<Rightarrow>
             (case ParseInt n of
                None \<Rightarrow> parse_failure ''parsing unix time''
              | Some sec \<Rightarrow> Inr (VTime \<lparr>t_sec = sec, t_nsec = 0\<rparr>))
         | _ \<Rightarrow> expected ''N for unixtime'')
      else
        (case av of
           TypeS s \<Rightarrow>
             (case parse_RFC3339 s of None \<Rightarrow> parse_failure ''parsing time'' | Some t \<Rightarrow> Inr (VTime t))
         | _ \<Rightarrow> expected ''S for time''))"

text \<open>The largest finite float32, and what \<open>SetFloat\<close> stores in one.\<close>

definition max_float32 :: f64 where
  "max_float32 = Fin ((2 ^ 24 - 1) * 2 ^ 104)"

definition to_float32 :: "f64 \<Rightarrow> f64" where
  "to_float32 f = (case f of Fin q \<Rightarrow> round32 q | _ \<Rightarrow> f)"

definition unmarshalInt :: "int_kind \<Rightarrow> string \<Rightarrow> goval result" where
  "unmarshalInt k n =
     (if is_signed k then
        (case ParseInt n of
           None \<Rightarrow> parse_failure ''parsing int''
         | Some i \<Rightarrow> if int_in_range k i then Inr (VInt i) else Inl (Errorf ''value overflows''))
      else
        (case ParseUint n of
           None \<Rightarrow> parse_failure ''parsing uint''
         | Some i \<Rightarrow> if int_in_range k i then Inr (VInt i) else Inl (Errorf ''value overflows'')))"

definition unmarshalFloat :: "bool \<Rightarrow> string \<Rightarrow> goval result" where
  "unmarshalFloat is32 n =
     (case ParseFloat n of
        None \<Rightarrow> parse_failure ''parsing float''
      | Some f \<Rightarrow>
          if is32 \<and> (f64_less max_float32 f \<or> f64_less f (f64_neg max_float32)) \<and> f \<noteq> PosInf \<and> f \<noteq> NegInf
          then Inl (Errorf ''value overflows float32'')
          else Inr (VFloat (if is32 then to_float32 f else f)))"

definition byte_values :: "bytes \<Rightarrow> goval list" where
  "byte_values bs = map (\<lambda>c. VInt (of_char c)) bs"

text \<open>One element of a number set: no overflow check here, \<open>SetInt\<close> keeps the low bits.\<close>

definition unmarshal_ns :: "gotype \<Rightarrow> string \<Rightarrow> goval result" where
  "unmarshal_ns elemType n =
     (case strip elemType of
        GInt k \<Rightarrow>
          (case (if is_signed k then ParseInt n else ParseUint n) of
             None \<Rightarrow> parse_failure ''NS index''
           | Some i \<Rightarrow> Inr (VInt (wrap_int k i)))
      | GFloat32 \<Rightarrow> (case ParseFloat n of None \<Rightarrow> parse_failure ''NS index'' | Some f \<Rightarrow> Inr (VFloat (to_float32 f)))
      | GFloat64 \<Rightarrow> (case ParseFloat n of None \<Rightarrow> parse_failure ''NS index'' | Some f \<Rightarrow> Inr (VFloat f))
      | _ \<Rightarrow> Inl (Errorf ''NS requires numeric slice target''))"

definition is_bytes_kind :: "gotype \<Rightarrow> bool" where
  "is_bytes_kind t = (case strip t of GSlice e \<Rightarrow> strip e = GInt KUint8 | _ \<Rightarrow> False)"

definition unmarshalSet :: "AttributeValue \<Rightarrow> gotype \<Rightarrow> goval result" where
  "unmarshalSet av elemType =
     (case av of
        TypeSS ss \<Rightarrow>
          if strip elemType \<noteq> GString then Inl (Errorf ''SS requires []string target'')
          else Inr (VSlice (Some (map VString ss)))
      | TypeNS ns \<Rightarrow>
          bind (collect [] (unmarshal_ns elemType) ns) (\<lambda>vs. Inr (VSlice (Some vs)))
      | TypeBS bs \<Rightarrow>
          if \<not> is_bytes_kind elemType then Inl (Errorf ''BS requires [][]byte target'')
          else Inr (VSlice (Some (map (\<lambda>b. VSlice (Some (byte_values b))) bs)))
      | _ \<Rightarrow> expected ''SS/NS/BS for set field'')"

text \<open>The pointer a decoder writes through: allocated when it is nil.\<close>

definition pointee :: "gotype \<Rightarrow> goval \<Rightarrow> goval" where
  "pointee e cur = (case cur of VPtr (Some w) \<Rightarrow> w | _ \<Rightarrow> zero_value e)"

definition struct_values :: "goval \<Rightarrow> goval list" where
  "struct_values cur = (case cur of VStruct vs \<Rightarrow> vs | _ \<Rightarrow> [])"

definition unmarshaler :: "methods \<Rightarrow> gotype \<Rightarrow> (AttributeValue \<Rightarrow> goval \<Rightarrow> goval result) option" where
  "unmarshaler ms t = (case t of GNamed n _ \<Rightarrow> me_Unmarshal ms n | _ \<Rightarrow> None)"

function (sequential) unmarshalValue :: "methods \<Rightarrow> gotype \<Rightarrow> AttributeValue \<Rightarrow> goval \<Rightarrow> fieldOptions \<Rightarrow> goval result"
and unmarshalInto :: "methods \<Rightarrow> gotype \<Rightarrow> AttributeValue \<Rightarrow> goval \<Rightarrow> fieldOptions \<Rightarrow> goval result"
and unmarshalFields :: "methods \<Rightarrow> (field_meta \<times> gotype) list \<Rightarrow> item \<Rightarrow> goval list \<Rightarrow> goval list result"
where
  "unmarshalValue ms t av cur opts =
     (case strip t of
        GPointer e \<Rightarrow>
          if av = TypeNULL True then Inr (VPtr None)
          else bind (unmarshalInto ms e av (pointee e cur) opts) (\<lambda>w. Inr (VPtr (Some w)))
      | _ \<Rightarrow> unmarshalInto ms t av cur opts)"
| "unmarshalInto ms t av cur opts =
     (case unmarshaler ms t of
        Some f \<Rightarrow> f av cur
      | None \<Rightarrow>
          if t = GTime then unmarshalTime av opts
          else (case strip t of
             GString \<Rightarrow> (case av of TypeS s \<Rightarrow> Inr (VString s) | _ \<Rightarrow> expected ''S'')
           | GBool \<Rightarrow> (case av of TypeBOOL b \<Rightarrow> Inr (VBool b) | _ \<Rightarrow> expected ''BOOL'')
           | GInt k \<Rightarrow> (case av of TypeN n \<Rightarrow> unmarshalInt k n | _ \<Rightarrow> expected ''N'')
           | GFloat32 \<Rightarrow> (case av of TypeN n \<Rightarrow> unmarshalFloat True n | _ \<Rightarrow> expected ''N'')
           | GFloat64 \<Rightarrow> (case av of TypeN n \<Rightarrow> unmarshalFloat False n | _ \<Rightarrow> expected ''N'')
           | GSlice e \<Rightarrow>
               if strip e = GInt KUint8 then
                 (case av of TypeB b \<Rightarrow> Inr (VSlice (Some (byte_values b))) | _ \<Rightarrow> expected ''B for []byte'')
               else if fo_Set opts then unmarshalSet av e
               else (case av of
                       TypeL l \<Rightarrow>
                         bind (collect ''index'' (\<lambda>a. unmarshalValue ms e a (zero_value e) no_options) l)
                           (\<lambda>vs. Inr (VSlice (Some vs)))
                     | _ \<Rightarrow> expected ''L for slice'')
           | GMap k e \<Rightarrow>
               (case av of
                  TypeM m \<Rightarrow>
                    if strip k \<noteq> GString then Inl (Errorf ''map key must be string'')
                    else bind (collect ''map key'' (\<lambda>key.
                               bind (unmarshalValue ms e (the (fmlookup m key)) (zero_value e) no_options) (\<lambda>w.
                                 if k = GString then Inr (key, w)
                                 else Inl (GoPanic ''reflect.Value.SetMapIndex: value of type string is not assignable'')))
                             (sorted_keys m))
                           (\<lambda>kvs. Inr (VMap (Some kvs)))
                | _ \<Rightarrow> expected ''M for map'')
           | GStruct fs \<Rightarrow>
               (case av of
                  TypeM m \<Rightarrow> bind (unmarshalFields ms fs m (struct_values cur)) (\<lambda>vs. Inr (VStruct vs))
                | _ \<Rightarrow> expected ''M for struct'')
           | GTime \<Rightarrow> (case av of TypeM m \<Rightarrow> Inr cur | _ \<Rightarrow> expected ''M for struct'')
           | _ \<Rightarrow> Inl (Errorf ''unsupported kind'')))"
| "unmarshalFields ms ((sf, t) # fs) m (cur # curs) =
     (case field_codec sf of
        None \<Rightarrow> bind (unmarshalFields ms fs m curs) (\<lambda>vs. Inr (cur # vs))
      | Some opts \<Rightarrow>
          (case fmlookup m (fo_Name opts) of
             None \<Rightarrow> bind (unmarshalFields ms fs m curs) (\<lambda>vs. Inr (cur # vs))
           | Some av \<Rightarrow>
               bind (on_error (\<lambda>_. newError ErrValidation ''dynago.Unmarshal: field'') (unmarshalValue ms t av cur opts))
                 (\<lambda>v. bind (unmarshalFields ms fs m curs) (\<lambda>vs. Inr (v # vs)))))"
| "unmarshalFields ms _ m curs = Inr curs"
  by pat_completeness auto
termination
  by (relation "measure (case_sum (\<lambda>(ms, t, av, cur, opts). 2 * size t + 1)
    (case_sum (\<lambda>(ms, t, av, cur, opts). 2 * size t)
      (\<lambda>(ms, fs, m, curs). 2 * size_list (size_prod (\<lambda>_. 0) size) fs)))")
    (auto dest: strip_sizes)

declare unmarshalValue.simps [simp del] unmarshalInto.simps [simp del]

text \<open>\<open>Unmarshal\<close>: the destination must be a pointer to a struct; its new value is returned.\<close>

definition Unmarshal :: "methods \<Rightarrow> item \<Rightarrow> gotype \<Rightarrow> goval \<Rightarrow> goval result" where
  "Unmarshal ms it t cur =
     (case strip t of
        GStruct fs \<Rightarrow> bind (unmarshalFields ms fs it (struct_values cur)) (\<lambda>vs. Inr (VStruct vs))
      | GTime \<Rightarrow> Inr cur
      | _ \<Rightarrow> Inl (newError ErrValidation ''dynago.Unmarshal: out must point to a struct''))"

end
