(* ===== verification/RoundTrip.thy ===== *)
theory RoundTrip
  imports Unmarshalling
begin

text \<open>
  Decoding is typed, and decoding what was encoded gives the value back, for the values for which this is
  so: nil slices and maps, named byte slices and pointers to pointers are encoded in a form the decoder
  rejects, and are left out of \<open>rt\<close>.
\<close>

subsection \<open>Decoded values have the type of their destination\<close>

definition methods_typed :: "methods \<Rightarrow> bool" where
  "methods_typed ms \<longleftrightarrow>
     (\<forall>n f u av v w. me_Unmarshal ms n = Some f \<longrightarrow> has_type u v \<longrightarrow> f av v = Inr w \<longrightarrow> has_type u w)"

lemma methods_typed_none: "methods_typed no_methods"
  by (simp add: methods_typed_def no_methods_def)

lemma collect_all:
  "collect msg f xs = Inr ys \<Longrightarrow> (\<And>x y. x \<in> set xs \<Longrightarrow> f x = Inr y \<Longrightarrow> P y) \<Longrightarrow> list_all P ys"
proof (induction xs arbitrary: ys)
  case (Cons x xs)
  then obtain y zs where "f x = Inr y" "collect msg f xs = Inr zs" "ys = y # zs"
    by (auto simp: bind_Inr_iff)
  moreover have "P y" by (rule Cons.prems(2) [OF _ \<open>f x = Inr y\<close>]) simp
  moreover have "list_all P zs"
    by (rule Cons.IH [OF \<open>collect msg f xs = Inr zs\<close>]) (rule Cons.prems(2), rule list.set_intros(2), assumption+)
  ultimately show ?case by simp
qed simp

lemma collect_map: "collect msg f xs = Inr ys \<Longrightarrow> (\<And>x y. f x = Inr y \<Longrightarrow> g y = h x) \<Longrightarrow> map g ys = map h xs"
  by (induction xs arbitrary: ys) (auto simp: bind_Inr_iff)

lemma byte_values_typed: "strip e = GInt KUint8 \<Longrightarrow> list_all (has_type e) (byte_values bs)"
proof -
  have "0 \<le> (of_char c :: int) \<and> of_char c < (256 :: int)" for c
    using of_nat_of_char [of c, where ?'a = int] nat_of_char_less_256 [of c] by linarith
  moreover assume "strip e = GInt KUint8"
  ultimately show ?thesis
    by (auto simp: byte_values_def list_all_iff has_type_strip [of e] int_in_range_def is_signed_def)
qed

lemma unmarshal_ns_typed: "unmarshal_ns e n = Inr v \<Longrightarrow> has_type e v"
  by (auto simp: unmarshal_ns_def has_type_strip [of e] parse_failure_def wrap_in_range
      split: gotype.splits option.splits)

lemma unmarshalSet_typed: "unmarshalSet av e = Inr v \<Longrightarrow> has_type (GSlice e) v"
proof (cases av)
  case (TypeBS bs)
  moreover assume "unmarshalSet av e = Inr v"
  ultimately show ?thesis
    by (auto simp: unmarshalSet_def is_bytes_kind_def list_all_iff has_type_strip [of e]
        byte_values_typed [unfolded list_all_iff] split: if_splits gotype.splits)
qed (auto simp: unmarshalSet_def expected_def bind_Inr_iff list_all_iff has_type_strip [of e]
    dest: collect_all [where P = "has_type e"] unmarshal_ns_typed split: if_splits)

lemma unmarshalInt_typed: "unmarshalInt k n = Inr v \<Longrightarrow> has_type (GInt k) v"
  by (auto simp: unmarshalInt_def parse_failure_def split: if_splits option.splits)

lemma unmarshalFloat_typed: "unmarshalFloat b n = Inr v \<Longrightarrow> \<exists>f. v = VFloat f"
  by (auto simp: unmarshalFloat_def parse_failure_def split: if_splits option.splits)

lemma pointee_typed: "has_type (GPointer e) cur \<Longrightarrow> has_type e (pointee e cur)"
  by (auto simp: pointee_def zero_value_has_type split: goval.splits option.splits)

text \<open>What \<open>unmarshalInto\<close> stores, by the kind of the destination; the elements are assumed to be typed.\<close>

lemma into_scalar:
  assumes "unmarshalInto ms t av cur opts = Inr v" "unmarshaler ms t = None" "has_type t cur"
    and "\<not> (\<exists>e. strip t = GSlice e)" "\<not> (\<exists>k e. strip t = GMap k e)" "\<not> (\<exists>fs. strip t = GStruct fs)"
  shows "has_type t v"
proof (cases "t = GTime")
  case True
  with assms(1,2) show ?thesis
    by (auto simp: unmarshalInto.simps unmarshalTime_def expected_def parse_failure_def
        split: if_splits AttributeValue.splits option.splits)
next
  case False
  note kind = assms(1) [unfolded unmarshalInto.simps assms(2) option.case if_not_P [OF False]]
  have goal: "has_type (strip t) v"
  proof (cases "strip t")
    case (GInt k)
    with kind show ?thesis
      by (auto simp: expected_def simp del: has_type.simps dest: unmarshalInt_typed split: AttributeValue.splits)
  next
    case GTime
    with kind assms(3) show ?thesis by (auto simp: has_type_strip [of t] expected_def split: AttributeValue.splits)
  qed (use kind assms(4-6) in \<open>auto simp: expected_def dest!: unmarshalFloat_typed split: AttributeValue.splits\<close>)
  then show ?thesis by (simp add: has_type_strip [of t])
qed

lemma into_slice:
  assumes "unmarshalInto ms t av cur opts = Inr v" "unmarshaler ms t = None" "strip t = GSlice e"
    and elems: "\<And>l x w. strip e \<noteq> GInt KUint8 \<Longrightarrow> \<not> fo_Set opts \<Longrightarrow> av = TypeL l \<Longrightarrow>
      unmarshalValue ms e x (zero_value e) no_options = Inr w \<Longrightarrow> has_type e w"
  shows "has_type t v"
proof -
  from assms(3) have "t \<noteq> GTime" by auto
  note kind = assms(1) [unfolded unmarshalInto.simps assms(2) option.case if_not_P [OF this]]
  consider "strip e = GInt KUint8" | "strip e \<noteq> GInt KUint8" "fo_Set opts" | "strip e \<noteq> GInt KUint8" "\<not> fo_Set opts"
    by blast
  then have "has_type (GSlice e) v"
  proof cases
    case 1
    with kind assms(3) byte_values_typed [OF 1] show ?thesis
      by (auto simp: expected_def split: AttributeValue.splits)
  next
    case 2
    with kind assms(3) show ?thesis by (auto dest: unmarshalSet_typed)
  next
    case 3
    with kind assms(3) obtain l vs where l: "av = TypeL l" "v = VSlice (Some vs)"
      "collect ''index'' (\<lambda>a. unmarshalValue ms e a (zero_value e) no_options) l = Inr vs"
      by (auto simp: expected_def bind_Inr_iff split: AttributeValue.splits)
    have "list_all (has_type e) vs" by (rule collect_all [OF l(3)]) (rule elems [OF 3 l(1)])
    with l show ?thesis by simp
  qed
  with assms(3) show ?thesis by (simp add: has_type_strip [of t])
qed

lemma into_map:
  assumes "unmarshalInto ms t av cur opts = Inr v" "unmarshaler ms t = None" "strip t = GMap k e"
    and elems: "\<And>m key w. av = TypeM m \<Longrightarrow> strip k = GString \<Longrightarrow>
      unmarshalValue ms e (the (fmlookup m key)) (zero_value e) no_options = Inr w \<Longrightarrow> has_type e w"
  shows "has_type t v"
proof -
  from assms(3) have "t \<noteq> GTime" by auto
  note kind = assms(1) [unfolded unmarshalInto.simps assms(2) option.case if_not_P [OF this]]
  from kind assms(3) obtain m kvs where m: "av = TypeM m" "v = VMap (Some kvs)" "strip k = GString"
    "collect ''map key'' (\<lambda>key.
       bind (unmarshalValue ms e (the (fmlookup m key)) (zero_value e) no_options) (\<lambda>w.
         if k = GString then Inr (key, w)
         else Inl (GoPanic ''reflect.Value.SetMapIndex: value of type string is not assignable'')))
       (sorted_keys m) = Inr kvs"
    by (auto simp: expected_def bind_Inr_iff split: AttributeValue.splits if_splits)
  have "list_all (\<lambda>(_, w). has_type e w) kvs"
    by (rule collect_all [OF m(4)]) (auto simp: bind_Inr_iff split: if_splits dest: elems [OF m(1,3)])
  moreover have "map fst kvs = map id (sorted_keys m)"
    by (rule collect_map [OF m(4)]) (auto simp: bind_Inr_iff split: if_splits)
  ultimately have "has_type (GMap k e) v" using m(2) by simp
  with assms(3) show ?thesis by (simp add: has_type_strip [of t])
qed

lemma into_struct:
  assumes "unmarshalInto ms t av cur opts = Inr v" "unmarshaler ms t = None" "strip t = GStruct fs" "has_type t cur"
    and fields: "\<And>m vs. av = TypeM m \<Longrightarrow> unmarshalFields ms fs m (struct_values cur) = Inr vs \<Longrightarrow>
      list_all2 (\<lambda>(m, t) w. has_type t w) fs (struct_values cur) \<Longrightarrow> list_all2 (\<lambda>(m, t) w. has_type t w) fs vs"
  shows "has_type t v"
proof -
  from assms(3) have "t \<noteq> GTime" by auto
  note kind = assms(1) [unfolded unmarshalInto.simps assms(2) option.case if_not_P [OF this]]
  from kind assms(3) obtain m vs where m: "av = TypeM m" "v = VStruct vs" "unmarshalFields ms fs m (struct_values cur) = Inr vs"
    by (auto simp: expected_def bind_Inr_iff split: AttributeValue.splits)
  have "list_all2 (\<lambda>(m, t) w. has_type t w) fs (struct_values cur)"
    using assms(3,4) by (auto simp: has_type_strip [of t] struct_values_def split: goval.splits)
  with fields [OF m(1,3)] m(2) assms(3) show ?thesis by (simp add: has_type_strip [of t])
qed

lemma unmarshal_typed:
  assumes "methods_typed ms"
  shows "unmarshalValue ms t av cur opts = Inr v \<Longrightarrow> has_type t cur \<Longrightarrow> has_type t v"
    and "unmarshalInto ms t av cur opts = Inr v \<Longrightarrow> has_type t cur \<Longrightarrow> has_type t v"
    and "unmarshalFields ms fs m curs = Inr vs \<Longrightarrow> list_all2 (\<lambda>(m, t) w. has_type t w) fs curs \<Longrightarrow>
      list_all2 (\<lambda>(m, t) w. has_type t w) fs vs"
  using assms
proof (induction ms t av cur opts and ms t av cur opts and ms fs m curs
    arbitrary: v and v and vs rule: unmarshalValue_unmarshalInto_unmarshalFields.induct)
  case (1 ms t av cur opts)
  show ?case
  proof (cases "\<exists>e. strip t = GPointer e")
    case True
    then obtain e where t: "strip t = GPointer e" by blast
    with "1.prems"(2) have cur: "has_type e (pointee e cur)" by (intro pointee_typed) (simp add: has_type_strip [of t])
    from "1.prems"(1) t "1.IH"(9) [OF t _ _ cur "1.prems"(3)] have "has_type (GPointer e) v"
      by (auto simp: unmarshalValue.simps bind_Inr_iff split: if_splits)
    with t show ?thesis by (simp add: has_type_strip [of t])
  next
    case False
    with "1.prems"(1) have "unmarshalInto ms t av cur opts = Inr v"
      by (auto simp: unmarshalValue.simps split: gotype.splits)
    with "1.IH" "1.prems"(2,3) False show ?thesis by (cases "strip t") auto
  qed
next
  case (2 ms t av cur opts)
  note prems = "2.prems"
  show ?case
  proof (cases "unmarshaler ms t")
    case (Some f)
    then obtain n u where t: "t = GNamed n u" "me_Unmarshal ms n = Some f"
      by (auto simp: unmarshaler_def split: gotype.splits)
    moreover have "f av cur = Inr v" using prems(1) Some by (simp add: unmarshalInto.simps)
    ultimately show ?thesis using prems(2,3) unfolding methods_typed_def by blast
  next
    case None
    consider e where "strip t = GSlice e" | k e where "strip t = GMap k e" | fs where "strip t = GStruct fs"
      | "\<not> (\<exists>e. strip t = GSlice e)" "\<not> (\<exists>k e. strip t = GMap k e)" "\<not> (\<exists>fs. strip t = GStruct fs)"
      by blast
    then show ?thesis
    proof cases
      case (1 e)
      then have "t \<noteq> GTime" by auto
      from into_slice [OF prems(1) None 1 "2.IH"(1) [OF None this 1 _ _ _ _ zero_value_has_type prems(3)]] show ?thesis .
    next
      case (2 k e)
      then have "t \<noteq> GTime" by auto
      from into_map [OF prems(1) None 2 "2.IH"(2) [OF None this 2 _ _ _ zero_value_has_type prems(3)]] show ?thesis by simp
    next
      case (3 fs)
      then have "t \<noteq> GTime" by auto
      from into_struct [OF prems(1) None 3 prems(2) "2.IH"(3) [OF None this 3 _ _ _ prems(3)]] show ?thesis by simp
    qed (rule into_scalar [OF prems(1) None prems(2)])
  qed
next
  case (3 ms sf t fs m cur curs)
  show ?case
  proof (cases "field_codec sf")
    case None
    with 3 show ?thesis by (auto simp: bind_Inr_iff)
  next
    case (Some opts)
    show ?thesis
    proof (cases "fmlookup m (fo_Name opts)")
      case None
      with Some 3 show ?thesis by (auto simp: bind_Inr_iff)
    next
      case av: (Some av)
      with "3.prems"(1) Some obtain v vs' where "unmarshalValue ms t av cur opts = Inr v"
        "unmarshalFields ms fs m curs = Inr vs'" "vs = v # vs'"
        by (auto simp: bind_Inr_iff)
      with "3.IH"(3) [OF Some av] "3.IH"(4) [OF Some av] "3.prems"(2,3) show ?thesis by auto
    qed
  qed
qed auto

subsection \<open>Encoding and decoding\<close>

text \<open>Elements of set fields that come back: strings, integers and byte slices.\<close>

definition rt_bytes :: "goval \<Rightarrow> bool" where
  "rt_bytes v \<longleftrightarrow> (\<exists>bs. v = VSlice (Some (byte_values bs)))"

definition rt_set :: "gotype \<Rightarrow> goval \<Rightarrow> bool" where
  "rt_set e v \<longleftrightarrow>
     (if e = byteSliceType then rt_bytes v
      else (case strip e of
              GString \<Rightarrow> \<exists>s. v = VString s
            | GInt k \<Rightarrow> \<exists>i. v = VInt i \<and> int_in_range k i
            | _ \<Rightarrow> False))"

definition set_type :: "gotype \<Rightarrow> bool" where
  "set_type e \<longleftrightarrow> e = byteSliceType \<or> strip e = GString \<or> (\<exists>k. strip e = GInt k)"

definition rt_time :: "fieldOptions \<Rightarrow> gotime \<Rightarrow> bool" where
  "rt_time opts t \<longleftrightarrow>
     t_nsec t = 0 \<and>
     (if fo_UnixTime opts then - (2 ^ 63) \<le> t_sec t \<and> t_sec t < 2 ^ 63 else four_digit_year t)"

definition is_pointer :: "gotype \<Rightarrow> bool" where
  "is_pointer t \<longleftrightarrow> (\<exists>e. strip t = GPointer e)"

definition plain_named :: "gotype \<Rightarrow> bool" where
  "plain_named u \<longleftrightarrow> strip u \<noteq> GTime \<and> \<not> is_bytes_kind u"

text \<open>The names a struct is encoded under.\<close>

definition codec_names :: "(field_meta \<times> gotype) list \<Rightarrow> string list" where
  "codec_names fs = concat (map (\<lambda>(sf, t). case field_codec sf of None \<Rightarrow> [] | Some opts \<Rightarrow> [fo_Name opts]) fs)"

fun rt :: "gotype \<Rightarrow> fieldOptions \<Rightarrow> goval \<Rightarrow> bool" where
  "rt GString opts v \<longleftrightarrow> (\<exists>s. v = VString s)"
| "rt GBool opts v \<longleftrightarrow> (\<exists>b. v = VBool b)"
| "rt (GInt k) opts v \<longleftrightarrow> (\<exists>i. v = VInt i \<and> int_in_range k i)"
| "rt GTime opts v \<longleftrightarrow> (\<exists>t. v = VTime t \<and> rt_time opts t)"
| "rt (GSlice e) opts v \<longleftrightarrow>
     (if e = GInt KUint8 then rt_bytes v
      else strip e \<noteq> GInt KUint8 \<and>
        (case v of
           VSlice (Some vs) \<Rightarrow> if fo_Set opts then set_type e \<and> list_all (rt_set e) vs else list_all (rt e no_options) vs
         | _ \<Rightarrow> False))"
| "rt (GMap k e) opts v \<longleftrightarrow>
     k = GString \<and>
     (case v of
        VMap (Some kvs) \<Rightarrow> sorted (map fst kvs) \<and> distinct (map fst kvs) \<and> list_all (\<lambda>(_, w). rt e no_options w) kvs
      | _ \<Rightarrow> False)"
| "rt (GPointer e) opts v \<longleftrightarrow>
     \<not> is_pointer e \<and> (case v of VPtr None \<Rightarrow> True | VPtr (Some w) \<Rightarrow> rt e opts w | _ \<Rightarrow> False)"
| "rt (GStruct fs) opts v \<longleftrightarrow>
     distinct (codec_names fs) \<and>
     (case v of
        VStruct vs \<Rightarrow>
          list_all2 (\<lambda>(sf, t) w.
            case field_codec sf of
              None \<Rightarrow> w = zero_value t
            | Some fo \<Rightarrow>
                (case field_elem False t w of
                   None \<Rightarrow> True
                 | Some (_, e, x) \<Rightarrow> if fo_OmitEmpty fo \<and> isZero e x then w = zero_value t else rt t fo w)) fs vs
      | _ \<Rightarrow> False)"
| "rt (GNamed n u) opts v \<longleftrightarrow> plain_named u \<and> rt u opts v"
| "rt GFloat32 opts v \<longleftrightarrow> False"
| "rt GFloat64 opts v \<longleftrightarrow> False"
| "rt (GOther k) opts v \<longleftrightarrow> False"

text \<open>The parts.\<close>

lemma val_bytes_byte_values [simp]: "val_bytes (VSlice (Some (byte_values bs))) = bs"
  by (simp add: val_bytes_def byte_values_def val_int_def comp_def)

lemma unmarshalInt_show: "int_in_range k i \<Longrightarrow> unmarshalInt k (show_int i) = Inr (VInt i)"
proof -
  assume r: "int_in_range k i"
  have "is_signed k \<Longrightarrow> ParseInt (show_int i) = Some i"
    using r by (intro ParseInt_show_int) (cases k; simp add: int_in_range_def is_signed_def)+
  moreover have "\<not> is_signed k \<Longrightarrow> ParseUint (show_int i) = Some i"
    using r by (intro ParseUint_show_int) (cases k; simp add: int_in_range_def is_signed_def)+
  ultimately show ?thesis using r by (simp add: unmarshalInt_def)
qed

lemma unmarshal_ns_show: "strip e = GInt k \<Longrightarrow> int_in_range k i \<Longrightarrow> unmarshal_ns e (show_int i) = Inr (VInt i)"
  using unmarshalInt_show [of k i] wrap_ident [of k i]
  by (auto simp: unmarshalInt_def unmarshal_ns_def parse_failure_def split: if_splits option.splits)

lemma collect_map_Inr: "(\<And>x. x \<in> set xs \<Longrightarrow> f (g x) = Inr x) \<Longrightarrow> collect msg f (map g xs) = Inr xs"
  by (induction xs) auto

lemma set_roundtrip:
  assumes "list_all (rt_set e) vs" "set_type e"
  shows "\<exists>av. marshalSet e vs = Inr av \<and> av \<noteq> TypeNULL True \<and> unmarshalSet av e = Inr (VSlice (Some vs))"
proof -
  consider "e = byteSliceType" | "strip e = GString" | k where "strip e = GInt k"
    using assms(2) by (auto simp: set_type_def)
  then show ?thesis
  proof cases
    case 1
    with assms(1) have "map (\<lambda>b. VSlice (Some (byte_values b))) (map val_bytes vs) = vs"
      by (auto simp: list_all_iff rt_set_def rt_bytes_def intro!: map_idI)
    with 1 show ?thesis by (simp add: marshalSet_def unmarshalSet_def is_bytes_kind_def)
  next
    case 2
    with assms(1) have "map VString (map val_string vs) = vs"
      by (auto simp: list_all_iff rt_set_def val_string_def intro!: map_idI split: if_splits)
    with 2 show ?thesis by (simp add: marshalSet_def unmarshalSet_def)
  next
    case (3 k)
    then have "\<exists>i. v = VInt i \<and> int_in_range k i" if "v \<in> set vs" for v
      using that assms(1) by (auto simp: list_all_iff rt_set_def split: if_splits)
    then have "unmarshal_ns e (show_int (val_int v)) = Inr v" if "v \<in> set vs" for v
      using that unmarshal_ns_show [OF 3] by (fastforce simp: val_int_def)
    then have "collect [] (unmarshal_ns e) (map (\<lambda>v. show_int (val_int v)) vs) = Inr vs"
      by (rule collect_map_Inr)
    with 3 show ?thesis by (auto simp: marshalSet_def unmarshalSet_def)
  qed
qed

text \<open>What a round trip is, for one value and any addressability.\<close>

definition returns :: "gotype \<Rightarrow> fieldOptions \<Rightarrow> goval \<Rightarrow> bool" where
  "returns t opts v \<longleftrightarrow>
     (\<forall>addr. \<exists>av. marshalValue no_methods addr t v opts = Inr av \<and>
        (av = TypeNULL True \<longrightarrow> v = VPtr None) \<and>
        unmarshalValue no_methods t av (zero_value t) opts = Inr v)"

lemma unmarshaler_none [simp]: "unmarshaler no_methods t = None"
  by (simp add: unmarshaler_def no_methods_def split: gotype.splits)

lemma returns_into:
  "\<not> is_pointer t \<Longrightarrow> unmarshalValue no_methods t av cur opts = unmarshalInto no_methods t av cur opts"
  by (auto simp: unmarshalValue.simps is_pointer_def split: gotype.splits)

lemma elems_return:
  assumes "\<And>v. v \<in> set vs \<Longrightarrow> returns e no_options v"
  shows "\<exists>avs. marshalElems no_methods e vs = Inr avs \<and>
    collect msg (\<lambda>a. unmarshalValue no_methods e a (zero_value e) no_options) avs = Inr vs"
  using assms
proof (induction vs)
  case (Cons v vs)
  from Cons.IH Cons.prems obtain avs where tl: "marshalElems no_methods e vs = Inr avs"
    "collect msg (\<lambda>a. unmarshalValue no_methods e a (zero_value e) no_options) avs = Inr vs" by auto
  from Cons.prems [of v] obtain av where "marshalValue no_methods True e v no_options = Inr av"
    "unmarshalValue no_methods e av (zero_value e) no_options = Inr v"
    unfolding returns_def by (metis list.set_intros(1))
  with tl show ?case by (intro exI [of _ "av # avs"]) simp
qed simp

lemma entries_marshal:
  assumes "\<forall>kv \<in> set kvs. returns e no_options (snd kv)" "distinct (map fst kvs)"
  shows "\<exists>m'. marshalEntries no_methods e kvs m = Inr m' \<and> fmdom' m' = fmdom' m \<union> fst ` set kvs \<and>
    (\<forall>k. k \<notin> fst ` set kvs \<longrightarrow> fmlookup m' k = fmlookup m k) \<and>
    (\<forall>(k, v) \<in> set kvs. \<exists>av. fmlookup m' k = Some av \<and>
       unmarshalValue no_methods e av (zero_value e) no_options = Inr v)"
  using assms
proof (induction kvs arbitrary: m)
  case (Cons kv kvs)
  obtain k v where kv: "kv = (k, v)" by (cases kv)
  with Cons.prems(1) have "returns e no_options v" by simp
  then obtain av where av: "marshalValue no_methods False e v no_options = Inr av"
    "unmarshalValue no_methods e av (zero_value e) no_options = Inr v"
    unfolding returns_def by blast
  have "\<forall>kv \<in> set kvs. returns e no_options (snd kv)" "distinct (map fst kvs)"
    using Cons.prems by auto
  from Cons.IH [OF this, where m = "fmupd k av m"] obtain m' where m':
    "marshalEntries no_methods e kvs (fmupd k av m) = Inr m'" "fmdom' m' = fmdom' (fmupd k av m) \<union> fst ` set kvs"
    "\<forall>j. j \<notin> fst ` set kvs \<longrightarrow> fmlookup m' j = fmlookup (fmupd k av m) j"
    "\<forall>(k, v) \<in> set kvs. \<exists>av. fmlookup m' k = Some av \<and>
       unmarshalValue no_methods e av (zero_value e) no_options = Inr v"
    by blast
  have "k \<notin> fst ` set kvs" using Cons.prems(2) kv by auto
  with m'(3) have "fmlookup m' k = Some av" by simp
  with kv av m' show ?case by (intro exI [of _ m']) auto
qed simp

lemma entries_return:
  assumes "\<forall>kv \<in> set kvs. returns e no_options (snd kv)" "distinct (map fst kvs)" "sorted (map fst kvs)"
  shows "\<exists>m. marshalEntries no_methods e kvs fmempty = Inr m \<and>
    collect msg (\<lambda>key. bind (unmarshalValue no_methods e (the (fmlookup m key)) (zero_value e) no_options)
      (\<lambda>w. Inr (key, w))) (sorted_keys m) = Inr kvs"
proof -
  from entries_marshal [OF assms(1,2), where m = fmempty] obtain m where m: "marshalEntries no_methods e kvs fmempty = Inr m"
    "fmdom' m = fst ` set kvs"
    "\<forall>(k, v) \<in> set kvs. \<exists>av. fmlookup m k = Some av \<and>
       unmarshalValue no_methods e av (zero_value e) no_options = Inr v"
    by auto
  have "sorted_keys m = map fst kvs"
    by (rule sorted_distinct_set_unique) (use assms(2,3) m(2) in simp_all)
  moreover have "collect msg (\<lambda>key. bind (unmarshalValue no_methods e (the (fmlookup m key)) (zero_value e) no_options)
      (\<lambda>w. Inr (key, w))) (map fst kvs) = Inr kvs"
    by (rule collect_map_Inr) (use m(3) in fastforce)
  ultimately show ?thesis using m(1) by auto
qed

text \<open>The fields of a struct.\<close>

definition field_ok :: "field_meta \<times> gotype \<Rightarrow> goval \<Rightarrow> bool" where
  "field_ok f w =
     (case f of (sf, t) \<Rightarrow>
        (case field_codec sf of
           None \<Rightarrow> w = zero_value t
         | Some fo \<Rightarrow>
             (case field_elem False t w of
                None \<Rightarrow> True
              | Some (_, e, x) \<Rightarrow> if fo_OmitEmpty fo \<and> isZero e x then w = zero_value t else returns t fo w)))"

lemma field_elem_addr:
  "field_elem a t v = None \<longleftrightarrow> field_elem b t v = None"
  "field_elem a t v = Some (x, e, w) \<Longrightarrow> \<exists>y. field_elem b t v = Some (y, e, w)"
  by (auto simp: field_elem_def split: gotype.splits goval.splits)

lemma field_elem_None: "field_elem a t v = None \<Longrightarrow> v = VPtr None \<and> zero_value t = VPtr None"
  by (auto simp: field_elem_def zero_value_strip [of t] split: gotype.splits goval.splits)

text \<open>Encoding the element of a field is encoding the field.\<close>

lemma marshal_field_elem:
  assumes "field_elem a t v = Some (a', e, w)"
  shows "marshalValue no_methods a' e w opts = marshalValue no_methods a t v opts"
proof (cases "\<exists>x y. strip t = GPointer x \<and> v = VPtr (Some y)")
  case True
  with assms show ?thesis
    by (auto simp: field_elem_def marshalValue.simps [of no_methods a t "VPtr (Some _)"])
next
  case False
  with assms show ?thesis
    by (auto simp: field_elem_def split: gotype.splits goval.splits option.splits)
qed

lemma codec_names_Cons:
  "codec_names ((sf, t) # fs) = (case field_codec sf of None \<Rightarrow> [] | Some opts \<Rightarrow> [fo_Name opts]) @ codec_names fs"
  by (simp add: codec_names_def)

text \<open>One field: what encoding it adds to the map is what decoding it reads.\<close>

lemma field_encoded:
  assumes "field_ok (sf, t) v" "field_codec sf = Some fo" "fmlookup m (fo_Name fo) = None"
  obtains m1 where "marshalFields msg no_methods addr ((sf, t) # fs) (v # vs) m = marshalFields msg no_methods addr fs vs m1"
    and "\<And>n. n \<noteq> fo_Name fo \<Longrightarrow> fmlookup m1 n = fmlookup m n"
    and "case fmlookup m1 (fo_Name fo) of
      None \<Rightarrow> v = zero_value t | Some av \<Rightarrow> unmarshalValue no_methods t av (zero_value t) fo = Inr v"
proof (cases "\<exists>a e w. field_elem addr t v = Some (a, e, w) \<and> \<not> (fo_OmitEmpty fo \<and> isZero e w)")
  case True
  then obtain a e w where w: "field_elem addr t v = Some (a, e, w)" "\<not> (fo_OmitEmpty fo \<and> isZero e w)" by blast
  from field_elem_addr(2) [OF w(1)] obtain y where "field_elem False t v = Some (y, e, w)" by blast
  with assms(1,2) w(2) have "returns t fo v" by (auto simp: field_ok_def)
  then obtain av where av: "marshalValue no_methods addr t v fo = Inr av"
    "unmarshalValue no_methods t av (zero_value t) fo = Inr v"
    unfolding returns_def by blast
  show ?thesis
    by (rule that [of "fmupd (fo_Name fo) av m"])
      (use av w assms(2) marshal_field_elem [OF w(1), of fo] in auto)
next
  case False
  have "v = zero_value t"
  proof (cases "field_elem addr t v")
    case None
    with field_elem_None [of addr t v] show ?thesis by simp
  next
    case (Some p)
    then obtain a e w where w: "field_elem addr t v = Some (a, e, w)" by (cases p) auto
    from field_elem_addr(2) [OF w] obtain y where "field_elem False t v = Some (y, e, w)" by blast
    with assms(1,2) False w show ?thesis by (auto simp: field_ok_def)
  qed
  with assms(2,3) False that [of m] show ?thesis by (auto split: option.splits)
qed

lemma fields_return:
  assumes "list_all2 field_ok fs vs" "distinct (codec_names fs)" "\<forall>n \<in> set (codec_names fs). fmlookup m n = None"
  shows "\<exists>m'. marshalFields msg no_methods addr fs vs m = Inr m' \<and>
    (\<forall>n. n \<notin> set (codec_names fs) \<longrightarrow> fmlookup m' n = fmlookup m n) \<and>
    (\<forall>m''. (\<forall>n \<in> set (codec_names fs). fmlookup m'' n = fmlookup m' n) \<longrightarrow>
       unmarshalFields no_methods fs m'' (map (\<lambda>(sf, t). zero_value t) fs) = Inr vs)"
  using assms
proof (induction fs vs arbitrary: m rule: list_all2_induct)
  case (Cons f fs v vs)
  obtain sf t where f: "f = (sf, t)" by (cases f)
  note ok = Cons.hyps(1) [unfolded f]
  show ?case
  proof (cases "field_codec sf")
    case None
    with ok have v: "v = zero_value t" by (simp add: field_ok_def)
    have "distinct (codec_names fs)" "\<forall>n \<in> set (codec_names fs). fmlookup m n = None"
      using Cons.prems None f by (auto simp: codec_names_Cons)
    from Cons.IH [OF this] v None f show ?thesis by (auto simp: codec_names_Cons)
  next
    case (Some fo)
    have names: "codec_names (f # fs) = fo_Name fo # codec_names fs" using Some f by (simp add: codec_names_Cons)
    with Cons.prems have pre: "distinct (codec_names fs)" "fo_Name fo \<notin> set (codec_names fs)" "fmlookup m (fo_Name fo) = None"
      "\<forall>n \<in> set (codec_names fs). fmlookup m n = None"
      by auto
    from field_encoded [OF ok Some pre(3), of msg addr fs vs] obtain m1 where
      step: "marshalFields msg no_methods addr (f # fs) (v # vs) m = marshalFields msg no_methods addr fs vs m1"
      and frame: "\<And>n. n \<noteq> fo_Name fo \<Longrightarrow> fmlookup m1 n = fmlookup m n"
      and read: "case fmlookup m1 (fo_Name fo) of
        None \<Rightarrow> v = zero_value t | Some av \<Rightarrow> unmarshalValue no_methods t av (zero_value t) fo = Inr v"
      unfolding f by blast
    have "\<forall>n \<in> set (codec_names fs). fmlookup m1 n = None" using pre(2,4) frame by metis
    from Cons.IH [OF pre(1) this] obtain m' where m': "marshalFields msg no_methods addr fs vs m1 = Inr m'"
      "\<forall>n. n \<notin> set (codec_names fs) \<longrightarrow> fmlookup m' n = fmlookup m1 n"
      "\<forall>m''. (\<forall>n \<in> set (codec_names fs). fmlookup m'' n = fmlookup m' n) \<longrightarrow>
         unmarshalFields no_methods fs m'' (map (\<lambda>(sf, t). zero_value t) fs) = Inr vs" by blast
    have "unmarshalFields no_methods (f # fs) m'' (map (\<lambda>(sf, t). zero_value t) (f # fs)) = Inr (v # vs)"
      if "\<forall>n \<in> set (codec_names (f # fs)). fmlookup m'' n = fmlookup m' n" for m''
      using that m'(2,3) read f Some names pre(2) by (auto split: option.splits)
    with step m'(1,2) frame names show ?thesis by (intro exI [of _ m']) auto
  qed
qed (simp add: codec_names_def)

lemma rt_not_pointer: "\<not> is_pointer t \<Longrightarrow> rt t opts v \<Longrightarrow> v \<noteq> VPtr None"
  by (induction t opts v rule: rt.induct)
    (auto simp: is_pointer_def rt_bytes_def split: if_splits goval.splits option.splits)

lemma bytes_return: "rt_bytes v \<Longrightarrow> returns byteSliceType opts v"
  by (auto simp: returns_def rt_bytes_def returns_into is_pointer_def unmarshalInto.simps marshalValue.simps)

text \<open>A named type is encoded and decoded as its underlying type, methods and special types aside.\<close>

lemma named_marshal:
  assumes "plain_named u" "\<forall>ti. v \<noteq> VTime ti"
  shows "marshalValue no_methods addr (GNamed n u) v opts = marshalValue no_methods addr u v opts"
proof -
  have "u \<noteq> byteSliceType" using assms(1) by (auto simp: plain_named_def is_bytes_kind_def)
  with assms(2) show ?thesis
    by (cases v) (auto simp: marshalValue.simps fields_of_def)
qed

lemma named_unmarshal:
  assumes "plain_named u"
  shows "unmarshalValue no_methods (GNamed n u) av cur opts = unmarshalValue no_methods u av cur opts"
proof -
  have "u \<noteq> GTime" using assms by (auto simp: plain_named_def)
  then have "unmarshalInto no_methods (GNamed n u) av cur opts = unmarshalInto no_methods u av cur opts"
    by (simp add: unmarshalInto.simps)
  then show ?thesis by (simp add: unmarshalValue.simps split: gotype.splits)
qed

lemma rt_time_strip: "rt t opts (VTime ti) \<Longrightarrow> strip t = GTime"
  by (induction t opts "VTime ti" rule: rt.induct) (auto simp: rt_bytes_def split: if_splits)

lemma time_return: "rt_time opts t \<Longrightarrow> unmarshalTime (marshalTime t opts) opts = Inr (VTime t)"
  by (cases t) (auto simp: rt_time_def marshalTime_def unmarshalTime_def ParseInt_show_int parse_format_RFC3339
      split: if_splits)

lemma marshalTime_not_null [simp]: "marshalTime t opts \<noteq> TypeNULL b"
  by (simp add: marshalTime_def)

lemma field_ok_intro:
  assumes "case field_codec sf of
      None \<Rightarrow> w = zero_value t
    | Some fo \<Rightarrow>
        (case field_elem False t w of
           None \<Rightarrow> True
         | Some (_, e, x) \<Rightarrow> if fo_OmitEmpty fo \<and> isZero e x then w = zero_value t else rt t fo w)"
    and "\<And>fo z e x. field_codec sf = Some fo \<Longrightarrow> field_elem False t w = Some (z, e, x) \<Longrightarrow>
      \<not> (fo_OmitEmpty fo \<and> isZero e x) \<Longrightarrow> rt t fo w \<Longrightarrow> returns t fo w"
  shows "field_ok (sf, t) w"
proof (cases "field_codec sf")
  case (Some fo)
  show ?thesis
  proof (cases "field_elem False t w")
    case (Some r)
    obtain z e x where "r = (z, e, x)" by (cases r)
    with Some \<open>field_codec sf = Some fo\<close> assms(1) assms(2) [of fo z e x] show ?thesis
      by (auto simp: field_ok_def)
  qed (simp add: field_ok_def Some)
qed (use assms(1) in \<open>simp add: field_ok_def\<close>)

lemma struct_fields_ok:
  assumes "rt (GStruct fs) opts (VStruct vs)"
    and ret: "\<And>sf t w fo z e x. (sf, t) \<in> set fs \<Longrightarrow> w \<in> set vs \<Longrightarrow> field_codec sf = Some fo \<Longrightarrow>
      field_elem False t w = Some (z, e, x) \<Longrightarrow> \<not> (fo_OmitEmpty fo \<and> isZero e x) \<Longrightarrow> rt t fo w \<Longrightarrow>
      returns t fo w"
  shows "list_all2 field_ok fs vs"
proof -
  from assms(1) have l: "list_all2 (\<lambda>(sf, t) w.
      case field_codec sf of
        None \<Rightarrow> w = zero_value t
      | Some fo \<Rightarrow>
          (case field_elem False t w of
             None \<Rightarrow> True
           | Some (_, e, x) \<Rightarrow> if fo_OmitEmpty fo \<and> isZero e x then w = zero_value t else rt t fo w)) fs vs"
    by simp
  from l show ?thesis
  proof (rule list.rel_mono_strong)
    fix f w
    assume f: "f \<in> set fs" and w: "w \<in> set vs"
      and "(\<lambda>(sf, t) w.
      case field_codec sf of
        None \<Rightarrow> w = zero_value t
      | Some fo \<Rightarrow>
          (case field_elem False t w of
             None \<Rightarrow> True
           | Some (_, e, x) \<Rightarrow> if fo_OmitEmpty fo \<and> isZero e x then w = zero_value t else rt t fo w)) f w"
    moreover obtain sf t where "f = (sf, t)" by (cases f)
    ultimately show "field_ok f w"
      by (simp only: prod.case) (rule field_ok_intro, assumption, rule ret, simp_all)
  qed
qed

lemma slice_return:
  assumes "rt (GSlice e) opts v"
    and elems: "\<And>vs w. e \<noteq> GInt KUint8 \<Longrightarrow> v = VSlice (Some vs) \<Longrightarrow> \<not> fo_Set opts \<Longrightarrow> w \<in> set vs \<Longrightarrow>
      rt e no_options w \<Longrightarrow> returns e no_options w"
  shows "returns (GSlice e) opts v"
proof (cases "e = GInt KUint8")
  case True
  with assms(1) bytes_return show ?thesis by simp
next
  case False
  with assms(1) obtain vs where vs: "v = VSlice (Some vs)" "strip e \<noteq> GInt KUint8"
    "if fo_Set opts then set_type e \<and> list_all (rt_set e) vs else list_all (rt e no_options) vs"
    by (auto split: goval.splits option.splits if_splits)
  show ?thesis
  proof (cases "fo_Set opts")
    case True
    with vs set_roundtrip [of e vs] False show ?thesis
      by (auto simp: returns_def returns_into is_pointer_def unmarshalInto.simps marshalValue.simps)
  next
    case no_set: False
    with vs have all: "\<And>w. w \<in> set vs \<Longrightarrow> returns e no_options w"
      using elems [OF False vs(1) no_set] by (auto simp: list_all_iff)
    from elems_return [of vs e "''index''", OF all] vs False no_set show ?thesis
      by (auto simp: returns_def returns_into is_pointer_def unmarshalInto.simps marshalValue.simps)
  qed
qed

lemma map_return:
  assumes "rt (GMap k e) opts v"
    and elems: "\<And>kvs kv. v = VMap (Some kvs) \<Longrightarrow> kv \<in> set kvs \<Longrightarrow> rt e no_options (snd kv) \<Longrightarrow> returns e no_options (snd kv)"
  shows "returns (GMap k e) opts v"
proof -
  from assms(1) obtain kvs where kvs: "v = VMap (Some kvs)" "k = GString" "sorted (map fst kvs)" "distinct (map fst kvs)"
    "list_all (\<lambda>(_, w). rt e no_options w) kvs"
    by (auto split: goval.splits option.splits)
  have "\<forall>kv \<in> set kvs. returns e no_options (snd kv)"
    using elems [OF kvs(1)] kvs(5) by (fastforce simp: list_all_iff)
  from entries_return [OF this kvs(4,3), of "''map key''"] kvs(1,2) show ?thesis
    by (auto simp: returns_def returns_into is_pointer_def unmarshalInto.simps marshalValue.simps)
qed

lemma pointer_return:
  assumes "rt (GPointer e) opts v"
    and elem: "\<And>w. v = VPtr (Some w) \<Longrightarrow> \<not> is_pointer e \<Longrightarrow> rt e opts w \<Longrightarrow> returns e opts w"
  shows "returns (GPointer e) opts v"
proof (cases "v = VPtr None")
  case True
  then show ?thesis by (auto simp: returns_def unmarshalValue.simps marshalValue.simps)
next
  case False
  with assms(1) obtain w where w: "v = VPtr (Some w)" "\<not> is_pointer e" "rt e opts w"
    by (auto split: goval.splits option.splits)
  from rt_not_pointer [OF w(2,3)] elem [OF w] w(2) show ?thesis
    by (fastforce simp: w(1) returns_def returns_into pointee_def unmarshalValue.simps [of _ "GPointer e"]
        marshalValue.simps [of _ _ "GPointer e"])
qed

lemma struct_return:
  assumes "list_all2 field_ok fs vs" "distinct (codec_names fs)"
  shows "returns (GStruct fs) opts (VStruct vs)"
  unfolding returns_def
proof
  fix addr
  from fields_return [OF assms, of fmempty "''field''" addr] obtain it where
    it: "marshalFields ''field'' no_methods addr fs vs fmempty = Inr it"
    "unmarshalFields no_methods fs it (map (\<lambda>(sf, t). zero_value t) fs) = Inr vs" by auto
  show "\<exists>av. marshalValue no_methods addr (GStruct fs) (VStruct vs) opts = Inr av \<and>
      (av = TypeNULL True \<longrightarrow> VStruct vs = VPtr None) \<and>
      unmarshalValue no_methods (GStruct fs) av (zero_value (GStruct fs)) opts = Inr (VStruct vs)"
    by (auto simp: it returns_into is_pointer_def unmarshalInto.simps marshalValue.simps
        fields_of_def struct_values_def)
qed

lemma named_return:
  assumes "plain_named u" "returns u opts v" "rt u opts v"
  shows "returns (GNamed n u) opts v"
proof -
  have "\<forall>ti. v \<noteq> VTime ti" using rt_time_strip assms(1,3) by (auto simp: plain_named_def)
  with assms named_marshal [of u v] named_unmarshal [of u] show ?thesis by (simp add: returns_def)
qed

theorem rt_returns: "rt t opts v \<Longrightarrow> returns t opts v"
proof (induction t opts v rule: rt.induct)
  case (3 k opts v)
  then show ?case
    by (auto simp: returns_def returns_into is_pointer_def unmarshalInto.simps marshalValue.simps unmarshalInt_show)
next
  case (4 opts v)
  then show ?case
    by (auto simp: returns_def returns_into is_pointer_def unmarshalInto.simps marshalValue.simps time_return)
next
  case (5 e opts v)
  from 5(2) show ?case by (rule slice_return) (rule 5(1) [OF _ _ refl])
next
  case (6 k e opts v)
  from 6(2) show ?case by (rule map_return) (use 6(1) in fastforce)
next
  case (7 e opts v)
  from 7(2) show ?case by (rule pointer_return) (use 7(1) in blast)
next
  case (8 fs opts v)
  then obtain vs where vs: "v = VStruct vs" "distinct (codec_names fs)" by (auto split: goval.splits)
  have "list_all2 field_ok fs vs"
  proof (rule struct_fields_ok)
    show "rt (GStruct fs) opts (VStruct vs)" using 8(2) vs(1) by simp
    show "returns t fo w"
      if "(sf, t) \<in> set fs" "w \<in> set vs" "field_codec sf = Some fo" "field_elem False t w = Some (z, e, x)"
        "\<not> (fo_OmitEmpty fo \<and> isZero e x)" "rt t fo w" for sf t w fo z e x
      by (rule 8(1) [OF vs(1) that(1,2) refl that(3,4) refl refl that(5,6)])
  qed
  from struct_return [OF this vs(2)] vs(1) show ?case by simp
next
  case (9 n u opts v)
  then show ?case by (intro named_return) auto
qed (auto simp: returns_def returns_into is_pointer_def unmarshalInto.simps marshalValue.simps)

lemma rt_strip: "rt t opts v \<Longrightarrow> rt (strip t) opts v"
  by (induction t opts v rule: rt.induct) auto

theorem marshal_unmarshal:
  assumes "rt t no_options (VStruct vs)"
  shows "\<exists>it. Marshal no_methods (Some (t, VStruct vs)) = Inr it \<and>
    Unmarshal no_methods it t (zero_value t) = Inr (VStruct vs)"
proof -
  from rt_strip [OF assms] obtain fs where fs: "strip t = GStruct fs" "rt (GStruct fs) no_options (VStruct vs)"
    by (cases "strip t") (auto simp: rt_bytes_def split: if_splits)
  have "list_all2 field_ok fs vs"
    using rt_returns by (intro struct_fields_ok [OF fs(2)]) blast
  moreover have "distinct (codec_names fs)" using fs(2) by simp
  ultimately have ok: "list_all2 field_ok fs vs" "distinct (codec_names fs)" by simp_all
  from fields_return [OF ok, of fmempty "''dynago.Marshal: field''" False] obtain it where
    "marshalFields ''dynago.Marshal: field'' no_methods False fs vs fmempty = Inr it"
    "unmarshalFields no_methods fs it (map (\<lambda>(sf, t). zero_value t) fs) = Inr vs" by auto
  then show ?thesis
    by (simp add: Marshal_def Unmarshal_def fields_of_def fs(1) struct_values_def zero_value_strip [of t])
qed

subsection \<open>Errors of the encoder\<close>

lemma IsValidation_marshal_error [simp]: "marshal_error msg = Inl e \<Longrightarrow> IsValidation e"
  by (auto simp: marshal_error_def IsValidation_def)

lemma IsValidation_ErrorfW [simp]: "IsValidation (ErrorfW m e) \<longleftrightarrow> IsValidation e"
  by (simp add: IsValidation_def)

lemma on_error_Inl:
  "on_error f r = Inl e \<longleftrightarrow> (\<exists>e0. r = Inl e0 \<and> e = (case e0 of GoPanic m \<Rightarrow> GoPanic m | _ \<Rightarrow> f e0))"
  by (auto simp: on_error_def split: sum.splits)

lemma IsValidation_wrapped [simp]:
  "IsValidation (case e of GoPanic m \<Rightarrow> GoPanic m | _ \<Rightarrow> ErrorfW msg e) \<longleftrightarrow> IsValidation e"
  by (cases e) simp_all

text \<open>Where no type has methods of its own, every error of the encoder is a validation error.\<close>

lemma marshal_errors:
  assumes "ms = no_methods"
  shows "marshalValue ms a t v opts = Inl e \<Longrightarrow> IsValidation e"
    and "marshalElems ms t vs = Inl e \<Longrightarrow> IsValidation e"
    and "marshalEntries ms t kvs m = Inl e \<Longrightarrow> IsValidation e"
    and "marshalFields msg ms a fs vs m = Inl e \<Longrightarrow> IsValidation e"
  using assms
proof (induction ms a t v opts and ms t vs and ms t kvs m and msg ms a fs vs m
    arbitrary: e and e and e and e rule: marshalValue_marshalElems_marshalEntries_marshalFields.induct)
  case (1 ms addr t v opts)
  then show ?case
    by (auto simp: marshalValue.simps [of no_methods addr t v] bind_Inl_iff marshalSet_def split: goval.splits option.splits gotype.splits if_splits)
next
  case (6 msg ms addr sf t fs v vs m)
  then show ?case
    by (auto simp: bind_Inl_iff on_error_Inl split: option.splits if_splits)
qed (auto simp: bind_Inl_iff)

lemma deref_errors: "deref_value a t v = Inl e \<Longrightarrow> IsValidation e"
  by (induction a t v rule: deref_value.induct) (auto split: gotype.splits option.splits)

end
