(* ===== verification/Examples.thy ===== *)
theory Examples
  imports MemWrite CondEquiv RoundTrip
begin

text \<open>
  Concrete tables, items and requests at which the witnesses of the root theory evaluate the operations: a
  table with a hash and a range key and one index on the attribute \<open>G\<close>.
\<close>

definition ex_schema :: TableSchema where
  "ex_schema = \<lparr>HashKey = \<lparr>KeyDef_Name = ''PK'', KeyDef_Type = StringKeyType\<rparr>,
     RangeKey = Some \<lparr>KeyDef_Name = ''SK'', KeyDef_Type = StringKeyType\<rparr>,
     GSIs = [\<lparr>GSI_Name = ''by_g'', GSI_HashKey = \<lparr>KeyDef_Name = ''G'', KeyDef_Type = StringKeyType\<rparr>,
              GSI_RangeKey = None\<rparr>]\<rparr>"

definition ex_key :: "string \<Rightarrow> item" where
  "ex_key sk = fmap_of_list [(''PK'', TypeS ''a''), (''SK'', TypeS sk)]"

definition ex_item :: "string \<Rightarrow> string \<Rightarrow> item" where
  "ex_item sk g = fmap_of_list [(''PK'', TypeS ''a''), (''SK'', TypeS sk), (''G'', TypeS g)]"

definition ex_put :: "string \<Rightarrow> string \<Rightarrow> PutItemRequest" where
  "ex_put sk g = \<lparr>pi_TableName = ''t'', pi_Item = ex_item sk g, pi_ConditionExpression = [],
     pi_Names = fmempty, pi_Values = fmempty, pi_ReturnValues = []\<rparr>"

definition ex_put_new :: "string \<Rightarrow> string \<Rightarrow> PutItemRequest" where
  "ex_put_new sk g = (ex_put sk g)\<lparr>pi_ConditionExpression := ''attribute_not_exists(#PK)'',
     pi_Names := fmap_of_list [(''#PK'', ''PK'')]\<rparr>"

definition ex_get :: "string \<Rightarrow> GetItemRequest" where
  "ex_get sk = \<lparr>gi_TableName = ''t'', gi_Key = ex_key sk, gi_ConsistentRead = False,
     gi_ProjectionExpression = [], gi_Names = fmempty\<rparr>"

definition ex_delete :: "string \<Rightarrow> DeleteItemRequest" where
  "ex_delete sk = \<lparr>di_TableName = ''t'', di_Key = ex_key sk, di_ConditionExpression = [],
     di_Names = fmempty, di_Values = fmempty, di_ReturnValues = []\<rparr>"

definition ex_update :: "string \<Rightarrow> string \<Rightarrow> UpdateItemRequest" where
  "ex_update sk expr = \<lparr>ui_TableName = ''t'', ui_Key = ex_key sk, ui_UpdateExpression = expr,
     ui_ConditionExpression = [], ui_Names = fmap_of_list [(''#H'', ''H''), (''#SK'', ''SK'')],
     ui_Values = fmap_of_list [('':v0'', TypeS ''new'')], ui_ReturnValues = ''ALL_NEW''\<rparr>"

definition ex_query :: "int32 \<Rightarrow> QueryRequest" where
  "ex_query n = \<lparr>q_TableName = ''t'', q_IndexName = [], q_KeyConditionExpression = ''#PK = :pk0'',
     q_FilterExpression = [], q_ProjectionExpression = [], q_Names = fmap_of_list [(''#PK'', ''PK'')],
     q_Values = fmap_of_list [('':pk0'', TypeS ''a'')], q_Limit = n, q_ScanIndexForward = None,
     q_ExclusiveStartKey = fmempty, q_ConsistentRead = False\<rparr>"

definition ex_scan :: "int32 \<Rightarrow> ScanRequest" where
  "ex_scan n = \<lparr>s_TableName = ''t'', s_IndexName = [], s_FilterExpression = [], s_ProjectionExpression = [],
     s_Names = fmempty, s_Values = fmempty, s_Limit = n, s_ExclusiveStartKey = fmempty, s_ConsistentRead = False\<rparr>"

definition ex_tx_put :: "string \<Rightarrow> string \<Rightarrow> TransactWriteItem" where
  "ex_tx_put sk g = \<lparr>tw_Put = Some \<lparr>tp_TableName = ''t'', tp_Item = ex_item sk g,
       tp_ConditionExpression = ''attribute_not_exists(#PK)'', tp_Names = fmap_of_list [(''#PK'', ''PK'')],
       tp_Values = fmempty\<rparr>,
     tw_Delete = None, tw_Update = None, tw_ConditionCheck = None\<rparr>"

definition ex_run :: "MemoryBackend result \<Rightarrow> MemoryBackend" where
  "ex_run r = (case r of Inr m \<Rightarrow> m | Inl _ \<Rightarrow> fmempty)"

definition ex_db0 :: MemoryBackend where
  "ex_db0 = ex_run (CreateTable ''t'' ex_schema New)"

definition ex_db1 :: MemoryBackend where
  "ex_db1 = ex_run (PutItem (ex_put ''1'' ''x'') ex_db0)"

definition ex_db2 :: MemoryBackend where
  "ex_db2 = ex_run (PutItem (ex_put ''2'' ''y'') ex_db1)"

definition ex_td :: "MemoryBackend \<Rightarrow> tableData" where
  "ex_td m = the (fmlookup m ''t'')"

lemma ex_create: "CreateTable ''t'' ex_schema New = Inr ex_db0"
  by code_simp

lemma ex_put1: "PutItem (ex_put ''1'' ''x'') ex_db0 = Inr ex_db1"
  by code_simp

lemma ex_put2: "PutItem (ex_put ''2'' ''y'') ex_db1 = Inr ex_db2"
  by code_simp

lemma ex_reachable: "reachable ex_db0" "reachable ex_db1" "reachable ex_db2"
proof -
  show 0: "reachable ex_db0" by (rule reachable.step [OF reachable.new backend_step.create [OF ex_create]])
  show 1: "reachable ex_db1" by (rule reachable.step [OF 0 backend_step.put [OF ex_put1]])
  show "reachable ex_db2" by (rule reachable.step [OF 1 backend_step.put [OF ex_put2]])
qed

lemma ex_tables: "fmlookup ex_db0 ''t'' = Some (ex_td ex_db0)" "fmlookup ex_db1 ''t'' = Some (ex_td ex_db1)"
  "fmlookup ex_db2 ''t'' = Some (ex_td ex_db2)"
  by code_simp+

text \<open>Completeness and uniqueness of an index, over the keys of the table.\<close>

lemma gsi_completeI:
  assumes "\<forall>k \<in> set (scan_refs st). case gsi_key (gsi_schema g) (the (kget k st)) of
      None \<Rightarrow> True | Some gk \<Rightarrow> kget gk (gsi_items g) = kget k st"
  shows "gsi_complete st g"
  unfolding gsi_complete_def
proof (intro allI impI, elim conjE)
  fix k it gk
  assume "kget k st = Some it" "gsi_key (gsi_schema g) it = Some gk"
  then show "kget gk (gsi_items g) = Some it"
    using bspec [OF assms, of k] by (simp add: set_scan_refs)
qed

lemma gsi_uniqueI:
  assumes "\<forall>k \<in> set (scan_refs st). \<forall>j \<in> set (scan_refs st).
      case gsi_key g (the (kget k st)) of
        None \<Rightarrow> True | Some gk \<Rightarrow> gsi_key g (the (kget j st)) = Some gk \<longrightarrow> k = j"
  shows "gsi_unique st g"
  unfolding gsi_unique_def
proof (intro allI impI, elim conjE)
  fix k j it jt gk
  assume "kget k st = Some it" "kget j st = Some jt" "gsi_key g it = Some gk" "gsi_key g jt = Some gk"
  then show "k = j"
    using bspec [OF bspec [OF assms, of k], of j] by (simp add: set_scan_refs)
qed

subsection \<open>A struct type\<close>

text \<open>A Go struct type with the tags of \<open>codec.go\<close> and a value of it.\<close>

definition ex_field :: "string \<Rightarrow> string \<Rightarrow> field_meta" where
  "ex_field name tag = \<lparr>fm_Name = name, fm_exported = True, fm_tag = tag\<rparr>"

definition ex_type :: gotype where
  "ex_type = GNamed ''User'' (GStruct
     [(ex_field ''ID'' ''id,hash'', GString), (ex_field ''Age'' ''age,omitempty'', GInt KInt32),
      (ex_field ''Tags'' ''tags,set'', GSlice GString), (ex_field ''Nick'' '''', GPointer GString),
      (ex_field ''Since'' ''since,unixtime'', GTime), (ex_field ''Data'' '''', GMap GString (GSlice (GInt KUint8)))])"

definition ex_value :: goval where
  "ex_value = VStruct [VString ''u1'', VInt 0, VSlice (Some [VString ''a'', VString ''b'']),
     VPtr (Some (VString ''x'')), VTime \<lparr>t_sec = 1700000000, t_nsec = 0\<rparr>,
     VMap (Some [(''k'', VSlice (Some (byte_values ''hi'')))])]"

definition ex_wire :: item where
  "ex_wire = fmap_of_list
     [(''id'', TypeS ''u1''), (''tags'', TypeSS [''a'', ''b'']), (''Nick'', TypeS ''x''), (''since'', TypeN ''1700000000''),
      (''Data'', TypeM (fmap_of_list [(''k'', TypeB ''hi'')]))]"

lemma ex_codecs:
  "field_codec (ex_field ''ID'' ''id,hash'') = Some (no_options\<lparr>fo_Name := ''id'', fo_Hash := True\<rparr>)"
  "field_codec (ex_field ''Age'' ''age,omitempty'') = Some (no_options\<lparr>fo_Name := ''age'', fo_OmitEmpty := True\<rparr>)"
  "field_codec (ex_field ''Tags'' ''tags,set'') = Some (no_options\<lparr>fo_Name := ''tags'', fo_Set := True\<rparr>)"
  "field_codec (ex_field ''Nick'' []) = Some (no_options\<lparr>fo_Name := ''Nick''\<rparr>)"
  "field_codec (ex_field ''Since'' ''since,unixtime'') = Some (no_options\<lparr>fo_Name := ''since'', fo_UnixTime := True\<rparr>)"
  "field_codec (ex_field ''Data'' []) = Some (no_options\<lparr>fo_Name := ''Data''\<rparr>)"
  by code_simp+

lemma ex_rt: "rt ex_type no_options ex_value"
  unfolding ex_type_def ex_value_def
  by (simp add: ex_codecs codec_names_def plain_named_def is_bytes_kind_def field_elem_def isZero_def no_options_def
      set_type_def rt_set_def rt_bytes_def rt_time_def is_pointer_def) blast

lemma ex_marshal: "Marshal no_methods (Some (ex_type, ex_value)) = Inr ex_wire"
  by code_simp

end
