(* ===== verification/Backend.thy ===== *)
theory Backend
  imports MemWrite
begin

text \<open>
  The \<open>Backend\<close> interface of \<open>backend.go\<close>, the in-memory backend as one of its implementations, and the
  wrappers that are backends themselves: the middleware of \<open>middleware.go\<close> and the logging backend of
  \<open>logging.go\<close>.

  An operation is a function of its request and of the state of the backend, which it returns with its
  result.  The requests of the batch operations are listed in the order the map is visited in, as in
  \<open>MemRead\<close> and \<open>MemWrite\<close>.  The locale \<open>item_backend\<close> is the part of the contract the client relies on for single items; the in-memory backend
  satisfies it by the refinement lemmas of \<open>MemWrite\<close>.
\<close>

type_synonym ('s, 'a) op = "'s \<Rightarrow> 'a result \<times> 's"

text \<open>Sequencing: the first error ends the sequence and the state reached stays.\<close>

definition sbind :: "('s, 'a) op \<Rightarrow> ('a \<Rightarrow> ('s, 'b) op) \<Rightarrow> ('s, 'b) op" where
  "sbind m f s = (case m s of (Inl e, s') \<Rightarrow> (Inl e, s') | (Inr x, s') \<Rightarrow> f x s')"

definition sreturn :: "'a result \<Rightarrow> ('s, 'a) op" where
  "sreturn r s = (r, s)"

lemma sreturn_apply [simp]: "sreturn r s = (r, s)"
  by (simp add: sreturn_def)

lemma sbind_apply: "sbind m f s = (let (r, s') = m s in case r of Inl e \<Rightarrow> (Inl e, s') | Inr x \<Rightarrow> f x s')"
  by (simp add: sbind_def split: prod.split sum.split)

lemma sbind_sreturn [simp]: "sbind (sreturn (Inr x)) f = f x" "sbind (sreturn (Inl e)) f = sreturn (Inl e)"
  by (auto simp: fun_eq_iff sbind_def)

lemma sbind_Inr: "m s = (Inr x, s') \<Longrightarrow> sbind m f s = f x s'"
  by (simp add: sbind_def)

lemma sbind_Inl: "m s = (Inl e, s') \<Longrightarrow> sbind m f s = (Inl e, s')"
  by (simp add: sbind_def)

lemma sbind_Inr_iff: "sbind m f s = (Inr y, t) \<longleftrightarrow> (\<exists>x s'. m s = (Inr x, s') \<and> f x s' = (Inr y, t))"
  by (auto simp: sbind_def split: prod.splits sum.splits)

lemma sbind_cong [fundef_cong]:
  "m s = m' s \<Longrightarrow> (\<And>x s'. m' s = (Inr x, s') \<Longrightarrow> f x s' = g x s') \<Longrightarrow> s = t \<Longrightarrow> sbind m f s = sbind m' g t"
  by (auto simp: sbind_def split: prod.splits sum.splits)

subsection \<open>The interface\<close>

record BatchGetItemResponse =
  bg_Responses :: "(string, item list) fmap"
  bg_UnprocessedKeys :: "(string, KeysAndProjection) fmap"

record BatchWriteItemResponse =
  bw_UnprocessedItems :: "(string, WriteRequest list) fmap"

record 's Backend =
  be_GetItem :: "GetItemRequest \<Rightarrow> ('s, item option) op"
  be_PutItem :: "PutItemRequest \<Rightarrow> ('s, unit) op"
  be_DeleteItem :: "DeleteItemRequest \<Rightarrow> ('s, unit) op"
  be_UpdateItem :: "UpdateItemRequest \<Rightarrow> ('s, item option) op"
  be_Query :: "QueryRequest \<Rightarrow> ('s, PageResponse) op"
  be_Scan :: "ScanRequest \<Rightarrow> ('s, PageResponse) op"
  be_BatchGetItem :: "(string \<times> KeysAndProjection) list \<Rightarrow> ('s, BatchGetItemResponse) op"
  be_BatchWriteItem :: "(string \<times> WriteRequest list) list \<Rightarrow> ('s, BatchWriteItemResponse) op"
  be_TransactGetItems :: "TransactGetItem list \<Rightarrow> ('s, item option list) op"
  be_TransactWriteItems :: "TransactWriteItem list \<Rightarrow> ('s, unit) op"

subsection \<open>The in-memory backend\<close>

text \<open>Reads leave the state, writes replace it; a failed write has changed nothing.\<close>

definition reading :: "('s \<Rightarrow> 'a result) \<Rightarrow> ('s, 'a) op" where
  "reading f s = (f s, s)"

definition writing :: "('s \<Rightarrow> ('a \<times> 's) result) \<Rightarrow> ('s, 'a) op" where
  "writing f s = (case f s of Inl e \<Rightarrow> (Inl e, s) | Inr (x, s') \<Rightarrow> (Inr x, s'))"

definition memdb :: "MemoryBackend Backend" where
  "memdb =
     \<lparr>be_GetItem = (\<lambda>req. reading (GetItem req)),
      be_PutItem = (\<lambda>req. writing (\<lambda>m. bind (PutItem req m) (\<lambda>m'. Inr ((), m')))),
      be_DeleteItem = (\<lambda>req. writing (\<lambda>m. bind (DeleteItem req m) (\<lambda>m'. Inr ((), m')))),
      be_UpdateItem = (\<lambda>req. writing (UpdateItem req)),
      be_Query = (\<lambda>req. reading (Query req)),
      be_Scan = (\<lambda>req. reading (Scan req)),
      be_BatchGetItem = (\<lambda>req. reading (\<lambda>m. bind (BatchGetItem req m) (\<lambda>rs.
        Inr \<lparr>bg_Responses = rs, bg_UnprocessedKeys = fmempty\<rparr>))),
      be_BatchWriteItem = (\<lambda>req m. case BatchWriteItem req m of
        (r, m') \<Rightarrow> (bind r (\<lambda>_. Inr \<lparr>bw_UnprocessedItems = fmempty\<rparr>), m')),
      be_TransactGetItems = (\<lambda>req. reading (TransactGetItems req)),
      be_TransactWriteItems = TransactWriteItems\<rparr>"

lemma memdb_reads [simp]:
  "be_GetItem memdb req m = (GetItem req m, m)"
  "be_Query memdb qreq m = (Query qreq m, m)"
  "be_Scan memdb sreq m = (Scan sreq m, m)"
  "be_TransactGetItems memdb tgs m = (TransactGetItems tgs m, m)"
  "be_TransactWriteItems memdb tws m = TransactWriteItems tws m"
  by (simp_all add: memdb_def reading_def)

lemma memdb_PutItem: "be_PutItem memdb req m = (case PutItem req m of Inl e \<Rightarrow> (Inl e, m) | Inr m' \<Rightarrow> (Inr (), m'))"
  by (cases "PutItem req m") (simp_all add: memdb_def writing_def)

lemma memdb_DeleteItem:
  "be_DeleteItem memdb req m = (case DeleteItem req m of Inl e \<Rightarrow> (Inl e, m) | Inr m' \<Rightarrow> (Inr (), m'))"
  by (cases "DeleteItem req m") (simp_all add: memdb_def writing_def)

lemma memdb_UpdateItem:
  "be_UpdateItem memdb req m =
     (case UpdateItem req m of Inl e \<Rightarrow> (Inl e, m) | Inr (attrs, m') \<Rightarrow> (Inr attrs, m'))"
  by (simp add: memdb_def writing_def split: sum.split)

lemma memdb_batches:
  "be_BatchGetItem memdb greq m =
     (bind (BatchGetItem greq m) (\<lambda>rs. Inr \<lparr>bg_Responses = rs, bg_UnprocessedKeys = fmempty\<rparr>), m)"
  "be_BatchWriteItem memdb wreq m =
     (case BatchWriteItem wreq m of (r, m') \<Rightarrow> (bind r (\<lambda>_. Inr \<lparr>bw_UnprocessedItems = fmempty\<rparr>), m'))"
  by (simp_all add: memdb_def reading_def)

subsection \<open>The contract for single items\<close>

text \<open>
  \<open>key_in s t it\<close> is the key that the attributes of \<open>it\<close> give in table \<open>t\<close>, \<open>stored s t k\<close> the item there.
  Every write that succeeds had a true condition and changes this one item; one that fails changes nothing.
\<close>

locale item_backend =
  fixes be :: "'s Backend"
    and key_in :: "'s \<Rightarrow> string \<Rightarrow> item \<Rightarrow> 'k result"
    and stored :: "'s \<Rightarrow> string \<Rightarrow> 'k \<Rightarrow> item option"
  assumes get: "key_in s (gi_TableName greq) (gi_Key greq) = Inr k \<Longrightarrow>
      be_GetItem be greq s = (Inr (map_option (\<lambda>it. projectItem it (gi_ProjectionExpression greq) (gi_Names greq))
        (stored s (gi_TableName greq) k)), s)"
    and put: "be_PutItem be preq s = (Inr (), s') \<Longrightarrow>
      \<exists>k. key_in s (pi_TableName preq) (pi_Item preq) = Inr k \<and>
        check_condition (pi_ConditionExpression preq) (pi_Names preq) (pi_Values preq)
          (stored s (pi_TableName preq) k) = Inr () \<and>
        (\<forall>t j. stored s' t j = (if t = pi_TableName preq \<and> j = k then Some (pi_Item preq) else stored s t j)) \<and>
        key_in s' = key_in s"
    and put_fails: "be_PutItem be preq s = (Inl e, s') \<Longrightarrow> s' = s"
    and delete: "be_DeleteItem be dreq s = (Inr (), s') \<Longrightarrow>
      \<exists>k. key_in s (di_TableName dreq) (di_Key dreq) = Inr k \<and>
        check_condition (di_ConditionExpression dreq) (di_Names dreq) (di_Values dreq)
          (stored s (di_TableName dreq) k) = Inr () \<and>
        (\<forall>t j. stored s' t j = (if t = di_TableName dreq \<and> j = k then None else stored s t j)) \<and>
        key_in s' = key_in s"
    and delete_fails: "be_DeleteItem be dreq s = (Inl e, s') \<Longrightarrow> s' = s"
    and key_attributes: "key_in s t it = Inr k \<Longrightarrow> it \<noteq> fmempty"

lemma item_key_schemas: "same_schemas m m' \<Longrightarrow> item_key m' = item_key m"
  using item_key_same by (fastforce simp: fun_eq_iff)

interpretation mb: item_backend memdb item_key lookup_item
proof unfold_locales
  show "be_GetItem memdb greq m =
      (Inr (map_option (\<lambda>it. projectItem it (gi_ProjectionExpression greq) (gi_Names greq))
        (lookup_item m (gi_TableName greq) k)), m)"
    if "item_key m (gi_TableName greq) (gi_Key greq) = Inr k" for m greq k
    using that by (simp add: GetItem_lookup)
  show "\<exists>k. item_key m (pi_TableName preq) (pi_Item preq) = Inr k \<and>
      check_condition (pi_ConditionExpression preq) (pi_Names preq) (pi_Values preq)
        (lookup_item m (pi_TableName preq) k) = Inr () \<and>
      (\<forall>t j. lookup_item m' t j = (if t = pi_TableName preq \<and> j = k then Some (pi_Item preq) else lookup_item m t j)) \<and>
      item_key m' = item_key m"
    if "be_PutItem memdb preq m = (Inr (), m')" for m m' preq
  proof -
    from that have "PutItem preq m = Inr m'" by (simp add: memdb_PutItem split: sum.splits)
    then show ?thesis by (rule PutItem_refines) (use item_key_schemas in blast)
  qed
  show "m' = m" if "be_PutItem memdb preq m = (Inl e, m')" for m m' preq e
    using that by (simp add: memdb_PutItem split: sum.splits)
  show "\<exists>k. item_key m (di_TableName dreq) (di_Key dreq) = Inr k \<and>
      check_condition (di_ConditionExpression dreq) (di_Names dreq) (di_Values dreq)
        (lookup_item m (di_TableName dreq) k) = Inr () \<and>
      (\<forall>t j. lookup_item m' t j = (if t = di_TableName dreq \<and> j = k then None else lookup_item m t j)) \<and>
      item_key m' = item_key m"
    if "be_DeleteItem memdb dreq m = (Inr (), m')" for m m' dreq
  proof -
    from that have "DeleteItem dreq m = Inr m'" by (simp add: memdb_DeleteItem split: sum.splits)
    then show ?thesis by (rule DeleteItem_refines) (use item_key_schemas in blast)
  qed
  show "m' = m" if "be_DeleteItem memdb dreq m = (Inl e, m')" for m m' dreq e
    using that by (simp add: memdb_DeleteItem split: sum.splits)
  show "it \<noteq> fmempty" if "item_key m t it = Inr k" for m t it k
    using that by (auto simp: item_key_def extractKey_def bind_Inr_iff newError_def)
qed

subsection \<open>Wrapping a backend\<close>

text \<open>
  \<open>runs_as view m' m\<close>: the operation \<open>m'\<close> gives what \<open>m\<close> gives, and changes what \<open>view\<close> sees of its state as
  \<open>m\<close> does.  A wrapper whose ten operations run as those of the wrapped backend is invisible to a client.
\<close>

definition runs_as :: "('t \<Rightarrow> 's) \<Rightarrow> ('t, 'a) op \<Rightarrow> ('s, 'a) op \<Rightarrow> bool" where
  "runs_as view m' m \<longleftrightarrow> (\<forall>t. map_prod id view (m' t) = m (view t))"

lemma runs_as_return: "runs_as view (sreturn r) (sreturn r)"
  by (simp add: runs_as_def)

lemma runs_as_bind:
  assumes m: "runs_as view m' m" and f: "\<And>x. runs_as view (f' x) (f x)"
  shows "runs_as view (sbind m' f') (sbind m f)"
  unfolding runs_as_def
proof
  fix t
  obtain r t' where r: "m' t = (r, t')" by (cases "m' t")
  with m have "m (view t) = (r, view t')" by (metis runs_as_def map_prod_simp id_apply)
  with r f show "map_prod id view (sbind m' f' t) = sbind m f (view t)"
    by (cases r) (auto simp: sbind_def runs_as_def)
qed

lemma runs_as_result: "runs_as view m' m \<Longrightarrow> fst (m' t) = fst (m (view t))"
  unfolding runs_as_def by (metis fst_map_prod id_apply)

lemma runs_as_state: "runs_as view m' m \<Longrightarrow> view (snd (m' t)) = snd (m (view t))"
  unfolding runs_as_def by (metis snd_map_prod)

locale backend_wrapper =
  fixes view :: "'t \<Rightarrow> 's"
    and outer :: "'t Backend"
    and inner :: "'s Backend"
  assumes GetItem: "runs_as view (be_GetItem outer r1) (be_GetItem inner r1)"
    and PutItem: "runs_as view (be_PutItem outer r2) (be_PutItem inner r2)"
    and DeleteItem: "runs_as view (be_DeleteItem outer r3) (be_DeleteItem inner r3)"
    and UpdateItem: "runs_as view (be_UpdateItem outer r4) (be_UpdateItem inner r4)"
    and Query: "runs_as view (be_Query outer r5) (be_Query inner r5)"
    and Scan: "runs_as view (be_Scan outer r6) (be_Scan inner r6)"
    and BatchGetItem: "runs_as view (be_BatchGetItem outer r7) (be_BatchGetItem inner r7)"
    and BatchWriteItem: "runs_as view (be_BatchWriteItem outer r8) (be_BatchWriteItem inner r8)"
    and TransactGetItems: "runs_as view (be_TransactGetItems outer r9) (be_TransactGetItems inner r9)"
    and TransactWriteItems: "runs_as view (be_TransactWriteItems outer r10) (be_TransactWriteItems inner r10)"

subsection \<open>The logging backend\<close>

datatype level = LevelDebug | LevelWarn

record log_record =
  lr_level :: level
  lr_message :: string
  lr_operation :: string
  lr_table :: string
  lr_duration :: int
  lr_error :: "string option"

record logConfig =
  slowThreshold :: int

text \<open>
  The state of the logging backend: the state of the backend it wraps, what the logger was given, and how
  often the clock was read.  The clock is a parameter, its readings in order.
\<close>

record 's logged =
  lg_state :: 's
  lg_records :: "log_record list"
  lg_reads :: nat

definition LogSlowOperations :: "int \<Rightarrow> logConfig \<Rightarrow> logConfig" where
  "LogSlowOperations threshold c = c\<lparr>slowThreshold := threshold\<rparr>"

definition log_entry :: "logConfig \<Rightarrow> string \<Rightarrow> string \<Rightarrow> int \<Rightarrow> error option \<Rightarrow> log_record list" where
  "log_entry cfg operation tableName dur err =
     (let r = (\<lambda>lvl msg. \<lparr>lr_level = lvl, lr_message = msg, lr_operation = operation, lr_table = tableName,
                          lr_duration = dur, lr_error = map_option error_text err\<rparr>) in
      r LevelDebug ''dynago operation'' #
      (if 0 < slowThreshold cfg \<and> slowThreshold cfg \<le> dur then [r LevelWarn ''slow dynago operation''] else []))"

definition error_of :: "'a result \<Rightarrow> error option" where
  "error_of r = (case r of Inl e \<Rightarrow> Some e | Inr _ \<Rightarrow> None)"

text \<open>
  The body all methods share: read the clock, call, read the clock, log, return what the call returned.  The call is
  not deferred to: when it panics nothing after it runs.
\<close>

definition logged_call :: "logConfig \<Rightarrow> (nat \<Rightarrow> int) \<Rightarrow> string \<Rightarrow> string \<Rightarrow> ('s, 'a) op \<Rightarrow> ('s logged, 'a) op" where
  "logged_call cfg clock operation tableName m l =
     (let start = clock (lg_reads l); (r, s') = m (lg_state l) in
      if panics r then (r, \<lparr>lg_state = s', lg_records = lg_records l, lg_reads = lg_reads l + 1\<rparr>)
      else let dur = clock (Suc (lg_reads l)) - start in
        (r, \<lparr>lg_state = s',
             lg_records = lg_records l @ log_entry cfg operation tableName dur (error_of r),
             lg_reads = lg_reads l + 2\<rparr>))"

definition loggingBackend :: "logConfig \<Rightarrow> (nat \<Rightarrow> int) \<Rightarrow> 's Backend \<Rightarrow> 's logged Backend" where
  "loggingBackend cfg clock inner =
     \<lparr>be_GetItem = (\<lambda>req. logged_call cfg clock ''GetItem'' (gi_TableName req) (be_GetItem inner req)),
      be_PutItem = (\<lambda>req. logged_call cfg clock ''PutItem'' (pi_TableName req) (be_PutItem inner req)),
      be_DeleteItem = (\<lambda>req. logged_call cfg clock ''DeleteItem'' (di_TableName req) (be_DeleteItem inner req)),
      be_UpdateItem = (\<lambda>req. logged_call cfg clock ''UpdateItem'' (ui_TableName req) (be_UpdateItem inner req)),
      be_Query = (\<lambda>req. logged_call cfg clock ''Query'' (q_TableName req) (be_Query inner req)),
      be_Scan = (\<lambda>req. logged_call cfg clock ''Scan'' (s_TableName req) (be_Scan inner req)),
      be_BatchGetItem = (\<lambda>req. logged_call cfg clock ''BatchGetItem'' [] (be_BatchGetItem inner req)),
      be_BatchWriteItem = (\<lambda>req. logged_call cfg clock ''BatchWriteItem'' [] (be_BatchWriteItem inner req)),
      be_TransactGetItems = (\<lambda>req. logged_call cfg clock ''TransactGetItems'' [] (be_TransactGetItems inner req)),
      be_TransactWriteItems =
        (\<lambda>req. logged_call cfg clock ''TransactWriteItems'' [] (be_TransactWriteItems inner req))\<rparr>"

definition LoggingMiddleware :: "(nat \<Rightarrow> int) \<Rightarrow> (logConfig \<Rightarrow> logConfig) list \<Rightarrow> 's Backend \<Rightarrow> 's logged Backend" where
  "LoggingMiddleware clock opts = loggingBackend (fold (\<lambda>opt c. opt c) opts \<lparr>slowThreshold = 0\<rparr>) clock"

lemma logged_call_runs: "runs_as lg_state (logged_call cfg clock operation tableName m) m"
  by (simp add: runs_as_def logged_call_def Let_def map_prod_def split: prod.split)

interpretation lg: backend_wrapper lg_state "loggingBackend cfg clock be" be
  by unfold_locales (simp_all add: loggingBackend_def logged_call_runs)

subsection \<open>Databases and middleware\<close>

record 's DB =
  db_backend :: "'s Backend"

definition New_DB :: "'s Backend \<Rightarrow> ('s DB \<Rightarrow> 's DB) list \<Rightarrow> 's DB" where
  "New_DB be opts = fold (\<lambda>opt db. opt db) opts \<lparr>db_backend = be\<rparr>"

definition WithMiddleware :: "('s Backend \<Rightarrow> 's Backend) list \<Rightarrow> 's DB \<Rightarrow> 's DB" where
  "WithMiddleware ms db = fold (\<lambda>mw db. db\<lparr>db_backend := mw (db_backend db)\<rparr>) ms db"

text \<open>The last middleware given is the outermost wrapper.\<close>

lemma WithMiddleware_snoc: "db_backend (WithMiddleware (ms @ [m]) db) = m (db_backend (WithMiddleware ms db))"
  by (simp add: WithMiddleware_def)

subsection \<open>Sequences of calls\<close>

text \<open>Any call of the interface, what it returns, and a run of calls that goes on after errors.\<close>

datatype call =
    CallGet GetItemRequest
  | CallPut PutItemRequest
  | CallDelete DeleteItemRequest
  | CallUpdate UpdateItemRequest
  | CallQuery QueryRequest
  | CallScan ScanRequest
  | CallBatchGet "(string \<times> KeysAndProjection) list"
  | CallBatchWrite "(string \<times> WriteRequest list) list"
  | CallTransactGet "TransactGetItem list"
  | CallTransactWrite "TransactWriteItem list"

datatype response =
    RItem "item option"
  | RNone
  | RPage PageResponse
  | RBatchGet BatchGetItemResponse
  | RBatchWrite BatchWriteItemResponse
  | RItems "item option list"

definition giving :: "('a \<Rightarrow> 'b) \<Rightarrow> ('s, 'a) op \<Rightarrow> ('s, 'b) op" where
  "giving f m = sbind m (\<lambda>x. sreturn (Inr (f x)))"

definition invoke :: "'s Backend \<Rightarrow> call \<Rightarrow> ('s, response) op" where
  "invoke be c =
     (case c of
        CallGet r \<Rightarrow> giving RItem (be_GetItem be r)
      | CallPut r \<Rightarrow> giving (\<lambda>_. RNone) (be_PutItem be r)
      | CallDelete r \<Rightarrow> giving (\<lambda>_. RNone) (be_DeleteItem be r)
      | CallUpdate r \<Rightarrow> giving RItem (be_UpdateItem be r)
      | CallQuery r \<Rightarrow> giving RPage (be_Query be r)
      | CallScan r \<Rightarrow> giving RPage (be_Scan be r)
      | CallBatchGet r \<Rightarrow> giving RBatchGet (be_BatchGetItem be r)
      | CallBatchWrite r \<Rightarrow> giving RBatchWrite (be_BatchWriteItem be r)
      | CallTransactGet r \<Rightarrow> giving RItems (be_TransactGetItems be r)
      | CallTransactWrite r \<Rightarrow> giving (\<lambda>_. RNone) (be_TransactWriteItems be r))"

fun invoke_all :: "'s Backend \<Rightarrow> call list \<Rightarrow> 's \<Rightarrow> response result list \<times> 's" where
  "invoke_all be [] s = ([], s)"
| "invoke_all be (c # cs) s =
     (let (r, s1) = invoke be c s; (rs, s2) = invoke_all be cs s1 in (r # rs, s2))"

text \<open>The name and the table a call is logged under.\<close>

definition call_label :: "call \<Rightarrow> string \<times> string" where
  "call_label c =
     (case c of
        CallGet r \<Rightarrow> (''GetItem'', gi_TableName r)
      | CallPut r \<Rightarrow> (''PutItem'', pi_TableName r)
      | CallDelete r \<Rightarrow> (''DeleteItem'', di_TableName r)
      | CallUpdate r \<Rightarrow> (''UpdateItem'', ui_TableName r)
      | CallQuery r \<Rightarrow> (''Query'', q_TableName r)
      | CallScan r \<Rightarrow> (''Scan'', s_TableName r)
      | CallBatchGet r \<Rightarrow> (''BatchGetItem'', [])
      | CallBatchWrite r \<Rightarrow> (''BatchWriteItem'', [])
      | CallTransactGet r \<Rightarrow> (''TransactGetItems'', [])
      | CallTransactWrite r \<Rightarrow> (''TransactWriteItems'', []))"

context backend_wrapper begin

lemma giving_runs: "runs_as view m' m \<Longrightarrow> runs_as view (giving f m') (giving f m)"
  unfolding giving_def by (intro runs_as_bind runs_as_return)

lemma invoke_runs: "runs_as view (invoke outer c) (invoke inner c)"
  by (cases c)
    (simp_all add: invoke_def giving_runs GetItem PutItem DeleteItem UpdateItem Query Scan BatchGetItem BatchWriteItem
      TransactGetItems TransactWriteItems)

lemma invoke_all_runs: "map_prod id view (invoke_all outer cs t) = invoke_all inner cs (view t)"
proof (induction cs arbitrary: t)
  case (Cons c cs)
  obtain r t1 where c: "invoke outer c t = (r, t1)" by (cases "invoke outer c t")
  with invoke_runs [of c] have "invoke inner c (view t) = (r, view t1)"
    by (metis runs_as_def map_prod_simp id_apply)
  with c Cons.IH [of t1] show ?case
    by (auto simp: map_prod_def split: prod.splits)
qed simp

end

text \<open>What one call adds to the log.\<close>

lemma giving_logged: "giving f (logged_call cfg clock operation tableName m) = logged_call cfg clock operation tableName (giving f m)"
  by (auto simp: fun_eq_iff giving_def logged_call_def sbind_def Let_def error_of_def panics_def split: prod.splits sum.splits)

lemma invoke_logging:
  "invoke (loggingBackend cfg clock be) c =
   logged_call cfg clock (fst (call_label c)) (snd (call_label c)) (invoke be c)"
  by (cases c) (simp_all add: invoke_def loggingBackend_def call_label_def giving_logged)

text \<open>The records of one level, as operation, table and error.\<close>

definition logged_calls :: "level \<Rightarrow> log_record list \<Rightarrow> ((string \<times> string) \<times> string option) list" where
  "logged_calls lvl rs = map (\<lambda>r. ((lr_operation r, lr_table r), lr_error r)) (filter (\<lambda>r. lr_level r = lvl) rs)"

lemma logged_calls_append [simp]: "logged_calls lvl (rs @ rs') = logged_calls lvl rs @ logged_calls lvl rs'"
  by (simp add: logged_calls_def)

lemma debug_entry [simp]:
  "logged_calls LevelDebug (log_entry cfg operation tableName dur err) = [((operation, tableName), map_option error_text err)]"
  by (simp add: logged_calls_def log_entry_def Let_def)

lemma logged_call_entry:
  "logged_calls LevelDebug (lg_records (snd (logged_call cfg clock op tbl m l))) =
   logged_calls LevelDebug (lg_records l) @
   (case m (lg_state l) of (r, _) \<Rightarrow> if panics r then [] else [((op, tbl), map_option error_text (error_of r))])"
  by (simp add: logged_call_def Let_def split: prod.split)

text \<open>The calls that return are logged, those that panic are not.\<close>

lemma logged_run:
  "logged_calls LevelDebug (lg_records (snd (invoke_all (loggingBackend cfg clock be) cs l))) =
   logged_calls LevelDebug (lg_records l) @
   map (\<lambda>(c, r). (call_label c, map_option error_text (error_of r)))
     (filter (\<lambda>(c, r). \<not> panics r) (zip cs (fst (invoke_all be cs (lg_state l)))))"
proof (induction cs arbitrary: l)
  case (Cons c cs)
  let ?log = "loggingBackend cfg clock be"
  obtain r l1 where c: "invoke ?log c l = (r, l1)" by (cases "invoke ?log c l")
  then have inner: "invoke be c (lg_state l) = (r, lg_state l1)"
    using lg.invoke_runs [of cfg clock be c] by (metis runs_as_def map_prod_simp id_apply)
  with c logged_call_entry [of cfg clock "fst (call_label c)" "snd (call_label c)" "invoke be c" l]
  have "logged_calls LevelDebug (lg_records l1) = logged_calls LevelDebug (lg_records l) @
      (if panics r then [] else [(call_label c, map_option error_text (error_of r))])"
    by (simp add: invoke_logging)
  with Cons.IH [of l1] c inner show ?case by (simp add: case_prod_beta)
qed simp

end
