(* ===== verification/Client.thy ===== *)
theory Client
  imports Backend CondEquiv RoundTrip
begin

text \<open>
  The client operations on single items (\<open>dynago.go\<close>, \<open>get.go\<close>, \<open>put.go\<close>, \<open>delete.go\<close>) and the registry of
  entity types (\<open>registry.go\<close>, \<open>polymorphic.go\<close>, \<open>entity.go\<close>).

  The type argument of the generic functions is a \<open>gotype\<close>; the item given to a put is its dynamic type with
  its value, as for \<open>Marshal\<close>.  An option is a function on the configuration; it returns a panic where the
  closure panics.  The \<open>DynagoEntity\<close> methods of a program are a parameter, by type name.
\<close>

declare mem_tokenizeExpr.simps(2) [simp del]

subsection \<open>Options\<close>

fun apply_opts :: "('c \<Rightarrow> 'c result) list \<Rightarrow> 'c \<Rightarrow> 'c result" where
  "apply_opts [] c = Inr c"
| "apply_opts (opt # opts) c = bind (opt c) (apply_opts opts)"

subsection \<open>Entities\<close>

record EntityInfo =
  Discriminator :: string

type_synonym entities = "string \<Rightarrow> (goval \<Rightarrow> EntityInfo) option"

record Registry =
  discriminatorAttr :: string
  types :: "(string, gotype) fmap"

definition NewRegistry :: "string \<Rightarrow> Registry" where
  "NewRegistry attr = \<lparr>discriminatorAttr = attr, types = fmempty\<rparr>"

definition Register :: "EntityInfo \<Rightarrow> gotype \<Rightarrow> Registry \<Rightarrow> Registry result" where
  "Register info t r =
     (if fmlookup (types r) (Discriminator info) \<noteq> None then Inl (GoPanic ''dynago: duplicate discriminator'')
      else Inr (r\<lparr>types := fmupd (Discriminator info) t (types r)\<rparr>))"

definition Lookup :: "string \<Rightarrow> Registry \<Rightarrow> gotype option" where
  "Lookup discriminator r = fmlookup (types r) discriminator"

text \<open>The type assertion to \<open>Entity\<close>, for value receivers.\<close>

definition as_entity :: "entities \<Rightarrow> (gotype \<times> goval) option \<Rightarrow> EntityInfo option" where
  "as_entity ents x =
     (case x of
        None \<Rightarrow> None
      | Some (t, v) \<Rightarrow>
          (case t of
             GNamed n _ \<Rightarrow> map_option (\<lambda>f. f v) (ents n)
           | GPointer u \<Rightarrow>
               (case (u, v) of
                  (GNamed n _, VPtr (Some w)) \<Rightarrow> map_option (\<lambda>f. f w) (ents n)
                | _ \<Rightarrow> None)
           | _ \<Rightarrow> None))"

definition unmarshalPolymorphic :: "methods \<Rightarrow> item \<Rightarrow> Registry \<Rightarrow> (gotype \<times> goval) result" where
  "unmarshalPolymorphic ms it r =
     (case fmlookup it (discriminatorAttr r) of
        None \<Rightarrow> Inl (Errorf ''dynago: discriminator attribute not found in item'')
      | Some av \<Rightarrow>
          (case av of
             TypeS d \<Rightarrow>
               (case Lookup d r of
                  None \<Rightarrow> Inl (Errorf ''dynago: unregistered discriminator'')
                | Some typ \<Rightarrow> bind (Unmarshal ms it typ (zero_value typ)) (\<lambda>v. Inr (typ, v)))
           | _ \<Rightarrow> Inl (Errorf ''dynago: discriminator attribute must be type S'')))"

subsection \<open>Tables\<close>

record 's Table =
  tb_name :: string
  tb_backend :: "'s Backend"
  tb_registry :: "Registry option"

definition WithRegistry :: "Registry \<Rightarrow> 's Table \<Rightarrow> 's Table" where
  "WithRegistry r t = t\<lparr>tb_registry := Some r\<rparr>"

definition DB_Table :: "'s DB \<Rightarrow> string \<Rightarrow> ('s Table \<Rightarrow> 's Table) list \<Rightarrow> 's Table" where
  "DB_Table db name opts =
     fold (\<lambda>opt t. opt t) opts \<lparr>tb_name = name, tb_backend = db_backend db, tb_registry = None\<rparr>"

subsection \<open>Get\<close>

record getConfig =
  gc_consistentRead :: bool
  gc_projection :: "string list"

definition ConsistentRead :: "getConfig \<Rightarrow> getConfig" where
  "ConsistentRead c = c\<lparr>gc_consistentRead := True\<rparr>"

definition Project :: "string list \<Rightarrow> getConfig \<Rightarrow> getConfig" where
  "Project attrs c = c\<lparr>gc_projection := gc_projection c @ attrs\<rparr>"

definition get_config :: "(getConfig \<Rightarrow> getConfig) list \<Rightarrow> getConfig" where
  "get_config opts = fold (\<lambda>opt c. opt c) opts \<lparr>gc_consistentRead = False, gc_projection = []\<rparr>"

definition buildProjection :: "string list \<Rightarrow> string \<times> names" where
  "buildProjection attrs =
     (Join (map (\<lambda>a. CHR ''#'' # a) attrs) '', '', fold (\<lambda>a. fmupd (CHR ''#'' # a) a) attrs fmempty)"

definition get_request :: "string \<Rightarrow> KeyValue \<Rightarrow> getConfig \<Rightarrow> GetItemRequest" where
  "get_request tableName key cfg =
     (case (if gc_projection cfg = [] then ([], fmempty) else buildProjection (gc_projection cfg)) of
        (projExpr, nm) \<Rightarrow>
          \<lparr>gi_TableName = tableName, gi_Key = KeyValue_Map key, gi_ConsistentRead = gc_consistentRead cfg,
           gi_ProjectionExpression = projExpr, gi_Names = nm\<rparr>)"

definition Get :: "methods \<Rightarrow> gotype \<Rightarrow> 's Table \<Rightarrow> KeyValue \<Rightarrow> (getConfig \<Rightarrow> getConfig) list \<Rightarrow> ('s, goval) op" where
  "Get ms T t key opts =
     sbind (be_GetItem (tb_backend t) (get_request (tb_name t) key (get_config opts))) (\<lambda>resp.
       sreturn
         (case resp of
            None \<Rightarrow> Inl (Sentinel ErrNotFound)
          | Some it \<Rightarrow> if it = fmempty then Inl (Sentinel ErrNotFound) else Unmarshal ms it T (zero_value T)))"

subsection \<open>Put\<close>

record putConfig =
  pc_condition :: "conditionExpr option"

definition IfNotExists :: "string \<Rightarrow> putConfig \<Rightarrow> putConfig result" where
  "IfNotExists attr c = Inr (c\<lparr>pc_condition := Some (add_condition (buildAttrNotExists attr) (pc_condition c))\<rparr>)"

definition PutCondition :: "string \<Rightarrow> any list \<Rightarrow> putConfig \<Rightarrow> putConfig result" where
  "PutCondition expression vs c =
     bind (must_build ''dynago.PutCondition'' expression vs) (\<lambda>cond.
       Inr (c\<lparr>pc_condition := Some (add_condition cond (pc_condition c))\<rparr>))"

definition put_config :: "(putConfig \<Rightarrow> putConfig result) list \<Rightarrow> putConfig result" where
  "put_config opts = apply_opts opts \<lparr>pc_condition = None\<rparr>"

text \<open>A missing condition leaves the three fields of a request empty.\<close>

definition condition_parts :: "conditionExpr option \<Rightarrow> string \<times> names \<times> vals" where
  "condition_parts cond =
     (case cond of None \<Rightarrow> ([], fmempty, fmempty) | Some c \<Rightarrow> (ce_expression c, ce_names c, ce_values c))"

definition put_request :: "string \<Rightarrow> item \<Rightarrow> putConfig \<Rightarrow> PutItemRequest" where
  "put_request tableName av cfg =
     (case condition_parts (pc_condition cfg) of
        (e, nm, vs) \<Rightarrow>
          \<lparr>pi_TableName = tableName, pi_Item = av, pi_ConditionExpression = e, pi_Names = nm, pi_Values = vs,
           pi_ReturnValues = []\<rparr>)"

text \<open>The discriminator is set when the table has a registry and the item is an entity.\<close>

definition set_discriminator :: "Registry option \<Rightarrow> EntityInfo option \<Rightarrow> item \<Rightarrow> item" where
  "set_discriminator reg info av =
     (case (info, reg) of
        (Some i, Some r) \<Rightarrow> fmupd (discriminatorAttr r) (TypeS (Discriminator i)) av
      | _ \<Rightarrow> av)"

definition Table_Put :: "methods \<Rightarrow> entities \<Rightarrow> 's Table \<Rightarrow> (gotype \<times> goval) option
    \<Rightarrow> (putConfig \<Rightarrow> putConfig result) list \<Rightarrow> ('s, unit) op" where
  "Table_Put ms ents t x opts =
     sbind (sreturn (Marshal ms x)) (\<lambda>av.
       sbind (sreturn (put_config opts)) (\<lambda>cfg.
         be_PutItem (tb_backend t)
           (put_request (tb_name t) (set_discriminator (tb_registry t) (as_entity ents x) av) cfg)))"

subsection \<open>Delete\<close>

record deleteConfig =
  dc_condition :: "conditionExpr option"

definition DeleteCondition :: "string \<Rightarrow> any list \<Rightarrow> deleteConfig \<Rightarrow> deleteConfig result" where
  "DeleteCondition expression vs c =
     bind (must_build ''dynago.DeleteCondition'' expression vs) (\<lambda>cond.
       Inr (c\<lparr>dc_condition := Some (add_condition cond (dc_condition c))\<rparr>))"

definition delete_config :: "(deleteConfig \<Rightarrow> deleteConfig result) list \<Rightarrow> deleteConfig result" where
  "delete_config opts = apply_opts opts \<lparr>dc_condition = None\<rparr>"

definition delete_request :: "string \<Rightarrow> KeyValue \<Rightarrow> deleteConfig \<Rightarrow> DeleteItemRequest" where
  "delete_request tableName key cfg =
     (case condition_parts (dc_condition cfg) of
        (e, nm, vs) \<Rightarrow>
          \<lparr>di_TableName = tableName, di_Key = KeyValue_Map key, di_ConditionExpression = e, di_Names = nm,
           di_Values = vs, di_ReturnValues = []\<rparr>)"

definition Table_Delete :: "'s Table \<Rightarrow> KeyValue \<Rightarrow> (deleteConfig \<Rightarrow> deleteConfig result) list \<Rightarrow> ('s, unit) op" where
  "Table_Delete t key opts =
     sbind (sreturn (delete_config opts)) (\<lambda>cfg.
       be_DeleteItem (tb_backend t) (delete_request (tb_name t) key cfg))"

subsection \<open>The condition of a put of a new item\<close>

text \<open>An attribute name of letters, digits and underscores is one token behind its \<open>#\<close>.\<close>

definition attr_name :: "string \<Rightarrow> bool" where
  "attr_name a \<longleftrightarrow> list_all isIdentPart a \<and> a \<noteq> []"

lemma attr_name_plain: "attr_name a \<Longrightarrow> CHR ''.'' \<notin> set a"
proof
  assume "attr_name a" "CHR ''.'' \<in> set a"
  then have "isIdentPart CHR ''.''" by (simp add: attr_name_def list_all_iff)
  moreover have "\<not> isIdentPart CHR ''.''" by code_simp
  ultimately show False by simp
qed

lemma not_exists_tokens:
  assumes "list_all isIdentPart a"
  shows "mem_tokenizeExpr (''attribute_not_exists('' @ (CHR ''#'' # a) @ '')'') = [''attribute_not_exists'', ''('', CHR ''#'' # a, '')'']"
proof -
  have v: "valid_tok ''attribute_not_exists''" by code_simp
  have p: "valid_tok ''(''" "valid_tok '')''" by (simp_all add: valid_tok_def op_tok_def single_char_tok_def)
  have r: "valid_tok (CHR ''#'' # a)" using assms by (simp add: valid_tok_def ref_tok_def)
  have "mem_tokenizeExpr '')'' = ['')'']" using tokenize_tok [OF p(2), of "[]"] by simp
  with tokenize_tok [OF r, of "'')''"] have 1: "mem_tokenizeExpr ((CHR ''#'' # a) @ '')'') = [CHR ''#'' # a, '')'']" by simp
  have 2: "mem_tokenizeExpr (''('' @ (CHR ''#'' # a) @ '')'') = ''('' # mem_tokenizeExpr ((CHR ''#'' # a) @ '')'')"
    by (simp add: is_space_def two_char_op_def single_char_tok_def mem_tokenizeExpr.simps(2) [of "CHR ''(''"])
  show ?thesis using tokenize_tok [OF v, of "''('' @ (CHR ''#'' # a) @ '')''"] 1 2 by simp
qed

lemma parse_not_exists:
  assumes "attr_name a"
  shows "parseExpressionToAST (''attribute_not_exists('' @ (CHR ''#'' # a) @ '')'') (fmupd (CHR ''#'' # a) a fmempty) fmempty =
    Inr (FuncNode ''attribute_not_exists'' [PathNode [a]])"
proof -
  have f: "known_function ''attribute_not_exists''" "ToLower ''attribute_not_exists'' = ''attribute_not_exists''"
    "isIdentStart CHR ''a''" "\<not> EqualFold ''attribute_not_exists'' ''NOT''" "\<not> EqualFold [] ''BETWEEN''"
    "\<not> EqualFold [] ''IN''" "\<not> EqualFold [] ''AND''" "\<not> EqualFold [] ''OR''" "parseCompareOp [] = None"
    by code_simp+
  have a: "list_all isIdentPart a" "CHR ''.'' \<notin> set a" "a \<noteq> []"
    using assms attr_name_plain by (auto simp: attr_name_def)
  have s: "SplitChar CHR ''.'' a = [a]" using a(2) by (simp add: SplitChar_no_sep)
  have fuel: "expr_fuel [''attribute_not_exists'', ''('', CHR ''#'' # a, '')''] = Suc (Suc (Suc (Suc (Suc (Suc (Suc (Suc (Suc 31))))))))"
    by (simp add: expr_fuel_def)
  show ?thesis
    unfolding parseExpressionToAST_def not_exists_tokens [OF a(1)] Let_def fuel
    by (simp add: f s peek_def expect_def parseSuffix_def numeral_eq_Suc)
qed

lemma not_exists_condition:
  assumes "attr_name a" "cond = buildAttrNotExists a"
  shows "evalCondition (ce_expression cond) (ce_names cond) (ce_values cond) it = Inr (fmlookup it a = None)"
  using parse_not_exists [OF assms(1)] unfolding assms(2) evalCondition_def buildAttrNotExists_def Let_def
  by (auto simp: evalFunc_def eval_exists_def split: option.splits)

subsection \<open>Clients of a backend that keeps its contract\<close>

lemma get_request_plain:
  assumes "gc_projection (get_config opts) = []"
  shows "gi_TableName (get_request tn key (get_config opts)) = tn"
    "gi_Key (get_request tn key (get_config opts)) = KeyValue_Map key"
    "gi_ProjectionExpression (get_request tn key (get_config opts)) = []"
  using assms by (simp_all add: get_request_def)

lemma put_request_fields [simp]:
  "pi_TableName (put_request tn it cfg) = tn" "pi_Item (put_request tn it cfg) = it"
  by (simp_all add: put_request_def split: prod.split)

lemma delete_request_fields [simp]:
  "di_TableName (delete_request tn key cfg) = tn" "di_Key (delete_request tn key cfg) = KeyValue_Map key"
  by (simp_all add: delete_request_def split: prod.split)

lemma projectItem_all [simp]: "projectItem it [] nm = it"
  by (simp add: projectItem_def)

context item_backend begin

lemma Get_stored:
  assumes "tb_backend t = be" "gc_projection (get_config opts) = []" "key_in s (tb_name t) (KeyValue_Map key) = Inr k"
  shows "Get ms T t key opts s =
    (case stored s (tb_name t) k of
       None \<Rightarrow> Inl (Sentinel ErrNotFound)
     | Some it \<Rightarrow> if it = fmempty then Inl (Sentinel ErrNotFound) else Unmarshal ms it T (zero_value T), s)"
  using get [of s "get_request (tb_name t) key (get_config opts)" k] assms
  by (simp add: Get_def sbind_def get_request_plain split: option.split)

lemma Table_Put_stores:
  assumes "tb_backend t = be" "Table_Put ms ents t x opts s = (Inr (), s')"
  obtains av it k cfg where "Marshal ms x = Inr av" "put_config opts = Inr cfg"
    and "it = set_discriminator (tb_registry t) (as_entity ents x) av"
    and "key_in s (tb_name t) it = Inr k" "key_in s' = key_in s"
    and "\<And>u j. stored s' u j = (if u = tb_name t \<and> j = k then Some it else stored s u j)"
    and "check_condition (pi_ConditionExpression (put_request (tb_name t) it cfg))
      (pi_Names (put_request (tb_name t) it cfg)) (pi_Values (put_request (tb_name t) it cfg))
      (stored s (tb_name t) k) = Inr ()"
proof -
  from assms obtain av cfg where av: "Marshal ms x = Inr av" "put_config opts = Inr cfg" and
    put: "be_PutItem be (put_request (tb_name t) (set_discriminator (tb_registry t) (as_entity ents x) av) cfg) s = (Inr (), s')"
    by (auto simp: Table_Put_def sbind_Inr_iff)
  from Backend.item_backend.put [OF item_backend_axioms put] that [OF av refl] show thesis by auto
qed

lemma Table_Delete_removes:
  assumes "tb_backend t = be" "Table_Delete t key opts s = (Inr (), s')"
  obtains k where "key_in s (tb_name t) (KeyValue_Map key) = Inr k" "key_in s' = key_in s"
    and "\<And>u j. stored s' u j = (if u = tb_name t \<and> j = k then None else stored s u j)"
proof -
  from assms obtain cfg where "be_DeleteItem be (delete_request (tb_name t) key cfg) s = (Inr (), s')"
    by (auto simp: Table_Delete_def sbind_Inr_iff)
  from delete [OF this] that show thesis by auto
qed

text \<open>A failed put or delete leaves the state, wherever it fails.\<close>

lemma failed_writes_change_nothing:
  "tb_backend t = be \<Longrightarrow> Table_Put ms ents t x opts s = (Inl e, s') \<Longrightarrow> s' = s"
  "tb_backend t = be \<Longrightarrow> Table_Delete t key dopts s = (Inl e, s') \<Longrightarrow> s' = s"
  using put_fails delete_fails
  by (auto simp: Table_Put_def Table_Delete_def sbind_def split: prod.splits sum.splits)

lemma put_get:
  assumes t: "tb_backend t = be" "tb_registry t = None" and p: "Table_Put ms ents t x opts s = (Inr (), s')"
    and same: "\<And>av. Marshal ms x = Inr av \<Longrightarrow> key_in s (tb_name t) (KeyValue_Map key) = key_in s (tb_name t) av"
    and "gc_projection (get_config gopts) = []"
  shows "\<exists>av. Marshal ms x = Inr av \<and> Get ms T t key gopts s' = (Unmarshal ms av T (zero_value T), s')"
  using t(1) p
proof (rule Table_Put_stores)
  fix av it k cfg
  assume av: "Marshal ms x = Inr av" "it = set_discriminator (tb_registry t) (as_entity ents x) av"
    and k: "key_in s (tb_name t) it = Inr k" "key_in s' = key_in s"
    and st: "\<And>u j. stored s' u j = (if u = tb_name t \<and> j = k then Some it else stored s u j)"
  have it: "it = av" using av(2) t(2) by (simp add: set_discriminator_def split: option.split)
  with k same [OF av(1)] have "key_in s' (tb_name t) (KeyValue_Map key) = Inr k" by simp
  from Get_stored [OF t(1) assms(5) this] show ?thesis
    using av(1) it st key_attributes [OF k(1)] by auto
qed

lemma delete_get:
  assumes t: "tb_backend t = be" and d: "Table_Delete t key opts s = (Inr (), s')"
    and "gc_projection (get_config gopts) = []"
  shows "Get ms T t key gopts s' = (Inl (Sentinel ErrNotFound), s')"
  using d
proof (rule Table_Delete_removes [OF t])
  fix k
  assume "key_in s (tb_name t) (KeyValue_Map key) = Inr k" "key_in s' = key_in s"
    and "\<And>u j. stored s' u j = (if u = tb_name t \<and> j = k then None else stored s u j)"
  with Get_stored [OF t assms(3), of s'] show ?thesis by auto
qed

text \<open>With \<open>IfNotExists\<close> alone a put creates the item or fails: the item at its key had no such attribute.\<close>

lemma put_if_not_exists:
  assumes t: "tb_backend t = be" and p: "Table_Put ms ents t x [IfNotExists a] s = (Inr (), s')" and a: "attr_name a"
  obtains it k where "key_in s (tb_name t) it = Inr k" "stored s' (tb_name t) k = Some it"
    "\<forall>old. stored s (tb_name t) k = Some old \<longrightarrow> fmlookup old a = None"
  using t p
proof (rule Table_Put_stores)
  fix av it k cfg
  assume cfg: "put_config [IfNotExists a] = Inr cfg" and k: "key_in s (tb_name t) it = Inr k"
    and st: "\<And>u j. stored s' u j = (if u = tb_name t \<and> j = k then Some it else stored s u j)"
    and c: "check_condition (pi_ConditionExpression (put_request (tb_name t) it cfg))
      (pi_Names (put_request (tb_name t) it cfg)) (pi_Values (put_request (tb_name t) it cfg))
      (stored s (tb_name t) k) = Inr ()"
  from cfg have "pc_condition cfg = Some (buildAttrNotExists a)"
    by (auto simp: put_config_def IfNotExists_def add_condition_def)
  with c not_exists_condition [OF a refl] have "fmlookup (existing_or_empty (stored s (tb_name t) k)) a = None"
    by (auto simp: put_request_def condition_parts_def check_condition_def buildAttrNotExists_def Let_def bind_Inr_iff
        condition_failed_def newError_def split: if_splits)
  then have "\<forall>old. stored s (tb_name t) k = Some old \<longrightarrow> fmlookup old a = None"
    by (auto simp: existing_or_empty_def)
  with k st that [of it k] show thesis by simp
qed

end

end
