(* ===== verification/UpdateClient.thy ===== *)
theory UpdateClient
  imports Client
begin

text \<open>
  The update operations of the client (\<open>update.go\<close>): the options collect clauses, \<open>buildUpdateRequest\<close> groups
  them by action into the sections of an update expression.  \<open>UpdateRequest\<close> takes the expression
  through the parser of the in-memory backend: it finds the clauses again, in the order of their groups.
\<close>

datatype updateAction = actionSET | actionADD | actionREMOVE | actionDELETE

definition updateAction_String :: "updateAction \<Rightarrow> string" where
  "updateAction_String a =
     (case a of actionSET \<Rightarrow> ''SET'' | actionADD \<Rightarrow> ''ADD'' | actionREMOVE \<Rightarrow> ''REMOVE'' | actionDELETE \<Rightarrow> ''DELETE'')"

text \<open>A clause; the value is \<open>AnyNil\<close> for REMOVE.\<close>

record updateClause =
  uc_action :: updateAction
  uc_attr :: string
  uc_val :: any
  uc_hasVal :: bool

record updateConfig =
  uc_clauses :: "updateClause list"
  uc_condition :: "conditionExpr option"
  uc_returnMode :: string

definition add_clause :: "updateClause \<Rightarrow> updateConfig \<Rightarrow> updateConfig result" where
  "add_clause cl c = Inr (c\<lparr>uc_clauses := uc_clauses c @ [cl]\<rparr>)"

definition opt_Set :: "string \<Rightarrow> any \<Rightarrow> updateConfig \<Rightarrow> updateConfig result" where
  "opt_Set attr v = add_clause \<lparr>uc_action = actionSET, uc_attr = attr, uc_val = v, uc_hasVal = True\<rparr>"

definition opt_Add :: "string \<Rightarrow> any \<Rightarrow> updateConfig \<Rightarrow> updateConfig result" where
  "opt_Add attr v = add_clause \<lparr>uc_action = actionADD, uc_attr = attr, uc_val = v, uc_hasVal = True\<rparr>"

definition opt_Remove :: "string \<Rightarrow> updateConfig \<Rightarrow> updateConfig result" where
  "opt_Remove attr = add_clause \<lparr>uc_action = actionREMOVE, uc_attr = attr, uc_val = AnyNil, uc_hasVal = False\<rparr>"

definition opt_Delete :: "string \<Rightarrow> any \<Rightarrow> updateConfig \<Rightarrow> updateConfig result" where
  "opt_Delete attr v = add_clause \<lparr>uc_action = actionDELETE, uc_attr = attr, uc_val = v, uc_hasVal = True\<rparr>"

definition IfCondition :: "string \<Rightarrow> any list \<Rightarrow> updateConfig \<Rightarrow> updateConfig result" where
  "IfCondition expression vs c =
     bind (must_build ''dynago.IfCondition'' expression vs) (\<lambda>cond.
       Inr (c\<lparr>uc_condition := Some (add_condition cond (uc_condition c))\<rparr>))"

definition ReturnNew :: "updateConfig \<Rightarrow> updateConfig result" where
  "ReturnNew c = Inr (c\<lparr>uc_returnMode := ''ALL_NEW''\<rparr>)"

definition ReturnOld :: "updateConfig \<Rightarrow> updateConfig result" where
  "ReturnOld c = Inr (c\<lparr>uc_returnMode := ''ALL_OLD''\<rparr>)"

definition update_config :: "(updateConfig \<Rightarrow> updateConfig result) list \<Rightarrow> updateConfig result" where
  "update_config opts = apply_opts opts \<lparr>uc_clauses = [], uc_condition = None, uc_returnMode = []\<rparr>"

subsection \<open>The request\<close>

text \<open>The variables of the loop: names, values, the next value index, the groups and their index by action.\<close>

record updateBuilder =
  ub_names :: names
  ub_values :: vals
  ub_valueIdx :: nat
  ub_groups :: "(updateAction \<times> string list) list"
  ub_groupMap :: "(updateAction, nat) fmap"

text \<open>The text of a clause, with the value it binds.\<close>

definition bind_value :: "any \<Rightarrow> updateBuilder \<Rightarrow> (string \<times> updateBuilder) result" where
  "bind_value v b =
     (let ph = placeholder (ub_valueIdx b) in
      bind (anyToAttributeValue v) (\<lambda>av.
        Inr (ph, b\<lparr>ub_valueIdx := Suc (ub_valueIdx b), ub_values := fmupd ph av (ub_values b)\<rparr>)))"

definition clause_part :: "updateClause \<Rightarrow> updateBuilder \<Rightarrow> (string \<times> updateBuilder) result" where
  "clause_part cl b =
     (let alias = CHR ''#'' # uc_attr cl in
      case uc_action cl of
        actionSET \<Rightarrow> bind (bind_value (uc_val cl) b) (\<lambda>(ph, b'). Inr (alias @ '' = '' @ ph, b'))
      | actionADD \<Rightarrow> bind (bind_value (uc_val cl) b) (\<lambda>(ph, b'). Inr (alias @ '' '' @ ph, b'))
      | actionREMOVE \<Rightarrow> Inr (alias, b)
      | actionDELETE \<Rightarrow> bind (bind_value (uc_val cl) b) (\<lambda>(ph, b'). Inr (alias @ '' '' @ ph, b')))"

text \<open>The clause joins the group of its action, which is opened the first time.\<close>

definition add_part :: "updateAction \<Rightarrow> string \<Rightarrow> updateBuilder \<Rightarrow> updateBuilder" where
  "add_part act part b =
     (let (idx, b1) =
        (case fmlookup (ub_groupMap b) act of
           Some i \<Rightarrow> (i, b)
         | None \<Rightarrow> (length (ub_groups b),
             b\<lparr>ub_groups := ub_groups b @ [(act, [])], ub_groupMap := fmupd act (length (ub_groups b)) (ub_groupMap b)\<rparr>))
      in b1\<lparr>ub_groups := (ub_groups b1)[idx := (case ub_groups b1 ! idx of (a, ps) \<Rightarrow> (a, ps @ [part]))]\<rparr>)"

fun build_clauses :: "updateClause list \<Rightarrow> updateBuilder \<Rightarrow> updateBuilder result" where
  "build_clauses [] b = Inr b"
| "build_clauses (cl # cls) b =
     bind (clause_part cl (b\<lparr>ub_names := fmupd (CHR ''#'' # uc_attr cl) (uc_attr cl) (ub_names b)\<rparr>)) (\<lambda>(part, b1).
       build_clauses cls (add_part (uc_action cl) part b1))"

definition section_text :: "updateAction \<times> string list \<Rightarrow> string" where
  "section_text g = updateAction_String (fst g) @ '' '' @ Join (snd g) '', ''"

definition empty_builder :: updateBuilder where
  "empty_builder = \<lparr>ub_names = fmempty, ub_values = fmempty, ub_valueIdx = 0, ub_groups = [], ub_groupMap = fmempty\<rparr>"

definition buildUpdateRequest :: "string \<Rightarrow> KeyValue \<Rightarrow> updateConfig \<Rightarrow> UpdateItemRequest result" where
  "buildUpdateRequest tableName key cfg =
     bind (build_clauses (uc_clauses cfg) empty_builder) (\<lambda>b.
       case condition_parts (uc_condition cfg) of
         (e, nm, vs) \<Rightarrow>
           Inr \<lparr>ui_TableName = tableName, ui_Key = KeyValue_Map key,
             ui_UpdateExpression = Join (map section_text (ub_groups b)) '' '',
             ui_ConditionExpression = e, ui_Names = ub_names b ++\<^sub>f nm, ui_Values = ub_values b ++\<^sub>f vs,
             ui_ReturnValues = []\<rparr>)"

subsection \<open>The operations\<close>

definition Table_Update :: "'s Table \<Rightarrow> KeyValue \<Rightarrow> (updateConfig \<Rightarrow> updateConfig result) list \<Rightarrow> ('s, unit) op" where
  "Table_Update t key opts =
     sbind (sreturn (update_config opts)) (\<lambda>cfg.
       if uc_clauses cfg = [] then
         sreturn (Inl (newError ErrValidation ''dynago.Update: at least one update action is required''))
       else sbind (sreturn (buildUpdateRequest (tb_name t) key cfg)) (\<lambda>req.
         sbind (be_UpdateItem (tb_backend t) (req\<lparr>ui_ReturnValues := ''NONE''\<rparr>)) (\<lambda>_. sreturn (Inr ()))))"

definition UpdateReturning :: "methods \<Rightarrow> gotype \<Rightarrow> 's Table \<Rightarrow> KeyValue \<Rightarrow> (updateConfig \<Rightarrow> updateConfig result) list
    \<Rightarrow> ('s, goval) op" where
  "UpdateReturning ms T t key opts =
     sbind (sreturn (update_config opts)) (\<lambda>cfg.
       if uc_clauses cfg = [] then
         sreturn (Inl (newError ErrValidation ''dynago.UpdateReturning: at least one update action is required''))
       else if uc_returnMode cfg = [] then
         sreturn (Inl (newError ErrValidation ''dynago.UpdateReturning: ReturnNew() or ReturnOld() option is required''))
       else sbind (sreturn (buildUpdateRequest (tb_name t) key cfg)) (\<lambda>req.
         sbind (be_UpdateItem (tb_backend t) (req\<lparr>ui_ReturnValues := uc_returnMode cfg\<rparr>)) (\<lambda>attrs.
           sreturn
             (case attrs of
                None \<Rightarrow> Inr (zero_value T)
              | Some it \<Rightarrow> if it = fmempty then Inr (zero_value T) else Unmarshal ms it T (zero_value T)))))"

end
