(* ===== verification/UpdateRequest.thy ===== *)
theory UpdateRequest
  imports UpdateClient
begin

text \<open>
  The update requests of the client read back by the in-memory backend: the expression that
  \<open>buildUpdateRequest\<close> writes is parsed to the clauses of the options, grouped by action, as long as the
  condition of the request binds none of the placeholders of the clauses.  \<open>clashing_values\<close> shows what
  happens to the values when it does, which is whenever the condition has an argument.
\<close>

subsection \<open>Grouping\<close>

text \<open>The clauses with the indices of their values, and the groups as lists of them.\<close>

fun numbered :: "nat \<Rightarrow> updateClause list \<Rightarrow> (updateClause \<times> nat) list" where
  "numbered i [] = []"
| "numbered i (c # cs) = (c, i) # numbered (if uc_action c = actionREMOVE then i else Suc i) cs"

definition part_text :: "updateClause \<times> nat \<Rightarrow> string" where
  "part_text x =
     (case x of (c, i) \<Rightarrow> (CHR ''#'' # uc_attr c) @
        (case uc_action c of
           actionSET \<Rightarrow> '' = '' @ placeholder i | actionREMOVE \<Rightarrow> []
         | actionADD \<Rightarrow> '' '' @ placeholder i | actionDELETE \<Rightarrow> '' '' @ placeholder i))"

definition render :: "(updateAction \<times> (updateClause \<times> nat) list) list \<Rightarrow> (updateAction \<times> string list) list" where
  "render G = map (\<lambda>(a, xs). (a, map part_text xs)) G"

definition add_group :: "updateClause \<times> nat \<Rightarrow> (updateAction \<times> (updateClause \<times> nat) list) list
    \<Rightarrow> (updateAction \<times> (updateClause \<times> nat) list) list" where
  "add_group x G =
     (let a = uc_action (fst x) in
      if a \<in> fst ` set G then map (\<lambda>(b, xs). (b, if b = a then xs @ [x] else xs)) G else G @ [(a, [x])])"

definition groups_ok :: "(updateAction \<times> (updateClause \<times> nat) list) list \<Rightarrow> updateBuilder \<Rightarrow> bool" where
  "groups_ok G b \<longleftrightarrow>
     ub_groups b = render G \<and> distinct (map fst G) \<and>
     (\<forall>a j. fmlookup (ub_groupMap b) a = Some j \<longleftrightarrow> j < length G \<and> fst (G ! j) = a)"

lemma length_render [simp]: "length (render G) = length G"
  by (simp add: render_def)

lemma nth_render [simp]: "j < length G \<Longrightarrow> render G ! j = (fst (G ! j), map part_text (snd (G ! j)))"
  by (simp add: render_def case_prod_beta)

lemma groups_ok_index:
  "groups_ok G b \<Longrightarrow> fmlookup (ub_groupMap b) a = Some j \<longleftrightarrow> j < length G \<and> fst (G ! j) = a"
  by (simp add: groups_ok_def)

lemma add_part_groups:
  assumes ok: "groups_ok G b"
  shows "groups_ok (add_group x G) (add_part (uc_action (fst x)) (part_text x) b)"
proof (cases "fmlookup (ub_groupMap b) (uc_action (fst x))")
  case None
  have new: "uc_action (fst x) \<notin> fst ` set G"
  proof
    assume "uc_action (fst x) \<in> fst ` set G"
    then obtain j where "j < length G" "fst (G ! j) = uc_action (fst x)" by (auto simp: in_set_conv_nth)
    with groups_ok_index [OF ok, of "uc_action (fst x)" j] None show False by simp
  qed
  have G: "add_group x G = G @ [(uc_action (fst x), [x])]" using new by (simp add: add_group_def)
  have "ub_groups (add_part (uc_action (fst x)) (part_text x) b) = render G @ [(uc_action (fst x), [part_text x])]"
    using None ok by (simp add: add_part_def groups_ok_def list_update_append nth_append)
  moreover have "ub_groupMap (add_part (uc_action (fst x)) (part_text x) b) = fmupd (uc_action (fst x)) (length G) (ub_groupMap b)"
    using None ok by (simp add: add_part_def groups_ok_def)
  moreover have "distinct (map fst (add_group x G))" using ok new by (auto simp: G groups_ok_def)
  moreover have "fmlookup (fmupd (uc_action (fst x)) (length G) (ub_groupMap b)) a = Some j \<longleftrightarrow>
      j < length (add_group x G) \<and> fst (add_group x G ! j) = a" for a j
    using groups_ok_index [OF ok, of a j] new None
    by (cases "j = length G") (auto simp: G nth_append less_Suc_eq)
  ultimately show ?thesis by (simp add: groups_ok_def G render_def)
next
  case (Some j)
  with ok have j: "j < length G" "fst (G ! j) = uc_action (fst x)" by (auto simp: groups_ok_def)
  then have mem: "uc_action (fst x) \<in> fst ` set G" by (metis image_eqI nth_mem)
  have other: "fst (G ! i) = uc_action (fst x) \<longleftrightarrow> i = j" if "i < length G" for i
    using ok j that nth_eq_iff_index_eq [of "map fst G" i j] by (auto simp: groups_ok_def)
  have groups: "(render G)[j := (uc_action (fst x), map part_text (snd (G ! j)) @ [part_text x])] = render (add_group x G)"
  proof (rule nth_equalityI)
    fix i
    assume "i < length ((render G)[j := (uc_action (fst x), map part_text (snd (G ! j)) @ [part_text x])])"
    then have "i < length G" by simp
    with other [OF this] j show "(render G)[j := (uc_action (fst x), map part_text (snd (G ! j)) @ [part_text x])] ! i =
        render (add_group x G) ! i"
      by (auto simp: add_group_def mem nth_list_update case_prod_beta render_def)
  qed (simp add: add_group_def mem render_def)
  have "map fst (add_group x G) = map fst G" by (auto simp: add_group_def mem)
  moreover have "length (add_group x G) = length G" by (simp add: add_group_def mem)
  moreover have "i < length G \<Longrightarrow> fst (add_group x G ! i) = fst (G ! i)" for i
    by (simp add: add_group_def mem case_prod_beta)
  moreover have "ub_groups (add_part (uc_action (fst x)) (part_text x) b) = render (add_group x G)"
    using j Some groups conjunct1 [OF ok [unfolded groups_ok_def]] by (simp add: add_part_def)
  moreover have "ub_groupMap (add_part (uc_action (fst x)) (part_text x) b) = ub_groupMap b"
    using Some by (simp add: add_part_def)
  ultimately show ?thesis
    using ok groups_ok_index [OF ok] unfolding groups_ok_def by (simp cong: conj_cong)
qed

text \<open>The groups in closed form: the actions in the order of their first clauses, each with its clauses.\<close>

definition firsts :: "'a list \<Rightarrow> 'a list" where
  "firsts xs = rev (remdups (rev xs))"

lemma set_firsts [simp]: "set (firsts xs) = set xs"
  by (simp add: firsts_def)

lemma firsts_snoc: "firsts (xs @ [x]) = (if x \<in> set xs then firsts xs else firsts xs @ [x])"
  by (simp add: firsts_def)

lemma fold_add_group:
  "fold add_group xs [] = map (\<lambda>a. (a, filter (\<lambda>x. uc_action (fst x) = a) xs)) (firsts (map (uc_action \<circ> fst) xs))"
proof (induction xs rule: rev_induct)
  case (snoc x xs)
  show ?case
  proof (cases "uc_action (fst x) \<in> set (map (uc_action \<circ> fst) xs)")
    case True
    then show ?thesis using snoc by (auto simp: add_group_def firsts_snoc image_image)
  next
    case False
    then have "\<forall>y \<in> set xs. uc_action (fst y) \<noteq> uc_action (fst x)" by (metis comp_apply image_eqI set_map)
    with False snoc show ?thesis
      by (auto simp: add_group_def firsts_snoc image_image filter_empty_conv intro!: arg_cong [of _ _ "filter _"] filter_cong)
  qed
qed (simp add: firsts_def)

subsection \<open>What the loop leaves\<close>

lemma add_part_keeps [simp]:
  "ub_names (add_part act part b) = ub_names b" "ub_values (add_part act part b) = ub_values b"
  "ub_valueIdx (add_part act part b) = ub_valueIdx b"
  by (simp_all add: add_part_def split: option.split)

lemma clause_part_Inr:
  "clause_part cl b = Inr (part, b1) \<longleftrightarrow>
     part = part_text (cl, ub_valueIdx b) \<and>
     (if uc_action cl = actionREMOVE then b1 = b
      else \<exists>av. anyToAttributeValue (uc_val cl) = Inr av \<and>
        b1 = b\<lparr>ub_valueIdx := Suc (ub_valueIdx b), ub_values := fmupd (placeholder (ub_valueIdx b)) av (ub_values b)\<rparr>)"
  by (cases "uc_action cl") (auto simp: clause_part_def bind_value_def bind_Inr_iff part_text_def Let_def)

text \<open>A clause is bound when its alias and its value resolve.\<close>

definition clause_bound :: "names \<Rightarrow> vals \<Rightarrow> updateClause \<times> nat \<Rightarrow> bool" where
  "clause_bound nm vs x \<longleftrightarrow>
     (case x of (c, i) \<Rightarrow>
        fmlookup nm (CHR ''#'' # uc_attr c) = Some (uc_attr c) \<and>
        (uc_action c \<noteq> actionREMOVE \<longrightarrow>
           (\<exists>av. anyToAttributeValue (uc_val c) = Inr av \<and> fmlookup vs (placeholder i) = Some av)))"

lemma build_clauses_frame:
  assumes "build_clauses cls b = Inr b'" "aliases_ok (ub_names b)"
  shows "aliases_ok (ub_names b') \<and>
    (\<forall>j < ub_valueIdx b. fmlookup (ub_values b') (placeholder j) = fmlookup (ub_values b) (placeholder j)) \<and>
    (\<forall>a. fmlookup (ub_names b) (CHR ''#'' # a) = Some a \<longrightarrow> fmlookup (ub_names b') (CHR ''#'' # a) = Some a)"
  using assms
proof (induction cls b rule: build_clauses.induct)
  case (2 cl cls b)
  let ?b0 = "b\<lparr>ub_names := fmupd (CHR ''#'' # uc_attr cl) (uc_attr cl) (ub_names b)\<rparr>"
  from "2.prems"(1) obtain part b1 where 1: "clause_part cl ?b0 = Inr (part, b1)"
    "build_clauses cls (add_part (uc_action cl) part b1) = Inr b'"
    by (auto simp: bind_Inr_iff)
  with "2.prems"(2) have "aliases_ok (ub_names (add_part (uc_action cl) part b1))"
    by (auto simp: clause_part_Inr split: if_splits)
  from "2.IH" [OF 1(1) refl 1(2) this] 1(1) show ?case
    by (auto simp: clause_part_Inr split: if_splits)
qed simp

lemma build_clauses_groups:
  assumes "build_clauses cls b = Inr b'" "groups_ok G b"
  shows "groups_ok (fold add_group (numbered (ub_valueIdx b) cls) G) b'"
  using assms
proof (induction cls b arbitrary: G rule: build_clauses.induct)
  case (2 cl cls b)
  let ?b0 = "b\<lparr>ub_names := fmupd (CHR ''#'' # uc_attr cl) (uc_attr cl) (ub_names b)\<rparr>"
  from "2.prems"(1) obtain part b1 where 1: "clause_part cl ?b0 = Inr (part, b1)"
    "build_clauses cls (add_part (uc_action cl) part b1) = Inr b'"
    by (auto simp: bind_Inr_iff)
  from 1(1) "2.prems"(2) have "groups_ok G b1" "part = part_text (cl, ub_valueIdx b)"
    "ub_valueIdx b1 = (if uc_action cl = actionREMOVE then ub_valueIdx b else Suc (ub_valueIdx b))"
    by (auto simp: clause_part_Inr groups_ok_def split: if_splits)
  with "2.IH" [OF 1(1) refl 1(2)] add_part_groups [of G b1 "(cl, ub_valueIdx b)"] show ?case by simp
qed simp

lemma build_clauses_bound:
  assumes "build_clauses cls b = Inr b'" "aliases_ok (ub_names b)" "x \<in> set (numbered (ub_valueIdx b) cls)"
  shows "clause_bound (ub_names b') (ub_values b') x"
  using assms
proof (induction cls b rule: build_clauses.induct)
  case (2 cl cls b)
  let ?b0 = "b\<lparr>ub_names := fmupd (CHR ''#'' # uc_attr cl) (uc_attr cl) (ub_names b)\<rparr>"
  from "2.prems"(1) obtain part b1 where 1: "clause_part cl ?b0 = Inr (part, b1)"
    "build_clauses cls (add_part (uc_action cl) part b1) = Inr b'"
    by (auto simp: bind_Inr_iff)
  from 1(1) "2.prems"(2) have al: "aliases_ok (ub_names b1)"
    "fmlookup (ub_names b1) (CHR ''#'' # uc_attr cl) = Some (uc_attr cl)"
    and idx: "ub_valueIdx b1 = (if uc_action cl = actionREMOVE then ub_valueIdx b else Suc (ub_valueIdx b))"
    by (auto simp: clause_part_Inr split: if_splits)
  from build_clauses_frame [OF 1(2)] al(1) have
    frame: "\<forall>j < ub_valueIdx b1. fmlookup (ub_values b') (placeholder j) = fmlookup (ub_values b1) (placeholder j)"
      "\<forall>a. fmlookup (ub_names b1) (CHR ''#'' # a) = Some a \<longrightarrow> fmlookup (ub_names b') (CHR ''#'' # a) = Some a"
    by simp_all
  show ?case
  proof (cases "x = (cl, ub_valueIdx b)")
    case True
    have "clause_bound (ub_names b1) (ub_values b1) x"
      using 1(1) True al(2) by (auto simp: clause_part_Inr clause_bound_def split: if_splits)
    with True idx frame(1) spec [OF frame(2), of "uc_attr cl"] al(2) show ?thesis
      by (auto simp: clause_bound_def split: if_splits)
  next
    case False
    with "2.prems"(3) idx have "x \<in> set (numbered (ub_valueIdx (add_part (uc_action cl) part b1)) cls)" by auto
    from "2.IH" [OF 1(1) refl 1(2) _ this] al(1) show ?thesis by simp
  qed
qed simp

subsection \<open>The expression as tokens\<close>

definition part_toks :: "updateClause \<times> nat \<Rightarrow> string list" where
  "part_toks x =
     (case x of (c, i) \<Rightarrow> (CHR ''#'' # uc_attr c) #
        (case uc_action c of
           actionSET \<Rightarrow> [''='', placeholder i] | actionREMOVE \<Rightarrow> []
         | actionADD \<Rightarrow> [placeholder i] | actionDELETE \<Rightarrow> [placeholder i]))"

lemma part_toks_to:
  assumes "attr_name (uc_attr (fst x))"
  shows "toks_to (part_text x) (part_toks x)"
proof -
  have a: "toks_to (CHR ''#'' # uc_attr (fst x)) [CHR ''#'' # uc_attr (fst x)]"
    using assms by (intro toks_valid) (simp add: valid_tok_def ref_tok_def attr_name_def)
  have p: "toks_to (placeholder (snd x)) [placeholder (snd x)]" by (intro toks_valid valid_placeholder)
  have "toks_to ''='' [''='']"
    by (intro toks_valid) (simp add: valid_tok_def op_tok_def single_char_tok_def)
  with toks_blank [OF a toks_blank [OF this p]] toks_blank [OF a p] a show ?thesis
    by (auto simp: part_text_def part_toks_def split: prod.split updateAction.split)
qed

definition section_toks :: "updateAction \<times> (updateClause \<times> nat) list \<Rightarrow> string list" where
  "section_toks g = updateAction_String (fst g) # comma_sep (map part_toks (snd g))"

lemma section_toks_to:
  assumes "snd g \<noteq> []" "\<forall>x \<in> set (snd g). attr_name (uc_attr (fst x))"
  shows "toks_to (section_text (fst g, map part_text (snd g))) (section_toks g)"
proof -
  have "valid_tok ''SET''" "valid_tok ''ADD''" "valid_tok ''REMOVE''" "valid_tok ''DELETE''" by code_simp+
  then have "toks_to (updateAction_String (fst g)) [updateAction_String (fst g)]"
    by (intro toks_valid) (simp add: updateAction_String_def split: updateAction.split)
  from toks_blank [OF this toks_Join_comma [of "snd g" part_text part_toks]] assms part_toks_to show ?thesis
    by (simp add: section_text_def section_toks_def)
qed

subsection \<open>Parsing it\<close>

definition to_UpdateAction :: "updateAction \<Rightarrow> UpdateAction" where
  "to_UpdateAction a =
     (case a of actionSET \<Rightarrow> SET | actionADD \<Rightarrow> ADD | actionREMOVE \<Rightarrow> REMOVE | actionDELETE \<Rightarrow> DELETE)"

definition op_of :: "vals \<Rightarrow> updateClause \<times> nat \<Rightarrow> updateOp" where
  "op_of vs x =
     \<lparr>uop_action = to_UpdateAction (uc_action (fst x)), uop_path = [uc_attr (fst x)],
      uop_value = (if uc_action (fst x) = actionREMOVE then None
                   else Some (literalValue (the (fmlookup vs (placeholder (snd x))))))\<rparr>"

lemma clause_end_peek: "clause_end ts \<Longrightarrow> peek ts \<notin> {''+'', ''-'', '','', ''='', ''(''}"
proof
  assume "clause_end ts" "peek ts \<in> {''+'', ''-'', '','', ''='', ''(''}"
  then show False
    by (auto simp: clause_end_def isActionKeyword_def) (simp_all add: ToUpper_def up_char_def is_lower_def less_eq_char_def)
qed

lemma placeholder_shape: "\<exists>w. placeholder i = CHR '':'' # w"
  by (simp add: placeholder_def)

lemma clause_starts: "\<not> clause_end ((CHR ''#'' # a) # ts)" "\<not> clause_end (placeholder i # ts)"
proof -
  obtain w where "placeholder i = CHR '':'' # w" using placeholder_shape by blast
  then show "\<not> clause_end ((CHR ''#'' # a) # ts)" "\<not> clause_end (placeholder i # ts)"
    by (simp_all add: clause_end_def isActionKeyword_def peek_def ToUpper_def up_char_def is_lower_def less_eq_char_def)
qed

lemma resolve_alias:
  "fmlookup nm (CHR ''#'' # a) = Some a \<Longrightarrow> attr_name a \<Longrightarrow> resolvePath nm (CHR ''#'' # a) = [a]"
  by (simp add: resolvePath_def SplitChar_no_sep attr_name_plain)

lemma resolve_placeholder:
  "fmlookup vs (placeholder i) = Some av \<Longrightarrow> resolveVal nm vs (placeholder i) = Inr (literalValue av)"
  by (simp add: resolveVal_def placeholder_def)

lemma parseSetValue_placeholder:
  assumes "fmlookup vs (placeholder i) = Some av" "peek rest \<notin> {''+'', ''-''}"
  shows "parseSetValue (Suc (Suc n)) nm vs (placeholder i # rest) = Inr (literalValue av, rest)"
proof -
  obtain w where "placeholder i = CHR '':'' # w" using placeholder_shape by blast
  with assms resolve_placeholder [OF assms(1)] show ?thesis by (simp add: peek_def)
qed

text \<open>The tokens of clauses, followed by what ends the section.\<close>

lemma comma_sep_Cons: "comma_sep (ts # tss) = ts @ (if tss = [] then [] else '','' # comma_sep tss)"
  by (cases tss) auto

lemma after_part:
  assumes "clause_end rest"
  shows "peek ((if tss = [] then [] else '','' # comma_sep tss) @ rest) \<notin> {''+'', ''-''}"
    "skip_comma ((if tss = [] then [] else '','' # comma_sep tss) @ rest) = comma_sep tss @ rest"
  using clause_end_peek [OF assms] by (auto simp: skip_comma_def peek_def)

text \<open>The parser asks only that the placeholder has a value.\<close>

definition clause_placed :: "names \<Rightarrow> vals \<Rightarrow> updateClause \<times> nat \<Rightarrow> bool" where
  "clause_placed nm vs x \<longleftrightarrow>
     fmlookup nm (CHR ''#'' # uc_attr (fst x)) = Some (uc_attr (fst x)) \<and>
     (uc_action (fst x) \<noteq> actionREMOVE \<longrightarrow> fmlookup vs (placeholder (snd x)) \<noteq> None)"

lemma clause_bound_placed: "clause_bound nm vs x \<Longrightarrow> clause_placed nm vs x"
  by (auto simp: clause_bound_def clause_placed_def split: prod.splits)

definition clause_ok :: "names \<Rightarrow> vals \<Rightarrow> updateClause \<times> nat \<Rightarrow> bool" where
  "clause_ok nm vs x \<longleftrightarrow> clause_placed nm vs x \<and> attr_name (uc_attr (fst x))"

lemma clause_okD:
  assumes "clause_ok nm vs x"
  shows "resolvePath nm (CHR ''#'' # uc_attr (fst x)) = [uc_attr (fst x)]"
    and "uc_action (fst x) \<noteq> actionREMOVE \<Longrightarrow> fmlookup vs (placeholder (snd x)) = Some (the (fmlookup vs (placeholder (snd x))))"
  using assms resolve_alias by (auto simp: clause_ok_def clause_placed_def)

lemma parse_set_section:
  assumes "\<forall>x \<in> set xs. clause_ok nm vs x \<and> uc_action (fst x) = actionSET" "clause_end rest" "length xs < n"
  shows "parseSetClauses n nm vs ops (comma_sep (map part_toks xs) @ rest) = Inr (ops @ map (op_of vs) xs, rest)"
  using assms(1,3)
proof (induction xs arbitrary: n ops)
  case Nil
  with assms(2) show ?case by (cases n) auto
next
  case (Cons x xs)
  then obtain m where n: "n = Suc m" "length xs < m" by (cases n) auto
  define more where "more = (if map part_toks xs = [] then [] else '','' # comma_sep (map part_toks xs)) @ rest"
  have x: "clause_ok nm vs x" "uc_action (fst x) = actionSET" using Cons.prems by auto
  then have toks: "comma_sep (map part_toks (x # xs)) @ rest = (CHR ''#'' # uc_attr (fst x)) # ''='' # placeholder (snd x) # more"
    by (simp add: comma_sep_Cons part_toks_def case_prod_beta more_def)
  have v: "parseSetValue (set_fuel (placeholder (snd x) # more)) nm vs (placeholder (snd x) # more) =
      Inr (literalValue (the (fmlookup vs (placeholder (snd x)))), more)"
    using parseSetValue_placeholder [OF clause_okD(2) [OF x(1)] after_part(1) [OF assms(2), of "map part_toks xs", folded more_def],
        of "3 * length more + 4"] x(2)
    by (simp add: set_fuel_def)
  have eq: "expect_peek ''='' (''='' # u) = Inr u" for u by (simp add: expect_peek_def peek_def)
  show ?case
    unfolding toks n(1)
    using Cons.IH [of m "ops @ [op_of vs x]"] Cons.prems n(2) x clause_okD(1) [OF x(1)]
    by (simp add: clause_starts eq v after_part(2) [OF assms(2), of "map part_toks xs", folded more_def] op_of_def to_UpdateAction_def del: comma_sep.simps)
qed

lemma parse_value_section:
  assumes "\<forall>x \<in> set xs. clause_ok nm vs x \<and> uc_action (fst x) = act" "act \<in> {actionADD, actionDELETE}"
    "clause_end rest" "length xs < n"
  shows "parseAddDeleteClauses n (to_UpdateAction act) nm vs ops (comma_sep (map part_toks xs) @ rest) =
    Inr (ops @ map (op_of vs) xs, rest)"
  using assms(1,4)
proof (induction xs arbitrary: n ops)
  case Nil
  with assms(3) show ?case by (cases n) auto
next
  case (Cons x xs)
  then obtain m where n: "n = Suc m" "length xs < m" by (cases n) auto
  define more where "more = (if map part_toks xs = [] then [] else '','' # comma_sep (map part_toks xs)) @ rest"
  have x: "clause_ok nm vs x" "uc_action (fst x) = act" using Cons.prems by auto
  then have toks: "comma_sep (map part_toks (x # xs)) @ rest = (CHR ''#'' # uc_attr (fst x)) # placeholder (snd x) # more"
    using assms(2) by (auto simp: comma_sep_Cons part_toks_def case_prod_beta more_def)
  have v: "resolveVal nm vs (placeholder (snd x)) = Inr (literalValue (the (fmlookup vs (placeholder (snd x)))))"
    using resolve_placeholder clause_okD(2) [OF x(1)] x(2) assms(2) by auto
  show ?case
    unfolding toks n(1)
    using Cons.IH [of m "ops @ [op_of vs x]"] Cons.prems n(2) x clause_okD(1) [OF x(1)] assms(2)
    by (auto simp: clause_starts v after_part(2) [OF assms(3), of "map part_toks xs", folded more_def] op_of_def to_UpdateAction_def simp del: comma_sep.simps)
qed

lemma parse_remove_section:
  assumes "\<forall>x \<in> set xs. clause_ok nm vs x \<and> uc_action (fst x) = actionREMOVE" "clause_end rest" "length xs < n"
  shows "parseRemoveClauses n nm ops (comma_sep (map part_toks xs) @ rest) = Inr (ops @ map (op_of vs) xs, rest)"
  using assms(1,3)
proof (induction xs arbitrary: n ops)
  case Nil
  with assms(2) show ?case by (cases n) auto
next
  case (Cons x xs)
  then obtain m where n: "n = Suc m" "length xs < m" by (cases n) auto
  define more where "more = (if map part_toks xs = [] then [] else '','' # comma_sep (map part_toks xs)) @ rest"
  have x: "clause_ok nm vs x" "uc_action (fst x) = actionREMOVE" using Cons.prems by auto
  then have toks: "comma_sep (map part_toks (x # xs)) @ rest = (CHR ''#'' # uc_attr (fst x)) # more"
    by (simp add: comma_sep_Cons part_toks_def case_prod_beta more_def)
  show ?case
    unfolding toks n(1)
    using Cons.IH [of m "ops @ [op_of vs x]"] Cons.prems n(2) x clause_okD(1) [OF x(1)]
    by (simp add: clause_starts after_part(2) [OF assms(2), of "map part_toks xs", folded more_def] op_of_def to_UpdateAction_def del: comma_sep.simps)
qed


text \<open>The sections.  Each has a clause, and what follows a section starts with an action or is empty.\<close>

lemma section_end: "clause_end (concat (map section_toks G))"
proof (cases G)
  case (Cons g G')
  have "isActionKeyword ''SET''" "isActionKeyword ''ADD''" "isActionKeyword ''REMOVE''" "isActionKeyword ''DELETE''"
    by code_simp+
  with Cons show ?thesis
    by (simp add: clause_end_def section_toks_def peek_def updateAction_String_def split: updateAction.split)
qed (simp add: clause_end_def peek_def)

lemma comma_sep_length: "\<forall>ts \<in> set tss. ts \<noteq> [] \<Longrightarrow> length tss \<le> length (comma_sep tss)"
  by (induction tss rule: comma_sep.induct) (auto simp: Suc_le_eq)

lemma part_toks_nonempty [simp]: "part_toks x \<noteq> []"
  by (simp add: part_toks_def split: prod.split)

lemma parse_sections:
  assumes "\<forall>g \<in> set G. \<forall>x \<in> set (snd g). clause_ok nm vs x \<and> uc_action (fst x) = fst g" "length G < n"
  shows "parseSections n nm vs ops (concat (map section_toks G)) = Inr (ops @ map (op_of vs) (concat (map snd G)))"
  using assms
proof (induction G arbitrary: n ops)
  case Nil
  then show ?case by (cases n) auto
next
  case (Cons g G)
  then obtain m where n: "n = Suc m" "length G < m" by (cases n) auto
  define rest where "rest = concat (map section_toks G)"
  let ?ts = "comma_sep (map part_toks (snd g)) @ rest"
  have g: "\<forall>x \<in> set (snd g). clause_ok nm vs x \<and> uc_action (fst x) = fst g" using Cons.prems by simp
  have fuel: "length (snd g) < clause_fuel ?ts"
    using comma_sep_length [of "map part_toks (snd g)"] by (simp add: clause_fuel_def)
  have up: "ToUpper ''SET'' = ''SET''" "ToUpper ''ADD'' = ''ADD''" "ToUpper ''REMOVE'' = ''REMOVE''"
    "ToUpper ''DELETE'' = ''DELETE''" by code_simp+
  have toks: "concat (map section_toks (g # G)) = updateAction_String (fst g) # ?ts"
    by (simp add: section_toks_def rest_def)
  have end_rest: "clause_end rest" using section_end by (simp add: rest_def)
  have "parseSections m nm vs (ops @ map (op_of vs) (snd g)) rest =
      Inr (ops @ map (op_of vs) (snd g) @ map (op_of vs) (concat (map snd G)))"
    using Cons.IH [of m "ops @ map (op_of vs) (snd g)"] Cons.prems n by (simp add: rest_def)
  then show ?case
    unfolding toks n(1) using g
      parse_set_section [OF _ end_rest fuel, of nm vs "[]"]
      parse_value_section [OF _ _ end_rest fuel, of nm vs "fst g" "[]"]
      parse_remove_section [OF _ end_rest fuel, of nm vs "[]"]
    by (cases "fst g") (simp_all add: updateAction_String_def up to_UpdateAction_def del: comma_sep.simps)
qed

subsection \<open>The request means its clauses\<close>

text \<open>The values a built condition binds: one per argument, numbered from zero.\<close>

lemma translate_loop_values:
  "translate_loop ts vs cb = Inr (out, left, cb') \<Longrightarrow>
   \<exists>used. vs = used @ left \<and>
     (\<forall>j < length used. \<exists>av. anyToAttributeValue (used ! j) = Inr av \<and>
        fmlookup (cb_values cb') (placeholder (cb_valueIdx cb + j)) = Some av) \<and>
     (\<forall>j \<ge> cb_valueIdx cb + length used. fmlookup (cb_values cb') (placeholder j) = fmlookup (cb_values cb) (placeholder j))"
proof (induction ts vs cb arbitrary: out rule: translate_induct)
  case (val t ts vs cb)
  from val(1,2,4) show ?case
  proof (rule translate_val)
    fix v vs' av out'
    assume v: "vs = v # vs'" "anyToAttributeValue v = Inr av"
      and step: "translate_loop ts vs' (with_value av cb) = Inr (out', left, cb')"
    from val(3) [OF v(1) step] obtain used where used: "vs' = used @ left"
      "\<forall>j < length used. \<exists>av. anyToAttributeValue (used ! j) = Inr av \<and>
        fmlookup (cb_values cb') (placeholder (Suc (cb_valueIdx cb) + j)) = Some av"
      "\<forall>j \<ge> Suc (cb_valueIdx cb) + length used.
        fmlookup (cb_values cb') (placeholder j) = fmlookup (cb_values (with_value av cb)) (placeholder j)"
      by auto
    have "fmlookup (cb_values cb') (placeholder (cb_valueIdx cb)) = Some av"
      using translate_loop_keeps_values [OF step, of "cb_valueIdx cb"] by simp
    then have "\<exists>w. anyToAttributeValue ((v # used) ! j) = Inr w \<and>
        fmlookup (cb_values cb') (placeholder (cb_valueIdx cb + j)) = Some w" if "j < length (v # used)" for j
      using used(2) v(2) that by (cases j) auto
    moreover have "fmlookup (cb_values cb') (placeholder j) = fmlookup (cb_values cb) (placeholder j)"
      if "cb_valueIdx cb + length (v # used) \<le> j" for j
      using used(3) that by auto
    ultimately show ?case using v(1) used(1) by (intro exI [of _ "v # used"]) simp
  qed
next
  case (Nil vs cb)
  then show ?case by (intro exI [of _ "[]"]) auto
qed (auto simp: translate_step)

lemma buildCondition_parts:
  assumes "buildCondition e vals = Inr ce"
  shows "aliases_ok (ce_names ce)"
    and "j < length vals \<Longrightarrow> \<exists>av. anyToAttributeValue (vals ! j) = Inr av \<and> fmlookup (ce_values ce) (placeholder j) = Some av"
    and "length vals \<le> j \<Longrightarrow> fmlookup (ce_values ce) (placeholder j) = None"
proof -
  let ?cb = "\<lparr>cb_names = fmempty, cb_values = fmempty, cb_valueIdx = 0\<rparr>"
  from assms obtain out cb where t: "translate_loop (tokenizeExpr e) vals ?cb = Inr (out, [], cb)"
    and ce: "ce_names ce = cb_names cb" "ce_values ce = cb_values cb"
    by (auto simp: buildCondition_def translate_def bind_Inr_iff split: if_splits)
  show "aliases_ok (ce_names ce)" using translate_loop_aliases [OF t] ce by simp
  from translate_loop_values [OF t] show
    "j < length vals \<Longrightarrow> \<exists>av. anyToAttributeValue (vals ! j) = Inr av \<and> fmlookup (ce_values ce) (placeholder j) = Some av"
    "length vals \<le> j \<Longrightarrow> fmlookup (ce_values ce) (placeholder j) = None"
    by (auto simp: ce)
qed

text \<open>What a clause asks for.\<close>

definition clause_op :: "updateClause \<Rightarrow> updateOp \<Rightarrow> bool" where
  "clause_op c op \<longleftrightarrow>
     uop_action op = to_UpdateAction (uc_action c) \<and> uop_path op = [uc_attr c] \<and>
     (if uc_action c = actionREMOVE then uop_value op = None
      else \<exists>av. anyToAttributeValue (uc_val c) = Inr av \<and> uop_value op = Some (literalValue av))"

text \<open>The clauses by action: the actions in the order of their first clauses.\<close>

definition by_action :: "updateClause list \<Rightarrow> updateClause list" where
  "by_action cls = concat (map (\<lambda>a. filter (\<lambda>c. uc_action c = a) cls) (firsts (map uc_action cls)))"

lemma map_fst_numbered [simp]: "map fst (numbered i cls) = cls"
  by (induction i cls rule: numbered.induct) auto

lemma numbered_actions: "map (uc_action \<circ> fst) (numbered i cls) = map uc_action cls"
  by (metis map_fst_numbered map_map)

lemma set_numbered: "x \<in> set (numbered i cls) \<Longrightarrow> fst x \<in> set cls"
  by (metis image_eqI list.set_map map_fst_numbered)

lemma in_numbered: "c \<in> set cls \<Longrightarrow> \<exists>i. (c, i) \<in> set (numbered k cls)"
  by (induction k cls rule: numbered.induct) auto

text \<open>The condition binds none of the placeholders of the clauses.\<close>

definition no_clash :: "conditionExpr option \<Rightarrow> bool" where
  "no_clash cond \<longleftrightarrow>
     (case cond of
        None \<Rightarrow> True
      | Some c \<Rightarrow> aliases_ok (ce_names c) \<and> (\<forall>i. fmlookup (ce_values c) (placeholder i) = None))"

lemma buildUpdateRequest_Inr:
  assumes "buildUpdateRequest tn key cfg = Inr req"
  obtains b where "build_clauses (uc_clauses cfg) empty_builder = Inr b"
    and "ui_UpdateExpression req = Join (map section_text (ub_groups b)) '' ''"
    and "ui_ConditionExpression req = fst (condition_parts (uc_condition cfg))"
    and "ui_Names req = ub_names b ++\<^sub>f fst (snd (condition_parts (uc_condition cfg)))"
    and "ui_Values req = ub_values b ++\<^sub>f snd (snd (condition_parts (uc_condition cfg)))"
    and "ui_TableName req = tn" "ui_Key req = KeyValue_Map key"
  using assms by (cases "condition_parts (uc_condition cfg)") (auto simp: buildUpdateRequest_def bind_Inr_iff)

lemma built_request:
  assumes "buildUpdateRequest tn key cfg = Inr req" "\<forall>c \<in> set (uc_clauses cfg). attr_name (uc_attr c)"
    and bound: "\<And>b x. build_clauses (uc_clauses cfg) empty_builder = Inr b \<Longrightarrow>
      x \<in> set (numbered 0 (uc_clauses cfg)) \<Longrightarrow> clause_placed (ui_Names req) (ui_Values req) x"
  shows "parseUpdateExpression (ui_UpdateExpression req) (ui_Names req) (ui_Values req) =
    Inr (map (op_of (ui_Values req)) (concat (map snd (fold add_group (numbered 0 (uc_clauses cfg)) []))))"
proof -
  let ?xs = "numbered 0 (uc_clauses cfg)"
  define G where "G = fold add_group ?xs []"
  from assms(1) obtain b where b: "build_clauses (uc_clauses cfg) empty_builder = Inr b"
    and e: "ui_UpdateExpression req = Join (map section_text (ub_groups b)) '' ''"
    by (rule buildUpdateRequest_Inr)
  have "groups_ok [] empty_builder" by (simp add: groups_ok_def empty_builder_def render_def)
  from build_clauses_groups [OF b this] have groups: "ub_groups b = render G"
    by (simp add: groups_ok_def G_def empty_builder_def)
  have G: "G = map (\<lambda>a. (a, filter (\<lambda>x. uc_action (fst x) = a) ?xs)) (firsts (map uc_action (uc_clauses cfg)))"
    unfolding G_def fold_add_group numbered_actions ..
  have ok: "\<forall>g \<in> set G. \<forall>x \<in> set (snd g). clause_ok (ui_Names req) (ui_Values req) x \<and> uc_action (fst x) = fst g"
    using bound [OF b] assms(2) set_numbered [of _ 0 "uc_clauses cfg"] by (auto simp: G clause_ok_def)
  have ne: "\<forall>g \<in> set G. snd g \<noteq> []"
  proof
    fix g
    assume "g \<in> set G"
    then obtain c where c: "c \<in> set (uc_clauses cfg)" "snd g = filter (\<lambda>x. uc_action (fst x) = uc_action c) ?xs"
      by (auto simp: G)
    from in_numbered [OF c(1), of 0] obtain i where "(c, i) \<in> set ?xs" by blast
    then have "(c, i) \<in> set (snd g)" by (simp add: c(2))
    then show "snd g \<noteq> []" by auto
  qed
  have sect: "toks_to (section_text (fst g, map part_text (snd g))) (section_toks g)" if "g \<in> set G" for g
    using section_toks_to [of g] ne ok that by (auto simp: clause_ok_def)
  have "mem_tokenizeExpr (ui_UpdateExpression req) = concat (map section_toks G)"
  proof (cases "G = []")
    case False
    with toks_Join_blank [of G "\<lambda>g. section_text (fst g, map part_text (snd g))" section_toks] sect
    have "toks_to (ui_UpdateExpression req) (concat (map section_toks G))"
      by (simp add: e groups render_def case_prod_beta comp_def)
    from this [unfolded toks_to_def, rule_format, of "[]"] show ?thesis by simp
  qed (simp add: e groups render_def)
  moreover have "length G \<le> length (concat (map section_toks G))"
    by (induction G) (auto simp: section_toks_def)
  ultimately show ?thesis
    using parse_sections [OF ok, of "clause_fuel (concat (map section_toks G))" "[]"]
    by (simp add: parseUpdateExpression_def Let_def clause_fuel_def G_def)
qed


lemma update_clauses_parse:
  assumes req: "buildUpdateRequest tn key cfg = Inr req" and names: "\<forall>c \<in> set (uc_clauses cfg). attr_name (uc_attr c)"
    and clash: "no_clash (uc_condition cfg)"
  shows "\<exists>ops. parseUpdateExpression (ui_UpdateExpression req) (ui_Names req) (ui_Values req) = Inr ops \<and>
    list_all2 clause_op (by_action (uc_clauses cfg)) ops"
proof -
  let ?xs = "numbered 0 (uc_clauses cfg)"
  have bound: "clause_bound (ui_Names req) (ui_Values req) x"
    if b: "build_clauses (uc_clauses cfg) empty_builder = Inr b" and x: "x \<in> set ?xs" for b x
  proof -
    from req obtain b' where b': "build_clauses (uc_clauses cfg) empty_builder = Inr b'"
      "ui_Names req = ub_names b' ++\<^sub>f fst (snd (condition_parts (uc_condition cfg)))"
      "ui_Values req = ub_values b' ++\<^sub>f snd (snd (condition_parts (uc_condition cfg)))"
      by (rule buildUpdateRequest_Inr)
    then have "b' = b" using b by simp
    have "clause_bound (ub_names b) (ub_values b) x"
      using build_clauses_bound [OF b _ , of x] x by (simp add: empty_builder_def)
    moreover have "aliases_ok (fst (snd (condition_parts (uc_condition cfg))))"
      "fmlookup (snd (snd (condition_parts (uc_condition cfg)))) (placeholder i) = None" for i
      using clash by (auto simp: no_clash_def condition_parts_def split: option.splits)
    ultimately show ?thesis
      using aliases_okD by (cases x) (fastforce simp: clause_bound_def b'(2,3) \<open>b' = b\<close> dest: fmdomI)
  qed
  define ops where "ops = map (op_of (ui_Values req)) (concat (map snd (fold add_group ?xs [])))"
  have parse: "parseUpdateExpression (ui_UpdateExpression req) (ui_Names req) (ui_Values req) = Inr ops"
    unfolding ops_def using req names clause_bound_placed [OF bound] by (rule built_request)
  have op: "clause_op (fst x) (op_of (ui_Values req) x)" if "x \<in> set ?xs" for x
  proof -
    from req obtain b where "build_clauses (uc_clauses cfg) empty_builder = Inr b" by (rule buildUpdateRequest_Inr)
    from bound [OF this that] show ?thesis by (auto simp: clause_op_def op_of_def clause_bound_def split: prod.splits)
  qed
  have "by_action (uc_clauses cfg) = map fst (concat (map snd (fold add_group ?xs [])))"
  proof -
    have "filter (\<lambda>c. uc_action c = a) (uc_clauses cfg) = map fst (filter (\<lambda>x. uc_action (fst x) = a) ?xs)" for a
      using filter_map [of "\<lambda>c. uc_action c = a" fst ?xs] by (simp add: comp_def)
    then show ?thesis
      unfolding fold_add_group numbered_actions by_action_def by (simp add: map_concat comp_def)
  qed
  moreover have "list_all2 clause_op (map fst zs) (map (op_of (ui_Values req)) zs)" if "set zs \<subseteq> set ?xs" for zs
    using that op by (induction zs) auto
  moreover have "set (concat (map snd (fold add_group ?xs []))) \<subseteq> set ?xs"
    unfolding fold_add_group by auto
  ultimately show ?thesis using parse by (auto simp: ops_def)
qed

text \<open>Where the condition has arguments its values take the place of those of the first clauses.\<close>

lemma clashing_values:
  assumes req: "buildUpdateRequest tn key cfg = Inr req" and cond: "uc_condition cfg = Some ce"
    and ce: "buildCondition e vals = Inr ce" and j: "j < length vals"
  shows "\<exists>av. anyToAttributeValue (vals ! j) = Inr av \<and> fmlookup (ui_Values req) (placeholder j) = Some av"
proof -
  from req obtain b where "build_clauses (uc_clauses cfg) empty_builder = Inr b"
    and "ui_Values req = ub_values b ++\<^sub>f snd (snd (condition_parts (uc_condition cfg)))"
    by (rule buildUpdateRequest_Inr)
  then have "ui_Values req = ub_values b ++\<^sub>f ce_values ce" by (simp add: cond condition_parts_def)
  moreover from buildCondition_parts(2) [OF ce j] obtain av where
    "anyToAttributeValue (vals ! j) = Inr av" "fmlookup (ce_values ce) (placeholder j) = Some av" by blast
  ultimately show ?thesis by (auto dest: fmdomI)
qed

text \<open>So a SET under a condition with an argument stores that argument.\<close>

lemma clashing_set:
  assumes cfg: "update_config [opt_Set a v, IfCondition e (w # ws)] = Inr cfg" and a: "attr_name a"
    and req: "buildUpdateRequest tn key cfg = Inr req"
  shows "\<exists>wv. anyToAttributeValue w = Inr wv \<and>
    parseUpdateExpression (ui_UpdateExpression req) (ui_Names req) (ui_Values req) =
      Inr [\<lparr>uop_action = to_UpdateAction actionSET, uop_path = [a], uop_value = Some (literalValue wv)\<rparr>]"
proof -
  let ?cl = "\<lparr>uc_action = actionSET, uc_attr = a, uc_val = v, uc_hasVal = True\<rparr>"
  from cfg obtain ce where ce: "buildCondition e (w # ws) = Inr ce" "uc_clauses cfg = [?cl]" "uc_condition cfg = Some ce"
    by (auto simp: update_config_def opt_Set_def add_clause_def IfCondition_def must_build_def add_condition_def
        split: sum.splits)
  from clashing_values [OF req ce(3,1), of 0] obtain wv where
    wv: "anyToAttributeValue w = Inr wv" "fmlookup (ui_Values req) (placeholder 0) = Some wv" by auto
  have placed: "clause_placed (ui_Names req) (ui_Values req) x" if "x \<in> set (numbered 0 (uc_clauses cfg))" for x
  proof -
    from req obtain b where b: "build_clauses (uc_clauses cfg) empty_builder = Inr b"
      and names: "ui_Names req = ub_names b ++\<^sub>f ce_names ce"
      by (rule buildUpdateRequest_Inr) (simp add: ce(3) condition_parts_def)
    have "clause_bound (ub_names b) (ub_values b) x"
      using build_clauses_bound [OF b, of x] that by (simp add: empty_builder_def)
    with that wv(2) aliases_okD [OF buildCondition_parts(1) [OF ce(1)], of a] show ?thesis
      by (auto simp: clause_placed_def clause_bound_def ce(2) names dest: fmdomI)
  qed
  have "\<forall>c \<in> set (uc_clauses cfg). attr_name (uc_attr c)" using a by (simp add: ce(2))
  from built_request [OF req this placed] wv show ?thesis
    by (simp add: ce(2) add_group_def op_of_def)
qed

end
