(* ===== verification/QueryClient.thy ===== *)
theory QueryClient
  imports Client
begin

text \<open>
  Queries and scans of the client (\<open>query.go\<close>, \<open>scan.go\<close>), their iterators (\<open>iter.go\<close>) and collections of
  registered types (\<open>collection.go\<close>).

  The loops over pages end when the backend says so, so they are bounded by fuel; \<open>OutOfFuel\<close> is no outcome
  of the code.  \<open>QueryPages\<close> shows how much fuel the in-memory backend needs.  An iterator is given its
  \<open>yield\<close> function as a consumer with a state, which says whether to go on; what it returns is the state the
  consumer is left in.  A panic while decoding ends every loop, also those that skip or yield errors.
\<close>

subsection \<open>Key conditions\<close>

record KeyCondition =
  partitionAttr :: string
  partitionVal :: AttributeValue
  sortCond :: "conditionExpr option"

definition Partition :: "string \<Rightarrow> any \<Rightarrow> KeyCondition result" where
  "Partition attr v =
     bind (toAttributeValue v) (\<lambda>av. Inr \<lparr>partitionAttr = attr, partitionVal = av, sortCond = None\<rparr>)"

definition sortCompare :: "string \<Rightarrow> string \<Rightarrow> any \<Rightarrow> conditionExpr result" where
  "sortCompare attr oper v =
     (let alias = CHR ''#'' # attr in
      bind (toAttributeValue v) (\<lambda>av.
        Inr \<lparr>ce_expression = alias @ '' '' @ oper @ '' :sk0'', ce_names = fmupd alias attr fmempty,
             ce_values = fmupd '':sk0'' av fmempty\<rparr>))"

definition set_sort :: "KeyCondition \<Rightarrow> conditionExpr result \<Rightarrow> KeyCondition result" where
  "set_sort kc r = bind r (\<lambda>c. Inr (kc\<lparr>sortCond := Some c\<rparr>))"

definition SortEquals :: "string \<Rightarrow> any \<Rightarrow> KeyCondition \<Rightarrow> KeyCondition result" where
  "SortEquals attr v kc = set_sort kc (sortCompare attr ''='' v)"

definition SortBeginsWith :: "string \<Rightarrow> any \<Rightarrow> KeyCondition \<Rightarrow> KeyCondition result" where
  "SortBeginsWith attr p kc =
     (let alias = CHR ''#'' # attr in
      set_sort kc (bind (toAttributeValue p) (\<lambda>av.
        Inr \<lparr>ce_expression = ''begins_with('' @ alias @ '', :sk0)'', ce_names = fmupd alias attr fmempty,
             ce_values = fmupd '':sk0'' av fmempty\<rparr>)))"

definition SortBetween :: "string \<Rightarrow> any \<Rightarrow> any \<Rightarrow> KeyCondition \<Rightarrow> KeyCondition result" where
  "SortBetween attr low high kc =
     (let alias = CHR ''#'' # attr in
      set_sort kc (bind (toAttributeValue low) (\<lambda>lo. bind (toAttributeValue high) (\<lambda>hi.
        Inr \<lparr>ce_expression = alias @ '' BETWEEN :sk0 AND :sk1'', ce_names = fmupd alias attr fmempty,
             ce_values = fmupd '':sk1'' hi (fmupd '':sk0'' lo fmempty)\<rparr>))))"

definition SortGreaterThan :: "string \<Rightarrow> any \<Rightarrow> KeyCondition \<Rightarrow> KeyCondition result" where
  "SortGreaterThan attr v kc = set_sort kc (sortCompare attr ''>'' v)"

definition SortLessThan :: "string \<Rightarrow> any \<Rightarrow> KeyCondition \<Rightarrow> KeyCondition result" where
  "SortLessThan attr v kc = set_sort kc (sortCompare attr ''<'' v)"

definition SortGreaterOrEqual :: "string \<Rightarrow> any \<Rightarrow> KeyCondition \<Rightarrow> KeyCondition result" where
  "SortGreaterOrEqual attr v kc = set_sort kc (sortCompare attr ''>='' v)"

definition SortLessOrEqual :: "string \<Rightarrow> any \<Rightarrow> KeyCondition \<Rightarrow> KeyCondition result" where
  "SortLessOrEqual attr v kc = set_sort kc (sortCompare attr ''<='' v)"

subsection \<open>Query options\<close>

record queryConfig =
  qc_filter :: "conditionExpr option"
  qc_limit :: int32
  qc_scanForward :: "bool option"
  qc_indexName :: string
  qc_projection :: "string list"
  qc_consistentRead :: bool

definition QueryFilter :: "string \<Rightarrow> any list \<Rightarrow> queryConfig \<Rightarrow> queryConfig result" where
  "QueryFilter expression vs c =
     bind (must_build ''dynago.QueryFilter'' expression vs) (\<lambda>cond.
       Inr (c\<lparr>qc_filter := Some (add_condition cond (qc_filter c))\<rparr>))"

text \<open>The limit is an \<open>int\<close>, of which the conversion keeps 32 bits.\<close>

definition QueryLimit :: "int \<Rightarrow> queryConfig \<Rightarrow> queryConfig result" where
  "QueryLimit n c = Inr (c\<lparr>qc_limit := word_of_int n\<rparr>)"

definition ScanForward :: "bool \<Rightarrow> queryConfig \<Rightarrow> queryConfig result" where
  "ScanForward forward c = Inr (c\<lparr>qc_scanForward := Some forward\<rparr>)"

definition QueryIndex :: "string \<Rightarrow> queryConfig \<Rightarrow> queryConfig result" where
  "QueryIndex name c = Inr (c\<lparr>qc_indexName := name\<rparr>)"

definition QueryProject :: "string list \<Rightarrow> queryConfig \<Rightarrow> queryConfig result" where
  "QueryProject attrs c = Inr (c\<lparr>qc_projection := qc_projection c @ attrs\<rparr>)"

definition QueryConsistentRead :: "queryConfig \<Rightarrow> queryConfig result" where
  "QueryConsistentRead c = Inr (c\<lparr>qc_consistentRead := True\<rparr>)"

definition query_config :: "(queryConfig \<Rightarrow> queryConfig result) list \<Rightarrow> queryConfig result" where
  "query_config opts = apply_opts opts
     \<lparr>qc_filter = None, qc_limit = 0, qc_scanForward = None, qc_indexName = [], qc_projection = [],
      qc_consistentRead = False\<rparr>"

definition projection_parts :: "string list \<Rightarrow> string \<times> names" where
  "projection_parts attrs = (if attrs = [] then ([], fmempty) else buildProjection attrs)"

definition buildQueryRequest :: "string \<Rightarrow> KeyCondition \<Rightarrow> queryConfig \<Rightarrow> item \<Rightarrow> QueryRequest" where
  "buildQueryRequest tableName key cfg startKey =
     (let pkAlias = CHR ''#'' # partitionAttr key;
          keyExpr = pkAlias @ '' = :pk0'';
          (sortExpr, sortNames, sortVals) = condition_parts (sortCond key);
          (filterExpr, filterNames, filterVals) = condition_parts (qc_filter cfg);
          (projExpr, projNames) = projection_parts (qc_projection cfg)
      in \<lparr>q_TableName = tableName, q_IndexName = qc_indexName cfg,
          q_KeyConditionExpression = (if sortCond key = None then keyExpr else keyExpr @ '' AND '' @ sortExpr),
          q_FilterExpression = filterExpr, q_ProjectionExpression = projExpr,
          q_Names = ((fmupd pkAlias (partitionAttr key) fmempty ++\<^sub>f sortNames) ++\<^sub>f filterNames) ++\<^sub>f projNames,
          q_Values = (fmupd '':pk0'' (partitionVal key) fmempty ++\<^sub>f sortVals) ++\<^sub>f filterVals,
          q_Limit = (if 0 < sint (qc_limit cfg) then qc_limit cfg else 0),
          q_ScanIndexForward = qc_scanForward cfg,
          q_ExclusiveStartKey = startKey, q_ConsistentRead = qc_consistentRead cfg\<rparr>)"

subsection \<open>Scan options\<close>

record scanConfig =
  sc_filter :: "conditionExpr option"
  sc_limit :: int32
  sc_indexName :: string
  sc_projection :: "string list"
  sc_consistentRead :: bool

definition ScanFilter :: "string \<Rightarrow> any list \<Rightarrow> scanConfig \<Rightarrow> scanConfig result" where
  "ScanFilter expression vs c =
     bind (must_build ''dynago.ScanFilter'' expression vs) (\<lambda>cond.
       Inr (c\<lparr>sc_filter := Some (add_condition cond (sc_filter c))\<rparr>))"

definition ScanLimit :: "int \<Rightarrow> scanConfig \<Rightarrow> scanConfig result" where
  "ScanLimit n c = Inr (c\<lparr>sc_limit := word_of_int n\<rparr>)"

definition ScanIndex :: "string \<Rightarrow> scanConfig \<Rightarrow> scanConfig result" where
  "ScanIndex name c = Inr (c\<lparr>sc_indexName := name\<rparr>)"

definition ScanProject :: "string list \<Rightarrow> scanConfig \<Rightarrow> scanConfig result" where
  "ScanProject attrs c = Inr (c\<lparr>sc_projection := sc_projection c @ attrs\<rparr>)"

definition ScanConsistentRead :: "scanConfig \<Rightarrow> scanConfig result" where
  "ScanConsistentRead c = Inr (c\<lparr>sc_consistentRead := True\<rparr>)"

definition scan_config :: "(scanConfig \<Rightarrow> scanConfig result) list \<Rightarrow> scanConfig result" where
  "scan_config opts = apply_opts opts
     \<lparr>sc_filter = None, sc_limit = 0, sc_indexName = [], sc_projection = [], sc_consistentRead = False\<rparr>"

definition buildScanRequest :: "string \<Rightarrow> scanConfig \<Rightarrow> item \<Rightarrow> ScanRequest" where
  "buildScanRequest tableName cfg startKey =
     (let (filterExpr, filterNames, filterVals) = condition_parts (sc_filter cfg);
          (projExpr, projNames) = projection_parts (sc_projection cfg)
      in \<lparr>s_TableName = tableName, s_IndexName = sc_indexName cfg, s_FilterExpression = filterExpr,
          s_ProjectionExpression = projExpr, s_Names = filterNames ++\<^sub>f projNames, s_Values = filterVals,
          s_Limit = (if 0 < sint (sc_limit cfg) then sc_limit cfg else 0),
          s_ExclusiveStartKey = startKey, s_ConsistentRead = sc_consistentRead cfg\<rparr>)"

subsection \<open>The page loops\<close>

text \<open>The loop over the items of a page: what was collected, and whether the limit ended it.\<close>

definition limit_reached :: "int32 \<Rightarrow> nat \<Rightarrow> bool" where
  "limit_reached totalLimit n \<longleftrightarrow> 0 < sint totalLimit \<and> sint totalLimit \<le> sint (word_of_int (int n) :: int32)"

fun collect_items :: "(item \<Rightarrow> 'v result) \<Rightarrow> int32 \<Rightarrow> 'v list \<Rightarrow> item list \<Rightarrow> ('v list \<times> bool) result" where
  "collect_items conv totalLimit acc [] = Inr (acc, False)"
| "collect_items conv totalLimit acc (it # its) =
     bind (conv it) (\<lambda>v.
       if limit_reached totalLimit (length (acc @ [v])) then Inr (acc @ [v], True)
       else collect_items conv totalLimit (acc @ [v]) its)"

definition page_limit :: "int32 \<Rightarrow> 'v list \<Rightarrow> int32 \<Rightarrow> int32" where
  "page_limit totalLimit acc old = (if 0 < sint totalLimit then totalLimit - word_of_int (int (length acc)) else old)"

fun query_loop :: "nat \<Rightarrow> 's Backend \<Rightarrow> (item \<Rightarrow> 'v result) \<Rightarrow> int32 \<Rightarrow> QueryRequest \<Rightarrow> 'v list \<Rightarrow> ('s, 'v list) op" where
  "query_loop 0 be conv totalLimit req acc = sreturn (Inl OutOfFuel)"
| "query_loop (Suc n) be conv totalLimit req acc =
     sbind (be_Query be req) (\<lambda>resp.
       sbind (sreturn (collect_items conv totalLimit acc (r_Items resp))) (\<lambda>(acc', full).
         if full \<or> r_LastEvaluatedKey resp = fmempty then sreturn (Inr acc')
         else query_loop n be conv totalLimit
                (req\<lparr>q_ExclusiveStartKey := r_LastEvaluatedKey resp,
                     q_Limit := page_limit totalLimit acc' (q_Limit req)\<rparr>) acc'))"

fun scan_loop :: "nat \<Rightarrow> 's Backend \<Rightarrow> (item \<Rightarrow> 'v result) \<Rightarrow> int32 \<Rightarrow> ScanRequest \<Rightarrow> 'v list \<Rightarrow> ('s, 'v list) op" where
  "scan_loop 0 be conv totalLimit req acc = sreturn (Inl OutOfFuel)"
| "scan_loop (Suc n) be conv totalLimit req acc =
     sbind (be_Scan be req) (\<lambda>resp.
       sbind (sreturn (collect_items conv totalLimit acc (r_Items resp))) (\<lambda>(acc', full).
         if full \<or> r_LastEvaluatedKey resp = fmempty then sreturn (Inr acc')
         else scan_loop n be conv totalLimit
                (req\<lparr>s_ExclusiveStartKey := r_LastEvaluatedKey resp,
                     s_Limit := page_limit totalLimit acc' (s_Limit req)\<rparr>) acc'))"

text \<open>Decoding an item into a fresh value of the type argument.\<close>

definition decode :: "methods \<Rightarrow> gotype \<Rightarrow> item \<Rightarrow> goval result" where
  "decode ms T it = Unmarshal ms it T (zero_value T)"

definition Query_T :: "nat \<Rightarrow> methods \<Rightarrow> gotype \<Rightarrow> 's Table \<Rightarrow> KeyCondition
    \<Rightarrow> (queryConfig \<Rightarrow> queryConfig result) list \<Rightarrow> ('s, goval list) op" where
  "Query_T fuel ms T t key opts =
     sbind (sreturn (query_config opts)) (\<lambda>cfg.
       query_loop fuel (tb_backend t) (decode ms T) (if 0 < sint (qc_limit cfg) then qc_limit cfg else 0)
         (buildQueryRequest (tb_name t) key cfg fmempty) [])"

definition Scan_T :: "nat \<Rightarrow> methods \<Rightarrow> gotype \<Rightarrow> 's Table \<Rightarrow> (scanConfig \<Rightarrow> scanConfig result) list
    \<Rightarrow> ('s, goval list) op" where
  "Scan_T fuel ms T t opts =
     sbind (sreturn (scan_config opts)) (\<lambda>cfg.
       scan_loop fuel (tb_backend t) (decode ms T) (if 0 < sint (sc_limit cfg) then sc_limit cfg else 0)
         (buildScanRequest (tb_name t) cfg fmempty) [])"

subsection \<open>Iterators\<close>

type_synonym ('v, 'c) consumer = "'v result \<Rightarrow> 'c \<Rightarrow> bool \<times> 'c"

text \<open>The items of a page: whether to go on, and the consumer's state.  An error is yielded last.\<close>

fun yield_items :: "(item \<Rightarrow> 'v result) \<Rightarrow> ('v, 'c) consumer \<Rightarrow> item list \<Rightarrow> 'c \<Rightarrow> (bool \<times> 'c) result" where
  "yield_items conv yield [] c = Inr (True, c)"
| "yield_items conv yield (it # its) c =
     (case conv it of
        Inl e \<Rightarrow> if is_panic e then Inl e else Inr (False, snd (yield (Inl e) c))
      | Inr v \<Rightarrow>
          (case yield (Inr v) c of (go_on, c') \<Rightarrow> if go_on then yield_items conv yield its c' else Inr (False, c')))"

fun iter_pages :: "nat \<Rightarrow> (item \<Rightarrow> ('s, PageResponse) op) \<Rightarrow> (item list \<Rightarrow> 'c \<Rightarrow> (bool \<times> 'c) result) \<Rightarrow> (error \<Rightarrow> 'c \<Rightarrow> 'c)
    \<Rightarrow> item \<Rightarrow> 'c \<Rightarrow> ('s, 'c) op" where
  "iter_pages 0 get_page items fail startKey c s = (Inl OutOfFuel, s)"
| "iter_pages (Suc n) get_page items fail startKey c s =
     (case get_page startKey s of
        (Inl e, s') \<Rightarrow> (if is_panic e then Inl e else Inr (fail e c), s')
      | (Inr resp, s') \<Rightarrow>
          (case items (r_Items resp) c of
             Inl e \<Rightarrow> (Inl e, s')
           | Inr (go_on, c') \<Rightarrow>
               if \<not> go_on \<or> r_LastEvaluatedKey resp = fmempty then (Inr c', s')
               else iter_pages n get_page items fail (r_LastEvaluatedKey resp) c' s'))"

definition QueryIter :: "nat \<Rightarrow> methods \<Rightarrow> gotype \<Rightarrow> 's Table \<Rightarrow> KeyCondition
    \<Rightarrow> (queryConfig \<Rightarrow> queryConfig result) list \<Rightarrow> (goval, 'c) consumer \<Rightarrow> 'c \<Rightarrow> ('s, 'c) op" where
  "QueryIter fuel ms T t key opts yield c =
     sbind (sreturn (query_config opts)) (\<lambda>cfg.
       iter_pages fuel (\<lambda>startKey. be_Query (tb_backend t) (buildQueryRequest (tb_name t) key cfg startKey))
         (yield_items (decode ms T) yield) (\<lambda>e c. snd (yield (Inl e) c)) fmempty c)"

definition ScanIter :: "nat \<Rightarrow> methods \<Rightarrow> gotype \<Rightarrow> 's Table \<Rightarrow> (scanConfig \<Rightarrow> scanConfig result) list
    \<Rightarrow> (goval, 'c) consumer \<Rightarrow> 'c \<Rightarrow> ('s, 'c) op" where
  "ScanIter fuel ms T t opts yield c =
     sbind (sreturn (scan_config opts)) (\<lambda>cfg.
       iter_pages fuel (\<lambda>startKey. be_Scan (tb_backend t) (buildScanRequest (tb_name t) cfg startKey))
         (yield_items (decode ms T) yield) (\<lambda>e c. snd (yield (Inl e) c)) fmempty c)"

subsection \<open>Collections\<close>

type_synonym Collection = "(gotype \<times> goval) list"

text \<open>Items that cannot be decoded are skipped.\<close>

fun collect_known :: "(item \<Rightarrow> 'v result) \<Rightarrow> int32 \<Rightarrow> 'v list \<Rightarrow> item list \<Rightarrow> ('v list \<times> bool) result" where
  "collect_known conv totalLimit acc [] = Inr (acc, False)"
| "collect_known conv totalLimit acc (it # its) =
     (case conv it of
        Inl e \<Rightarrow> if is_panic e then Inl e else collect_known conv totalLimit acc its
      | Inr v \<Rightarrow>
          if limit_reached totalLimit (length (acc @ [v])) then Inr (acc @ [v], True)
          else collect_known conv totalLimit (acc @ [v]) its)"

fun collection_loop :: "nat \<Rightarrow> (item \<Rightarrow> ('s, PageResponse) op) \<Rightarrow> (item \<Rightarrow> 'v result) \<Rightarrow> int32 \<Rightarrow> item
    \<Rightarrow> 'v list \<Rightarrow> ('s, 'v list) op" where
  "collection_loop 0 get_page conv totalLimit startKey acc = sreturn (Inl OutOfFuel)"
| "collection_loop (Suc n) get_page conv totalLimit startKey acc =
     sbind (get_page startKey) (\<lambda>resp.
       sbind (sreturn (collect_known conv totalLimit acc (r_Items resp))) (\<lambda>(acc', full).
         if full \<or> r_LastEvaluatedKey resp = fmempty then sreturn (Inr acc')
         else collection_loop n get_page conv totalLimit (r_LastEvaluatedKey resp) acc'))"

definition QueryCollection :: "nat \<Rightarrow> methods \<Rightarrow> 's Table \<Rightarrow> KeyCondition
    \<Rightarrow> (queryConfig \<Rightarrow> queryConfig result) list \<Rightarrow> ('s, Collection) op" where
  "QueryCollection fuel ms t key opts =
     (case tb_registry t of
        None \<Rightarrow> sreturn (Inl (Errorf ''dynago: QueryCollection requires a table with a registry''))
      | Some r \<Rightarrow>
          sbind (sreturn (query_config opts)) (\<lambda>cfg.
            collection_loop fuel
              (\<lambda>startKey. be_Query (tb_backend t) (buildQueryRequest (tb_name t) key cfg startKey))
              (\<lambda>it. unmarshalPolymorphic ms it r) (if 0 < sint (qc_limit cfg) then qc_limit cfg else 0) fmempty []))"

text \<open>For a concrete type argument.\<close>

definition ItemsOf :: "gotype \<Rightarrow> Collection \<Rightarrow> goval list" where
  "ItemsOf T c = map snd (filter (\<lambda>x. fst x = T) c)"

fun yield_known :: "(item \<Rightarrow> 'v result) \<Rightarrow> ('v, 'c) consumer \<Rightarrow> item list \<Rightarrow> 'c \<Rightarrow> (bool \<times> 'c) result" where
  "yield_known conv yield [] c = Inr (True, c)"
| "yield_known conv yield (it # its) c =
     (case conv it of
        Inl e \<Rightarrow> if is_panic e then Inl e else yield_known conv yield its c
      | Inr v \<Rightarrow>
          (case yield (Inr v) c of (go_on, c') \<Rightarrow> if go_on then yield_known conv yield its c' else Inr (False, c')))"

definition CollectionIter :: "nat \<Rightarrow> methods \<Rightarrow> 's Table \<Rightarrow> KeyCondition
    \<Rightarrow> (queryConfig \<Rightarrow> queryConfig result) list \<Rightarrow> (gotype \<times> goval, 'c) consumer \<Rightarrow> 'c \<Rightarrow> ('s, 'c) op" where
  "CollectionIter fuel ms t key opts yield c =
     (case tb_registry t of
        None \<Rightarrow>
          sreturn (Inr (snd (yield (Inl (Errorf ''dynago: CollectionIter requires a table with a registry'')) c)))
      | Some r \<Rightarrow>
          sbind (sreturn (query_config opts)) (\<lambda>cfg.
            iter_pages fuel (\<lambda>startKey. be_Query (tb_backend t) (buildQueryRequest (tb_name t) key cfg startKey))
              (yield_known (\<lambda>it. unmarshalPolymorphic ms it r) yield) (\<lambda>e c. snd (yield (Inl e) c)) fmempty c))"

end
