(* ===== verification/QueryPages.thy ===== *)
theory QueryPages
  imports QueryClient
begin

text \<open>
  The page loops of the client on the in-memory backend: how much fuel they need, what they return, and what the
  key condition of a query means there.
\<close>

subsection \<open>32-bit lengths\<close>

lemma sint_small:
  fixes L :: int32
  assumes "int n \<le> sint L"
  shows "sint (word_of_nat n :: int32) = int n"
proof -
  have "sint L < 2 ^ 31" using sint_lt [of L] by simp
  then have "sint (word_of_int (int n) :: int32) = int n"
    using assms by (simp add: sint_sbintrunc' signed_take_bit_int_eq_self_iff del: of_int_of_nat_eq)
  then show ?thesis by simp
qed

lemma sint_rest:
  fixes L :: int32
  assumes "int n \<le> sint L"
  shows "sint (L - word_of_nat n) = sint L - int n"
proof -
  define k where "k = nat (sint L - int n)"
  have k: "int k = sint L - int n" using assms by (simp add: k_def)
  have "(of_int (sint L - int n) :: int32) = of_int (sint L) - of_int (int n)" by (rule of_int_diff)
  then have "L - word_of_nat n = (word_of_nat k :: int32)" by (simp add: k [symmetric])
  with sint_small [of k L] k show ?thesis by simp
qed

lemma limit_reached_iff: "0 < sint L \<Longrightarrow> int n \<le> sint L \<Longrightarrow> limit_reached L n \<longleftrightarrow> int n = sint L"
  by (auto simp: limit_reached_def sint_small)

lemma limit_reached_none [simp]: "\<not> 0 < sint L \<Longrightarrow> \<not> limit_reached L n"
  by (simp add: limit_reached_def)

subsection \<open>Collecting\<close>

fun traverse :: "('a \<Rightarrow> 'b result) \<Rightarrow> 'a list \<Rightarrow> 'b list result" where
  "traverse f [] = Inr []"
| "traverse f (x # xs) = bind (f x) (\<lambda>y. bind (traverse f xs) (\<lambda>ys. Inr (y # ys)))"

lemma traverse_append:
  "traverse f (xs @ ys) = bind (traverse f xs) (\<lambda>us. bind (traverse f ys) (\<lambda>vs. Inr (us @ vs)))"
  by (induction xs) (simp_all add: bind_assoc, cases "traverse f ys", simp_all)

lemma traverse_length: "traverse f xs = Inr ys \<Longrightarrow> length ys = length xs"
  by (induction xs arbitrary: ys) (auto simp: bind_Inr_iff)

lemma collect_items_limited:
  assumes "traverse conv its = Inr ws" "0 < sint L" "int (length acc) < sint L"
  shows "collect_items conv L acc its =
    Inr (if int (length acc + length ws) < sint L then (acc @ ws, False)
         else (acc @ take (nat (sint L) - length acc) ws, True))"
  using assms(1,3)
proof (induction its arbitrary: acc ws)
  case (Cons it its)
  then obtain w us where w: "conv it = Inr w" "traverse conv its = Inr us" "ws = w # us"
    by (auto simp: bind_Inr_iff)
  have reached: "limit_reached L (Suc (length acc)) \<longleftrightarrow> int (Suc (length acc)) = sint L"
    using Cons.prems(2) assms(2) by (intro limit_reached_iff) auto
  show ?case
  proof (cases "int (Suc (length acc)) = sint L")
    case True
    then have "nat (sint L) - length acc = Suc 0" "\<not> int (length acc + length ws) < sint L"
      using w(3) by auto
    with True w reached show ?thesis by simp
  next
    case False
    with Cons.prems(2) have "int (length (acc @ [w])) < sint L" by simp
    from Cons.IH [OF w(2) this] False w reached Cons.prems(2) show ?thesis
      by (auto simp: take_Cons' nat_diff_distrib)
  qed
qed simp

lemma collect_items_all:
  "traverse conv its = Inr ws \<Longrightarrow> \<not> 0 < sint L \<Longrightarrow> collect_items conv L acc its = Inr (acc @ ws, False)"
  by (induction its arbitrary: acc ws) (auto simp: bind_Inr_iff)

lemma collect_known_append:
  "collect_known conv L acc (xs @ ys) =
     bind (collect_known conv L acc xs) (\<lambda>(acc', full). if full then Inr (acc', True) else collect_known conv L acc' ys)"
  by (induction xs arbitrary: acc) (simp_all split: sum.split)

lemma yield_items_append:
  "yield_items conv yield (xs @ ys) c =
     bind (yield_items conv yield xs c) (\<lambda>(go_on, c'). if go_on then yield_items conv yield ys c' else Inr (False, c'))"
  by (induction xs arbitrary: c) (simp_all split: sum.split prod.split)

lemma yield_known_append:
  "yield_known conv yield (xs @ ys) c =
     bind (yield_known conv yield xs c) (\<lambda>(go_on, c'). if go_on then yield_known conv yield ys c' else Inr (False, c'))"
  by (induction xs arbitrary: c) (simp_all split: sum.split prod.split)

subsection \<open>The loops of queries and scans\<close>

fun page_loop :: "nat \<Rightarrow> (int32 \<Rightarrow> item \<Rightarrow> ('s, PageResponse) op) \<Rightarrow> (item \<Rightarrow> 'v result) \<Rightarrow> int32 \<Rightarrow> int32 \<Rightarrow> item
    \<Rightarrow> 'v list \<Rightarrow> ('s, 'v list) op" where
  "page_loop 0 get_page conv L l start acc = sreturn (Inl OutOfFuel)"
| "page_loop (Suc n) get_page conv L l start acc =
     sbind (get_page l start) (\<lambda>resp.
       sbind (sreturn (collect_items conv L acc (r_Items resp))) (\<lambda>(acc', full).
         if full \<or> r_LastEvaluatedKey resp = fmempty then sreturn (Inr acc')
         else page_loop n get_page conv L (page_limit L acc' l) (r_LastEvaluatedKey resp) acc'))"

lemma query_loop_pages:
  "query_loop n be conv L req acc =
   page_loop n (\<lambda>l st. be_Query be (req\<lparr>q_ExclusiveStartKey := st, q_Limit := l\<rparr>)) conv L (q_Limit req)
     (q_ExclusiveStartKey req) acc"
  by (induction n arbitrary: req acc) (simp_all cong: if_cong)

lemma scan_loop_pages:
  "scan_loop n be conv L req acc =
   page_loop n (\<lambda>l st. be_Scan be (req\<lparr>s_ExclusiveStartKey := st, s_Limit := l\<rparr>)) conv L (s_Limit req)
     (s_ExclusiveStartKey req) acc"
  by (induction n arbitrary: req acc) (simp_all cong: if_cong)

text \<open>What the first \<open>n\<close> of the results are when there is a limit.\<close>

definition limited :: "int32 \<Rightarrow> 'v list \<Rightarrow> 'v list" where
  "limited L ws = (if 0 < sint L then take (nat (sint L)) ws else ws)"

lemma filter_page_length: "filter_page fe pe nm vs cs = Inr rs \<Longrightarrow> length rs \<le> length cs"
  using filter_page_Inr [of fe pe nm vs cs rs] by simp

context paged_read begin

lemma page_loop_limited:
  assumes "ok s" and L: "0 < sint L"
    and page: "\<And>l st. get_page l st m = (page_of (start_of s) l fe pe nm vs (cands s keep st), m)"
    and "filter_page fe pe nm vs (cands s keep start) = Inr its" "traverse conv its = Inr ws"
    and "length (cands s keep start) < fuel" "int (length acc) < sint L"
  shows "page_loop fuel get_page conv L (L - word_of_nat (length acc)) start acc m =
    (Inr (acc @ take (nat (sint L) - length acc) ws), m)"
  using assms(4-7)
proof (induction fuel arbitrary: start acc its ws)
  case (Suc fuel)
  let ?cs = "cands s keep start" and ?l = "L - word_of_nat (length acc)"
  define r where "r = nat (sint L) - length acc"
  have l: "sint ?l = int r" "0 < r" using sint_rest [of "length acc" L] Suc.prems(4) by (auto simp: r_def)
  show ?case
  proof (cases "r < length ?cs")
    case True
    have cut: "cut_page ?l ?cs = (take r ?cs, True)" using True l by (simp add: cut_page_def)
    have ne: "take r ?cs \<noteq> []" using True l(2) by auto
    note step = next_page [OF assms(1) l(2) less_imp_le [OF True]]
    have "bind (filter_page fe pe nm vs (take r ?cs))
        (\<lambda>rs. bind (filter_page fe pe nm vs (drop r ?cs)) (\<lambda>ss. Inr (rs @ ss))) = Inr its"
      using filter_page_append [of fe pe nm vs "take r ?cs" "drop r ?cs"] Suc.prems(1) by simp
    then obtain i1 i2 where
      i: "filter_page fe pe nm vs (take r ?cs) = Inr i1" "filter_page fe pe nm vs (drop r ?cs) = Inr i2" "its = i1 @ i2"
      by (auto simp: bind_Inr_iff)
    with Suc.prems(2) obtain w1 w2 where w: "traverse conv i1 = Inr w1" "traverse conv i2 = Inr w2" "ws = w1 @ w2"
      by (auto simp: traverse_append bind_Inr_iff)
    have "length i1 \<le> length (take r ?cs)" by (rule filter_page_length [OF i(1)])
    then have len: "length w1 \<le> r" using traverse_length [OF w(1)] by simp
    note got = collect_items_limited [OF w(1) L Suc.prems(4)]
    show ?thesis
    proof (cases "length w1 = r")
      case True
      then have "\<not> int (length acc + length w1) < sint L" using l(2) by (auto simp: r_def)
      with True got i w cut ne show ?thesis
        by (simp add: page page_of_def sbind_def r_def [symmetric])
    next
      case False
      with len have less: "length w1 < r" by simp
      then have lt: "int (length (acc @ w1)) < sint L" by (auto simp: r_def)
      let ?next = "start_of s (last (take r ?cs))"
      have "length (cands s keep ?next) < fuel" using step(1) Suc.prems(3) l(2) True by simp
      from Suc.IH [OF _ w(2) this lt] step(1) i(2)
      have "page_loop fuel get_page conv L (L - word_of_nat (length (acc @ w1))) ?next (acc @ w1) m =
          (Inr ((acc @ w1) @ take (nat (sint L) - length (acc @ w1)) w2), m)" by simp
      moreover have "take r ws = w1 @ take (nat (sint L) - length (acc @ w1)) w2"
        using len w(3) by (simp add: r_def)
      moreover have "page_limit L (acc @ w1) ?l = L - word_of_nat (length (acc @ w1))"
        using L by (simp add: page_limit_def)
      ultimately show ?thesis
        using got lt i(1) cut ne step(2) by (simp add: page page_of_def sbind_def r_def [symmetric])
    qed
  next
    case False
    then have cut: "cut_page ?l ?cs = (?cs, False)" using l by (simp add: cut_page_def)
    from collect_items_limited [OF Suc.prems(2) L Suc.prems(4)] Suc.prems(1) cut show ?thesis
      by (auto simp: page page_of_def sbind_def)
  qed
qed simp

lemma page_loop_complete:
  fixes ws :: "'v list"
  assumes "ok s"
    and page: "\<And>l st. get_page l st m = (page_of (start_of s) l fe pe nm vs (cands s keep st), m)"
    and "filter_page fe pe nm vs (cands s keep start) = Inr its" "traverse conv its = Inr ws"
    and "length (cands s keep start) < fuel" "0 < sint L \<or> L = 0"
  shows "page_loop fuel get_page conv L L start [] m = (Inr (limited L ws), m)"
proof (cases "0 < sint L")
  case True
  have "page_loop fuel get_page conv L (L - word_of_nat (length ([] :: 'v list))) start [] m =
      (Inr ([] @ take (nat (sint L) - length ([] :: 'v list)) ws), m)"
    by (rule page_loop_limited [where s = s and keep = keep and its = its, OF assms(1) True _ assms(3-5)])
      (simp_all add: page True)
  then show ?thesis by (simp add: limited_def True)
next
  case False
  with assms(6) have "L = 0" by simp
  obtain n where "fuel = Suc n" using assms(5) by (cases fuel) auto
  with collect_items_all [OF assms(4), of L "[]"] assms(3) False show ?thesis
    by (simp add: page page_of_def cut_page_def sbind_def limited_def \<open>L = 0\<close>)
qed

text \<open>One page of a read that succeeds as a whole: the last one, or one behind which the read continues.\<close>

lemma page_step:
  assumes "ok s" "filter_page fe pe nm vs (cands s keep start) = Inr its"
  obtains (final) resp where "page_of (start_of s) l fe pe nm vs (cands s keep start) = Inr resp"
      "r_Items resp = its" "r_LastEvaluatedKey resp = fmempty"
  | (more) resp i2 where "page_of (start_of s) l fe pe nm vs (cands s keep start) = Inr resp"
      "its = r_Items resp @ i2" "r_LastEvaluatedKey resp \<noteq> fmempty"
      "filter_page fe pe nm vs (cands s keep (r_LastEvaluatedKey resp)) = Inr i2"
      "length (cands s keep (r_LastEvaluatedKey resp)) < length (cands s keep start)"
proof (cases "0 < sint l \<and> sint l < int (length (cands s keep start))")
  case True
  let ?cs = "cands s keep start"
  define n where "n = nat (sint l)"
  from True have n: "0 < n" "n \<le> length ?cs" "n < length ?cs" and ne: "take n ?cs \<noteq> []" by (auto simp: n_def)
  note step = next_page [OF assms(1) n(1,2)]
  have cut: "cut_page l ?cs = (take n ?cs, True)" using True by (simp add: cut_page_def n_def)
  have "bind (filter_page fe pe nm vs (take n ?cs))
      (\<lambda>rs. bind (filter_page fe pe nm vs (drop n ?cs)) (\<lambda>ss. Inr (rs @ ss))) = Inr its"
    using filter_page_append [of fe pe nm vs "take n ?cs" "drop n ?cs"] assms(2) by simp
  then obtain i1 i2 where
    i: "filter_page fe pe nm vs (take n ?cs) = Inr i1" "filter_page fe pe nm vs (drop n ?cs) = Inr i2" "its = i1 @ i2"
    by (auto simp: bind_Inr_iff)
  with cut ne step n show ?thesis by (intro more) (auto simp: page_of_def)
next
  case False
  then have "cut_page l (cands s keep start) = (cands s keep start, False)" by (auto simp: cut_page_def)
  with assms(2) show ?thesis by (intro final) (auto simp: page_of_def)
qed

lemma iter_pages_complete:
  assumes "ok s"
    and page: "\<And>st. get_page st m = (page_of (start_of s) l fe pe nm vs (cands s keep st), m)"
    and items: "\<And>xs ys c. items (xs @ ys) c = bind (items xs c) (\<lambda>(go_on, c'). if go_on then items ys c' else Inr (False, c'))"
    and "filter_page fe pe nm vs (cands s keep start) = Inr its" "length (cands s keep start) < fuel"
  shows "iter_pages fuel get_page items fail start c m = (bind (items its c) (\<lambda>(go_on, c'). Inr c'), m)"
  using assms(4,5)
proof (induction fuel arbitrary: start its c)
  case (Suc fuel)
  from assms(1) Suc.prems(1) show ?case
  proof (cases rule: page_step [where l = l])
    case (final resp)
    then show ?thesis by (auto simp: page bind_def split: sum.split prod.split)
  next
    case (more resp i2)
    with Suc.prems(2) have "length (cands s keep (r_LastEvaluatedKey resp)) < fuel" by simp
    from Suc.IH [OF more(4) this] more show ?thesis
      by (auto simp: page items bind_def split: sum.split prod.split)
  qed
qed simp

lemma collection_loop_complete:
  assumes "ok s"
    and page: "\<And>st. get_page st m = (page_of (start_of s) l fe pe nm vs (cands s keep st), m)"
    and "filter_page fe pe nm vs (cands s keep start) = Inr its" "length (cands s keep start) < fuel"
  shows "collection_loop fuel get_page conv L start acc m = (bind (collect_known conv L acc its) (\<lambda>(acc', full). Inr acc'), m)"
  using assms(3,4)
proof (induction fuel arbitrary: start its acc)
  case (Suc fuel)
  from assms(1) Suc.prems(1) show ?case
  proof (cases rule: page_step [where l = l])
    case (final resp)
    then show ?thesis by (auto simp: page sbind_def bind_def split: sum.split prod.split)
  next
    case (more resp i2)
    with Suc.prems(2) have "length (cands s keep (r_LastEvaluatedKey resp)) < fuel" by simp
    from Suc.IH [OF more(4) this] more show ?thesis
      by (auto simp: page sbind_def collect_known_append bind_def split: sum.split prod.split)
  qed
qed simp

end

subsection \<open>The in-memory backend\<close>

text \<open>What a query without an index reads: an error, nothing, or the pages of a partition.\<close>

lemma query_page_cases:
  assumes "fmlookup m (q_TableName req) = Some td" "keys_ok td" "q_IndexName req = []"
  obtains (failed) e where "\<And>st l. Query (req\<lparr>q_ExclusiveStartKey := st, q_Limit := l\<rparr>) m = Inl e"
  | (empty) "\<And>st l. Query (req\<lparr>q_ExclusiveStartKey := st, q_Limit := l\<rparr>) m = Inr empty_page"
  | (pages) h keep where "\<And>st l. Query (req\<lparr>q_ExclusiveStartKey := st, q_Limit := l\<rparr>) m =
      page_of (table_start td) l (q_FilterExpression req) (q_ProjectionExpression req) (q_Names req) (q_Values req)
        (qp.cands (td, h, q_ScanIndexForward req) keep st)"
proof (cases "parseKeyCondition (q_KeyConditionExpression req) (q_Names req) (q_Values req)
    (KeyDef_Name (HashKey (td_schema td))) (RangeKey (td_schema td))")
  case (Inl e)
  with assms show ?thesis by (intro failed) (simp add: Query_def table_def read_source_def)
next
  case (Inr p)
  obtain pk sk where p: "p = (pk, sk)" by (cases p)
  show ?thesis
  proof (cases "fmlookup (td_items td) (keyString pk)")
    case None
    with assms Inr p show ?thesis
      by (intro empty) (simp add: Query_def table_def read_source_def empty_page_def)
  next
    case (Some part)
    have part: "part = part_of td (keyString pk)" using Some by (simp add: part_of_def)
    from assms Inr p Some show ?thesis
      by (intro pages [of "keyString pk" "sk_matches sk (RangeKey (td_schema td))"])
        (simp add: Query_def table_def read_source_def make_page_eq table_start_def [abs_def] part query_candidates_eq)
  qed
qed

lemma scan_page:
  assumes "fmlookup m (s_TableName req) = Some td" "keys_ok td" "s_IndexName req = []"
  shows "Scan (req\<lparr>s_ExclusiveStartKey := st, s_Limit := l\<rparr>) m =
    page_of (table_start td) l (s_FilterExpression req) (s_ProjectionExpression req) (s_Names req) (s_Values req)
      (sp.cands td (\<lambda>_. True) st)"
  using assms by (simp add: Scan_def table_def read_source_def make_page_eq table_start_def [abs_def] scan_candidates_eq)

text \<open>The items of the whole read, unlimited and in one page.\<close>

definition query_all :: "MemoryBackend \<Rightarrow> QueryRequest \<Rightarrow> item list result" where
  "query_all m req = bind (Query (req\<lparr>q_ExclusiveStartKey := fmempty, q_Limit := 0\<rparr>) m) (\<lambda>resp. Inr (r_Items resp))"

definition scan_all :: "MemoryBackend \<Rightarrow> ScanRequest \<Rightarrow> item list result" where
  "scan_all m req = bind (Scan (req\<lparr>s_ExclusiveStartKey := fmempty, s_Limit := 0\<rparr>) m) (\<lambda>resp. Inr (r_Items resp))"

lemma empty_page_items [simp]: "r_Items empty_page = []" "r_LastEvaluatedKey empty_page = fmempty"
  by (simp_all add: empty_page_def)

lemma query_request_eta: "req\<lparr>q_ExclusiveStartKey := q_ExclusiveStartKey req, q_Limit := q_Limit req\<rparr> = req"
  by simp

lemma query_loop_memdb:
  assumes "fmlookup m (q_TableName req) = Some td" "keys_ok td" "q_IndexName req = []" "item_count td < fuel"
    and "query_all m req = Inr its" "traverse conv its = Inr ws"
    and "0 < sint L \<or> L = 0" "q_Limit req = L" "q_ExclusiveStartKey req = fmempty"
  shows "query_loop fuel memdb conv L req [] m = (Inr (limited L ws), m)"
  using assms(1-3)
proof (cases rule: query_page_cases)
  case (failed e)
  with assms(5) show ?thesis by (simp add: query_all_def)
next
  case empty
  from assms(4) obtain n where "fuel = Suc n" by (cases fuel) auto
  with empty assms(5,6,8,9) show ?thesis
    by (auto simp: query_loop_pages query_all_def sbind_def limited_def)
next
  case (pages h keep)
  have len: "length (qp.cands (td, h, q_ScanIndexForward req) keep fmempty) < fuel"
    using length_query_cands assms(4) by (rule le_less_trans)
  from assms(5) pages have its: "filter_page (q_FilterExpression req) (q_ProjectionExpression req) (q_Names req) (q_Values req)
      (qp.cands (td, h, q_ScanIndexForward req) keep fmempty) = Inr its"
    by (simp add: query_all_def page_of_unlimited)
  show ?thesis
    unfolding query_loop_pages assms(8,9)
    by (rule qp.page_loop_complete [where s = "(td, h, q_ScanIndexForward req)" and keep = keep and its = its])
      (use assms(2,6,7) its len pages in simp_all)
qed

lemma scan_loop_memdb:
  assumes "fmlookup m (s_TableName req) = Some td" "keys_ok td" "s_IndexName req = []" "item_count td < fuel"
    and "scan_all m req = Inr its" "traverse conv its = Inr ws"
    and "0 < sint L \<or> L = 0" "s_Limit req = L" "s_ExclusiveStartKey req = fmempty"
  shows "scan_loop fuel memdb conv L req [] m = (Inr (limited L ws), m)"
proof -
  have len: "length (sp.cands td (\<lambda>_. True) fmempty) < fuel"
    using length_scan_cands assms(4) by (rule le_less_trans)
  note page = scan_page [OF assms(1-3)]
  from assms(5) have its: "filter_page (s_FilterExpression req) (s_ProjectionExpression req) (s_Names req) (s_Values req)
      (sp.cands td (\<lambda>_. True) fmempty) = Inr its"
    by (simp add: scan_all_def page page_of_unlimited)
  show ?thesis
    unfolding scan_loop_pages assms(8,9)
    by (rule sp.page_loop_complete [where s = td and keep = "\<lambda>_. True" and its = its])
      (use assms(2,6,7) its len page in simp_all)
qed

text \<open>
  Queries and scans through the client.  A limit that is not positive is none.
\<close>

lemma positive_or_zero: "0 < sint (if 0 < sint (L :: int32) then L else 0) \<or> (if 0 < sint L then L else 0) = 0"
  by simp

lemma limited_positive: "limited (if 0 < sint L then L else 0) ws = limited L ws"
  by (simp add: limited_def)

lemma build_query_fields [simp]:
  "q_TableName (buildQueryRequest t key cfg st) = t"
  "q_IndexName (buildQueryRequest t key cfg st) = qc_indexName cfg"
  "q_Limit (buildQueryRequest t key cfg st) = (if 0 < sint (qc_limit cfg) then qc_limit cfg else 0)"
  "q_ExclusiveStartKey (buildQueryRequest t key cfg st) = st"
  by (simp_all add: buildQueryRequest_def split_beta Let_def)

lemma build_query_start:
  "buildQueryRequest t key cfg st = (buildQueryRequest t key cfg fmempty)\<lparr>q_ExclusiveStartKey := st\<rparr>"
  by (simp add: buildQueryRequest_def split_beta Let_def)

lemma build_scan_fields [simp]:
  "s_TableName (buildScanRequest t cfg st) = t"
  "s_IndexName (buildScanRequest t cfg st) = sc_indexName cfg"
  "s_Limit (buildScanRequest t cfg st) = (if 0 < sint (sc_limit cfg) then sc_limit cfg else 0)"
  "s_ExclusiveStartKey (buildScanRequest t cfg st) = st"
  by (simp_all add: buildScanRequest_def split_beta Let_def)

lemma build_scan_start:
  "buildScanRequest t cfg st = (buildScanRequest t cfg fmempty)\<lparr>s_ExclusiveStartKey := st\<rparr>"
  by (simp add: buildScanRequest_def split_beta Let_def)

lemma Query_T_first:
  assumes "query_config opts = Inr cfg" "tb_backend t = memdb" "qc_indexName cfg = []"
    and "fmlookup m (tb_name t) = Some td" "keys_ok td" "item_count td < fuel"
    and "query_all m (buildQueryRequest (tb_name t) key cfg fmempty) = Inr its" "traverse (decode ms T) its = Inr ws"
  shows "Query_T fuel ms T t key opts m = (Inr (limited (qc_limit cfg) ws), m)"
proof -
  let ?req = "buildQueryRequest (tb_name t) key cfg fmempty"
  have "fmlookup m (q_TableName ?req) = Some td" "q_IndexName ?req = []" using assms(3,4) by simp_all
  note first = query_loop_memdb [OF this(1) assms(5) this(2) assms(6-8) positive_or_zero [of "qc_limit cfg"]]
  show ?thesis using assms(1,2) first by (simp add: Query_T_def limited_positive cong: if_cong)
qed

lemma Scan_T_first:
  assumes "scan_config opts = Inr cfg" "tb_backend t = memdb" "sc_indexName cfg = []"
    and "fmlookup m (tb_name t) = Some td" "keys_ok td" "item_count td < fuel"
    and "scan_all m (buildScanRequest (tb_name t) cfg fmempty) = Inr its" "traverse (decode ms T) its = Inr ws"
  shows "Scan_T fuel ms T t opts m = (Inr (limited (sc_limit cfg) ws), m)"
proof -
  let ?req = "buildScanRequest (tb_name t) cfg fmempty"
  have "fmlookup m (s_TableName ?req) = Some td" "s_IndexName ?req = []" using assms(3,4) by simp_all
  note first = scan_loop_memdb [OF this(1) assms(5) this(2) assms(6-8) positive_or_zero [of "sc_limit cfg"]]
  show ?thesis using assms(1,2) first by (simp add: Scan_T_def limited_positive cong: if_cong)
qed

text \<open>The iterators visit every item of the read, page by page, whatever the limit.\<close>

lemma iter_query_memdb:
  assumes items: "\<And>xs ys c. items (xs @ ys) c = bind (items xs c) (\<lambda>(go_on, c'). if go_on then items ys c' else Inr (False, c'))"
    and items_Nil: "\<And>c. items [] c = Inr (True, c)"
    and "fmlookup m t = Some td" "keys_ok td" "qc_indexName cfg = []" "item_count td < fuel"
    and "query_all m (buildQueryRequest t key cfg fmempty) = Inr its"
  shows "iter_pages fuel (\<lambda>startKey. be_Query memdb (buildQueryRequest t key cfg startKey)) items fail fmempty c m =
    (bind (items its c) (\<lambda>(go_on, c'). Inr c'), m)"
proof -
  let ?req = "buildQueryRequest t key cfg fmempty"
  have req: "buildQueryRequest t key cfg st = ?req\<lparr>q_ExclusiveStartKey := st, q_Limit := q_Limit ?req\<rparr>" for st
    using build_query_start [of t key cfg st] by simp
  have "fmlookup m (q_TableName ?req) = Some td" "q_IndexName ?req = []" using assms(3,5) by simp_all
  from this(1) assms(4) this(2) show ?thesis
  proof (cases rule: query_page_cases)
    case (failed e)
    with assms(7) show ?thesis by (simp add: query_all_def)
  next
    case empty
    from assms(6) obtain n where "fuel = Suc n" by (cases fuel) auto
    have "Query (buildQueryRequest t key cfg st) m = Inr empty_page" for st by (subst req) (rule empty)
    moreover have "its = []" using empty [of 0 fmempty] assms(7) by (simp add: query_all_def)
    ultimately show ?thesis using \<open>fuel = Suc n\<close> by (simp add: items_Nil)
  next
    case (pages h keep)
    have len: "length (qp.cands (td, h, q_ScanIndexForward ?req) keep fmempty) < fuel"
      using length_query_cands assms(6) by (rule le_less_trans)
    from assms(7) pages have its: "filter_page (q_FilterExpression ?req) (q_ProjectionExpression ?req) (q_Names ?req)
        (q_Values ?req) (qp.cands (td, h, q_ScanIndexForward ?req) keep fmempty) = Inr its"
      by (simp add: query_all_def page_of_unlimited)
    show ?thesis
    proof (rule qp.iter_pages_complete [where s = "(td, h, q_ScanIndexForward ?req)" and keep = keep, OF _ _ items its len])
      show "be_Query memdb (buildQueryRequest t key cfg st) m =
          (page_of ((\<lambda>(td, h, fwd). table_start td) (td, h, q_ScanIndexForward ?req)) (q_Limit ?req) (q_FilterExpression ?req)
            (q_ProjectionExpression ?req) (q_Names ?req) (q_Values ?req)
            (qp.cands (td, h, q_ScanIndexForward ?req) keep st), m)" for st
        by (subst req) (simp only: memdb_reads pages prod.case)
    qed (use assms(4) in simp)
  qed
qed


lemma QueryIter_all:
  assumes "query_config opts = Inr cfg" "tb_backend t = memdb" "fmlookup m (tb_name t) = Some td" "keys_ok td"
    and "qc_indexName cfg = []" "item_count td < fuel"
    and "query_all m (buildQueryRequest (tb_name t) key cfg fmempty) = Inr its"
  shows "QueryIter fuel ms T t key opts yield c m =
    (bind (yield_items (decode ms T) yield its c) (\<lambda>(go_on, c'). Inr c'), m)"
  unfolding QueryIter_def assms(1,2) sbind_sreturn
  by (rule iter_query_memdb [OF yield_items_append _ assms(3-7)]) simp

lemma CollectionIter_all:
  assumes "query_config opts = Inr cfg" "tb_backend t = memdb" "tb_registry t = Some r"
    and "fmlookup m (tb_name t) = Some td" "keys_ok td" "qc_indexName cfg = []" "item_count td < fuel"
    and "query_all m (buildQueryRequest (tb_name t) key cfg fmempty) = Inr its"
  shows "CollectionIter fuel ms t key opts yield c m =
    (bind (yield_known (\<lambda>it. unmarshalPolymorphic ms it r) yield its c) (\<lambda>(go_on, c'). Inr c'), m)"
  unfolding CollectionIter_def assms(1,2,3) option.case sbind_sreturn
  by (rule iter_query_memdb [OF yield_known_append _ assms(4-8)]) simp

text \<open>A consumer that never stops is handed everything, in order.\<close>

definition take_all :: "('v, 'v result list) consumer" where
  "take_all r c = (True, c @ [r])"

lemma yield_items_take_all:
  "traverse conv its = Inr ws \<Longrightarrow> yield_items conv take_all its c = Inr (True, c @ map Inr ws)"
  by (induction its arbitrary: c ws) (auto simp: take_all_def bind_Inr_iff)

lemma QueryIter_take_all:
  assumes "query_config opts = Inr cfg" "tb_backend t = memdb" "fmlookup m (tb_name t) = Some td" "keys_ok td"
    and "qc_indexName cfg = []" "item_count td < fuel"
    and "query_all m (buildQueryRequest (tb_name t) key cfg fmempty) = Inr its" "traverse (decode ms T) its = Inr ws"
  shows "QueryIter fuel ms T t key opts take_all [] m = (Inr (map Inr ws), m)"
  using QueryIter_all [OF assms(1-7), of ms T take_all "[]"] yield_items_take_all [OF assms(8), of "[]"] by simp

end
