(* ===== verification/QueryKeys.thy ===== *)
theory QueryKeys
  imports QueryClient UpdateRequest
begin

text \<open>
  The key condition of a request the client builds means to the in-memory backend what was asked for: its parser
  (\<open>memdb.go\<close>) reads the partition value and the sort condition back, whatever filter and projection the
  request carries.
\<close>

subsection \<open>Names and values of a request\<close>

lemma lookup_add: "fmlookup (m ++\<^sub>f n) k = (case fmlookup n k of None \<Rightarrow> fmlookup m k | Some v \<Rightarrow> Some v)"
  by (auto simp: fmlookup_dom_iff split: option.split)

lemma translate_loop_placeholders:
  "translate_loop ts vs cb = Inr (out, left, cb') \<Longrightarrow> fmlookup (cb_values cb') k \<noteq> None \<Longrightarrow>
   fmlookup (cb_values cb) k \<noteq> None \<or> (\<exists>i. k = placeholder i)"
proof (induction ts vs cb arbitrary: out rule: translate_induct)
  case (val t ts vs cb)
  from val(1,2,4) show ?case
  proof (rule translate_val)
    fix v vs' av out'
    assume v: "vs = v # vs'" "translate_loop ts vs' (with_value av cb) = Inr (out', left, cb')"
    from val(3) [OF v val(5)] show ?case by (auto simp: with_value_def split: if_splits)
  qed
qed (auto simp: translate_step)

lemma buildCondition_values:
  "buildCondition e vs = Inr c \<Longrightarrow> fmlookup (ce_values c) k \<noteq> None \<Longrightarrow> \<exists>i. k = placeholder i"
  by (auto simp: buildCondition_def translate_def bind_Inr_iff split: if_splits dest!: translate_loop_placeholders)

text \<open>A filter that one \<open>QueryFilter\<close> option made.\<close>

definition built_filter :: "conditionExpr option \<Rightarrow> bool" where
  "built_filter f \<longleftrightarrow> (\<forall>c. f = Some c \<longrightarrow> (\<exists>e vs. buildCondition e vs = Inr c))"

lemma filter_aliases: "built_filter f \<Longrightarrow> condition_parts f = (e, nm, vs) \<Longrightarrow> aliases_ok nm"
  by (auto simp: built_filter_def condition_parts_def dest: buildCondition_parts(1) split: option.splits)

lemma filter_values:
  "built_filter f \<Longrightarrow> condition_parts f = (e, nm, vs) \<Longrightarrow> k \<in> {'':pk0'', '':sk0'', '':sk1''} \<Longrightarrow> fmlookup vs k = None"
  using buildCondition_values
  by (fastforce simp: built_filter_def condition_parts_def placeholder_def split: option.splits)

lemma projection_aliases: "aliases_ok (snd (projection_parts attrs))"
proof -
  have "aliases_ok nm \<Longrightarrow> aliases_ok (fold (\<lambda>a. fmupd (CHR ''#'' # a) a) xs nm)" for xs nm
    by (induction xs arbitrary: nm) simp_all
  then show ?thesis by (simp add: projection_parts_def buildProjection_def)
qed

lemma lookup_add_aliases:
  "aliases_ok nm' \<Longrightarrow> fmlookup nm (CHR ''#'' # a) = Some a \<Longrightarrow> fmlookup (nm ++\<^sub>f nm') (CHR ''#'' # a) = Some a"
  by (auto simp: aliases_ok_def lookup_add simp del: fmlookup_add split: option.split)

text \<open>What the parser needs of the request.\<close>

lemma request_values:
  assumes "built_filter (qc_filter cfg)" "condition_parts (sortCond kc) = (se, sn, sv)"
  shows "fmlookup sv '':pk0'' = None \<Longrightarrow>
      fmlookup (q_Values (buildQueryRequest t kc cfg st)) '':pk0'' = Some (partitionVal kc)"
    and "k \<in> {'':sk0'', '':sk1''} \<Longrightarrow> fmlookup (q_Values (buildQueryRequest t kc cfg st)) k = fmlookup sv k"
proof -
  obtain fe fn fv where f: "condition_parts (qc_filter cfg) = (fe, fn, fv)" by (cases "condition_parts (qc_filter cfg)")
  note none = filter_values [OF assms(1) f]
  show "fmlookup sv '':pk0'' = None \<Longrightarrow>
      fmlookup (q_Values (buildQueryRequest t kc cfg st)) '':pk0'' = Some (partitionVal kc)"
    using none [of "'':pk0''"] by (simp add: buildQueryRequest_def assms(2) f split_beta Let_def lookup_add del: fmlookup_add)
  show "k \<in> {'':sk0'', '':sk1''} \<Longrightarrow> fmlookup (q_Values (buildQueryRequest t kc cfg st)) k = fmlookup sv k"
    using none [of k] by (auto simp: buildQueryRequest_def assms(2) f split_beta Let_def lookup_add simp del: fmlookup_add split: option.split)
qed

lemma request_names:
  assumes "built_filter (qc_filter cfg)" "condition_parts (sortCond kc) = (se, sn, sv)" "aliases_ok sn"
  shows "fmlookup (q_Names (buildQueryRequest t kc cfg st)) (CHR ''#'' # partitionAttr kc) = Some (partitionAttr kc)"
    and "fmlookup sn (CHR ''#'' # b) = Some b \<Longrightarrow> fmlookup (q_Names (buildQueryRequest t kc cfg st)) (CHR ''#'' # b) = Some b"
proof -
  obtain fe fn fv where f: "condition_parts (qc_filter cfg) = (fe, fn, fv)" by (cases "condition_parts (qc_filter cfg)")
  obtain pe pn where p: "projection_parts (qc_projection cfg) = (pe, pn)" by (cases "projection_parts (qc_projection cfg)")
  have ok: "aliases_ok fn" "aliases_ok pn"
    using filter_aliases [OF assms(1) f] projection_aliases [of "qc_projection cfg"] p by simp_all
  have names: "q_Names (buildQueryRequest t kc cfg st) =
      ((fmupd (CHR ''#'' # partitionAttr kc) (partitionAttr kc) fmempty ++\<^sub>f sn) ++\<^sub>f fn) ++\<^sub>f pn"
    by (simp add: buildQueryRequest_def assms(2) f p Let_def)
  show "fmlookup (q_Names (buildQueryRequest t kc cfg st)) (CHR ''#'' # partitionAttr kc) = Some (partitionAttr kc)"
    unfolding names by (intro lookup_add_aliases ok assms(3)) simp
  assume "fmlookup sn (CHR ''#'' # b) = Some b"
  then have "fmlookup (fmupd (CHR ''#'' # partitionAttr kc) (partitionAttr kc) fmempty ++\<^sub>f sn) (CHR ''#'' # b) = Some b"
    by (simp add: lookup_add del: fmlookup_add)
  then show "fmlookup (q_Names (buildQueryRequest t kc cfg st)) (CHR ''#'' # b) = Some b"
    unfolding names by (rule lookup_add_aliases [OF ok(2) lookup_add_aliases [OF ok(1)]])
qed

subsection \<open>Reading the key condition back\<close>

definition read_key :: "string \<Rightarrow> queryConfig \<Rightarrow> item \<Rightarrow> KeyDef option \<Rightarrow> KeyCondition
    \<Rightarrow> (AttributeValue \<times> sortKeyCondition option) result" where
  "read_key t cfg start rd kc =
     (let req = buildQueryRequest t kc cfg start in
      parseKeyCondition (q_KeyConditionExpression req) (q_Names req) (q_Values req) (partitionAttr kc) rd)"

lemma read_key_partition:
  assumes "built_filter (qc_filter cfg)" "attr_text (partitionAttr kc)" "sortCond kc = None"
  shows "read_key t cfg start rd kc = Inr (partitionVal kc, None)"
proof -
  have parts: "condition_parts (sortCond kc) = ([], fmempty, fmempty)" by (simp add: assms(3) condition_parts_def)
  have "q_KeyConditionExpression (buildQueryRequest t kc cfg start) = CHR ''#'' # partitionAttr kc @ '' = :pk0''"
    by (simp add: buildQueryRequest_def assms(3) split_beta Let_def)
  with assms(2) parseKeyPart_pk [OF assms(2) request_names(1) [OF assms(1) parts] request_values(1) [OF assms(1) parts]]
  show ?thesis by (simp add: read_key_def Let_def parseKeyCondition_def splitOnAND_pk)
qed

lemma read_key_sort:
  assumes "built_filter (qc_filter cfg)" "attr_text (partitionAttr kc)"
    and "trimSpace (ce_expression c) = ce_expression c" "ce_names c = fmupd (CHR ''#'' # b) b fmempty"
    and "fmlookup (ce_values c) '':pk0'' = None"
    and part: "\<And>nm vs acc. fmlookup nm (CHR ''#'' # b) = Some b \<Longrightarrow>
      (\<And>k. k \<in> {'':sk0'', '':sk1''} \<Longrightarrow> fmlookup vs k = fmlookup (ce_values c) k) \<Longrightarrow>
      parseKeyPart nm vs (partitionAttr kc) rd (ce_expression c) acc = Inr (fst acc, Some sc)"
  shows "read_key t cfg start rd (kc\<lparr>sortCond := Some c\<rparr>) = Inr (partitionVal kc, Some sc)"
proof -
  define kc' where "kc' = kc\<lparr>sortCond := Some c\<rparr>"
  let ?req = "buildQueryRequest t kc' cfg start"
  have kc': "partitionAttr kc' = partitionAttr kc" "partitionVal kc' = partitionVal kc" "sortCond kc' = Some c"
    by (simp_all add: kc'_def)
  have parts: "condition_parts (sortCond kc') = (ce_expression c, ce_names c, ce_values c)"
    by (simp add: kc' condition_parts_def)
  have ok: "aliases_ok (ce_names c)" by (simp add: assms(4))
  have expr: "q_KeyConditionExpression ?req = CHR ''#'' # partitionAttr kc @ '' = :pk0 AND '' @ ce_expression c"
    by (simp add: buildQueryRequest_def kc' condition_parts_def split_beta Let_def)
  have pk: "parseKeyPart (q_Names ?req) (q_Values ?req) (partitionAttr kc) rd (CHR ''#'' # partitionAttr kc @ '' = :pk0'') acc =
      Inr (Some (partitionVal kc), snd acc)" for acc
    using parseKeyPart_pk [OF assms(2) request_names(1) [OF assms(1) parts ok, unfolded kc']
      request_values(1) [OF assms(1) parts assms(5), unfolded kc']] .
  have sk: "parseKeyPart (q_Names ?req) (q_Values ?req) (partitionAttr kc) rd (ce_expression c) acc = Inr (fst acc, Some sc)" for acc
  proof (rule part)
    show "fmlookup (q_Names ?req) (CHR ''#'' # b) = Some b"
      by (rule request_names(2) [OF assms(1) parts ok]) (simp add: assms(4))
  qed (rule request_values(2) [OF assms(1) parts])
  show ?thesis
    unfolding kc'_def [symmetric] read_key_def Let_def kc' parseKeyCondition_def expr splitOnAND_pk_sk [OF assms(2)]
    by (simp add: pk sk assms(3))
qed

text \<open>The builders of sort conditions.\<close>

lemma read_key_compare:
  assumes "built_filter (qc_filter cfg)" "attr_text (partitionAttr kc)" "attr_text b" "b \<noteq> partitionAttr kc"
    and "KeyDef_Name d = b" "op \<in> set [''='', ''<'', ''<='', ''>'', ''>='']" "toAttributeValue w = Inr x"
  shows "bind (set_sort kc (sortCompare b op w)) (read_key t cfg start (Some d)) =
    Inr (partitionVal kc, Some \<lparr>sk_op = op, sk_value = x, sk_value2 = ZeroAV, sk_attr = b\<rparr>)"
proof -
  let ?c = "\<lparr>ce_expression = CHR ''#'' # b @ CHR '' '' # op @ '' :sk0'', ce_names = fmupd (CHR ''#'' # b) b fmempty,
    ce_values = fmupd '':sk0'' x fmempty\<rparr>"
  have built: "set_sort kc (sortCompare b op w) = Inr (kc\<lparr>sortCond := Some ?c\<rparr>)"
    using assms(7) by (simp add: set_sort_def sortCompare_def Let_def)
  have "read_key t cfg start (Some d) (kc\<lparr>sortCond := Some ?c\<rparr>) =
      Inr (partitionVal kc, Some \<lparr>sk_op = op, sk_value = x, sk_value2 = ZeroAV, sk_attr = b\<rparr>)"
  proof (rule read_key_sort [OF assms(1,2)])
    show "trimSpace (ce_expression ?c) = ce_expression ?c"
      by simp (rule trimSpace_ident; simp add: is_blank_def)
    fix nm :: names and vs :: vals and acc
    assume "fmlookup nm (CHR ''#'' # b) = Some b"
      and "\<And>k. k \<in> {'':sk0'', '':sk1''} \<Longrightarrow> fmlookup vs k = fmlookup (ce_values ?c) k"
    then show "parseKeyPart nm vs (partitionAttr kc) (Some d) (ce_expression ?c) acc =
        Inr (fst acc, Some \<lparr>sk_op = op, sk_value = x, sk_value2 = ZeroAV, sk_attr = b\<rparr>)"
      using parseKeyPart_cmp [OF assms(3) _ _ assms(6) refl assms(5,4), of nm vs x acc] by simp
  qed simp_all
  then show ?thesis unfolding built by simp
qed

lemma read_key_begins_with:
  assumes "built_filter (qc_filter cfg)" "attr_text (partitionAttr kc)" "attr_text b" "toAttributeValue w = Inr x"
  shows "bind (SortBeginsWith b w kc) (read_key t cfg start rd) =
    Inr (partitionVal kc, Some \<lparr>sk_op = ''begins_with'', sk_value = x, sk_value2 = ZeroAV, sk_attr = b\<rparr>)"
proof -
  let ?c = "\<lparr>ce_expression = ''begins_with('' @ CHR ''#'' # b @ '', :sk0)'', ce_names = fmupd (CHR ''#'' # b) b fmempty,
    ce_values = fmupd '':sk0'' x fmempty\<rparr>"
  have built: "SortBeginsWith b w kc = Inr (kc\<lparr>sortCond := Some ?c\<rparr>)"
    using assms(4) by (simp add: SortBeginsWith_def set_sort_def Let_def)
  have "read_key t cfg start rd (kc\<lparr>sortCond := Some ?c\<rparr>) =
      Inr (partitionVal kc, Some \<lparr>sk_op = ''begins_with'', sk_value = x, sk_value2 = ZeroAV, sk_attr = b\<rparr>)"
  proof (rule read_key_sort [OF assms(1,2)])
    show "trimSpace (ce_expression ?c) = ce_expression ?c"
      by simp (rule trimSpace_ident; simp add: is_blank_def)
    fix nm :: names and vs :: vals and acc
    assume "fmlookup nm (CHR ''#'' # b) = Some b"
      and "\<And>k. k \<in> {'':sk0'', '':sk1''} \<Longrightarrow> fmlookup vs k = fmlookup (ce_values ?c) k"
    then show "parseKeyPart nm vs (partitionAttr kc) rd (ce_expression ?c) acc =
        Inr (fst acc, Some \<lparr>sk_op = ''begins_with'', sk_value = x, sk_value2 = ZeroAV, sk_attr = b\<rparr>)"
      using parseKeyPart_begins_with [OF assms(3), of nm vs x _ rd acc] by simp
  qed simp_all
  then show ?thesis unfolding built by simp
qed

lemma read_key_between:
  assumes "built_filter (qc_filter cfg)" "attr_text (partitionAttr kc)" "attr_text b"
    and "toAttributeValue w1 = Inr x" "toAttributeValue w2 = Inr y"
  shows "bind (SortBetween b w1 w2 kc) (read_key t cfg start rd) =
    Inr (partitionVal kc, Some \<lparr>sk_op = ''BETWEEN'', sk_value = x, sk_value2 = y, sk_attr = b\<rparr>)"
proof -
  let ?c = "\<lparr>ce_expression = CHR ''#'' # b @ '' BETWEEN :sk0 AND :sk1'', ce_names = fmupd (CHR ''#'' # b) b fmempty,
    ce_values = fmupd '':sk1'' y (fmupd '':sk0'' x fmempty)\<rparr>"
  have built: "SortBetween b w1 w2 kc = Inr (kc\<lparr>sortCond := Some ?c\<rparr>)"
    using assms(4,5) by (simp add: SortBetween_def set_sort_def Let_def)
  have "read_key t cfg start rd (kc\<lparr>sortCond := Some ?c\<rparr>) =
      Inr (partitionVal kc, Some \<lparr>sk_op = ''BETWEEN'', sk_value = x, sk_value2 = y, sk_attr = b\<rparr>)"
  proof (rule read_key_sort [OF assms(1,2)])
    show "trimSpace (ce_expression ?c) = ce_expression ?c"
      by simp (rule trimSpace_ident; simp add: is_blank_def)
    fix nm :: names and vs :: vals and acc
    assume "fmlookup nm (CHR ''#'' # b) = Some b"
      and "\<And>k. k \<in> {'':sk0'', '':sk1''} \<Longrightarrow> fmlookup vs k = fmlookup (ce_values ?c) k"
    then show "parseKeyPart nm vs (partitionAttr kc) rd (ce_expression ?c) acc =
        Inr (fst acc, Some \<lparr>sk_op = ''BETWEEN'', sk_value = x, sk_value2 = y, sk_attr = b\<rparr>)"
      using parseKeyPart_between [OF assms(3), of nm vs x y _ rd acc] by simp
  qed simp_all
  then show ?thesis unfolding built by simp
qed

end
