(* ===== verification/ClientExamples.thy ===== *)
theory ClientExamples
  imports Examples UpdateRequest QueryPages QueryKeys
begin

text \<open>
  Clients of the example tables: a table handle, a struct type for the rows, and what the requests of the
  witnesses evaluate to.
\<close>

definition ex_table :: "MemoryBackend Table" where
  "ex_table = \<lparr>tb_name = ''t'', tb_backend = memdb, tb_registry = None\<rparr>"

definition ex_row :: gotype where
  "ex_row = GNamed ''Row'' (GStruct
     [(ex_field ''PK'' [], GString), (ex_field ''SK'' [], GString), (ex_field ''G'' [], GString)])"

definition ex_row_value :: "string \<Rightarrow> string \<Rightarrow> goval" where
  "ex_row_value sk g = VStruct [VString ''a'', VString sk, VString g]"

definition ex_row_key :: "string \<Rightarrow> KeyValue" where
  "ex_row_key sk = StringPairKey ''PK'' ''a'' ''SK'' sk"

lemma ex_table_sel [simp]: "tb_name ex_table = ''t''" "tb_backend ex_table = memdb" "tb_registry ex_table = None"
  by (simp_all add: ex_table_def)

lemma ex_row_rt: "rt ex_row no_options (ex_row_value sk g)"
proof -
  have "field_codec (ex_field ''PK'' []) = Some (no_options\<lparr>fo_Name := ''PK''\<rparr>)"
    "field_codec (ex_field ''SK'' []) = Some (no_options\<lparr>fo_Name := ''SK''\<rparr>)"
    "field_codec (ex_field ''G'' []) = Some (no_options\<lparr>fo_Name := ''G''\<rparr>)"
    by code_simp+
  then show ?thesis
    by (simp add: ex_row_def ex_row_value_def codec_names_def plain_named_def is_bytes_kind_def field_elem_def
        isZero_def no_options_def)
qed

lemma ex_row_marshal: "Marshal no_methods (Some (ex_row, ex_row_value ''2'' ''y'')) = Inr (ex_item ''2'' ''y'')"
  by code_simp

lemma ex_row_put: "Table_Put no_methods (\<lambda>_. None) ex_table (Some (ex_row, ex_row_value ''2'' ''y'')) [IfNotExists ''PK''] ex_db1 =
    (Inr (), ex_db2)"
  by code_simp

definition ex_update_cfg :: updateConfig where
  "ex_update_cfg = \<lparr>uc_clauses =
      [\<lparr>uc_action = actionSET, uc_attr = ''G'', uc_val = AnyString ''x'', uc_hasVal = True\<rparr>,
       \<lparr>uc_action = actionADD, uc_attr = ''N'', uc_val = AnyInt KInt 1, uc_hasVal = True\<rparr>,
       \<lparr>uc_action = actionSET, uc_attr = ''H'', uc_val = AnyString ''y'', uc_hasVal = True\<rparr>],
    uc_condition = None, uc_returnMode = []\<rparr>"

definition ex_run_update :: "updateConfig \<Rightarrow> UpdateItemRequest" where
  "ex_run_update cfg = (case buildUpdateRequest ''t'' (ex_row_key ''2'') cfg of Inr req \<Rightarrow> req | Inl _ \<Rightarrow> ex_update [] [])"

definition ex_clash_cfg :: updateConfig where
  "ex_clash_cfg = \<lparr>uc_clauses = [\<lparr>uc_action = actionSET, uc_attr = ''Name'', uc_val = AnyString ''Alice'', uc_hasVal = True\<rparr>],
    uc_condition = Some \<lparr>ce_expression = ''#Version = :v0'', ce_names = fmap_of_list [(''#Version'', ''Version'')],
      ce_values = fmap_of_list [('':v0'', TypeN ''5'')]\<rparr>,
    uc_returnMode = []\<rparr>"

definition ex_kc :: KeyCondition where
  "ex_kc = \<lparr>partitionAttr = ''PK'', partitionVal = TypeS ''a'', sortCond = None\<rparr>"

definition ex_limit_cfg :: queryConfig where
  "ex_limit_cfg = \<lparr>qc_filter = None, qc_limit = 1, qc_scanForward = None, qc_indexName = [], qc_projection = [],
     qc_consistentRead = False\<rparr>"

definition ex_scan_cfg :: scanConfig where
  "ex_scan_cfg = \<lparr>sc_filter = Some \<lparr>ce_expression = ''#G = :v0'', ce_names = fmap_of_list [(''#G'', ''G'')],
       ce_values = fmap_of_list [('':v0'', TypeS ''y'')]\<rparr>,
     sc_limit = 5, sc_indexName = [], sc_projection = [], sc_consistentRead = False\<rparr>"

end
