(* ===== verification/Rmw.thy ===== *)
theory Rmw
  imports Client
begin

text \<open>
  Read, modify and write (\<open>rmw.go\<close>).  The function that modifies the item is an operation on the state of the
  backend: between the read and the write other clients may change it, and so may the function itself.
\<close>

subsection \<open>Options\<close>

record rmwConfig =
  rc_versionAttr :: string
  rc_maxRetries :: int

definition OptimisticLock :: "string \<Rightarrow> rmwConfig \<Rightarrow> rmwConfig" where
  "OptimisticLock versionAttr c = c\<lparr>rc_versionAttr := versionAttr\<rparr>"

definition MaxRetries :: "int \<Rightarrow> rmwConfig \<Rightarrow> rmwConfig" where
  "MaxRetries n c = c\<lparr>rc_maxRetries := n\<rparr>"

definition rmw_config :: "(rmwConfig \<Rightarrow> rmwConfig) list \<Rightarrow> rmwConfig" where
  "rmw_config opts = fold (\<lambda>opt c. opt c) opts \<lparr>rc_versionAttr = [], rc_maxRetries = 3\<rparr>"

subsection \<open>The version field\<close>

fun indexOf :: "string \<Rightarrow> char \<Rightarrow> int" where
  "indexOf [] sep = - 1"
| "indexOf (c # s) sep = (if c = sep then 0 else let i = indexOf s sep in if i < 0 then - 1 else i + 1)"

text \<open>The name of a field here: the tag up to its first comma, not the name \<open>parseTag\<close> gives it.\<close>

definition version_name :: "field_meta \<Rightarrow> string" where
  "version_name f =
     (let i = indexOf (fm_tag f) CHR '','';
          name = (if 0 \<le> i then take (nat i) (fm_tag f) else fm_tag f)
      in if name = [] then fm_Name f else name)"

fun find_field :: "string \<Rightarrow> (field_meta \<times> gotype) list \<Rightarrow> nat option" where
  "find_field attr [] = None"
| "find_field attr ((f, t) # fs) = (if version_name f = attr then Some 0 else map_option Suc (find_field attr fs))"

definition version_error :: "string \<Rightarrow> 'a result" where
  "version_error msg = Inl (newError ErrValidation msg)"

text \<open>The unexported fields of \<open>time.Time\<close> are none of the model.  \<open>int64(x)\<close> of an unsigned value and the sum of two \<open>int64\<close> values keep the low 64 bits.\<close>

definition getVersionField :: "gotype \<Rightarrow> goval \<Rightarrow> string \<Rightarrow> int result" where
  "getVersionField T item attr =
     (case strip T of
        GStruct fs \<Rightarrow>
          (case find_field attr fs of
             None \<Rightarrow> version_error ''dynago.ReadModifyWrite: version attribute not found''
           | Some i \<Rightarrow>
               (let fv = struct_values item ! i in
                case strip (snd (fs ! i)) of
                  GInt k \<Rightarrow> Inr (if is_signed k then val_int fv else wrap_int KInt64 (val_int fv))
                | GFloat32 \<Rightarrow> Inr (int64_of_f64 (val_float fv))
                | GFloat64 \<Rightarrow> Inr (int64_of_f64 (val_float fv))
                | _ \<Rightarrow> version_error ''dynago.ReadModifyWrite: version attribute must be numeric''))
      | GTime \<Rightarrow> version_error ''dynago.ReadModifyWrite: version attribute not found''
      | _ \<Rightarrow> version_error ''dynago.ReadModifyWrite: item must be a struct'')"

text \<open>\<open>SetInt\<close> and \<open>SetUint\<close> keep the low bits of the kind; they panic on an unexported field.\<close>

definition setVersionField :: "gotype \<Rightarrow> goval \<Rightarrow> string \<Rightarrow> int \<Rightarrow> goval result" where
  "setVersionField T item attr val =
     (case strip T of
        GStruct fs \<Rightarrow>
          (case find_field attr fs of
             None \<Rightarrow> version_error ''dynago.ReadModifyWrite: version attribute not found''
           | Some i \<Rightarrow>
               (let store = (\<lambda>x. if fm_exported (fst (fs ! i)) then Inr (VStruct ((struct_values item)[i := x]))
                                else Inl (GoPanic ''reflect: using value obtained using unexported field''))
                in case strip (snd (fs ! i)) of
                  GInt k \<Rightarrow> store (VInt (wrap_int k val))
                | GFloat32 \<Rightarrow> store (VFloat (to_float32 (f64_of_int val)))
                | GFloat64 \<Rightarrow> store (VFloat (f64_of_int val))
                | _ \<Rightarrow> version_error ''dynago.ReadModifyWrite: version attribute must be numeric''))
      | GTime \<Rightarrow> version_error ''dynago.ReadModifyWrite: version attribute not found''
      | _ \<Rightarrow> Inl (GoPanic ''reflect: NumField of non-struct type''))"

subsection \<open>The loop\<close>

text \<open>The item to write and the options of the put.\<close>

definition rmw_write :: "rmwConfig \<Rightarrow> gotype \<Rightarrow> goval \<Rightarrow> (goval \<times> (putConfig \<Rightarrow> putConfig result) list) result" where
  "rmw_write cfg T item =
     (let attr = rc_versionAttr cfg in
      if attr = [] then Inr (item, [])
      else bind (getVersionField T item attr) (\<lambda>oldVersion.
             bind (setVersionField T item attr (wrap_int KInt64 (oldVersion + 1))) (\<lambda>item'.
               Inr (item', [PutCondition (attr @ '' = ?'') [AnyInt KInt64 oldVersion]]))))"

text \<open>The attempts from \<open>attempt\<close> to \<open>maxRetries\<close>, by how many are left.\<close>

definition rmw_prepare :: "methods \<Rightarrow> gotype \<Rightarrow> 's Table \<Rightarrow> KeyValue \<Rightarrow> (goval \<Rightarrow> ('s, goval) op) \<Rightarrow> rmwConfig
    \<Rightarrow> ('s, goval \<times> (putConfig \<Rightarrow> putConfig result) list) op" where
  "rmw_prepare ms T t key fn cfg =
     sbind (Get ms T t key []) (\<lambda>item. sbind (fn item) (\<lambda>item'. sreturn (rmw_write cfg T item')))"

fun rmw_loop :: "nat \<Rightarrow> methods \<Rightarrow> entities \<Rightarrow> gotype \<Rightarrow> 's Table \<Rightarrow> KeyValue \<Rightarrow> (goval \<Rightarrow> ('s, goval) op) \<Rightarrow> rmwConfig
    \<Rightarrow> ('s, unit) op" where
  "rmw_loop 0 ms ents T t key fn cfg s =
     (Inl (newError ErrConditionFailed ''dynago.ReadModifyWrite: failed after retries''), s)"
| "rmw_loop (Suc n) ms ents T t key fn cfg s =
     (case rmw_prepare ms T t key fn cfg s of
        (Inl e, s1) \<Rightarrow> (Inl e, s1)
      | (Inr (item, putOpts), s1) \<Rightarrow>
          (case Table_Put ms ents t (Some (T, item)) putOpts s1 of
             (Inl e, s2) \<Rightarrow>
               if errors_Is e ErrConditionFailed \<and> rc_versionAttr cfg \<noteq> [] \<and> 0 < n
               then rmw_loop n ms ents T t key fn cfg s2
               else (Inl e, s2)
           | (Inr u, s2) \<Rightarrow> (Inr (), s2)))"

definition ReadModifyWrite :: "methods \<Rightarrow> entities \<Rightarrow> gotype \<Rightarrow> 's Table \<Rightarrow> KeyValue \<Rightarrow> (goval \<Rightarrow> ('s, goval) op)
    \<Rightarrow> (rmwConfig \<Rightarrow> rmwConfig) list \<Rightarrow> ('s, unit) op" where
  "ReadModifyWrite ms ents T t key fn opts =
     (let cfg = rmw_config opts in rmw_loop (nat (rc_maxRetries cfg + 1)) ms ents T t key fn cfg)"

lemma wrap_id:
  assumes "int_in_range k w"
  shows "wrap_int k w = w"
proof (cases "is_signed k")
  case True
  have b: "0 < int_bits k" by (cases k) simp_all
  define h :: int where "h = 2 ^ (int_bits k - 1)"
  have pow: "2 ^ int_bits k = 2 * h" using b unfolding h_def by (cases "int_bits k") simp_all
  have range: "- h \<le> w" "w < h" using assms True by (simp_all add: int_in_range_def h_def)
  show ?thesis
  proof (cases "0 \<le> w")
    case True
    with range have "w mod (2 * h) = w" by simp
    with range show ?thesis unfolding wrap_int_def Let_def pow h_def [symmetric] by simp
  next
    case False
    with range have "(w + 2 * h) mod (2 * h) = w + 2 * h" by (intro mod_pos_pos_trivial) simp_all
    then have "w mod (2 * h) = w + 2 * h" by simp
    with range \<open>is_signed k\<close> show ?thesis unfolding wrap_int_def Let_def pow h_def [symmetric] by simp
  qed
qed (use assms in \<open>simp add: int_in_range_def wrap_int_def Let_def\<close>)

text \<open>The version field can hold the number \<open>w\<close>: it is an integer field of a kind wide enough.\<close>

definition version_fits :: "gotype \<Rightarrow> goval \<Rightarrow> string \<Rightarrow> int \<Rightarrow> bool" where
  "version_fits T item attr w \<longleftrightarrow>
     (case strip T of
        GStruct fs \<Rightarrow>
          (case find_field attr fs of
             None \<Rightarrow> False
           | Some i \<Rightarrow> i < length (struct_values item) \<and>
               (case strip (snd (fs ! i)) of GInt k \<Rightarrow> int_in_range k w \<and> int_in_range KInt64 w | _ \<Rightarrow> False))
      | _ \<Rightarrow> False)"

lemma set_then_get_version:
  assumes "version_fits T item a w" "setVersionField T item a (wrap_int KInt64 w) = Inr out"
  shows "getVersionField T out a = Inr w"
  using assms
  by (auto simp: version_fits_def setVersionField_def getVersionField_def struct_values_def Let_def wrap_id val_int_def
      split: gotype.splits option.splits if_splits)

subsection \<open>The condition on the version\<close>

text \<open>Attribute names that the client takes for a name.\<close>

definition version_attr :: "string \<Rightarrow> bool" where
  "version_attr a \<longleftrightarrow> attr_name a \<and> isIdentStart (hd a) \<and> \<not> is_logical a"

lemma version_tokens:
  assumes "version_attr a"
  shows "tokenizeExpr (a @ '' = ?'') = [a, ''='', ''?'']"
proof -
  obtain c w where a: "a = c # w" "isIdentStart c" "list_all isIdentPart w"
    using assms by (cases a) (auto simp: version_attr_def attr_name_def)
  have tail: "\<forall>x \<in> set w. bld_tail x"
    using a(3) by (auto simp: list_all_iff isIdentPart_def bld_tail_def)
  have stop: "\<not> bld_tail CHR '' ''" by code_simp
  have c: "\<not> is_space c" "\<not> bld_single_char c" "c \<notin> {CHR ''<'', CHR ''>''}"
  proof -
    have "\<forall>c \<in> set ([CHR 0x09, CHR 0x0A, CHR 0x0D] @ '' ?(),=<>''). \<not> isIdentStart c" by code_simp
    with a(2) show "\<not> is_space c" "\<not> bld_single_char c" "c \<notin> {CHR ''<'', CHR ''>''}"
      by (auto simp: is_space_def bld_single_char_def)
  qed
  have two: "\<not> bld_two_char c s" for s
    using c(3) by (auto simp: bld_two_char_def split: list.split)
  have rest: "tokenize '' = ?'' = [''='', ''?'']" by code_simp
  have "takeWhile bld_tail (w @ '' = ?'') = w" "dropWhile bld_tail (w @ '' = ?'') = '' = ?''"
    using tail stop by (simp_all add: takeWhile_append2 dropWhile_append2)
  moreover have "tokenize (c # u) = (c # takeWhile bld_tail u) # tokenize (dropWhile bld_tail u)" for u
    by (subst tokenize.simps(2)) (simp add: c two a(2) del: tokenize.simps)
  ultimately show ?thesis
    unfolding a(1) tokenizers_agree append_Cons using rest by metis
qed

lemma version_condition:
  assumes "version_attr a" "anyToAttributeValue v = Inr av"
  shows "buildCondition (a @ '' = ?'') [v] =
    Inr \<lparr>ce_expression = CHR ''#'' # a @ '' = :v0'', ce_names = fmupd (CHR ''#'' # a) a fmempty,
         ce_values = fmupd '':v0'' av fmempty\<rparr>"
proof -
  have a: "a \<noteq> []" "isIdentStart (hd a)" "\<not> is_logical a" using assms(1) by (auto simp: version_attr_def attr_name_def)
  have "\<forall>c \<in> set ''?(),=<>''. \<not> isIdentStart c" by code_simp
  with a have sym: "\<not> is_symbol a" "a \<noteq> ''?''" by (auto simp: is_symbol_def isOperator_def)
  have "is_symbol ''=''" "\<not> is_symbol ''?''" "placeholder 0 = '':v0''" by code_simp+
  moreover have "\<not> copied a [''='', ''?'']" using a sym by (simp add: copied_def peek_def)
  ultimately show ?thesis
    using sym assms(2) unfolding buildCondition_def translate_def version_tokens [OF assms(1)]
    by (simp add: translate_Cons put_tok_def with_name_def with_value_def copied_def passed_def is_logical_def
        ToUpper_def up_char_def is_lower_def less_eq_char_def)
qed

lemma version_condition_eval:
  assumes "version_attr a"
  shows "evalCondition (CHR ''#'' # a @ '' = :v0'') (fmupd (CHR ''#'' # a) a fmempty) (fmupd '':v0'' av fmempty) it =
    evalCompare (PathNode [a]) EQ (ValueNode av) it"
proof -
  have toks: "mem_tokenizeExpr (CHR ''#'' # a @ '' = :v0'') = [CHR ''#'' # a, ''='', '':v0'']"
  proof -
    have "valid_tok ''=''" "valid_tok '':v0''" by code_simp+
    moreover have "valid_tok (CHR ''#'' # a)" using assms by (simp add: version_attr_def attr_name_def valid_tok_def ref_tok_def)
    ultimately have "list_all valid_tok [CHR ''#'' # a, ''='', '':v0'']" by simp
    from tokenize_Join [OF this] show ?thesis by simp
  qed
  have plain: "CHR ''.'' \<notin> set a" using assms attr_name_plain by (simp add: version_attr_def)
  have f: "\<not> EqualFold [] ''AND''" "\<not> EqualFold [] ''OR''" "parseCompareOp ''='' = Some EQ"
    "\<not> EqualFold ''='' ''BETWEEN''" "\<not> EqualFold ''='' ''IN''" by code_simp+
  have hash: "\<not> EqualFold (CHR ''#'' # a) ''NOT''"
    by (simp add: EqualFold_def ToUpper_def up_char_def is_lower_def less_eq_char_def)
  have fuel: "expr_fuel [CHR ''#'' # a, ''='', '':v0''] = Suc (Suc (Suc (Suc (Suc (Suc (Suc (Suc (Suc 23))))))))"
    by (simp add: expr_fuel_def)
  have s: "SplitChar CHR ''.'' a = [a]" using plain by (simp add: SplitChar_no_sep)
  have "parseExpressionToAST (CHR ''#'' # a @ '' = :v0'') (fmupd (CHR ''#'' # a) a fmempty) (fmupd '':v0'' av fmempty) =
      Inr (CompareNode (PathNode [a]) EQ (ValueNode av))"
    unfolding parseExpressionToAST_def toks Let_def fuel
    by (simp add: f s hash peek_def expect_def parseSuffix_def numeral_eq_Suc)
  then show ?thesis by (simp add: evalCondition_def)
qed

text \<open>A version is the number the condition finds it equal to, exactly up to 53 bits.\<close>

lemma compare_version_self: "\<bar>v\<bar> \<le> 2 ^ 53 \<Longrightarrow> compare_numbers (show_int v) (show_int v) = Inr 0"
  by (simp add: compare_numbers_def ParseFloat_show_int)

lemma compare_versions:
  "\<bar>w\<bar> \<le> 2 ^ 53 \<Longrightarrow> \<bar>v\<bar> \<le> 2 ^ 53 \<Longrightarrow> compare_numbers (show_int w) (show_int v) = Inr 0 \<longleftrightarrow> w = v"
  by (auto simp: compare_numbers_def ParseFloat_show_int f64_cmp_int)

definition has_version :: "string \<Rightarrow> int \<Rightarrow> item option \<Rightarrow> bool" where
  "has_version a v old \<longleftrightarrow>
     (\<exists>it n. old = Some it \<and> fmlookup it a = Some (TypeN n) \<and> compare_numbers n (show_int v) = Inr 0)"

lemma has_version_exact:
  "has_version a v (Some it) \<Longrightarrow> fmlookup it a = Some (TypeN (show_int w)) \<Longrightarrow> \<bar>w\<bar> \<le> 2 ^ 53 \<Longrightarrow> \<bar>v\<bar> \<le> 2 ^ 53 \<Longrightarrow> w = v"
  by (auto simp: has_version_def compare_versions)

lemma av_tag_N: "av_tag av = 2 \<longleftrightarrow> (\<exists>n. av = TypeN n)"
  by (cases av) auto

text \<open>A put with the condition on the version.\<close>

lemma version_put_config:
  assumes "version_attr a" "put_config [PutCondition (a @ '' = ?'') [AnyInt KInt64 v]] = Inr cfg"
  shows "pc_condition cfg = Some \<lparr>ce_expression = CHR ''#'' # a @ '' = :v0'', ce_names = fmupd (CHR ''#'' # a) a fmempty,
         ce_values = fmupd '':v0'' (TypeN (show_int v)) fmempty\<rparr>"
proof -
  have "anyToAttributeValue (AnyInt KInt64 v) = Inr (TypeN (show_int v))" by simp
  from version_condition [OF assms(1) this] assms(2) show ?thesis
    by (auto simp: put_config_def PutCondition_def must_build_def add_condition_def)
qed

lemma version_check:
  assumes "version_attr a" "put_config [PutCondition (a @ '' = ?'') [AnyInt KInt64 v]] = Inr cfg"
  shows "check_condition (pi_ConditionExpression (put_request tn it cfg)) (pi_Names (put_request tn it cfg))
      (pi_Values (put_request tn it cfg)) old = Inr () \<longleftrightarrow> has_version a v old"
proof -
  have "evalCompare (PathNode [a]) EQ (ValueNode (TypeN (show_int v))) (existing_or_empty old) = Inr True \<longleftrightarrow> has_version a v old"
    by (auto simp: evalCompare_def existing_or_empty_def has_version_def bind_Inr_iff av_tag_N
        split: option.splits if_splits)
  then show ?thesis
    using version_put_config [OF assms] version_condition_eval [OF assms(1)]
    by (auto simp: put_request_def condition_parts_def check_condition_def bind_Inr_iff condition_failed_def newError_def split: if_splits)
qed

subsection \<open>Optimistic locking\<close>

text \<open>
  One attempt that wrote: the item read, what the function made of it, the state in which the put found the
  item, and what it left there.
\<close>

lemma rmw_attempt:
  assumes "rmw_loop n ms ents T t key fn cfg s = (Inr (), s')"
  obtains s0 item s1 item' s2 out opts s3 where "Get ms T t key [] s0 = (Inr item, s1)" "fn item s1 = (Inr item', s2)"
    "rmw_write cfg T item' = Inr (out, opts)" "Table_Put ms ents t (Some (T, out)) opts s2 = (Inr (), s3)" "s' = s3"
proof -
  have "\<exists>s0 item s1 item' s2 out opts. Get ms T t key [] s0 = (Inr item, s1) \<and> fn item s1 = (Inr item', s2) \<and>
      rmw_write cfg T item' = Inr (out, opts) \<and> Table_Put ms ents t (Some (T, out)) opts s2 = (Inr (), s')"
    using assms
  proof (induction n arbitrary: s)
    case (Suc n)
    let ?m = "rmw_prepare ms T t key fn cfg"
    from Suc.prems obtain out opts s2 where m: "?m s = (Inr (out, opts), s2)"
      by (auto split: prod.splits sum.splits)
    then have step: "\<exists>item s1 item'. Get ms T t key [] s = (Inr item, s1) \<and> fn item s1 = (Inr item', s2) \<and>
        rmw_write cfg T item' = Inr (out, opts)"
      by (auto simp: rmw_prepare_def sbind_Inr_iff)
    show ?case
    proof (cases "Table_Put ms ents t (Some (T, out)) opts s2")
      case (Pair r s3)
      show ?thesis
      proof (cases r)
        case (Inl e)
        with Suc.prems m Pair Suc.IH [of s3] show ?thesis by (simp split: if_splits)
      next
        case (Inr u)
        with Suc.prems m Pair have "s3 = s'" by simp
        with step Pair Inr show ?thesis by (metis old.unit.exhaust)
      qed
    qed
  qed simp
  then show thesis using that by blast
qed

lemma rmw_write_locked:
  assumes "rmw_write cfg T item = Inr (out, opts)" "rc_versionAttr cfg = a" "a \<noteq> []"
  obtains v where "getVersionField T item a = Inr v" "setVersionField T item a (wrap_int KInt64 (v + 1)) = Inr out"
    "opts = [PutCondition (a @ '' = ?'') [AnyInt KInt64 v]]"
  using assms by (auto simp: rmw_write_def bind_Inr_iff)

context item_backend begin

text \<open>The write replaced an item that had the version the function returned.\<close>

lemma locked_update:
  assumes t: "tb_backend t = be" and lock: "rc_versionAttr cfg = a" "version_attr a"
    and run: "rmw_loop n ms ents T t key fn cfg s = (Inr (), s')"
  obtains s0 item s1 item' s2 v out av it k where "Get ms T t key [] s0 = (Inr item, s1)" "fn item s1 = (Inr item', s2)"
    and "getVersionField T item' a = Inr v" "setVersionField T item' a (wrap_int KInt64 (v + 1)) = Inr out"
    and "Marshal ms (Some (T, out)) = Inr av" "it = set_discriminator (tb_registry t) (as_entity ents (Some (T, out))) av"
    and "key_in s2 (tb_name t) it = Inr k" "has_version a v (stored s2 (tb_name t) k)"
    and "\<And>u j. stored s' u j = (if u = tb_name t \<and> j = k then Some it else stored s2 u j)"
  using run
proof (rule rmw_attempt)
  fix s0 item s1 item' s2 out opts s3
  assume read: "Get ms T t key [] s0 = (Inr item, s1)" and f: "fn item s1 = (Inr item', s2)"
    and w: "rmw_write cfg T item' = Inr (out, opts)"
    and put: "Table_Put ms ents t (Some (T, out)) opts s2 = (Inr (), s3)" and s3: "s' = s3"
  have "a \<noteq> []" using lock(2) by (simp add: version_attr_def attr_name_def)
  with w lock(1) obtain v where v: "getVersionField T item' a = Inr v"
    "setVersionField T item' a (wrap_int KInt64 (v + 1)) = Inr out"
    and opts: "opts = [PutCondition (a @ '' = ?'') [AnyInt KInt64 v]]"
    by (rule rmw_write_locked)
  from t put show thesis
  proof (rule Table_Put_stores)
    fix av it k pcfg
    assume av: "Marshal ms (Some (T, out)) = Inr av" and pcfg: "put_config opts = Inr pcfg"
      and it: "it = set_discriminator (tb_registry t) (as_entity ents (Some (T, out))) av"
      and k: "key_in s2 (tb_name t) it = Inr k"
      and st: "\<And>u j. stored s3 u j = (if u = tb_name t \<and> j = k then Some it else stored s2 u j)"
      and check: "check_condition (pi_ConditionExpression (put_request (tb_name t) it pcfg))
        (pi_Names (put_request (tb_name t) it pcfg)) (pi_Values (put_request (tb_name t) it pcfg))
        (stored s2 (tb_name t) k) = Inr ()"
    have "has_version a v (stored s2 (tb_name t) k)"
      using version_check [OF lock(2) pcfg [unfolded opts]] check by simp
    from that [OF read f v av it k this] st s3 show thesis by simp
  qed
qed

end

subsection \<open>Retries\<close>

text \<open>An attempt that loses against another writer, and one that writes.\<close>

definition attempt_conflicts :: "methods \<Rightarrow> entities \<Rightarrow> gotype \<Rightarrow> 's Table \<Rightarrow> KeyValue \<Rightarrow> (goval \<Rightarrow> ('s, goval) op) \<Rightarrow> rmwConfig
    \<Rightarrow> 's \<Rightarrow> error \<Rightarrow> 's \<Rightarrow> bool" where
  "attempt_conflicts ms ents T t key fn cfg s e s' \<longleftrightarrow>
     errors_Is e ErrConditionFailed \<and>
     (case rmw_prepare ms T t key fn cfg s of
        (Inr (item, opts), s1) \<Rightarrow> Table_Put ms ents t (Some (T, item)) opts s1 = (Inl e, s')
      | _ \<Rightarrow> False)"

definition attempt_writes :: "methods \<Rightarrow> entities \<Rightarrow> gotype \<Rightarrow> 's Table \<Rightarrow> KeyValue \<Rightarrow> (goval \<Rightarrow> ('s, goval) op) \<Rightarrow> rmwConfig
    \<Rightarrow> 's \<Rightarrow> 's \<Rightarrow> bool" where
  "attempt_writes ms ents T t key fn cfg s s' \<longleftrightarrow>
     (case rmw_prepare ms T t key fn cfg s of
        (Inr (item, opts), s1) \<Rightarrow> Table_Put ms ents t (Some (T, item)) opts s1 = (Inr (), s')
      | _ \<Rightarrow> False)"

lemma rmw_loop_conflicts:
  assumes "attempt_conflicts ms ents T t key fn cfg s e s'" "rc_versionAttr cfg \<noteq> []"
  shows "rmw_loop (Suc n) ms ents T t key fn cfg s =
    (if n = 0 then (Inl e, s') else rmw_loop n ms ents T t key fn cfg s')"
  using assms by (auto simp: attempt_conflicts_def split: prod.splits sum.splits)

lemma rmw_loop_writes:
  "attempt_writes ms ents T t key fn cfg s s' \<Longrightarrow> rmw_loop (Suc n) ms ents T t key fn cfg s = (Inr (), s')"
  by (auto simp: attempt_writes_def split: prod.splits sum.splits)

lemma retries:
  assumes lock: "rc_versionAttr cfg \<noteq> []"
    and lost: "\<forall>i < j. attempt_conflicts ms ents T t key fn cfg (st i) (e i) (st (Suc i))"
    and won: "attempt_writes ms ents T t key fn cfg (st j) s'"
  shows "0 < n \<Longrightarrow> rmw_loop n ms ents T t key fn cfg (st 0) =
    (if j < n then (Inr (), s') else (Inl (e (n - 1)), st n))"
  using lost won
proof (induction j arbitrary: st e n)
  case 0
  then show ?case by (cases n) (simp_all add: rmw_loop_writes del: rmw_loop.simps(2))
next
  case (Suc j)
  from Suc.prems(1) obtain k where n: "n = Suc k" by (cases n) auto
  have first: "attempt_conflicts ms ents T t key fn cfg (st 0) (e 0) (st 1)" using Suc.prems(2) by simp
  show ?case
  proof (cases "k = 0")
    case True
    then show ?thesis using rmw_loop_conflicts [OF first lock, of k] n by simp
  next
    case False
    have "rmw_loop k ms ents T t key fn cfg (st (Suc 0)) =
        (if j < k then (Inr (), s') else (Inl (e (Suc (k - 1))), st (Suc k)))"
      using Suc.IH [of k "\<lambda>i. st (Suc i)" "\<lambda>i. e (Suc i)"] Suc.prems(2,3) False by auto
    then show ?thesis using rmw_loop_conflicts [OF first lock, of k] n False by simp
  qed
qed

subsection \<open>An update nobody disturbs\<close>

lemma PutItem_succeeds:
  assumes "item_key m (pi_TableName req) (pi_Item req) = Inr k"
    and "check_condition (pi_ConditionExpression req) (pi_Names req) (pi_Values req) (lookup_item m (pi_TableName req) k) = Inr ()"
  shows "\<exists>m'. PutItem req m = Inr m'"
  using assms
  by (cases k) (auto simp: PutItem_def put_table_def item_key_def lookup_item_def table_def getItem_kget bind_Inr_iff
      split: option.splits)

text \<open>A put with the condition on the version writes, or conflicts, by the version of the stored item.\<close>

lemma PutItem_check:
  assumes "item_key m (pi_TableName req) (pi_Item req) = Inr k"
  shows "PutItem req m =
    bind (check_condition (pi_ConditionExpression req) (pi_Names req) (pi_Values req) (lookup_item m (pi_TableName req) k))
      (\<lambda>_. PutItem (req\<lparr>pi_ConditionExpression := []\<rparr>) m)"
  using assms
  by (cases k) (auto simp: PutItem_def put_table_def item_key_def lookup_item_def table_def getItem_kget bind_Inr_iff
      check_condition_def [of "[]"] bind_assoc split: option.splits)

lemma locked_put:
  assumes t: "tb_backend t = memdb" "tb_registry t = None" and a: "version_attr a" and av: "Marshal ms (Some x) = Inr av"
    and k: "item_key m (tb_name t) av = Inr k" and old: "lookup_item m (tb_name t) k = Some it"
    and w: "fmlookup it a = Some (TypeN (show_int w))" "\<bar>w\<bar> \<le> 2 ^ 53" and v: "\<bar>v\<bar> \<le> 2 ^ 53"
  shows "Table_Put ms ents t (Some x) [PutCondition (a @ '' = ?'') [AnyInt KInt64 v]] m =
    (if w = v then Table_Put ms ents t (Some x) [] m else (Inl condition_failed, m))"
proof -
  let ?opts = "[PutCondition (a @ '' = ?'') [AnyInt KInt64 v]]"
  have "\<exists>pcfg. put_config ?opts = Inr pcfg"
    using version_condition [OF a, of "AnyInt KInt64 v"] by (simp add: put_config_def PutCondition_def must_build_def)
  then obtain pcfg where pcfg: "put_config ?opts = Inr pcfg" by blast
  let ?req = "put_request (tb_name t) av pcfg" and ?plain = "put_request (tb_name t) av \<lparr>pc_condition = None\<rparr>"
  have "evalCompare (PathNode [a]) EQ (ValueNode (TypeN (show_int v))) it = Inr (w = v)"
    using w v by (simp add: evalCompare_def compare_numbers_def ParseFloat_show_int f64_cmp_int)
  with version_put_config [OF a pcfg] version_condition_eval [OF a]
  have "check_condition (pi_ConditionExpression ?req) (pi_Names ?req) (pi_Values ?req) (Some it) =
      (if w = v then Inr () else Inl condition_failed)"
    by (simp add: put_request_def condition_parts_def check_condition_def existing_or_empty_def)
  moreover have "PutItem (?req\<lparr>pi_ConditionExpression := []\<rparr>) m = PutItem ?plain m"
    by (simp add: PutItem_def put_table_def put_request_def check_condition_def split_beta condition_parts_def)
  ultimately have "PutItem ?req m = (if w = v then PutItem ?plain m else Inl condition_failed)"
    using PutItem_check [of m ?req k] k old by simp
  moreover have "put_config [] = Inr \<lparr>pc_condition = None\<rparr>" by (simp add: put_config_def)
  ultimately show ?thesis
    using t av pcfg by (simp add: Table_Put_def sbind_def memdb_PutItem set_discriminator_def split: option.split)
qed

lemma undisturbed_update:
  assumes t: "tb_backend t = memdb" "tb_registry t = None" and lock: "rc_versionAttr cfg = a" "version_attr a"
    and key: "item_key m (tb_name t) (KeyValue_Map key) = Inr k" "lookup_item m (tb_name t) k = Some it"
    and item: "Unmarshal ms it T (zero_value T) = Inr item" "fn item m = (Inr item', m)"
    and v: "getVersionField T item' a = Inr v" "has_version a v (Some it)"
    and out: "setVersionField T item' a (wrap_int KInt64 (v + 1)) = Inr out" "Marshal ms (Some (T, out)) = Inr av"
    and same: "item_key m (tb_name t) av = Inr k" and n: "0 < n"
  shows "\<exists>m'. rmw_loop n ms ents T t key fn cfg m = (Inr (), m') \<and>
    (\<forall>u j. lookup_item m' u j = (if u = tb_name t \<and> j = k then Some av else lookup_item m u j))"
proof -
  let ?opts = "[PutCondition (a @ '' = ?'') [AnyInt KInt64 v]]"
  have a: "a \<noteq> []" using lock(2) by (simp add: version_attr_def attr_name_def)
  have "it \<noteq> fmempty" using v(2) by (auto simp: has_version_def)
  moreover have "gc_projection (get_config []) = []" by (simp add: get_config_def)
  ultimately have "Get ms T t key [] m = (Inr item, m)"
    using mb.Get_stored [OF t(1) _ key(1), of "[]" ms T] key(2) item(1) by simp
  moreover have w: "rmw_write cfg T item' = Inr (out, ?opts)" using lock(1) a v(1) out(1) by (simp add: rmw_write_def)
  ultimately have prep: "rmw_prepare ms T t key fn cfg m = (Inr (out, ?opts), m)"
    using item(2) by (simp add: rmw_prepare_def sbind_def)
  have "\<exists>pcfg. put_config ?opts = Inr pcfg"
    using version_condition [OF lock(2), of "AnyInt KInt64 v"] by (simp add: put_config_def PutCondition_def must_build_def)
  then obtain pcfg where pcfg: "put_config ?opts = Inr pcfg" by blast
  let ?req = "put_request (tb_name t) av pcfg"
  have "check_condition (pi_ConditionExpression ?req) (pi_Names ?req) (pi_Values ?req) (lookup_item m (tb_name t) k) = Inr ()"
    using version_check [OF lock(2) pcfg] v(2) key(2) by simp
  then obtain m' where m': "PutItem ?req m = Inr m'" using PutItem_succeeds [of m ?req k] same by auto
  then have put: "Table_Put ms ents t (Some (T, out)) ?opts m = (Inr (), m')"
    using t out(2) pcfg by (simp add: Table_Put_def sbind_def memdb_PutItem set_discriminator_def split: option.split)
  obtain n' where "n = Suc n'" using n by (cases n) auto
  with prep put have "rmw_loop n ms ents T t key fn cfg m = (Inr (), m')" by simp
  moreover from m' have "lookup_item m' u j = (if u = tb_name t \<and> j = k then Some av else lookup_item m u j)" for u j
    by (rule PutItem_refines) (use same in auto)
  ultimately show ?thesis by blast
qed

end
