(* ===== verification/RmwExamples.thy ===== *)
theory RmwExamples
  imports Rmw ClientExamples
begin

text \<open>A counter with a version in the example table, and a function that is disturbed once.\<close>

definition ex_counter :: gotype where
  "ex_counter = GNamed ''Counter'' (GStruct
     [(ex_field ''PK'' [], GString), (ex_field ''SK'' [], GString), (ex_field ''N'' [], GInt KInt),
      (ex_field ''Version'' [], GInt KInt)])"

definition ex_count :: "int \<Rightarrow> int \<Rightarrow> goval" where
  "ex_count n v = VStruct [VString ''a'', VString ''c'', VInt n, VInt v]"

definition ex_count_item :: "int \<Rightarrow> int \<Rightarrow> item" where
  "ex_count_item n v = fmap_of_list
     [(''PK'', TypeS ''a''), (''SK'', TypeS ''c''), (''N'', TypeN (show_int n)), (''Version'', TypeN (show_int v))]"

definition ex_counter_db :: "int \<Rightarrow> int \<Rightarrow> MemoryBackend" where
  "ex_counter_db n v = ex_run (PutItem ((ex_put [] [])\<lparr>pi_Item := ex_count_item n v\<rparr>) ex_db0)"

definition ex_counter_key :: KeyValue where
  "ex_counter_key = StringPairKey ''PK'' ''a'' ''SK'' ''c''"

definition ex_lock :: "(rmwConfig \<Rightarrow> rmwConfig) list" where
  "ex_lock = [OptimisticLock ''Version'', MaxRetries 1]"

text \<open>Adds ten to the count.\<close>

definition ex_add_ten :: "goval \<Rightarrow> (MemoryBackend, goval) op" where
  "ex_add_ten item = sreturn (Inr (VStruct ((struct_values item)[2 := VInt (val_int (struct_values item ! 2) + 10)])))"

text \<open>The same, while another client writes version 2 with the count 100 if it finds version 1.\<close>

definition ex_disturbed :: "goval \<Rightarrow> (MemoryBackend, goval) op" where
  "ex_disturbed item m = ex_add_ten item (if val_int (struct_values item ! 3) = 1 then ex_counter_db 100 2 else m)"

lemma ex_version: "version_attr ''Version''"
  by code_simp

lemma ex_lock_config: "rc_versionAttr (rmw_config ex_lock) = ''Version''" "rc_maxRetries (rmw_config ex_lock) = 1"
  by code_simp+

lemma ex_counter_steps:
  "ex_add_ten (ex_count n v) m = (Inr (ex_count (n + 10) v), m)"
  "ex_disturbed (ex_count n v) m = (Inr (ex_count (n + 10) v), if v = 1 then ex_counter_db 100 2 else m)"
  by (simp_all add: ex_disturbed_def ex_add_ten_def ex_count_def struct_values_def val_int_def)

lemma ex_counter_gets:
  "Get no_methods ex_counter ex_table ex_counter_key [] (ex_counter_db 7 1) = (Inr (ex_count 7 1), ex_counter_db 7 1)"
  "Get no_methods ex_counter ex_table ex_counter_key [] (ex_counter_db 100 2) = (Inr (ex_count 100 2), ex_counter_db 100 2)"
  by code_simp+

lemma ex_counter_puts:
  "Table_Put no_methods (\<lambda>_. None) ex_table (Some (ex_counter, ex_count 17 2)) [] (ex_counter_db 7 1) = (Inr (), ex_counter_db 17 2)"
  "Table_Put no_methods (\<lambda>_. None) ex_table (Some (ex_counter, ex_count 110 3)) [] (ex_counter_db 100 2) = (Inr (), ex_counter_db 110 3)"
  by code_simp+

lemma ex_counter_stored:
  "lookup_item (ex_counter_db 7 1) ''t'' (''S:a'', ''S:c'') = Some (ex_count_item 7 1)"
  "lookup_item (ex_counter_db 100 2) ''t'' (''S:a'', ''S:c'') = Some (ex_count_item 100 2)"
  "item_key (ex_counter_db 7 1) ''t'' (ex_count_item 17 2) = Inr (''S:a'', ''S:c'')"
  "item_key (ex_counter_db 7 1) ''t'' (KeyValue_Map ex_counter_key) = Inr (''S:a'', ''S:c'')"
  "item_key (ex_counter_db 100 2) ''t'' (ex_count_item 17 2) = Inr (''S:a'', ''S:c'')"
  "item_key (ex_counter_db 100 2) ''t'' (ex_count_item 110 3) = Inr (''S:a'', ''S:c'')"
  by code_simp+

lemma ex_counter_marshal:
  "Marshal no_methods (Some (ex_counter, ex_count 17 2)) = Inr (ex_count_item 17 2)"
  "Marshal no_methods (Some (ex_counter, ex_count 110 3)) = Inr (ex_count_item 110 3)"
  "Unmarshal no_methods (ex_count_item 7 1) ex_counter (zero_value ex_counter) = Inr (ex_count 7 1)"
  by code_simp+

lemma ex_count_version: "fmlookup (ex_count_item n v) ''Version'' = Some (TypeN (show_int v))"
  by (simp add: ex_count_item_def)

lemma ex_counter_writes:
  "rmw_write (rmw_config ex_lock) ex_counter (ex_count 17 1) =
    Inr (ex_count 17 2, [PutCondition (''Version'' @ '' = ?'') [AnyInt KInt64 1]])"
  "rmw_write (rmw_config ex_lock) ex_counter (ex_count 110 2) =
    Inr (ex_count 110 3, [PutCondition (''Version'' @ '' = ?'') [AnyInt KInt64 2]])"
proof -
  have "getVersionField ex_counter (ex_count 17 1) ''Version'' = Inr 1"
    "setVersionField ex_counter (ex_count 17 1) ''Version'' (wrap_int KInt64 (1 + 1)) = Inr (ex_count 17 2)"
    "getVersionField ex_counter (ex_count 110 2) ''Version'' = Inr 2"
    "setVersionField ex_counter (ex_count 110 2) ''Version'' (wrap_int KInt64 (2 + 1)) = Inr (ex_count 110 3)"
    by code_simp+
  then show
    "rmw_write (rmw_config ex_lock) ex_counter (ex_count 17 1) =
      Inr (ex_count 17 2, [PutCondition (''Version'' @ '' = ?'') [AnyInt KInt64 1]])"
    "rmw_write (rmw_config ex_lock) ex_counter (ex_count 110 2) =
      Inr (ex_count 110 3, [PutCondition (''Version'' @ '' = ?'') [AnyInt KInt64 2]])"
    by (simp_all add: rmw_write_def ex_lock_config)
qed

text \<open>The first attempt loses against the other client, the second one writes.\<close>

lemma ex_first_attempt: "attempt_conflicts no_methods (\<lambda>_. None) ex_counter ex_table ex_counter_key ex_disturbed
    (rmw_config ex_lock) (ex_counter_db 7 1) condition_failed (ex_counter_db 100 2)"
proof -
  have "Table_Put no_methods (\<lambda>_. None) ex_table (Some (ex_counter, ex_count 17 2))
      [PutCondition (''Version'' @ '' = ?'') [AnyInt KInt64 1]] (ex_counter_db 100 2) = (Inl condition_failed, ex_counter_db 100 2)"
    using locked_put [OF ex_table_sel(2,3) ex_version ex_counter_marshal(1) _ _ ex_count_version [of 100 2], of "ex_counter_db 100 2"
        "(''S:a'', ''S:c'')" 1 "\<lambda>_. None"] ex_counter_stored by simp
  moreover have "rmw_prepare no_methods ex_counter ex_table ex_counter_key ex_disturbed (rmw_config ex_lock) (ex_counter_db 7 1) =
      (Inr (ex_count 17 2, [PutCondition (''Version'' @ '' = ?'') [AnyInt KInt64 1]]), ex_counter_db 100 2)"
    by (simp add: rmw_prepare_def sbind_def ex_counter_gets ex_counter_steps ex_counter_writes [simplified])
  ultimately show ?thesis by (simp add: attempt_conflicts_def condition_failed_def newError_def)
qed

lemma ex_second_attempt: "attempt_writes no_methods (\<lambda>_. None) ex_counter ex_table ex_counter_key ex_disturbed
    (rmw_config ex_lock) (ex_counter_db 100 2) (ex_counter_db 110 3)"
proof -
  have "Table_Put no_methods (\<lambda>_. None) ex_table (Some (ex_counter, ex_count 110 3))
      [PutCondition (''Version'' @ '' = ?'') [AnyInt KInt64 2]] (ex_counter_db 100 2) = (Inr (), ex_counter_db 110 3)"
    using locked_put [OF ex_table_sel(2,3) ex_version ex_counter_marshal(2) _ _ ex_count_version [of 100 2], of "ex_counter_db 100 2"
        "(''S:a'', ''S:c'')" 2 "\<lambda>_. None"] ex_counter_stored ex_counter_puts(2) by simp
  moreover have "rmw_prepare no_methods ex_counter ex_table ex_counter_key ex_disturbed (rmw_config ex_lock) (ex_counter_db 100 2) =
      (Inr (ex_count 110 3, [PutCondition (''Version'' @ '' = ?'') [AnyInt KInt64 2]]), ex_counter_db 100 2)"
    by (simp add: rmw_prepare_def sbind_def ex_counter_gets ex_counter_steps ex_counter_writes [simplified])
  ultimately show ?thesis by (simp add: attempt_writes_def)
qed

end
