(* ===== verification/Batch.thy ===== *)
theory Batch
  imports QueryPages
begin

text \<open>
  Batches (\<open>batch.go\<close>): the items are cut into chunks, each chunk is sent until nothing of it is left
  unprocessed or the retries are used up.  A context is what its \<open>Done\<close> channel gives at each wait between two
  attempts, for each chunk.  The chunks of a write run as tasks of an \<open>errgroup\<close>, which is not part of the repository: it is the
  parameter \<open>run_group\<close>, given the limit, the context and the tasks.
\<close>

definition maxBatchWriteItems :: nat where
  "maxBatchWriteItems = 25"

definition maxBatchGetItems :: nat where
  "maxBatchGetItems = 100"

definition batch_maxRetries :: nat where
  "batch_maxRetries = 5"

type_synonym ctx = "nat \<Rightarrow> bool"

type_synonym 's task = "ctx \<Rightarrow> ('s, unit) op"

subsection \<open>Options\<close>

record 'p batchConfig =
  bc_onProgress :: "(nat \<Rightarrow> nat \<Rightarrow> 'p \<Rightarrow> 'p) option"
  bc_maxConcurrency :: int

definition defaultBatchConfig :: "'p batchConfig" where
  "defaultBatchConfig = \<lparr>bc_onProgress = None, bc_maxConcurrency = 1\<rparr>"

definition OnProgress :: "(nat \<Rightarrow> nat \<Rightarrow> 'p \<Rightarrow> 'p) \<Rightarrow> 'p batchConfig \<Rightarrow> 'p batchConfig" where
  "OnProgress fn c = c\<lparr>bc_onProgress := Some fn\<rparr>"

definition MaxConcurrency :: "int \<Rightarrow> 'p batchConfig \<Rightarrow> 'p batchConfig" where
  "MaxConcurrency n c = c\<lparr>bc_maxConcurrency := (if n < 1 then 1 else n)\<rparr>"

subsection \<open>Chunks\<close>

text \<open>The size is one of the two limits; with size 0 the loop of the code would not end.\<close>

function chunkWriteRequests :: "nat \<Rightarrow> 'a list \<Rightarrow> 'a list list" where
  "chunkWriteRequests n items =
     (if items = [] \<or> n = 0 then [] else take n items # chunkWriteRequests n (drop n items))"
  by pat_completeness auto
termination
  by (relation "measure (\<lambda>(n, items). length items)") auto

declare chunkWriteRequests.simps [simp del]

lemma chunks_Nil [simp]: "chunkWriteRequests n [] = []"
  by (simp add: chunkWriteRequests.simps)

lemma concat_chunks: "0 < n \<Longrightarrow> concat (chunkWriteRequests n xs) = xs"
  by (induction n xs rule: chunkWriteRequests.induct) (subst chunkWriteRequests.simps, simp)

lemma chunk_size: "c \<in> set (chunkWriteRequests n xs) \<Longrightarrow> c \<noteq> [] \<and> length c \<le> n"
proof (induction n xs rule: chunkWriteRequests.induct)
  case (1 n xs)
  show ?case
  proof (cases "xs = [] \<or> n = 0")
    case True
    with "1.prems" show ?thesis by (simp add: chunkWriteRequests.simps [of n xs])
  next
    case False
    with "1.prems" have "c = take n xs \<or> c \<in> set (chunkWriteRequests n (drop n xs))"
      by (simp add: chunkWriteRequests.simps [of n xs])
    with "1.IH" False show ?thesis by auto
  qed
qed

text \<open>As many chunks as needed: all but the last one are full.\<close>

lemma chunk_count: "0 < n \<Longrightarrow> length (chunkWriteRequests n xs) = (length xs + (n - 1)) div n"
proof (induction n xs rule: chunkWriteRequests.induct)
  case (1 n xs)
  show ?case
  proof (cases "xs = []")
    case False
    with 1 have "length (chunkWriteRequests n xs) = Suc ((length xs - n + (n - 1)) div n)"
      by (subst chunkWriteRequests.simps) simp
    also have "\<dots> = (length xs + (n - 1)) div n"
    proof (cases "n \<le> length xs")
      case True
      then have "length xs + (n - 1) = (length xs - n + (n - 1)) + n" by simp
      with 1(2) show ?thesis by (metis Suc_eq_plus1 div_add_self2 less_irrefl_nat)
    next
      case small: False
      then have "(length xs + (n - 1)) div n = 1"
        using False 1(2) by (cases xs) (auto intro!: div_nat_eqI)
      with small 1(2) show ?thesis by simp
    qed
    finally show ?thesis .
  qed (use 1(2) in simp)
qed

subsection \<open>Writes\<close>

definition unprocessed_writes :: "string \<Rightarrow> BatchWriteItemResponse \<Rightarrow> WriteRequest list" where
  "unprocessed_writes tableName resp =
     (case fmlookup (bw_UnprocessedItems resp) tableName of Some wrs \<Rightarrow> wrs | None \<Rightarrow> [])"

text \<open>The attempts, by how many retries are left.\<close>

fun send_writes :: "nat \<Rightarrow> 's Table \<Rightarrow> ctx \<Rightarrow> WriteRequest list \<Rightarrow> ('s, unit) op" where
  "send_writes n t ctx pending =
     sbind (be_BatchWriteItem (tb_backend t) [(tb_name t, pending)]) (\<lambda>resp.
       let unprocessed = unprocessed_writes (tb_name t) resp in
       if unprocessed = [] then sreturn (Inr ())
       else case n of
         0 \<Rightarrow> sreturn (Inl (Errorf ''dynago.BatchWrite: unprocessed items after retries''))
       | Suc k \<Rightarrow>
           if ctx (batch_maxRetries - n) then sreturn (Inl ContextErr) else send_writes k t ctx unprocessed)"

declare send_writes.simps [simp del]

definition sendBatchWrite :: "'s Table \<Rightarrow> ctx \<Rightarrow> WriteRequest list \<Rightarrow> ('s, unit) op" where
  "sendBatchWrite = send_writes batch_maxRetries"

text \<open>
  The state of the tasks: the backend's, the counter they share, and the state \<open>onProgress\<close> works on.
\<close>

type_synonym ('s, 'p) batch_state = "'s \<times> nat \<times> 'p"

definition write_task :: "'s Table \<Rightarrow> 'p batchConfig \<Rightarrow> nat \<Rightarrow> WriteRequest list \<Rightarrow> ('s, 'p) batch_state task" where
  "write_task t cfg num chunk ctx st =
     (case st of (s, completed, p) \<Rightarrow>
        (case sendBatchWrite t ctx chunk s of
           (Inl e, s') \<Rightarrow> (Inl e, (s', completed, p))
         | (Inr _, s') \<Rightarrow>
             (case bc_onProgress cfg of
                None \<Rightarrow> (Inr (), (s', completed, p))
              | Some fn \<Rightarrow>
                  let c = completed + length chunk in (Inr (), (s', c, fn c num p)))))"

type_synonym 's group = "int \<Rightarrow> (nat \<Rightarrow> ctx) \<Rightarrow> 's task list \<Rightarrow> ('s, unit) op"

definition executeBatchWrite :: "('s, 'p) batch_state group \<Rightarrow> 's Table \<Rightarrow> (nat \<Rightarrow> ctx) \<Rightarrow> WriteRequest list \<Rightarrow> 'p batchConfig
    \<Rightarrow> ('s \<times> 'p, unit) op" where
  "executeBatchWrite run_group t ctx requests cfg st =
     (case st of (s, p) \<Rightarrow>
        (case run_group (bc_maxConcurrency cfg) ctx
                (map (write_task t cfg (length requests)) (chunkWriteRequests maxBatchWriteItems requests)) (s, 0, p) of
           (r, (s', _, p')) \<Rightarrow> (r, (s', p'))))"

fun put_requests :: "methods \<Rightarrow> (gotype \<times> goval) option list \<Rightarrow> WriteRequest list result" where
  "put_requests ms [] = Inr []"
| "put_requests ms (x # xs) =
     bind (on_error (ErrorfW ''dynago.BatchPut: marshal item'') (Marshal ms x)) (\<lambda>av.
       bind (put_requests ms xs) (\<lambda>wrs. Inr (\<lparr>wr_PutItem = Some av, wr_DeleteItem = None\<rparr> # wrs)))"

definition BatchPut :: "('s, 'p) batch_state group \<Rightarrow> methods \<Rightarrow> 's Table \<Rightarrow> (nat \<Rightarrow> ctx) \<Rightarrow> (gotype \<times> goval) option list
    \<Rightarrow> ('p batchConfig \<Rightarrow> 'p batchConfig) list \<Rightarrow> ('s \<times> 'p, unit) op" where
  "BatchPut run_group ms t ctx items opts =
     (if items = [] then sreturn (Inr ())
      else let cfg = fold (\<lambda>opt c. opt c) opts defaultBatchConfig in
           sbind (sreturn (put_requests ms items)) (\<lambda>wrs. executeBatchWrite run_group t ctx wrs cfg))"

definition delete_requests :: "KeyValue list \<Rightarrow> WriteRequest list" where
  "delete_requests keys = map (\<lambda>k. \<lparr>wr_PutItem = None, wr_DeleteItem = Some (KeyValue_Map k)\<rparr>) keys"

definition BatchDelete :: "('s, 'p) batch_state group \<Rightarrow> 's Table \<Rightarrow> (nat \<Rightarrow> ctx) \<Rightarrow> KeyValue list
    \<Rightarrow> ('p batchConfig \<Rightarrow> 'p batchConfig) list \<Rightarrow> ('s \<times> 'p, unit) op" where
  "BatchDelete run_group t ctx keys opts =
     (if keys = [] then sreturn (Inr ())
      else executeBatchWrite run_group t ctx (delete_requests keys) (fold (\<lambda>opt c. opt c) opts defaultBatchConfig))"

subsection \<open>Reads\<close>

record batchGetConfig =
  bgc_projection :: "string list"

definition BatchGetProject :: "string list \<Rightarrow> batchGetConfig \<Rightarrow> batchGetConfig" where
  "BatchGetProject attrs c = c\<lparr>bgc_projection := bgc_projection c @ attrs\<rparr>"

definition unprocessed_keys :: "string \<Rightarrow> BatchGetItemResponse \<Rightarrow> item list" where
  "unprocessed_keys tableName resp =
     (case fmlookup (bg_UnprocessedKeys resp) tableName of Some kp \<Rightarrow> kp_Keys kp | None \<Rightarrow> [])"

definition response_items :: "string \<Rightarrow> BatchGetItemResponse \<Rightarrow> item list" where
  "response_items tableName resp = (case fmlookup (bg_Responses resp) tableName of Some its \<Rightarrow> its | None \<Rightarrow> [])"

fun send_gets :: "nat \<Rightarrow> 's Table \<Rightarrow> ctx \<Rightarrow> string \<Rightarrow> names \<Rightarrow> item list \<Rightarrow> item list \<Rightarrow> ('s, item list) op" where
  "send_gets n t ctx projExpr projNames allItems pending =
     sbind (be_BatchGetItem (tb_backend t)
              [(tb_name t, \<lparr>kp_Keys = pending, kp_ProjectionExpression = projExpr, kp_Names = projNames,
                kp_ConsistentRead = False\<rparr>)]) (\<lambda>resp.
       let allItems' = allItems @ response_items (tb_name t) resp; unprocessed = unprocessed_keys (tb_name t) resp in
       if unprocessed = [] then sreturn (Inr allItems')
       else case n of
         0 \<Rightarrow> sreturn (Inl (Errorf ''dynago.BatchGet: unprocessed keys after retries''))
       | Suc k \<Rightarrow>
           if ctx (batch_maxRetries - n) then sreturn (Inl ContextErr)
           else send_gets k t ctx projExpr projNames allItems' unprocessed)"

declare send_gets.simps [simp del]

definition sendBatchGet :: "'s Table \<Rightarrow> ctx \<Rightarrow> item list \<Rightarrow> string \<Rightarrow> names \<Rightarrow> ('s, item list) op" where
  "sendBatchGet t ctx keys projExpr projNames = send_gets batch_maxRetries t ctx projExpr projNames [] keys"

fun unmarshal_items :: "methods \<Rightarrow> gotype \<Rightarrow> item list \<Rightarrow> goval list \<Rightarrow> goval list result" where
  "unmarshal_items ms T [] results = Inr results"
| "unmarshal_items ms T (it # its) results =
     bind (Unmarshal ms it T (zero_value T)) (\<lambda>v. unmarshal_items ms T its (results @ [v]))"

fun get_chunks :: "methods \<Rightarrow> gotype \<Rightarrow> 's Table \<Rightarrow> (nat \<Rightarrow> ctx) \<Rightarrow> string \<Rightarrow> names \<Rightarrow> nat \<Rightarrow> item list list
    \<Rightarrow> goval list \<Rightarrow> ('s, goval list) op" where
  "get_chunks ms T t ctx projExpr projNames i [] results = sreturn (Inr results)"
| "get_chunks ms T t ctx projExpr projNames i (chunk # chunks) results =
     sbind (sendBatchGet t (ctx i) chunk projExpr projNames) (\<lambda>its.
       sbind (sreturn (unmarshal_items ms T its results))
         (get_chunks ms T t ctx projExpr projNames (Suc i) chunks))"

text \<open>The chunks are cut as for writes.\<close>

definition BatchGet :: "methods \<Rightarrow> gotype \<Rightarrow> 's Table \<Rightarrow> (nat \<Rightarrow> ctx) \<Rightarrow> KeyValue list \<Rightarrow> (batchGetConfig \<Rightarrow> batchGetConfig) list
    \<Rightarrow> ('s, goval list) op" where
  "BatchGet ms T t ctx keys opts =
     (if keys = [] then sreturn (Inr [])
      else let cfg = fold (\<lambda>opt c. opt c) opts \<lparr>bgc_projection = []\<rparr> in
           case (if bgc_projection cfg = [] then ([], fmempty) else buildProjection (bgc_projection cfg)) of
             (projExpr, projNames) \<Rightarrow>
               get_chunks ms T t ctx projExpr projNames 0
                 (chunkWriteRequests maxBatchGetItems (map KeyValue_Map keys)) [])"

subsection \<open>How often the backend is called\<close>

text \<open>Counted by the logging backend, which reads its clock twice for each call, and once for one that panics, which is the last.\<close>

lemma logged_batch_call:
  "\<exists>r s'. be_BatchWriteItem (loggingBackend lc clock be) req l = (r, s') \<and> lg_reads s' \<le> lg_reads l + 2"
  "\<exists>r s'. be_BatchGetItem (loggingBackend lc clock be) greq l = (r, s') \<and> lg_reads s' \<le> lg_reads l + 2"
  by (simp_all add: loggingBackend_def logged_call_def Let_def split: prod.split)

lemma send_writes_calls:
  assumes "tb_backend t = loggingBackend lc clock be"
  shows "lg_reads (snd (send_writes n t ctx pending l)) \<le> lg_reads l + 2 * Suc n"
proof (induction n arbitrary: pending l)
  case 0
  from logged_batch_call(1) obtain r s' where
    "be_BatchWriteItem (loggingBackend lc clock be) [(tb_name t, pending)] l = (r, s')" "lg_reads s' \<le> lg_reads l + 2"
    by blast
  then show ?case by (subst send_writes.simps) (auto simp: assms sbind_def Let_def split: sum.split)
next
  case (Suc n)
  from logged_batch_call(1) obtain r s' where
    "be_BatchWriteItem (loggingBackend lc clock be) [(tb_name t, pending)] l = (r, s')" "lg_reads s' \<le> lg_reads l + 2"
    by blast
  moreover from this(2) have "lg_reads (snd (send_writes n t ctx p s')) \<le> lg_reads l + 2 * Suc (Suc n)" for p
    using Suc [of p s'] by simp
  ultimately show ?case by (subst send_writes.simps) (auto simp: assms sbind_def Let_def split: sum.split)
qed

lemma send_gets_calls:
  assumes "tb_backend t = loggingBackend lc clock be"
  shows "lg_reads (snd (send_gets n t ctx e nm acc pending l)) \<le> lg_reads l + 2 * Suc n"
proof (induction n arbitrary: pending acc l)
  case 0
  from logged_batch_call(2) obtain r s' where
    "be_BatchGetItem (loggingBackend lc clock be) [(tb_name t, \<lparr>kp_Keys = pending, kp_ProjectionExpression = e,
      kp_Names = nm, kp_ConsistentRead = False\<rparr>)] l = (r, s')" "lg_reads s' \<le> lg_reads l + 2"
    by blast
  then show ?case by (subst send_gets.simps) (auto simp: assms sbind_def Let_def split: sum.split)
next
  case (Suc n)
  from logged_batch_call(2) obtain r s' where
    "be_BatchGetItem (loggingBackend lc clock be) [(tb_name t, \<lparr>kp_Keys = pending, kp_ProjectionExpression = e,
      kp_Names = nm, kp_ConsistentRead = False\<rparr>)] l = (r, s')" "lg_reads s' \<le> lg_reads l + 2"
    by blast
  moreover from this(2) have "lg_reads (snd (send_gets n t ctx e nm acc' p s')) \<le> lg_reads l + 2 * Suc (Suc n)" for acc' p
    using Suc [of acc' p s'] by simp
  ultimately show ?case by (subst send_gets.simps) (auto simp: assms sbind_def Let_def split: sum.split)
qed

lemma get_chunks_calls:
  assumes "tb_backend t = loggingBackend lc clock be"
  shows "lg_reads (snd (get_chunks ms T t ctx e nm i chunks results l)) \<le> lg_reads l + 12 * length chunks"
proof (induction chunks arbitrary: i results l)
  case (Cons chunk chunks)
  obtain r s' where r: "sendBatchGet t (ctx i) chunk e nm l = (r, s')" by (cases "sendBatchGet t (ctx i) chunk e nm l")
  with send_gets_calls [OF assms, of batch_maxRetries "ctx i" e nm "[]" chunk l] have "lg_reads s' \<le> lg_reads l + 12"
    by (simp add: sendBatchGet_def batch_maxRetries_def)
  then have rest: "lg_reads (snd (get_chunks ms T t ctx e nm (Suc i) chunks rs s')) \<le> lg_reads l + (12 + 12 * length chunks)" for rs
    using Cons.IH [of "Suc i" rs s'] by linarith
  show ?case
  proof (cases r)
    case (Inr its)
    with r rest \<open>lg_reads s' \<le> lg_reads l + 12\<close> show ?thesis
      by (cases "unmarshal_items ms T its results") (simp_all add: sbind_def)
  qed (use r \<open>lg_reads s' \<le> lg_reads l + 12\<close> in \<open>simp add: sbind_def\<close>)
qed simp

text \<open>A batch get of \<open>n\<close> keys calls the backend at most six times for each hundred of them.\<close>

lemma batch_get_calls:
  assumes "tb_backend t = loggingBackend lc clock be"
  shows "lg_reads (snd (BatchGet ms T t ctx keys opts l)) \<le> lg_reads l + 2 * (6 * ((length keys + 99) div 100))"
proof -
  let ?chunks = "chunkWriteRequests maxBatchGetItems (map KeyValue_Map keys)"
  have "length ?chunks = (length keys + 99) div 100" by (simp add: chunk_count maxBatchGetItems_def)
  with get_chunks_calls [OF assms, of ms T ctx _ _ 0 ?chunks "[]" l] show ?thesis
    by (auto simp: BatchGet_def Let_def split: prod.split)
qed

end
