(* ===== verification/BatchMem.thy ===== *)
theory BatchMem
  imports Batch Client
begin

text \<open>
  Batches on the in-memory backend, which leaves nothing unprocessed: cutting a batch into chunks changes
  neither what is written nor what is read.
\<close>

subsection \<open>Tasks one at a time\<close>

text \<open>
  What \<open>errgroup\<close> documents for limit 1: the tasks run one after the other; the first error is the result, and
  the context of the tasks after it is done.
\<close>

fun in_order :: "(nat \<Rightarrow> ctx) \<Rightarrow> nat \<Rightarrow> 's task list \<Rightarrow> ('s, unit) op" where
  "in_order ctx i [] st = (Inr (), st)"
| "in_order ctx i (task # tasks) st =
     (case task (ctx i) st of
        (Inr _, st') \<Rightarrow> in_order ctx (Suc i) tasks st'
      | (Inl e, st') \<Rightarrow> (Inl e, snd (in_order (\<lambda>_ _. True) (Suc i) tasks st')))"

definition sequential_group :: "'s group \<Rightarrow> bool" where
  "sequential_group g \<longleftrightarrow> (\<forall>ctx tasks st. g 1 ctx tasks st = in_order ctx 0 tasks st)"

lemma sequential_in_order: "sequential_group (\<lambda>_ ctx. in_order ctx 0)"
  by (simp add: sequential_group_def)

subsection \<open>Writes\<close>

lemma batch_writes_append:
  "batch_writes (vs @ ws) td =
     (case batch_writes vs td of (Inl e, td') \<Rightarrow> (Inl e, td') | (Inr _, td') \<Rightarrow> batch_writes ws td')"
  by (induction vs arbitrary: td) (simp_all split: sum.split)

lemma send_writes_memdb:
  assumes "tb_backend t = memdb" "fmlookup m (tb_name t) = Some td" "length wrs \<le> 25"
  shows "sendBatchWrite t c wrs m = (case batch_writes wrs td of (r, td') \<Rightarrow> (r, fmupd (tb_name t) td' m))"
proof (cases "batch_writes wrs td")
  case (Pair r td')
  with assms show ?thesis
    by (cases r)
      (simp_all add: sendBatchWrite_def send_writes.simps memdb_batches BatchWriteItem_def table_def sbind_def
        unprocessed_writes_def)
qed

text \<open>What is left of the counter and of the callback's state after the first \<open>c\<close> items and \<open>chunks\<close> more.\<close>

fun progress :: "'p batchConfig \<Rightarrow> nat \<Rightarrow> nat \<times> 'p \<Rightarrow> 'a list list \<Rightarrow> nat \<times> 'p" where
  "progress cfg n cp [] = cp"
| "progress cfg n cp (chunk # chunks) =
     progress cfg n
       (case bc_onProgress cfg of None \<Rightarrow> cp | Some fn \<Rightarrow> (fst cp + length chunk, fn (fst cp + length chunk) n (snd cp)))
       chunks"

lemma write_tasks_memdb:
  assumes "tb_backend t = memdb" "\<forall>c \<in> set chunks. length c \<le> 25"
    and "fmlookup m (tb_name t) = Some td" "batch_writes (concat chunks) td = (r, td')"
  shows "\<exists>m'. in_order ctx i (map (write_task t cfg n) chunks) (m, cp) =
    (r, case r of Inr _ \<Rightarrow> (fmupd (tb_name t) td' m, progress cfg n cp chunks) | Inl _ \<Rightarrow> m')"
  using assms(2-4)
proof (induction chunks arbitrary: i m td cp)
  case Nil
  then have "fmupd (tb_name t) td' m = m" by (auto intro!: fmap_ext)
  with Nil show ?case by auto
next
  case (Cons chunk chunks)
  obtain r1 td1 where r1: "batch_writes chunk td = (r1, td1)" by (cases "batch_writes chunk td")
  have task: "sendBatchWrite t (ctx i) chunk m = (r1, fmupd (tb_name t) td1 m)"
    using send_writes_memdb [OF assms(1) Cons.prems(2), of chunk "ctx i"] Cons.prems(1) r1 by simp
  obtain c p where cp: "cp = (c, p)" by (cases cp)
  show ?case
  proof (cases r1)
    case (Inl e)
    with r1 Cons.prems(3) have "r = Inl e" by (simp add: batch_writes_append)
    with task Inl cp show ?thesis by (simp add: write_task_def del: split_paired_Ex)
  next
    case (Inr u)
    with r1 Cons.prems(3) have rest: "batch_writes (concat chunks) td1 = (r, td')" by (simp add: batch_writes_append)
    let ?cp = "case bc_onProgress cfg of None \<Rightarrow> cp | Some fn \<Rightarrow> (fst cp + length chunk, fn (fst cp + length chunk) n (snd cp))"
    have "write_task t cfg n chunk (ctx i) (m, cp) = (Inr (), fmupd (tb_name t) td1 m, ?cp)"
      using task Inr by (cases "bc_onProgress cfg") (simp_all add: write_task_def cp Let_def)
    then have step: "in_order ctx i (map (write_task t cfg n) (chunk # chunks)) (m, cp) =
        in_order ctx (Suc i) (map (write_task t cfg n) chunks) (fmupd (tb_name t) td1 m, ?cp)"
      by simp
    have "fmupd (tb_name t) td' (fmupd (tb_name t) td1 m) = fmupd (tb_name t) td' m" by (auto intro!: fmap_ext)
    with Cons.IH [OF _ _ rest, of "fmupd (tb_name t) td1 m" "Suc i" ?cp] Cons.prems(1) show ?thesis
      unfolding step by (cases r) simp_all
  qed
qed

text \<open>The whole batch as one sequence of writes, for a group with limit 1.\<close>

lemma executeBatchWrite_memdb:
  assumes g: "sequential_group g" "bc_maxConcurrency cfg = 1" and t: "tb_backend t = memdb" "fmlookup m (tb_name t) = Some td"
    and w: "batch_writes wrs td = (r, td')"
  shows "\<exists>mp. executeBatchWrite g t ctx wrs cfg (m, p) =
    (r, case r of Inl _ \<Rightarrow> mp | Inr _ \<Rightarrow> (fmupd (tb_name t) td' m,
      snd (progress cfg (length wrs) (0, p) (chunkWriteRequests maxBatchWriteItems wrs))))"
proof -
  let ?chunks = "chunkWriteRequests maxBatchWriteItems wrs"
  have "concat ?chunks = wrs" by (simp add: concat_chunks maxBatchWriteItems_def)
  moreover have "\<forall>c \<in> set ?chunks. length c \<le> 25" using chunk_size by (fastforce simp: maxBatchWriteItems_def)
  ultimately obtain mcp where
    run: "in_order ctx 0 (map (write_task t cfg (length wrs)) ?chunks) (m, 0, p) =
      (r, case r of Inr _ \<Rightarrow> (fmupd (tb_name t) td' m, progress cfg (length wrs) (0, p) ?chunks) | Inl _ \<Rightarrow> mcp)"
    using write_tasks_memdb [OF t(1) _ t(2), of ?chunks r td' ctx 0 cfg "length wrs" "(0, p)"] w by auto
  from g have "g (bc_maxConcurrency cfg) ctx (map (write_task t cfg (length wrs)) ?chunks) (m, 0, p) =
      in_order ctx 0 (map (write_task t cfg (length wrs)) ?chunks) (m, 0, p)"
    unfolding sequential_group_def by simp
  with run show ?thesis
    by (cases r) (simp_all add: executeBatchWrite_def split: prod.split)
qed

subsection \<open>Reads\<close>

lemma read_items_append:
  "read_items td kp (xs @ ys) =
     bind (read_items td kp xs) (\<lambda>us. bind (read_items td kp ys) (\<lambda>vs. Inr (us @ vs)))"
  by (cases "read_items td kp ys"; induction xs) (auto simp: bind_assoc intro!: bind_cong split: option.split)

lemma read_items_fields:
  "kp_ProjectionExpression kp = kp_ProjectionExpression kp' \<Longrightarrow> kp_Names kp = kp_Names kp' \<Longrightarrow>
   read_items td kp keys = read_items td kp' keys"
  by (induction keys) simp_all

lemma send_gets_memdb:
  assumes "tb_backend t = memdb" "fmlookup m (tb_name t) = Some td" "length keys \<le> 100"
  shows "sendBatchGet t c keys e nm m =
    (read_items td \<lparr>kp_Keys = [], kp_ProjectionExpression = e, kp_Names = nm, kp_ConsistentRead = False\<rparr> keys, m)"
proof -
  have "read_items td \<lparr>kp_Keys = [], kp_ProjectionExpression = e, kp_Names = nm, kp_ConsistentRead = False\<rparr> keys =
      read_items td \<lparr>kp_Keys = keys, kp_ProjectionExpression = e, kp_Names = nm, kp_ConsistentRead = False\<rparr> keys"
    by (rule read_items_fields) simp_all
  then show ?thesis
    using assms
    by (cases "read_items td \<lparr>kp_Keys = keys, kp_ProjectionExpression = e, kp_Names = nm, kp_ConsistentRead = False\<rparr> keys")
      (auto simp: sendBatchGet_def send_gets.simps memdb_batches BatchGetItem_def table_def sbind_def
        unprocessed_keys_def response_items_def)
qed

lemma unmarshal_items_traverse:
  "unmarshal_items ms T its results = bind (traverse (\<lambda>it. Unmarshal ms it T (zero_value T)) its) (\<lambda>vs. Inr (results @ vs))"
  by (induction its arbitrary: results) (auto simp: bind_assoc intro!: bind_cong)

lemma get_chunks_memdb:
  assumes "tb_backend t = memdb" "fmlookup m (tb_name t) = Some td" "\<forall>c \<in> set chunks. length c \<le> 100"
    and "read_items td \<lparr>kp_Keys = [], kp_ProjectionExpression = e, kp_Names = nm, kp_ConsistentRead = False\<rparr> (concat chunks) = Inr its"
  shows "get_chunks ms T t ctx e nm i chunks results m = (unmarshal_items ms T its results, m)"
  using assms(3,4)
proof (induction chunks arbitrary: i its results)
  case (Cons chunk chunks)
  then obtain us vs where us: "read_items td \<lparr>kp_Keys = [], kp_ProjectionExpression = e, kp_Names = nm, kp_ConsistentRead = False\<rparr> chunk = Inr us"
    and vs: "read_items td \<lparr>kp_Keys = [], kp_ProjectionExpression = e, kp_Names = nm, kp_ConsistentRead = False\<rparr> (concat chunks) = Inr vs"
    and its: "its = us @ vs"
    by (auto simp: read_items_append bind_Inr_iff)
  have "sendBatchGet t (ctx i) chunk e nm m = (Inr us, m)"
    using send_gets_memdb [OF assms(1,2), of chunk "ctx i" e nm] us Cons.prems(1) by simp
  moreover have "get_chunks ms T t ctx e nm (Suc i) chunks rs m = (unmarshal_items ms T vs rs, m)" for rs
    by (rule Cons.IH [OF _ vs]) (use Cons.prems(1) in simp)
  moreover have "unmarshal_items ms T its results = bind (unmarshal_items ms T us results) (unmarshal_items ms T vs)"
    by (simp add: its unmarshal_items_traverse traverse_append bind_assoc)
  ultimately show ?case
    by (cases "unmarshal_items ms T us results") (simp_all add: sbind_def)
qed simp

lemma chunks_nonempty: "xs \<noteq> [] \<Longrightarrow> 0 < n \<Longrightarrow> chunkWriteRequests n xs \<noteq> []"
  by (subst chunkWriteRequests.simps) simp

text \<open>Without a projection a batch get reads what there is under the keys.\<close>

definition stored_under :: "MemoryBackend \<Rightarrow> string \<Rightarrow> item \<Rightarrow> item option" where
  "stored_under m tn key = (case item_key m tn key of Inr k \<Rightarrow> lookup_item m tn k | Inl _ \<Rightarrow> None)"

lemma bind_right [simp]: "bind r Inr = r"
  by (cases r) simp_all

lemma read_items_stored:
  assumes "fmlookup m tn = Some td" "kp_ProjectionExpression kp = []" "\<forall>key \<in> set keys. \<exists>k. item_key m tn key = Inr k"
  shows "read_items td kp keys = Inr (List.map_filter (stored_under m tn) keys)"
  using assms(3)
proof (induction keys)
  case (Cons key keys)
  then obtain h r where "item_key m tn key = Inr (h, r)" by fastforce
  moreover from this assms(1) have "extractKey (td_schema td) key = Inr (h, r)" by (simp add: item_key_def table_def)
  ultimately show ?case
    using Cons assms(1,2)
    by (simp add: read_item_def stored_under_def getItem_kget lookup_item_def List.map_filter_def split: option.split)
qed (simp add: List.map_filter_def)

lemma BatchGet_stored:
  assumes t: "tb_backend t = memdb" and opts: "bgc_projection (fold (\<lambda>opt c. opt c) opts \<lparr>bgc_projection = []\<rparr>) = []"
    and keys: "\<forall>key \<in> set keys. \<exists>k. item_key m (tb_name t) (KeyValue_Map key) = Inr k"
  shows "BatchGet ms T t ctx keys opts m =
    (traverse (\<lambda>it. Unmarshal ms it T (zero_value T))
      (List.map_filter (\<lambda>key. stored_under m (tb_name t) (KeyValue_Map key)) keys), m)"
proof (cases keys)
  case (Cons key rest)
  with keys obtain td where td: "fmlookup m (tb_name t) = Some td"
    by (auto simp: item_key_def table_def bind_Inr_iff newError_def split: option.splits)
  let ?kms = "map KeyValue_Map keys" and ?kp = "\<lparr>kp_Keys = [], kp_ProjectionExpression = [], kp_Names = fmempty, kp_ConsistentRead = False\<rparr>"
  let ?chunks = "chunkWriteRequests maxBatchGetItems ?kms"
  have "concat ?chunks = ?kms" by (simp add: concat_chunks maxBatchGetItems_def)
  then have "read_items td ?kp (concat ?chunks) =
      Inr (List.map_filter (stored_under m (tb_name t)) ?kms)"
    using read_items_stored [OF td, of ?kp ?kms] keys by simp
  from get_chunks_memdb [OF t td _ this] have "get_chunks ms T t ctx [] fmempty 0 ?chunks [] m =
      (unmarshal_items ms T (List.map_filter (stored_under m (tb_name t)) ?kms) [], m)"
    using chunk_size by (fastforce simp: maxBatchGetItems_def)
  with Cons opts show ?thesis
    by (simp add: BatchGet_def unmarshal_items_traverse bind_right List.map_filter_def comp_def filter_map)
qed (simp add: BatchGet_def List.map_filter_def)

subsection \<open>A batch put, read back\<close>

lemma traverse_map_filter:
  "traverse f (List.map_filter g xs) = traverse (\<lambda>x. f (the (g x))) (filter (\<lambda>x. g x \<noteq> None) xs)"
  by (induction xs) (auto simp: List.map_filter_def)

lemma traverse_cong: "(\<And>x. x \<in> set xs \<Longrightarrow> f x = g x) \<Longrightarrow> traverse f xs = traverse g xs"
  by (induction xs) simp_all

lemma put_requests_Inr:
  "put_requests ms xs = Inr wrs \<Longrightarrow>
   \<exists>avs. wrs = map (\<lambda>av. \<lparr>wr_PutItem = Some av, wr_DeleteItem = None\<rparr>) avs \<and> list_all2 (\<lambda>x av. Marshal ms x = Inr av) xs avs"
proof (induction xs arbitrary: wrs)
  case (Cons x xs)
  then obtain av wrs' where av: "Marshal ms x = Inr av" "put_requests ms xs = Inr wrs'"
    "wrs = \<lparr>wr_PutItem = Some av, wr_DeleteItem = None\<rparr> # wrs'"
    by (auto simp: bind_Inr_iff on_error_def split: sum.splits)
  with Cons.IH [OF av(2)] obtain avs where "wrs' = map (\<lambda>av. \<lparr>wr_PutItem = Some av, wr_DeleteItem = None\<rparr>) avs"
    "list_all2 (\<lambda>x av. Marshal ms x = Inr av) xs avs" by blast
  with av show ?case by (intro exI [of _ "av # avs"]) simp
qed simp

text \<open>Puts with different keys: each item is there afterwards.\<close>

lemma batch_puts_stored:
  assumes "batch_writes (map (\<lambda>av. \<lparr>wr_PutItem = Some av, wr_DeleteItem = None\<rparr>) avs) td = (Inr (), td')"
  shows "td_schema td' = td_schema td \<and>
    (distinct (map (extractKey (td_schema td)) avs) \<longrightarrow>
      (\<forall>av \<in> set avs. \<exists>k. extractKey (td_schema td) av = Inr k \<and> kget k (td_items td') = Some av)) \<and>
    (\<forall>k. (\<forall>av \<in> set avs. extractKey (td_schema td) av \<noteq> Inr k) \<longrightarrow> kget k (td_items td') = kget k (td_items td))"
  using assms
proof (induction avs arbitrary: td)
  case (Cons av avs)
  then obtain h r where hr: "extractKey (td_schema td) av = Inr (h, r)"
    and rest: "batch_writes (map (\<lambda>av. \<lparr>wr_PutItem = Some av, wr_DeleteItem = None\<rparr>) avs) (put_at h r av td) = (Inr (), td')"
    by (auto simp: batch_write1_def bind_Inr_iff split: sum.splits)
  show ?case
  proof (intro conjI impI ballI allI)
    show "td_schema td' = td_schema td" using Cons.IH [OF rest] by simp
    show "kget k (td_items td') = kget k (td_items td)" if "\<forall>av \<in> set (av # avs). extractKey (td_schema td) av \<noteq> Inr k" for k
    proof -
      from that have "\<forall>x \<in> set avs. extractKey (td_schema (put_at h r av td)) x \<noteq> Inr k" by simp
      then have "kget k (td_items td') = kget k (td_items (put_at h r av td))"
        by (rule Cons.IH [OF rest, THEN conjunct2, THEN conjunct2, THEN spec, THEN mp])
      with that hr show ?thesis by (auto simp: kget_put_at)
    qed
  next
    fix av' assume dist: "distinct (map (extractKey (td_schema td)) (av # avs))" and av': "av' \<in> set (av # avs)"
    show "\<exists>k. extractKey (td_schema td) av' = Inr k \<and> kget k (td_items td') = Some av'"
    proof (cases "av' = av")
      case True
      from dist hr have "\<forall>av \<in> set avs. extractKey (td_schema td) av \<noteq> Inr (h, r)" by force
      with Cons.IH [OF rest] have "kget (h, r) (td_items td') = Some av" by (simp add: kget_put_at)
      with hr True show ?thesis by blast
    next
      case False
      with Cons.IH [OF rest] dist av' show ?thesis by simp
    qed
  qed
qed simp

text \<open>The callback is told of each chunk in turn, of 25 items or what is left.\<close>

lemma progress_counts:
  assumes "bc_onProgress cfg = Some fn" "0 < k"
  shows "snd (progress cfg n (c, p) (chunkWriteRequests k xs)) =
    fold (\<lambda>i. fn (c + min (k * Suc i) (length xs)) n) [0..<(length xs + (k - 1)) div k] p"
  using assms(2)
proof (induction k xs arbitrary: c p rule: chunkWriteRequests.induct)
  case (1 k xs)
  show ?case
  proof (cases "xs = []")
    case False
    let ?ys = "drop k xs" and ?c = "c + min k (length xs)"
    let ?N = "(length ?ys + (k - 1)) div k"
    have chunks: "chunkWriteRequests k xs = take k xs # chunkWriteRequests k ?ys"
      using False 1(2) by (simp add: chunkWriteRequests.simps [of k xs])
    then have N: "(length xs + (k - 1)) div k = Suc ?N"
      using chunk_count [OF 1(2), of xs] chunk_count [OF 1(2), of ?ys] by simp
    have "fold (\<lambda>i. fn (?c + min (k * Suc i) (length ?ys)) n) [0..<?N] q =
        fold (\<lambda>i. fn (c + min (k * Suc (Suc i)) (length xs)) n) [0..<?N] q" for q
    proof (rule fold_cong)
      fix i assume "i \<in> set [0..<?N]"
      then have "k < length xs" using 1(2) by (cases "k < length xs") auto
      then show "fn (?c + min (k * Suc i) (length ?ys)) n = fn (c + min (k * Suc (Suc i)) (length xs)) n"
        by (intro arg_cong [where f = "\<lambda>z. fn z n"]) (auto simp: min_def)
    qed simp_all
    with 1 False chunks assms(1) show ?thesis
      unfolding N upt_conv_Cons [OF zero_less_Suc] map_Suc_upt [symmetric]
      by (simp add: fold_map comp_def min.commute)
  qed (use 1(2) in simp)
qed


lemma extract_item_key: "fmlookup m tn = Some td \<Longrightarrow> item_key m tn it = extractKey (td_schema td) it"
  by (simp add: item_key_def table_def)

lemma BatchPut_memdb:
  assumes g: "sequential_group g" "bc_maxConcurrency (fold (\<lambda>opt c. opt c) opts defaultBatchConfig) = 1"
    and t: "tb_backend t = memdb" and put: "BatchPut g ms t ctx items opts (m, p) = (Inr (), (m', p'))" and "items \<noteq> []"
  obtains td td' avs where "fmlookup m (tb_name t) = Some td" "list_all2 (\<lambda>x av. Marshal ms x = Inr av) items avs"
    and "batch_writes (map (\<lambda>av. \<lparr>wr_PutItem = Some av, wr_DeleteItem = None\<rparr>) avs) td = (Inr (), td')"
    and "m' = fmupd (tb_name t) td' m"
    and "p' = snd (progress (fold (\<lambda>opt c. opt c) opts defaultBatchConfig) (length items) (0, p)
      (chunkWriteRequests maxBatchWriteItems (map (\<lambda>av. \<lparr>wr_PutItem = Some av, wr_DeleteItem = None\<rparr>) avs)))"
proof -
  let ?cfg = "fold (\<lambda>opt c. opt c) opts defaultBatchConfig"
  from put assms(5) obtain wrs where wrs: "put_requests ms items = Inr wrs"
    and ex: "executeBatchWrite g t ctx wrs ?cfg (m, p) = (Inr (), (m', p'))"
    by (cases "put_requests ms items") (auto simp: BatchPut_def Let_def)
  from put_requests_Inr [OF wrs] obtain avs where avs: "wrs = map (\<lambda>av. \<lparr>wr_PutItem = Some av, wr_DeleteItem = None\<rparr>) avs"
    "list_all2 (\<lambda>x av. Marshal ms x = Inr av) items avs" by blast
  have len: "length wrs = length items" using avs by (simp add: list_all2_lengthD)
  show thesis
  proof (cases "fmlookup m (tb_name t)")
    case (Some td)
    obtain r td' where w: "batch_writes wrs td = (r, td')" by (cases "batch_writes wrs td")
    from executeBatchWrite_memdb [OF g t Some w, of ctx p] obtain mp where
      "(Inr (), (m', p')) = (r, case r of Inl _ \<Rightarrow> mp | Inr _ \<Rightarrow> (fmupd (tb_name t) td' m,
        snd (progress ?cfg (length wrs) (0, p) (chunkWriteRequests maxBatchWriteItems wrs))))"
      unfolding ex by (rule exE)
    then have "r = Inr () \<and> m' = fmupd (tb_name t) td' m \<and>
        p' = snd (progress ?cfg (length wrs) (0, p) (chunkWriteRequests maxBatchWriteItems wrs))"
      by (auto split: sum.splits)
    then have "r = Inr ()" "m' = fmupd (tb_name t) td' m" "p' = snd (progress ?cfg (length items) (0, p)
        (chunkWriteRequests maxBatchWriteItems (map (\<lambda>av. \<lparr>wr_PutItem = Some av, wr_DeleteItem = None\<rparr>) avs)))"
      using len avs(1) by simp_all
    with that [OF Some avs(2), of td'] w avs(1) show thesis by simp
  next
    case None
    from assms(5) len have "wrs \<noteq> []" by auto
    with chunks_nonempty [of wrs maxBatchWriteItems] obtain c cs where chunks: "chunkWriteRequests maxBatchWriteItems wrs = c # cs"
      by (cases "chunkWriteRequests maxBatchWriteItems wrs") (simp_all add: maxBatchWriteItems_def)
    then have "length c \<le> 25" using chunk_size [of c maxBatchWriteItems wrs] by (simp add: maxBatchWriteItems_def)
    then have "\<exists>e s. sendBatchWrite t (ctx 0) c m = (Inl e, s)"
      using None t by (simp add: sendBatchWrite_def send_writes.simps memdb_batches BatchWriteItem_def table_def newError_def sbind_def)
    then obtain e s where "sendBatchWrite t (ctx 0) c m = (Inl e, s)" by blast
    then have fails: "\<exists>e' s'. in_order ctx 0 (map (write_task t ?cfg (length wrs)) (c # cs)) (m, 0, p) = (Inl e', s')"
      by (simp add: write_task_def del: split_paired_Ex)
    then obtain e' s' where "in_order ctx 0 (map (write_task t ?cfg (length wrs)) (c # cs)) (m, 0, p) = (Inl e', s')"
      by blast
    with g have "g (bc_maxConcurrency ?cfg) ctx (map (write_task t ?cfg (length wrs)) (c # cs)) (m, 0, p) = (Inl e', s')"
      unfolding sequential_group_def by simp
    with ex chunks show thesis by (simp add: executeBatchWrite_def split: prod.splits)
  qed
qed


text \<open>No stored item is empty: it has its key.\<close>

lemma stored_not_empty: "reachable m \<Longrightarrow> lookup_item m tn k = Some it \<Longrightarrow> it \<noteq> fmempty"
proof -
  assume m: "reachable m" and it: "lookup_item m tn k = Some it"
  then obtain td where td: "fmlookup m tn = Some td" "kget k (td_items td) = Some it"
    by (auto simp: lookup_item_def split: option.splits)
  from backend_okD [OF reachable_ok [OF m] td(1)] have "keys_ok td" by (simp add: table_ok_def)
  from keys_okD [OF this td(2)] td(1) have "item_key m tn it = Inr k" by (simp add: extract_item_key)
  then show "it \<noteq> fmempty" by (rule mb.key_attributes)
qed


text \<open>Items put under different keys are what a batch get of the keys reads.\<close>

lemma map_filter_all2: "list_all2 (\<lambda>x y. g x = Some y) xs ys \<Longrightarrow> List.map_filter g xs = ys"
  by (induction rule: list_all2_induct) (simp_all add: List.map_filter_def)

lemma traverse_all2: "list_all2 (\<lambda>x y. f x = Inr y) xs ys \<Longrightarrow> traverse f xs = Inr ys"
  by (induction rule: list_all2_induct) simp_all

lemma batch_put_get:
  assumes "sequential_group g" "bc_maxConcurrency (fold (\<lambda>opt c. opt c) opts defaultBatchConfig) = 1"
    and t: "tb_backend t = memdb" and put: "BatchPut g ms t ctx items opts (m, p) = (Inr (), (m', p'))"
    and gopts: "bgc_projection (fold (\<lambda>opt c. opt c) gopts \<lparr>bgc_projection = []\<rparr>) = []"
    and same: "list_all2 (\<lambda>key x. \<exists>av. Marshal ms x = Inr av \<and>
      item_key m (tb_name t) (KeyValue_Map key) = item_key m (tb_name t) av) keys items"
    and dist: "distinct (map (\<lambda>key. item_key m (tb_name t) (KeyValue_Map key)) keys)"
  shows "\<exists>avs. list_all2 (\<lambda>x av. Marshal ms x = Inr av) items avs \<and>
    BatchGet ms T t ctx' keys gopts m' = (traverse (\<lambda>it. Unmarshal ms it T (zero_value T)) avs, m')"
proof (cases "items = []")
  case True
  with same put show ?thesis by (auto simp: BatchGet_def BatchPut_def)
next
  case False
  obtain td td' avs where td: "fmlookup m (tb_name t) = Some td" and avs: "list_all2 (\<lambda>x av. Marshal ms x = Inr av) items avs"
    and w: "batch_writes (map (\<lambda>av. \<lparr>wr_PutItem = Some av, wr_DeleteItem = None\<rparr>) avs) td = (Inr (), td')"
    and m': "m' = fmupd (tb_name t) td' m"
    and "p' = snd (progress (fold (\<lambda>opt c. opt c) opts defaultBatchConfig) (length items) (0, p)
      (chunkWriteRequests maxBatchWriteItems (map (\<lambda>av. \<lparr>wr_PutItem = Some av, wr_DeleteItem = None\<rparr>) avs)))"
    by (rule BatchPut_memdb [OF assms(1,2) t put False])
  have keys: "list_all2 (\<lambda>key av. item_key m (tb_name t) (KeyValue_Map key) = extractKey (td_schema td) av) keys avs"
    by (rule list_all2_trans [OF _ same avs]) (auto simp: extract_item_key [OF td])
  then have "map (extractKey (td_schema td)) avs = map (\<lambda>key. item_key m (tb_name t) (KeyValue_Map key)) keys"
    by (auto simp: list_eq_iff_nth_eq list_all2_conv_all_nth)
  with dist batch_puts_stored [OF w] have st: "td_schema td' = td_schema td"
    "\<forall>av \<in> set avs. \<exists>k. extractKey (td_schema td) av = Inr k \<and> kget k (td_items td') = Some av"
    by auto
  have "list_all2 (\<lambda>key av. stored_under m' (tb_name t) (KeyValue_Map key) = Some av \<and>
      (\<exists>k. item_key m' (tb_name t) (KeyValue_Map key) = Inr k)) keys avs"
    using keys
  proof (rule list.rel_mono_strong)
    fix key av assume "av \<in> set avs" and e: "item_key m (tb_name t) (KeyValue_Map key) = extractKey (td_schema td) av"
    with st(2) obtain k where k: "extractKey (td_schema td) av = Inr k" "kget k (td_items td') = Some av" by blast
    with e td st(1) have "item_key m' (tb_name t) (KeyValue_Map key) = Inr k"
      by (simp add: m' item_key_def table_def)
    with k(2) show "stored_under m' (tb_name t) (KeyValue_Map key) = Some av \<and>
        (\<exists>k. item_key m' (tb_name t) (KeyValue_Map key) = Inr k)"
      by (simp add: stored_under_def m' lookup_upd)
  qed
  then have "list_all2 (\<lambda>key av. stored_under m' (tb_name t) (KeyValue_Map key) = Some av) keys avs"
    "\<forall>key \<in> set keys. \<exists>k. item_key m' (tb_name t) (KeyValue_Map key) = Inr k"
    by (auto simp: list_all2_conv_all_nth in_set_conv_nth)
  with avs BatchGet_stored [OF t gopts, of keys m' ms T ctx'] show ?thesis
    by (auto simp: map_filter_all2)
qed

end
