(* ===== verification/Transaction.thy ===== *)
theory Transaction
  imports QueryClient UpdateClient
begin

text \<open>
  The builders of write and read transactions (\<open>transaction.go\<close>).  The first error of a write builder is kept
  and ends the building; a panic of an option ends the call.
\<close>

definition maxTransactItems :: nat where
  "maxTransactItems = 100"

subsection \<open>Writes\<close>

record 's WriteTxBuilder =
  wb_db :: "'s DB"
  wb_items :: "TransactWriteItem list"
  wb_err :: "error option"

definition WriteTx :: "'s DB \<Rightarrow> 's WriteTxBuilder" where
  "WriteTx db = \<lparr>wb_db = db, wb_items = [], wb_err = None\<rparr>"

text \<open>\<open>b.err = err; return b\<close>, where the error is no panic.\<close>

definition keep_error :: "error \<Rightarrow> 's WriteTxBuilder \<Rightarrow> 's WriteTxBuilder result" where
  "keep_error e b = (if is_panic e then Inl e else Inr (b\<lparr>wb_err := Some e\<rparr>))"

definition add_item :: "TransactWriteItem \<Rightarrow> 's WriteTxBuilder \<Rightarrow> 's WriteTxBuilder" where
  "add_item twi b = b\<lparr>wb_items := wb_items b @ [twi]\<rparr>"

definition no_write :: TransactWriteItem where
  "no_write = \<lparr>tw_Put = None, tw_Delete = None, tw_Update = None, tw_ConditionCheck = None\<rparr>"

definition Tx_Put :: "methods \<Rightarrow> 's Table \<Rightarrow> (gotype \<times> goval) option \<Rightarrow> (putConfig \<Rightarrow> putConfig result) list
    \<Rightarrow> 's WriteTxBuilder \<Rightarrow> 's WriteTxBuilder result" where
  "Tx_Put ms t x opts b =
     (if wb_err b \<noteq> None then Inr b
      else case Marshal ms x of
        Inl e \<Rightarrow> keep_error e b
      | Inr av \<Rightarrow>
          bind (put_config opts) (\<lambda>cfg.
            case condition_parts (pc_condition cfg) of
              (e, nm, vs) \<Rightarrow>
                Inr (add_item (no_write\<lparr>tw_Put := Some \<lparr>tp_TableName = tb_name t, tp_Item = av,
                  tp_ConditionExpression = e, tp_Names = nm, tp_Values = vs\<rparr>\<rparr>) b)))"

definition Tx_Update :: "'s Table \<Rightarrow> KeyValue \<Rightarrow> (updateConfig \<Rightarrow> updateConfig result) list
    \<Rightarrow> 's WriteTxBuilder \<Rightarrow> 's WriteTxBuilder result" where
  "Tx_Update t key opts b =
     (if wb_err b \<noteq> None then Inr b
      else bind (update_config opts) (\<lambda>cfg.
        if uc_clauses cfg = [] then
          keep_error (newError ErrValidation ''dynago.WriteTx.Update: at least one update action is required'') b
        else bind (buildUpdateRequest (tb_name t) key cfg) (\<lambda>req.
          Inr (add_item (no_write\<lparr>tw_Update := Some \<lparr>tu_TableName = ui_TableName req, tu_Key = ui_Key req,
            tu_UpdateExpression = ui_UpdateExpression req, tu_ConditionExpression = ui_ConditionExpression req,
            tu_Names = ui_Names req, tu_Values = ui_Values req\<rparr>\<rparr>) b))))"

definition Tx_Delete :: "'s Table \<Rightarrow> KeyValue \<Rightarrow> (deleteConfig \<Rightarrow> deleteConfig result) list
    \<Rightarrow> 's WriteTxBuilder \<Rightarrow> 's WriteTxBuilder result" where
  "Tx_Delete t key opts b =
     (if wb_err b \<noteq> None then Inr b
      else bind (delete_config opts) (\<lambda>cfg.
        case condition_parts (dc_condition cfg) of
          (e, nm, vs) \<Rightarrow>
            Inr (add_item (no_write\<lparr>tw_Delete := Some \<lparr>tdel_TableName = tb_name t, tdel_Key = KeyValue_Map key,
              tdel_ConditionExpression = e, tdel_Names = nm, tdel_Values = vs\<rparr>\<rparr>) b)))"

definition Tx_Check :: "'s Table \<Rightarrow> KeyValue \<Rightarrow> string \<Rightarrow> any list \<Rightarrow> 's WriteTxBuilder \<Rightarrow> 's WriteTxBuilder result" where
  "Tx_Check t key condition vs b =
     (if wb_err b \<noteq> None then Inr b
      else case buildCondition condition vs of
        Inl e \<Rightarrow> if is_panic e then Inl e else keep_error (ErrorfW ''dynago.WriteTx.Check'' e) b
      | Inr cond \<Rightarrow>
          Inr (add_item (no_write\<lparr>tw_ConditionCheck := Some \<lparr>tc_TableName = tb_name t, tc_Key = KeyValue_Map key,
            tc_ConditionExpression = ce_expression cond, tc_Names = ce_names cond, tc_Values = ce_values cond\<rparr>\<rparr>) b))"

definition Tx_Run :: "'s WriteTxBuilder \<Rightarrow> ('s, unit) op" where
  "Tx_Run b =
     (case wb_err b of
        Some e \<Rightarrow> sreturn (Inl e)
      | None \<Rightarrow>
          if wb_items b = [] then
            sreturn (Inl (newError ErrValidation ''dynago.WriteTx: at least one operation is required''))
          else if maxTransactItems < length (wb_items b) then
            sreturn (Inl (newError ErrValidation ''dynago.WriteTx: transaction exceeds maximum of operations''))
          else be_TransactWriteItems (db_backend (wb_db b)) (wb_items b))"

subsection \<open>Reads\<close>

record 's ReadTxBuilder =
  rb_db :: "'s DB"
  rb_items :: "TransactGetItem list"

definition ReadTx :: "'s DB \<Rightarrow> 's ReadTxBuilder" where
  "ReadTx db = \<lparr>rb_db = db, rb_items = []\<rparr>"

definition Tx_Get :: "'s Table \<Rightarrow> KeyValue \<Rightarrow> (getConfig \<Rightarrow> getConfig) list \<Rightarrow> 's ReadTxBuilder \<Rightarrow> 's ReadTxBuilder" where
  "Tx_Get t key opts b =
     (case projection_parts (gc_projection (get_config opts)) of
        (e, nm) \<Rightarrow>
          b\<lparr>rb_items := rb_items b @ [\<lparr>tg_TableName = tb_name t, tg_Key = KeyValue_Map key,
              tg_ProjectionExpression = e, tg_Names = nm\<rparr>]\<rparr>)"

definition ReadTx_Run :: "'s ReadTxBuilder \<Rightarrow> ('s, item option list) op" where
  "ReadTx_Run b =
     (if rb_items b = [] then
        sreturn (Inl (newError ErrValidation ''dynago.ReadTx: at least one operation is required''))
      else if maxTransactItems < length (rb_items b) then
        sreturn (Inl (newError ErrValidation ''dynago.ReadTx: transaction exceeds maximum of operations''))
      else be_TransactGetItems (db_backend (rb_db b)) (rb_items b))"

text \<open>The result of a read transaction: its responses, nil where there is no item.\<close>

definition Result_Item :: "item option list \<Rightarrow> int \<Rightarrow> item option" where
  "Result_Item responses index =
     (if index < 0 \<or> int (length responses) \<le> index then None
      else case responses ! nat index of
             None \<Rightarrow> None
           | Some it \<Rightarrow> if it = fmempty then None else Some it)"

definition GetAs :: "methods \<Rightarrow> gotype \<Rightarrow> item option list \<Rightarrow> int \<Rightarrow> goval result" where
  "GetAs ms T responses index =
     (case Result_Item responses index of
        None \<Rightarrow> Inl (Sentinel ErrNotFound)
      | Some it \<Rightarrow> Unmarshal ms it T (zero_value T))"

subsection \<open>Building\<close>

text \<open>A step of the builder, and a chain of steps.\<close>

datatype 's tx_step =
    StepPut "'s Table" "(gotype \<times> goval) option" "(putConfig \<Rightarrow> putConfig result) list"
  | StepUpdate "'s Table" KeyValue "(updateConfig \<Rightarrow> updateConfig result) list"
  | StepDelete "'s Table" KeyValue "(deleteConfig \<Rightarrow> deleteConfig result) list"
  | StepCheck "'s Table" KeyValue string "any list"

fun tx_do :: "methods \<Rightarrow> 's tx_step \<Rightarrow> 's WriteTxBuilder \<Rightarrow> 's WriteTxBuilder result" where
  "tx_do ms (StepPut t x opts) b = Tx_Put ms t x opts b"
| "tx_do ms (StepUpdate t key opts) b = Tx_Update t key opts b"
| "tx_do ms (StepDelete t key opts) b = Tx_Delete t key opts b"
| "tx_do ms (StepCheck t key c vs) b = Tx_Check t key c vs b"

fun tx_build :: "methods \<Rightarrow> 's tx_step list \<Rightarrow> 's WriteTxBuilder \<Rightarrow> 's WriteTxBuilder result" where
  "tx_build ms [] b = Inr b"
| "tx_build ms (st # sts) b = bind (tx_do ms st b) (tx_build ms sts)"

text \<open>A step adds one operation or keeps an error; after an error nothing changes.\<close>

lemma keep_error_Inr: "keep_error e b = Inr b' \<longleftrightarrow> \<not> is_panic e \<and> b' = b\<lparr>wb_err := Some e\<rparr>"
  by (auto simp: keep_error_def)

lemma tx_do_cases:
  assumes "tx_do ms st b = Inr b'"
  obtains (stopped) "wb_err b \<noteq> None" "b' = b"
  | (failed) e where "wb_err b = None" "b' = b\<lparr>wb_err := Some e\<rparr>"
  | (added) twi where "wb_err b = None" "b' = add_item twi b"
  using assms
  by (cases st) (auto simp: Tx_Put_def Tx_Update_def Tx_Delete_def Tx_Check_def keep_error_Inr bind_Inr_iff
      case_prod_beta split: if_splits sum.splits)

lemma tx_do_error: "wb_err b = Some e \<Longrightarrow> tx_do ms st b = Inr b"
  by (cases st) (simp_all add: Tx_Put_def Tx_Update_def Tx_Delete_def Tx_Check_def)

lemma tx_build_error: "wb_err b = Some e \<Longrightarrow> tx_build ms sts b = Inr b"
  by (induction sts) (simp_all add: tx_do_error)

lemma tx_build_Inr:
  assumes "tx_build ms sts b = Inr b'" "wb_err b = None"
  shows "wb_db b' = wb_db b \<and> length (wb_items b') \<le> length (wb_items b) + length sts \<and>
    (wb_err b' = None \<longrightarrow> length (wb_items b') = length (wb_items b) + length sts)"
  using assms
proof (induction sts arbitrary: b)
  case (Cons st sts)
  then obtain b1 where b1: "tx_do ms st b = Inr b1" "tx_build ms sts b1 = Inr b'" by (auto simp: bind_Inr_iff)
  from b1(1) show ?case
  proof (cases rule: tx_do_cases)
    case stopped
    with Cons.prems show ?thesis by simp
  next
    case (failed e)
    with b1(2) tx_build_error [of b1 e ms sts] show ?thesis by auto
  next
    case (added twi)
    with Cons.IH [OF b1(2)] Cons.prems(2) show ?thesis by (auto simp: add_item_def)
  qed
qed simp

text \<open>Appending steps after one that failed changes nothing.\<close>

lemma tx_build_append: "tx_build ms (xs @ ys) b = bind (tx_build ms xs b) (tx_build ms ys)"
proof (induction xs arbitrary: b)
  case (Cons x xs)
  then show ?case by (cases "tx_do ms x b") simp_all
qed simp

lemma tx_error_sticks:
  "tx_build ms xs b = Inr b1 \<Longrightarrow> wb_err b1 = Some e \<Longrightarrow> tx_build ms (xs @ ys) b = Inr b1 \<and> Tx_Run b1 s = (Inl e, s)"
  by (simp add: tx_build_append tx_build_error Tx_Run_def)

text \<open>What the backend is sent: one operation per step, one to a hundred of them.\<close>

lemma tx_run_sends:
  assumes "tx_build ms sts (WriteTx db) = Inr b" "wb_err b = None"
  shows "Tx_Run b s =
    (if sts \<noteq> [] \<and> length sts \<le> 100 then be_TransactWriteItems (db_backend db) (wb_items b) s
     else (Inl (newError ErrValidation (if sts = [] then ''dynago.WriteTx: at least one operation is required''
                                        else ''dynago.WriteTx: transaction exceeds maximum of operations'')), s))"
proof -
  have "wb_db b = db" "length (wb_items b) = length sts"
    using tx_build_Inr [OF assms(1)] assms(2) by (simp_all add: WriteTx_def)
  moreover from this(2) have "wb_items b = [] \<longleftrightarrow> sts = []" by (metis length_0_conv)
  ultimately show ?thesis using assms(2) by (simp add: Tx_Run_def maxTransactItems_def)
qed

subsection \<open>Read transactions are reads\<close>

lemma transact_get_nth:
  "transact_get (zip tgis tds) = Inr rs \<Longrightarrow> length tds = length tgis \<Longrightarrow>
   length rs = length tgis \<and>
   (\<forall>i < length tgis. read_item (tds ! i) (tg_Key (tgis ! i)) (tg_ProjectionExpression (tgis ! i)) (tg_Names (tgis ! i)) = Inr (rs ! i))"
proof (induction tgis arbitrary: tds rs)
  case (Cons tgi tgis)
  then obtain td tds' r rs' where "tds = td # tds'" "length tds' = length tgis" "rs = r # rs'"
    "read_item td (tg_Key tgi) (tg_ProjectionExpression tgi) (tg_Names tgi) = Inr r" "transact_get (zip tgis tds') = Inr rs'"
    by (cases tds) (auto simp: bind_Inr_iff)
  with Cons.IH [of tds' rs'] show ?case by (auto simp: less_Suc_eq_0_disj)
qed simp

lemma resolve_tables_nth:
  "resolve_tables ts m = Inr tds \<Longrightarrow> length tds = length ts \<and> (\<forall>i < length ts. table (ts ! i) m = Inr (tds ! i))"
proof (induction ts arbitrary: tds)
  case (Cons t ts)
  then obtain td tds' where "table t m = Inr td" "resolve_tables ts m = Inr tds'" "tds = td # tds'" by (auto simp: bind_Inr_iff)
  with Cons.IH [of tds'] show ?case by (auto simp: less_Suc_eq_0_disj)
qed simp

lemma TransactGetItems_nth:
  assumes "TransactGetItems tgis m = Inr rs" "i < length tgis"
  shows "length rs = length tgis \<and>
    bind (table (tg_TableName (tgis ! i)) m) (\<lambda>td.
      read_item td (tg_Key (tgis ! i)) (tg_ProjectionExpression (tgis ! i)) (tg_Names (tgis ! i))) = Inr (rs ! i)"
proof -
  from assms(1) obtain tds where tds: "resolve_tables (map tg_TableName tgis) m = Inr tds" "transact_get (zip tgis tds) = Inr rs"
    by (auto simp: TransactGetItems_def bind_Inr_iff split: if_splits)
  with resolve_tables_nth [OF tds(1)] transact_get_nth [OF tds(2)] assms(2) show ?thesis by simp
qed

text \<open>The gets of a builder, in order.\<close>

definition tx_gets :: "('s Table \<times> KeyValue \<times> (getConfig \<Rightarrow> getConfig) list) list \<Rightarrow> 's ReadTxBuilder \<Rightarrow> 's ReadTxBuilder" where
  "tx_gets gs b = fold (\<lambda>(t, key, opts). Tx_Get t key opts) gs b"

lemma tx_gets_items:
  "rb_items (tx_gets gs b) = rb_items b @ map (\<lambda>(t, key, opts). case projection_parts (gc_projection (get_config opts)) of
      (e, nm) \<Rightarrow> \<lparr>tg_TableName = tb_name t, tg_Key = KeyValue_Map key, tg_ProjectionExpression = e, tg_Names = nm\<rparr>) gs \<and>
   rb_db (tx_gets gs b) = rb_db b"
  unfolding tx_gets_def
  by (induction gs arbitrary: b) (auto simp: Tx_Get_def split: prod.splits)

lemma read_tx_is_gets:
  assumes run: "ReadTx_Run (tx_gets gs (ReadTx db)) m = (Inr rs, m')" and db: "db_backend db = memdb"
    and i: "i < length gs" "gs ! i = (t, key, opts)" and t: "tb_backend t = memdb"
  shows "Get ms T t key opts m = (GetAs ms T rs (int i), m)"
proof -
  let ?b = "tx_gets gs (ReadTx db)"
  obtain e nm where p: "projection_parts (gc_projection (get_config opts)) = (e, nm)"
    by (cases "projection_parts (gc_projection (get_config opts))")
  have items: "length (rb_items ?b) = length gs" "db_backend (rb_db ?b) = memdb"
    "rb_items ?b ! i = \<lparr>tg_TableName = tb_name t, tg_Key = KeyValue_Map key, tg_ProjectionExpression = e, tg_Names = nm\<rparr>"
    using tx_gets_items [of gs "ReadTx db"] i p db by (auto simp: ReadTx_def)
  from run items(2) have "TransactGetItems (rb_items ?b) m = Inr rs"
    by (auto simp: ReadTx_Run_def split: if_splits)
  from TransactGetItems_nth [OF this, of i] items i(1) have "length rs = length gs"
    and r: "bind (table (tb_name t) m) (\<lambda>td. read_item td (KeyValue_Map key) e nm) = Inr (rs ! i)" by simp_all
  moreover have "GetItem (get_request (tb_name t) key (get_config opts)) m = Inr (rs ! i)"
    using r p by (simp add: GetItem_def get_request_def projection_parts_def split: if_splits)
  ultimately show ?thesis
    using t i(1) by (simp add: Get_def sbind_def GetAs_def Result_Item_def split: option.split)
qed

end
