(* ===== verification/BatchExamples.thy ===== *)
theory BatchExamples
  imports BatchMem Transaction ClientExamples
begin

text \<open>Batches and transactions on the example table.\<close>

definition ex_rows :: "(gotype \<times> goval) option list" where
  "ex_rows = map (\<lambda>c. Some (ex_row, ex_row_value [c] ''x'')) ''abcdefghijklmnopqrstuvwxyz''"

definition ex_wrs :: "WriteRequest list" where
  "ex_wrs = map (\<lambda>c. \<lparr>wr_PutItem = Some (ex_item [c] ''x''), wr_DeleteItem = None\<rparr>) ''abcdefghijklmnopqrstuvwxyz''"

definition ex_told :: "((nat \<times> nat) list batchConfig \<Rightarrow> (nat \<times> nat) list batchConfig) list" where
  "ex_told = [OnProgress (\<lambda>c n told. told @ [(c, n)])]"

definition ex_rows_td :: tableData where
  "ex_rows_td = snd (batch_writes ex_wrs (ex_td ex_db0))"

lemma ex_wrs: "put_requests no_methods ex_rows = Inr ex_wrs"
  by code_simp

lemma ex_batch: "batch_writes ex_wrs (ex_td ex_db0) = (Inr (), ex_rows_td)"
proof -
  have "fst (batch_writes ex_wrs (ex_td ex_db0)) = Inr ()" by code_simp
  then show ?thesis by (simp add: ex_rows_td_def prod_eq_iff)
qed

lemma ex_told: "bc_maxConcurrency (fold (\<lambda>opt c. opt c) ex_told defaultBatchConfig) = 1"
  "bc_onProgress (fold (\<lambda>opt c. opt c) ex_told defaultBatchConfig) = Some (\<lambda>c n told. told @ [(c, n)])"
  by (simp_all add: ex_told_def OnProgress_def defaultBatchConfig_def)

lemma ex_rows_length: "length ex_rows = 26" "ex_rows \<noteq> []"
  by (simp_all add: ex_rows_def)


lemma ex_rows_put:
  "BatchPut (\<lambda>_ ctx. in_order ctx 0) no_methods ex_table (\<lambda>_ _. False) ex_rows ex_told (ex_db0, []) =
   (Inr (), (fmupd ''t'' ex_rows_td ex_db0, [(25, 26), (26, 26)]))"
proof -
  let ?cfg = "fold (\<lambda>opt c. opt c) ex_told defaultBatchConfig"
  have len: "length ex_wrs = 26" by (simp add: ex_wrs_def)
  from executeBatchWrite_memdb [OF sequential_in_order ex_told(1) ex_table_sel(2) _ ex_batch, of ex_db0 "\<lambda>_ _. False" "[]"] ex_tables(1)
  have "executeBatchWrite (\<lambda>_ ctx. in_order ctx 0) ex_table (\<lambda>_ _. False) ex_wrs ?cfg (ex_db0, []) =
      (Inr (), (fmupd ''t'' ex_rows_td ex_db0, snd (progress ?cfg 26 (0, []) (chunkWriteRequests maxBatchWriteItems ex_wrs))))"
    by (simp add: len)
  also have "snd (progress ?cfg 26 (0, []) (chunkWriteRequests maxBatchWriteItems ex_wrs)) = [(25, 26), (26, 26)]"
    using progress_counts [OF ex_told(2), of 25 26 0 "[]" ex_wrs] by (simp add: maxBatchWriteItems_def len upt_rec)
  finally show ?thesis by (simp add: BatchPut_def ex_wrs ex_rows_length)
qed

lemma ex_rows_keys:
  "list_all2 (\<lambda>key vs. \<exists>av. Marshal no_methods (Some (ex_row, VStruct vs)) = Inr av \<and>
      item_key ex_db0 (tb_name ex_table) (KeyValue_Map key) = item_key ex_db0 (tb_name ex_table) av)
    (map (\<lambda>c. ex_row_key [c]) ''abcdefghijklmnopqrstuvwxyz'')
    (map (\<lambda>c. [VString ''a'', VString [c], VString ''x'']) ''abcdefghijklmnopqrstuvwxyz'')"
proof -
  have "list_all (\<lambda>c. Marshal no_methods (Some (ex_row, VStruct [VString ''a'', VString [c], VString ''x''])) = Inr (ex_item [c] ''x'') \<and>
      item_key ex_db0 ''t'' (KeyValue_Map (ex_row_key [c])) = item_key ex_db0 ''t'' (ex_item [c] ''x'')) ''abcdefghijklmnopqrstuvwxyz''"
    by code_simp
  then show ?thesis by (simp add: list_all2_map1 list_all2_map2 list.rel_refl_strong list_all_iff)
qed

text \<open>The table behind the logging middleware.\<close>

definition ex_logged_table :: "MemoryBackend logged Table" where
  "ex_logged_table = \<lparr>tb_name = ''t'', tb_backend = loggingBackend \<lparr>slowThreshold = 0\<rparr> (\<lambda>_. 0) memdb, tb_registry = None\<rparr>"

text \<open>A transaction: a put that must create its item, and a delete.\<close>

definition ex_tx_db :: "MemoryBackend DB" where
  "ex_tx_db = \<lparr>db_backend = memdb\<rparr>"

definition ex_steps :: "MemoryBackend tx_step list" where
  "ex_steps = [StepPut ex_table (Some (ex_row, ex_row_value ''3'' ''z'')) [IfNotExists ''PK''], StepDelete ex_table (ex_row_key ''1'') []]"

definition ex_builder :: "MemoryBackend WriteTxBuilder" where
  "ex_builder = (case tx_build no_methods ex_steps (WriteTx ex_tx_db) of Inr b \<Rightarrow> b | Inl _ \<Rightarrow> WriteTx ex_tx_db)"

lemma ex_builder: "tx_build no_methods ex_steps (WriteTx ex_tx_db) = Inr ex_builder"
proof -
  have "is_ok (tx_build no_methods ex_steps (WriteTx ex_tx_db))" by code_simp
  then show ?thesis by (auto simp: ex_builder_def)
qed

definition ex_tx_after :: MemoryBackend where
  "ex_tx_after = snd (Tx_Run ex_builder ex_db2)"

lemma ex_builder_run: "Tx_Run ex_builder ex_db2 = (Inr (), ex_tx_after)"
proof -
  have "fst (Tx_Run ex_builder ex_db2) = Inr ()" by code_simp
  then show ?thesis by (simp add: ex_tx_after_def prod_eq_iff)
qed

end
