(* ===== verification/Reserved.thy ===== *)
theory Reserved
  imports Prelude
begin

text \<open>
  The reserved words of DynamoDB (\<open>internal/reserved.go\<close>): a Go map from words to \<open>true\<close>, here the list of
  its keys, in four parts.
\<close>

definition ReservedWords_1 :: "string list" where
  "ReservedWords_1 =
    [''ABORT'', ''ABSOLUTE'', ''ACTION'', ''ADD'', ''AFTER'', ''AGENT'', ''AGGREGATE'', ''ALL'',
     ''ALLOCATE'', ''ALTER'', ''ANALYZE'', ''AND'', ''ANY'', ''ARCHIVE'', ''ARE'', ''ARRAY'', ''AS'',
     ''ASC'', ''ASCII'', ''ASENSITIVE'', ''ASSERTION'', ''ASYMMETRIC'', ''AT'', ''ATOMIC'', ''ATTACH'',
     ''ATTRIBUTE'', ''AUTH'', ''AUTHORIZATION'', ''AUTHORIZE'', ''AUTO'', ''AVG'', ''BACK'', ''BACKUP'',
     ''BASE'', ''BATCH'', ''BEFORE'', ''BEGIN'', ''BETWEEN'', ''BIGINT'', ''BINARY'', ''BIT'', ''BLOB'',
     ''BLOCK'', ''BOOLEAN'', ''BOTH'', ''BREADTH'', ''BUCKET'', ''BULK'', ''BY'', ''BYTE'', ''CALL'',
     ''CALLED'', ''CALLING'', ''CAPACITY'', ''CASCADE'', ''CASCADED'', ''CASE'', ''CAST'', ''CATALOG'',
     ''CHAR'', ''CHARACTER'', ''CHECK'', ''CLASS'', ''CLOB'', ''CLOSE'', ''CLUSTER'', ''CLUSTERED'',
     ''CLUSTERING'', ''CLUSTERS'', ''COALESCE'', ''COLLATE'', ''COLLATION'', ''COLLECTION'', ''COLUMN'',
     ''COLUMNS'', ''COMBINE'', ''COMMENT'', ''COMMIT'', ''COMPACT'', ''COMPILE'', ''COMPRESS'',
     ''CONDITION'', ''CONFLICT'', ''CONNECT'', ''CONNECTION'', ''CONSISTENCY'', ''CONSISTENT'',
     ''CONSTRAINT'', ''CONSTRAINTS'', ''CONSTRUCTOR'', ''CONSUMED'', ''CONTINUE'', ''CONVERT'', ''COPY'',
     ''CORRESPONDING'', ''COUNT'', ''COUNTER'', ''CREATE'', ''CROSS'', ''CUBE'', ''CURRENT'', ''CURSOR'',
     ''CYCLE'', ''DATA'', ''DATABASE'', ''DATE'', ''DATETIME'', ''DAY'', ''DEALLOCATE'', ''DEC'',
     ''DECIMAL'', ''DECLARE'', ''DEFAULT'', ''DEFERRABLE'', ''DEFERRED'', ''DEFINE'', ''DEFINED'',
     ''DEFINITION'', ''DELETE'', ''DELIMITED'', ''DEPTH'', ''DEREF'', ''DESC'', ''DESCRIBE'', ''DESCRIPTOR'',
     ''DETACH'', ''DETERMINISTIC'', ''DIAGNOSTICS'', ''DIRECTORIES'', ''DISABLE'', ''DISCONNECT'',
     ''DISTINCT'', ''DISTRIBUTE'', ''DO'', ''DOMAIN'', ''DOUBLE'', ''DROP'', ''DUMP'', ''DURATION'',
     ''DYNAMIC'', ''EACH'', ''ELEMENT'']"

definition ReservedWords_2 :: "string list" where
  "ReservedWords_2 =
    [''ELSE'', ''ELSEIF'', ''EMPTY'', ''ENABLE'', ''END'', ''EQUAL'', ''EQUALS'', ''ERROR'', ''ESCAPE'',
     ''EVERY'', ''EXCEPT'', ''EXCEPTION'', ''EXCEPTIONS'', ''EXCLUSIVE'', ''EXEC'', ''EXECUTE'', ''EXISTS'',
     ''EXIT'', ''EXPLAIN'', ''EXPLODE'', ''EXPORT'', ''EXPRESSION'', ''EXTENDED'', ''EXTERNAL'', ''EXTRACT'',
     ''FAIL'', ''FALSE'', ''FAMILY'', ''FETCH'', ''FIELDS'', ''FILE'', ''FILTER'', ''FILTERING'', ''FINAL'',
     ''FINISH'', ''FIRST'', ''FIXED'', ''FLATTERN'', ''FLOAT'', ''FOR'', ''FORCE'', ''FOREIGN'', ''FORMAT'',
     ''FORWARD'', ''FOUND'', ''FREE'', ''FROM'', ''FULL'', ''FUNCTION'', ''FUNCTIONS'', ''GENERAL'',
     ''GENERATE'', ''GET'', ''GLOB'', ''GLOBAL'', ''GO'', ''GOTO'', ''GRANT'', ''GREATER'', ''GROUP'',
     ''GROUPING'', ''HANDLER'', ''HASH'', ''HAVE'', ''HAVING'', ''HEAP'', ''HIDDEN'', ''HOLD'', ''HOUR'',
     ''IDENTIFIED'', ''IDENTITY'', ''IF'', ''IGNORE'', ''IMMEDIATE'', ''IMPORT'', ''IN'', ''INCLUDING'',
     ''INCLUSIVE'', ''INCREMENT'', ''INCREMENTAL'', ''INDEX'', ''INDEXED'', ''INDEXES'', ''INDICATOR'',
     ''INFINITE'', ''INITIALLY'', ''INLINE'', ''INNER'', ''INNTER'', ''INOUT'', ''INPUT'', ''INSENSITIVE'',
     ''INSERT'', ''INSTEAD'', ''INT'', ''INTEGER'', ''INTERSECT'', ''INTERVAL'', ''INTO'', ''INVALIDATE'',
     ''IS'', ''ISOLATION'', ''ITEM'', ''ITEMS'', ''ITERATE'', ''JOIN'', ''KEY'', ''KEYS'', ''LAG'',
     ''LANGUAGE'', ''LARGE'', ''LAST'', ''LATERAL'', ''LEAD'', ''LEADING'', ''LEAVE'', ''LEFT'', ''LENGTH'',
     ''LESS'', ''LEVEL'', ''LIKE'', ''LIMIT'', ''LIMITED'', ''LINES'', ''LIST'', ''LOAD'', ''LOCAL'',
     ''LOCALTIME'', ''LOCALTIMESTAMP'', ''LOCATION'', ''LOCATOR'', ''LOCK'', ''LOCKS'', ''LOG'', ''LOGED'',
     ''LONG'', ''LOOP'', ''LOWER'', ''MAP'', ''MATCH'', ''MATERIALIZED'', ''MAX'']"

definition ReservedWords_3 :: "string list" where
  "ReservedWords_3 =
    [''MAXLEN'', ''MEMBER'', ''MERGE'', ''METHOD'', ''METRICS'', ''MIN'', ''MINUS'', ''MINUTE'', ''MISSING'',
     ''MOD'', ''MODE'', ''MODIFIES'', ''MODIFY'', ''MODULE'', ''MONTH'', ''MULTI'', ''MULTISET'', ''NAME'',
     ''NAMES'', ''NATIONAL'', ''NATURAL'', ''NCHAR'', ''NCLOB'', ''NEW'', ''NEXT'', ''NO'', ''NONE'',
     ''NOT'', ''NULL'', ''NULLIF'', ''NUMBER'', ''NUMERIC'', ''OBJECT'', ''OF'', ''OFFLINE'', ''OFFSET'',
     ''OLD'', ''ON'', ''ONLINE'', ''ONLY'', ''OPEN'', ''OPTION'', ''OR'', ''ORDER'', ''ORDINALITY'',
     ''OTHER'', ''OTHERS'', ''OUT'', ''OUTER'', ''OUTPUT'', ''OVER'', ''OVERLAPS'', ''OVERRIDE'', ''OWNER'',
     ''PAD'', ''PARALLEL'', ''PARAMETER'', ''PARAMETERS'', ''PARTIAL'', ''PARTITION'', ''PARTITIONED'',
     ''PARTITIONS'', ''PATH'', ''PERCENT'', ''PERCENTILE'', ''PERMISSION'', ''PERMISSIONS'', ''PIPE'',
     ''PIPELINED'', ''PLAN'', ''POOL'', ''POSITION'', ''PRECISION'', ''PREPARE'', ''PRESERVE'', ''PRIMARY'',
     ''PRIOR'', ''PRIVATE'', ''PRIVILEGES'', ''PROCEDURE'', ''PROCESS'', ''PROCESSLIST'', ''PROJECTION'',
     ''PROMOTE'', ''PROVISIONED'', ''PUBLIC'', ''PUT'', ''QUERY'', ''QUIT'', ''QUORUM'', ''RAISE'',
     ''RANDOM'', ''RANGE'', ''RANK'', ''RAW'', ''READ'', ''READS'', ''REAL'', ''REBUILD'', ''RECORD'',
     ''RECURSIVE'', ''REDUCE'', ''REF'', ''REFERENCE'', ''REFERENCES'', ''REFERENCING'', ''REGEXP'',
     ''REGION'', ''REINDEX'', ''RELATIVE'', ''RELEASE'', ''REMAINDER'', ''RENAME'', ''REPEAT'', ''REPLACE'',
     ''REQUEST'', ''RESET'', ''RESIGNAL'', ''RESOURCE'', ''RESPONSE'', ''RESTORE'', ''RESTRICT'', ''RESULT'',
     ''RETURN'', ''RETURNING'', ''RETURNS'', ''REVERSE'', ''REVOKE'', ''RIGHT'', ''ROLE'', ''ROLES'',
     ''ROLLBACK'', ''ROLLUP'', ''ROUTINE'', ''ROW'', ''ROWS'', ''RULE'', ''RULES'', ''SAMPLE'',
     ''SATISFIES'', ''SAVE'', ''SAVEPOINT'']"

definition ReservedWords_4 :: "string list" where
  "ReservedWords_4 =
    [''SCAN'', ''SCHEMA'', ''SCOPE'', ''SCROLL'', ''SEARCH'', ''SECOND'', ''SECTION'', ''SEGMENT'',
     ''SEGMENTS'', ''SELECT'', ''SELF'', ''SEMI'', ''SENSITIVE'', ''SEPARATE'', ''SEQUENCE'',
     ''SERIALIZABLE'', ''SESSION'', ''SET'', ''SETS'', ''SHARD'', ''SHARE'', ''SHARED'', ''SHORT'', ''SHOW'',
     ''SIGNAL'', ''SIMILAR'', ''SIZE'', ''SKEWED'', ''SMALLINT'', ''SNAPSHOT'', ''SOME'', ''SOURCE'',
     ''SPACE'', ''SPACES'', ''SPARSE'', ''SPECIFIC'', ''SPECIFICTYPE'', ''SPLIT'', ''SQL'', ''SQLCODE'',
     ''SQLERROR'', ''SQLEXCEPTION'', ''SQLSTATE'', ''SQLWARNING'', ''START'', ''STATE'', ''STATIC'',
     ''STATUS'', ''STORAGE'', ''STORE'', ''STORED'', ''STREAM'', ''STRING'', ''STRUCT'', ''STYLE'', ''SUB'',
     ''SUBMULTISET'', ''SUBPARTITION'', ''SUBSTRING'', ''SUBTYPE'', ''SUM'', ''SUPER'', ''SYMMETRIC'',
     ''SYNONYM'', ''SYSTEM'', ''TABLE'', ''TABLESAMPLE'', ''TEMP'', ''TEMPORARY'', ''TERMINATED'', ''TEXT'',
     ''THAN'', ''THEN'', ''THROUGHPUT'', ''TIME'', ''TIMESTAMP'', ''TIMEZONE'', ''TINYINT'', ''TO'',
     ''TOKEN'', ''TOTAL'', ''TOUCH'', ''TRAILING'', ''TRANSACTION'', ''TRANSFORM'', ''TRANSLATE'',
     ''TRANSLATION'', ''TREAT'', ''TRIGGER'', ''TRIM'', ''TRUE'', ''TRUNCATE'', ''TTL'', ''TUPLE'', ''TYPE'',
     ''UNDER'', ''UNDO'', ''UNION'', ''UNIQUE'', ''UNIT'', ''UNKNOWN'', ''UNLOGGED'', ''UNNEST'',
     ''UNPROCESSED'', ''UNSIGNED'', ''UNTIL'', ''UPDATE'', ''UPPER'', ''URL'', ''USAGE'', ''USE'', ''USER'',
     ''USERS'', ''USING'', ''UUID'', ''VACUUM'', ''VALUE'', ''VALUED'', ''VALUES'', ''VARCHAR'',
     ''VARIABLE'', ''VARIANCE'', ''VARINT'', ''VARYING'', ''VIEW'', ''VIEWS'', ''VIRTUAL'', ''VOID'',
     ''WAIT'', ''WHEN'', ''WHENEVER'', ''WHERE'', ''WHILE'', ''WINDOW'', ''WITH'', ''WITHIN'', ''WITHOUT'',
     ''WORK'', ''WRAPPED'', ''WRITE'', ''YEAR'', ''ZONE'']"

definition ReservedWords :: "string \<Rightarrow> bool" where
  "ReservedWords w \<longleftrightarrow>
     w \<in> set ReservedWords_1 \<or> w \<in> set ReservedWords_2 \<or> w \<in> set ReservedWords_3 \<or> w \<in> set ReservedWords_4"

text \<open>
  \<open>toUpper\<close>: a word without small letters is returned as it is, otherwise the letters from the first small one on
  are copied, small ones made capital.
\<close>

fun upper_tail :: "string \<Rightarrow> string" where
  "upper_tail [] = []"
| "upper_tail (c # s) = (if is_lower c then char_of (of_char c - (32 :: nat)) else c) # upper_tail s"

definition toUpper :: "string \<Rightarrow> string" where
  "toUpper s =
     (if list_ex is_lower s then takeWhile (\<lambda>c. \<not> is_lower c) s @ upper_tail (dropWhile (\<lambda>c. \<not> is_lower c) s) else s)"

definition IsReserved :: "string \<Rightarrow> bool" where
  "IsReserved word = ReservedWords (toUpper word)"

text \<open>It is the \<open>strings.ToUpper\<close> of the other packages on ASCII, so case does not matter.\<close>

lemma upper_tail_map: "upper_tail s = map up_char s"
  by (induction s) (simp_all add: up_char_def)

lemma toUpper_ToUpper: "toUpper s = ToUpper s"
proof -
  have same: "map up_char w = w" if "\<forall>c \<in> set w. \<not> is_lower c" for w
    using that by (induction w) (simp_all add: up_char_def)
  have pre: "map up_char (takeWhile (\<lambda>c. \<not> is_lower c) s) = takeWhile (\<lambda>c. \<not> is_lower c) s"
    by (rule same) (auto dest: set_takeWhileD)
  have "takeWhile (\<lambda>c. \<not> is_lower c) s @ map up_char (dropWhile (\<lambda>c. \<not> is_lower c) s) = map up_char s"
    by (subst pre [symmetric]) (simp flip: map_append)
  moreover have "\<not> list_ex is_lower s \<Longrightarrow> map up_char s = s"
    by (rule same) (simp add: list_ex_iff)
  ultimately show ?thesis
    by (simp add: toUpper_def ToUpper_def upper_tail_map)
qed

lemma IsReserved_case: "ToUpper v = ToUpper w \<Longrightarrow> IsReserved v = IsReserved w"
  by (simp add: IsReserved_def toUpper_ToUpper)

end
