(* ===== verification/Translate.thy ===== *)
theory Translate
  imports Reserved Condition Ast
begin

text \<open>
  From expression trees to the text of a request (\<open>internal/expr/translate.go\<close>).  The translator is passed
  along: the aliases and placeholders given so far and their counters.  A nil \<open>Node\<close> is translated to the empty
  text, as any other value that is no node.
\<close>

record translator =
  tr_names :: names
  tr_values :: vals
  tr_nameIdx :: nat
  tr_valueIdx :: nat
  tr_nameCache :: "(string, string) fmap"

definition newTranslator :: translator where
  "newTranslator = \<lparr>tr_names = fmempty, tr_values = fmempty, tr_nameIdx = 0, tr_valueIdx = 0, tr_nameCache = fmempty\<rparr>"

definition aliasName :: "string \<Rightarrow> translator \<Rightarrow> string \<times> translator" where
  "aliasName name t =
     (case fmlookup (tr_nameCache t) name of
        Some alias \<Rightarrow> (alias, t)
      | None \<Rightarrow>
          (let simple = CHR ''#'' # name;
               (alias, t1) =
                 (case fmlookup (tr_names t) simple of
                    Some existing \<Rightarrow>
                      if existing \<noteq> name then (''#n'' @ show_nat (tr_nameIdx t), t\<lparr>tr_nameIdx := Suc (tr_nameIdx t)\<rparr>)
                      else (simple, t)
                  | None \<Rightarrow> if IsReserved name then (simple, t) else (simple, t))
           in (alias, t1\<lparr>tr_names := fmupd alias name (tr_names t1), tr_nameCache := fmupd name alias (tr_nameCache t1)\<rparr>)))"

definition aliasValue :: "AttributeValue \<Rightarrow> translator \<Rightarrow> string \<times> translator" where
  "aliasValue v t =
     (placeholder (tr_valueIdx t),
      t\<lparr>tr_valueIdx := Suc (tr_valueIdx t), tr_values := fmupd (placeholder (tr_valueIdx t)) v (tr_values t)\<rparr>)"

fun alias_parts :: "string list \<Rightarrow> translator \<Rightarrow> string list \<times> translator" where
  "alias_parts [] t = ([], t)"
| "alias_parts (p # ps) t =
     (let (a, t1) = aliasName p t; (as, t2) = alias_parts ps t1 in (a # as, t2))"

definition translatePath :: "string list \<Rightarrow> translator \<Rightarrow> string \<times> translator" where
  "translatePath parts t = (let (as, t1) = alias_parts parts t in (Join as ''.'', t1))"

fun alias_paths :: "string list list \<Rightarrow> translator \<Rightarrow> string list \<times> translator" where
  "alias_paths [] t = ([], t)"
| "alias_paths (p # ps) t =
     (let (a, t1) = translatePath p t; (as, t2) = alias_paths ps t1 in (a # as, t2))"

definition translateProjection :: "string list list \<Rightarrow> translator \<Rightarrow> string \<times> translator" where
  "translateProjection paths t = (let (as, t1) = alias_paths paths t in (Join as '', '', t1))"

text \<open>The groups of an update: the actions in the order they are first seen, with their clauses.\<close>

type_synonym update_groups = "(UpdateAction, string list) fmap \<times> UpdateAction list"

definition group_clause :: "UpdateAction \<Rightarrow> string \<Rightarrow> update_groups \<Rightarrow> update_groups" where
  "group_clause a clause gs =
     (case gs of (groups, order) \<Rightarrow>
        (case fmlookup groups a of
           None \<Rightarrow> (fmupd a [clause] groups, order @ [a])
         | Some cs \<Rightarrow> (fmupd a (cs @ [clause]) groups, order)))"

definition group_texts :: "update_groups \<Rightarrow> string" where
  "group_texts gs =
     (case gs of (groups, order) \<Rightarrow>
        Join (map (\<lambda>a. UpdateAction_String a @ '' '' @
          Join (case fmlookup groups a of Some cs \<Rightarrow> cs | None \<Rightarrow> []) '', '') order) '' '')"

text \<open>
  \<open>update_loop\<close> is the loop of \<open>translateUpdate\<close>, which starts it without groups and prints those it ends with; an
  update is its action, its path and its value.
\<close>

function (sequential) translateNode :: "node \<Rightarrow> translator \<Rightarrow> string \<times> translator"
and translate_opt :: "node option \<Rightarrow> translator \<Rightarrow> string \<times> translator"
and translate_args :: "node list \<Rightarrow> translator \<Rightarrow> string list \<times> translator"
and update_loop :: "(UpdateAction \<times> string list \<times> node option) list \<Rightarrow> update_groups \<Rightarrow> translator \<Rightarrow> update_groups \<times> translator"
where
  "translateNode (CompareNode l op r) t =
     (let (left, t1) = translateNode l t; (right, t2) = translateNode r t1
      in (left @ '' '' @ CompareOp_String op @ '' '' @ right, t2))"
| "translateNode (LogicalNode op l r) t =
     (if op = NOT then
        (let (operand, t1) = translateNode l t in (''NOT ('' @ operand @ '')'', t1))
      else
        (let (left, t1) = translateNode l t; (right, t2) = translate_opt r t1
         in (''('' @ left @ '') '' @ LogicalOp_String op @ '' ('' @ right @ '')'', t2)))"
| "translateNode (FuncNode name args) t =
     (let (as, t1) = translate_args args t in (name @ ''('' @ Join as '', '' @ '')'', t1))"
| "translateNode (PathNode parts) t = translatePath parts t"
| "translateNode (ValueNode v) t = aliasValue v t"
| "translateNode (UpdateNode a p v) t =
     (let (gs, t1) = update_loop [(a, p, v)] (fmempty, []) t in (group_texts gs, t1))"
| "translateNode (ProjectionNode paths) t = translateProjection paths t"
| "translate_opt None t = ([], t)"
| "translate_opt (Some n) t = translateNode n t"
| "translate_args [] t = ([], t)"
| "translate_args (n # ns) t =
     (let (a, t1) = translateNode n t; (as, t2) = translate_args ns t1 in (a # as, t2))"
| "update_loop [] gs t = (gs, t)"
| "update_loop ((a, p, v) # us) gs t =
     (let (path, t1) = translatePath p t;
          (clause, t2) =
            (case a of
               SET \<Rightarrow> let (val, t2) = translate_opt v t1 in (path @ '' = '' @ val, t2)
             | ADD \<Rightarrow> let (val, t2) = translate_opt v t1 in (path @ '' '' @ val, t2)
             | REMOVE \<Rightarrow> (path, t1)
             | DELETE \<Rightarrow> let (val, t2) = translate_opt v t1 in (path @ '' '' @ val, t2))
      in update_loop us (group_clause a clause gs) t2)"
  by pat_completeness auto
termination
  by (relation "measure (case_sum (case_sum (\<lambda>(n, t). 4 * size n) (\<lambda>(v, t). 4 * size_option size v + 1))
    (case_sum (\<lambda>(ns, t). 4 * size_list size ns + 1)
      (\<lambda>(us, gs, t). sum_list (map (\<lambda>(a, p, v). 4 * size_option size v + 2) us))))") auto

definition translateUpdate :: "(UpdateAction \<times> string list \<times> node option) list \<Rightarrow> translator \<Rightarrow> string \<times> translator" where
  "translateUpdate nodes t = (let (gs, t1) = update_loop nodes (fmempty, []) t in (group_texts gs, t1))"

definition ToDynamo :: "node \<Rightarrow> string \<times> names \<times> vals" where
  "ToDynamo n = (let (e, t) = translateNode n newTranslator in (e, tr_names t, tr_values t))"

definition ToDynamoUpdates :: "(UpdateAction \<times> string list \<times> node option) list \<Rightarrow> string \<times> names \<times> vals" where
  "ToDynamoUpdates nodes = (let (e, t) = translateUpdate nodes newTranslator in (e, tr_names t, tr_values t))"

definition ToDynamoProjection :: "string list list \<Rightarrow> string \<times> names" where
  "ToDynamoProjection paths = (let (e, t) = translateProjection paths newTranslator in (e, tr_names t))"

end
