(* ===== verification/TranslateRead.thy ===== *)
theory TranslateRead
  imports Translate CondEquiv
begin

text \<open>
  What \<open>ToDynamo\<close> prints for a condition the in-memory backend reads back as the same tree.  The conditions are
  comparisons and functions of operands, combined by AND, OR and NOT; an operand is an attribute of one part, a
  value or a function.
\<close>

fun operand :: "node \<Rightarrow> bool" where
  "operand (PathNode [p]) \<longleftrightarrow> list_all isIdentPart p"
| "operand (ValueNode v) \<longleftrightarrow> True"
| "operand (FuncNode name args) \<longleftrightarrow> known_function name \<and> ToLower name = name \<and> list_all operand args"
| "operand _ \<longleftrightarrow> False"

fun cond_tree :: "node \<Rightarrow> bool" where
  "cond_tree (CompareNode l op r) \<longleftrightarrow> operand l \<and> operand r"
| "cond_tree (LogicalNode op l None) \<longleftrightarrow> op = NOT \<and> cond_tree l"
| "cond_tree (LogicalNode op l (Some r)) \<longleftrightarrow> op \<noteq> NOT \<and> cond_tree l \<and> cond_tree r"
| "cond_tree n \<longleftrightarrow> operand n"

subsection \<open>The translator\<close>

text \<open>Aliases are the names behind a \<open>#\<close>, so two names never meet at one alias and no numbered alias is made.\<close>

definition tr_ok :: "translator \<Rightarrow> bool" where
  "tr_ok t \<longleftrightarrow>
     (\<forall>x a. fmlookup (tr_nameCache t) x = Some a \<longrightarrow> a = CHR ''#'' # x \<and> fmlookup (tr_names t) a = Some x) \<and>
     (\<forall>a x. fmlookup (tr_names t) a = Some x \<longrightarrow> a = CHR ''#'' # x) \<and>
     (\<forall>i. tr_valueIdx t \<le> i \<longrightarrow> fmlookup (tr_values t) (placeholder i) = None)"

definition below :: "('a, 'b) fmap \<Rightarrow> ('a, 'b) fmap \<Rightarrow> bool" where
  "below m m' \<longleftrightarrow> (\<forall>k v. fmlookup m k = Some v \<longrightarrow> fmlookup m' k = Some v)"

definition binds :: "names \<Rightarrow> vals \<Rightarrow> translator \<Rightarrow> bool" where
  "binds nm vs t \<longleftrightarrow> below (tr_names t) nm \<and> below (tr_values t) vs"

definition grows :: "translator \<Rightarrow> translator \<Rightarrow> bool" where
  "grows t t' \<longleftrightarrow> tr_ok t' \<and> below (tr_names t) (tr_names t') \<and> below (tr_values t) (tr_values t')"

lemma grows_trans: "grows t u \<Longrightarrow> grows u w \<Longrightarrow> grows t w"
  by (simp add: grows_def below_def)

lemma grows_refl: "tr_ok t \<Longrightarrow> grows t t"
  by (simp add: grows_def below_def)

lemma grows_ok: "grows t t' \<Longrightarrow> tr_ok t'"
  by (simp add: grows_def)

lemma grows_binds: "grows t t' \<Longrightarrow> binds nm vs t' \<Longrightarrow> binds nm vs t"
  by (simp add: grows_def binds_def below_def)

lemma newTranslator_ok: "tr_ok newTranslator"
  by (simp add: tr_ok_def newTranslator_def)

lemma aliasName_eq:
  assumes "tr_ok t"
  shows "aliasName p t = (CHR ''#'' # p,
    if fmlookup (tr_nameCache t) p = None
    then t\<lparr>tr_names := fmupd (CHR ''#'' # p) p (tr_names t), tr_nameCache := fmupd p (CHR ''#'' # p) (tr_nameCache t)\<rparr>
    else t)"
proof (cases "fmlookup (tr_nameCache t) p")
  case None
  have "e = p" if "fmlookup (tr_names t) (CHR ''#'' # p) = Some e" for e
    using assms that unfolding tr_ok_def by blast
  with None show ?thesis by (cases "fmlookup (tr_names t) (CHR ''#'' # p)") (simp_all add: aliasName_def Let_def)
next
  case (Some a)
  with assms have "a = CHR ''#'' # p" unfolding tr_ok_def by blast
  with Some show ?thesis by (simp add: aliasName_def)
qed

lemma aliasName_ok:
  assumes "tr_ok t" "aliasName p t = (a, t')"
  shows "a = CHR ''#'' # p" "grows t t'" "binds nm vs t' \<Longrightarrow> fmlookup nm (CHR ''#'' # p) = Some p"
proof -
  have t': "a = CHR ''#'' # p" "t' = (if fmlookup (tr_nameCache t) p = None
      then t\<lparr>tr_names := fmupd (CHR ''#'' # p) p (tr_names t), tr_nameCache := fmupd p (CHR ''#'' # p) (tr_nameCache t)\<rparr>
      else t)"
    using assms(2) unfolding aliasName_eq [OF assms(1)] by auto
  then show "a = CHR ''#'' # p" by simp
  have "fmlookup (tr_names t') (CHR ''#'' # p) = Some p"
  proof (cases "fmlookup (tr_nameCache t) p")
    case (Some a')
    with assms(1) have "fmlookup (tr_names t) (CHR ''#'' # p) = Some p" unfolding tr_ok_def by blast
    with Some t'(2) show ?thesis by simp
  qed (use t'(2) in simp)
  then show "binds nm vs t' \<Longrightarrow> fmlookup nm (CHR ''#'' # p) = Some p" by (simp add: binds_def below_def)
  show "grows t t'"
  proof (cases "fmlookup (tr_nameCache t) p")
    case None
    have "x = p" if "fmlookup (tr_names t) (CHR ''#'' # p) = Some x" for x
      using assms(1) that unfolding tr_ok_def by blast
    then have "below (tr_names t) (tr_names t')" using t'(2) None by (auto simp: below_def)
    moreover have "tr_ok t'" using assms(1) t'(2) None by (auto simp: tr_ok_def)
    ultimately show ?thesis using t'(2) None by (simp add: grows_def below_def)
  qed (use assms(1) t'(2) grows_refl in simp)
qed

lemma aliasValue_ok:
  assumes "tr_ok t" "aliasValue v t = (a, t')"
  shows "a = placeholder (tr_valueIdx t)" "grows t t'" "binds nm vs t' \<Longrightarrow> fmlookup vs a = Some v"
proof -
  show a: "a = placeholder (tr_valueIdx t)" using assms(2) by (simp add: aliasValue_def)
  have "fmlookup (tr_values t) (placeholder (tr_valueIdx t)) = None" using assms(1) by (simp add: tr_ok_def)
  with assms show "grows t t'"
    by (auto simp: aliasValue_def grows_def tr_ok_def below_def)
  show "binds nm vs t' \<Longrightarrow> fmlookup vs a = Some v"
    using assms by (auto simp: aliasValue_def binds_def below_def)
qed

subsection \<open>Operands\<close>

lemma known_words:
  assumes "known_function name" "ToLower name = name"
  shows "valid_tok name" "name \<noteq> []" "isIdentStart (hd name)" "\<not> EqualFold name ''NOT''"
proof -
  let ?names = "[''attribute_exists'', ''attribute_not_exists'', ''begins_with'', ''contains'', ''size'', ''attribute_type'']"
  have "name \<in> set ?names" using assms by (simp add: known_function_def)
  moreover have "\<forall>w \<in> set ?names. word_tok w \<and> w \<noteq> [] \<and> isIdentStart (hd w) \<and> \<not> EqualFold w ''NOT''" by code_simp
  ultimately show "valid_tok name" "name \<noteq> []" "isIdentStart (hd name)" "\<not> EqualFold name ''NOT''"
    by (auto simp: valid_tok_def)
qed

lemma valid_name: "list_all isIdentPart p \<Longrightarrow> valid_tok (CHR ''#'' # p)"
  by (simp add: valid_tok_def ref_tok_def)

lemma part_no_dot: "list_all isIdentPart p \<Longrightarrow> CHR ''.'' \<notin> set p"
proof -
  have "\<not> isIdentPart CHR ''.''" by code_simp
  then show "list_all isIdentPart p \<Longrightarrow> CHR ''.'' \<notin> set p" by (auto simp: list_all_iff)
qed

lemma not_words: "\<not> EqualFold (CHR ''#'' # p) ''NOT''" "\<not> EqualFold (placeholder i) ''NOT''"
proof -
  have "ToUpper ''NOT'' = ''NOT''" by code_simp
  then show "\<not> EqualFold (CHR ''#'' # p) ''NOT''" "\<not> EqualFold (placeholder i) ''NOT''"
    using fold_not_letter [of "CHR ''#''" "''NOT''" p] fold_not_letter [of "CHR '':''" "''NOT''" "CHR ''v'' # show_nat i"]
    by (simp_all add: EqualFold_def placeholder_def)
qed

definition reads_operand :: "node \<Rightarrow> string list \<Rightarrow> translator \<Rightarrow> bool" where
  "reads_operand n ts t \<longleftrightarrow> ts \<noteq> [] \<and> hd ts \<notin> {''('', '')''} \<and> \<not> EqualFold (hd ts) ''NOT'' \<and>
     (\<forall>nm vs k rest. binds nm vs t \<longrightarrow> 3 * length ts < k \<longrightarrow> peek rest \<noteq> ''('' \<longrightarrow>
        parsePrimary k nm vs (ts @ rest) = Inr (n, rest))"

lemma reads_operand_mono: "reads_operand n ts t \<Longrightarrow> grows t t' \<Longrightarrow> reads_operand n ts t'"
  unfolding reads_operand_def using grows_binds by blast

definition prints_operand :: "node \<Rightarrow> bool" where
  "prints_operand n \<longleftrightarrow> (\<forall>t s t'. tr_ok t \<longrightarrow> translateNode n t = (s, t') \<longrightarrow>
     grows t t' \<and> (\<exists>ts. toks_to s ts \<and> reads_operand n ts t'))"

lemma args_printed:
  assumes "list_all prints_operand ns" "tr_ok t" "translate_args ns t = (ss, t')"
  shows "grows t t' \<and> (\<exists>tss. list_all2 toks_to ss tss \<and> list_all2 (\<lambda>n ts. reads_operand n ts t') ns tss)"
  using assms
proof (induction ns arbitrary: t ss)
  case (Cons n ns)
  obtain s t1 ss' where s: "translateNode n t = (s, t1)" "translate_args ns t1 = (ss', t')" "ss = s # ss'"
    using Cons.prems(3) by (auto split: prod.splits)
  from Cons.prems(1) have "prints_operand n" by simp
  from this [unfolded prints_operand_def, rule_format, OF Cons.prems(2) s(1)]
  obtain ts where ts: "grows t t1" "toks_to s ts" "reads_operand n ts t1" by blast
  from Cons.IH [OF _ grows_ok [OF ts(1)] s(2)] Cons.prems(1) obtain tss where
    tss: "grows t1 t'" "list_all2 toks_to ss' tss" "list_all2 (\<lambda>n ts. reads_operand n ts t') ns tss" by auto
  show ?case
  proof (intro conjI exI)
    show "grows t t'" by (rule grows_trans [OF ts(1) tss(1)])
    show "list_all2 toks_to ss (ts # tss)" using s(3) ts(2) tss(2) by simp
    show "list_all2 (\<lambda>n ts. reads_operand n ts t') (n # ns) (ts # tss)"
      using reads_operand_mono [OF ts(3) tss(1)] tss(3) by simp
  qed
qed (simp add: grows_refl)

lemma Join_toks: "list_all2 toks_to ss tss \<Longrightarrow> toks_to (Join ss '', '') (comma_sep tss)"
proof (cases "ss = []")
  case False
  assume ss: "list_all2 toks_to ss tss"
  then have "\<forall>x \<in> set (zip ss tss). toks_to (fst x) (snd x)" by (auto simp: list_all2_iff)
  from toks_Join_comma [OF this] ss False show ?thesis by (auto simp: list_all2_lengthD)
qed (simp add: toks_to_def)

lemma args_read:
  assumes "list_all2 (\<lambda>n ts. reads_operand n ts t) ns tss" "binds nm vs t"
    and "3 * length (comma_sep tss) + 4 < k"
  shows "parseArgs k nm vs acc ((if acc = [] \<or> tss = [] then [] else ['','']) @ comma_sep tss @ '')'' # rest) =
    Inr (acc @ ns, '')'' # rest)"
  using assms
proof (induction ns tss arbitrary: acc k rule: list_all2_induct)
  case Nil
  then show ?case by (cases k) simp_all
next
  case (Cons n ns ts tss)
  obtain j where k: "k = Suc j" using Cons.prems by (cases k) auto
  let ?more = "(if tss = [] then [] else ['','']) @ comma_sep tss @ '')'' # rest"
  have sep: "comma_sep (ts # tss) @ '')'' # rest = ts @ ?more"
    by (cases tss) simp_all
  have len: "length ts + length (comma_sep tss) \<le> length (comma_sep (ts # tss))" by (cases tss) simp_all
  from Cons.hyps(1) have ts: "ts \<noteq> []" "hd ts \<notin> {''('', '')''}" by (simp_all add: reads_operand_def)
  have "peek ?more \<noteq> ''(''" by simp
  with Cons.hyps(1) Cons.prems k len have p: "parsePrimary j nm vs (ts @ ?more) = Inr (n, ?more)"
    by (simp add: reads_operand_def)
  have "1 \<le> length ts" using ts(1) by (cases ts) simp_all
  with Cons.IH [of j "acc @ [n]"] Cons.prems k len have "parseArgs j nm vs (acc @ [n]) ?more = Inr (acc @ n # ns, '')'' # rest)"
    by simp
  with k p ts sep show ?case by (cases ts; cases "acc = []"; cases "tss = []") simp_all
qed

lemma path_operand:
  assumes "operand (PathNode [p])"
  shows "prints_operand (PathNode [p])"
  unfolding prints_operand_def
proof (intro allI impI)
  fix t s t' assume t: "tr_ok t" and "translateNode (PathNode [p]) t = (s, t')"
  then have "aliasName p t = (s, t')" by (auto simp: translatePath_def split: prod.splits)
  note a = aliasName_ok [OF t this]
  have "reads_operand (PathNode [p]) [s] t'"
    unfolding reads_operand_def
  proof (intro conjI allI impI)
    fix nm vs k rest assume "binds nm vs t'" "3 * length [s] < k" "peek rest \<noteq> ''(''"
    moreover from this(2) obtain j where "k = Suc j" by (cases k) auto
    ultimately show "parsePrimary k nm vs ([s] @ rest) = Inr (PathNode [p], rest)"
      using a(3) [of nm vs] a(1) part_no_dot [of p] assms by (simp add: Let_def SplitChar_no_sep)
  qed (use a(1) not_words in simp_all)
  with a(2) toks_valid [OF valid_name [of p]] assms a(1) show "grows t t' \<and> (\<exists>ts. toks_to s ts \<and> reads_operand (PathNode [p]) ts t')"
    by auto
qed

lemma value_operand: "prints_operand (ValueNode v)"
  unfolding prints_operand_def
proof (intro allI impI)
  fix t s t' assume t: "tr_ok t" and "translateNode (ValueNode v) t = (s, t')"
  then have "aliasValue v t = (s, t')" by simp
  note a = aliasValue_ok [OF t this]
  have "reads_operand (ValueNode v) [s] t'"
    unfolding reads_operand_def
  proof (intro conjI allI impI)
    fix nm vs k rest assume "binds nm vs t'" "3 * length [s] < k" "peek rest \<noteq> ''(''"
    moreover from this(2) obtain j where "k = Suc j" by (cases k) auto
    ultimately show "parsePrimary k nm vs ([s] @ rest) = Inr (ValueNode v, rest)"
      using a(3) [of nm vs] a(1) by (simp add: Let_def placeholder_def)
  qed (use a(1) not_words(2) in \<open>simp_all\<close>, simp_all add: placeholder_def)
  with a(2) toks_valid [OF valid_placeholder] a(1) show "grows t t' \<and> (\<exists>ts. toks_to s ts \<and> reads_operand (ValueNode v) ts t')"
    by auto
qed

lemma function_operand:
  assumes known: "known_function name" "ToLower name = name" and args: "list_all prints_operand args"
  shows "prints_operand (FuncNode name args)"
  unfolding prints_operand_def
proof (intro allI impI)
  note w = known_words [OF known]
  fix t s t' assume t: "tr_ok t" and "translateNode (FuncNode name args) t = (s, t')"
  then obtain ss where ss: "translate_args args t = (ss, t')" "s = name @ ''('' @ Join ss '', '' @ '')''"
    by (auto split: prod.splits)
  from args_printed [OF args t ss(1)] obtain tss where
    g: "grows t t'" and tss: "list_all2 toks_to ss tss" "list_all2 (\<lambda>n ts. reads_operand n ts t') args tss" by blast
  let ?ts = "name # ''('' # comma_sep tss @ ['')'']"
  have "toks_to s ?ts"
    using Join_toks [OF tss(1)] toks_valid [OF w(1)] by (simp add: ss(2) toks_to_def)
  moreover have "reads_operand (FuncNode name args) ?ts t'"
    unfolding reads_operand_def
  proof (intro conjI allI impI)
    fix nm vs k rest assume b: "binds nm vs t'" and len: "3 * length ?ts < k" and "peek rest \<noteq> ''(''"
    from len obtain j where k: "k = Suc (Suc j)" "3 * length (comma_sep tss) + 7 < j"
      by (cases k; cases "k - 1") auto
    from k(2) have "parseArgs j nm vs [] (comma_sep tss @ '')'' # rest) = Inr (args, '')'' # rest)"
      using args_read [OF tss(2) b, of j "[]"] by simp
    moreover have "hd name \<noteq> CHR '':''" "hd name \<noteq> CHR ''#''" using start_not_other [OF w(3)] by simp_all
    ultimately show "parsePrimary k nm vs (?ts @ rest) = Inr (FuncNode name args, rest)"
      using w known by (simp add: k(1) Let_def)
  qed (use w start_not_other(2) [OF w(3)] in \<open>auto simp: single_char_tok_def\<close>)
  ultimately show "grows t t' \<and> (\<exists>ts. toks_to s ts \<and> reads_operand (FuncNode name args) ts t')"
    using g by blast
qed

lemma operand_printed: "operand n \<Longrightarrow> prints_operand n"
proof (induction n rule: operand.induct)
  case (3 name args)
  then show ?case by (intro function_operand) (simp_all add: list_all_iff)
qed (simp_all add: path_operand value_operand)

subsection \<open>Conditions\<close>

definition reads_cond :: "node \<Rightarrow> string list \<Rightarrow> translator \<Rightarrow> bool" where
  "reads_cond n ts t \<longleftrightarrow> (\<forall>nm vs k rest. binds nm vs t \<longrightarrow> 8 * length ts < k \<longrightarrow> peek rest \<in> {[], '')''} \<longrightarrow>
     parseOr k nm vs (ts @ rest) = Inr (n, rest))"

lemma reads_cond_mono: "reads_cond n ts t \<Longrightarrow> grows t t' \<Longrightarrow> reads_cond n ts t'"
  unfolding reads_cond_def using grows_binds by blast

definition prints_cond :: "node \<Rightarrow> bool" where
  "prints_cond n \<longleftrightarrow> (\<forall>t s t'. tr_ok t \<longrightarrow> translateNode n t = (s, t') \<longrightarrow>
     grows t t' \<and> (\<exists>ts. ts \<noteq> [] \<and> toks_to s ts \<and> reads_cond n ts t'))"

text \<open>What the parsers look for behind a condition is not a parenthesis or the end.\<close>

lemma closers:
  assumes "x \<in> {[], '')''}"
  shows "\<not> EqualFold x ''OR''" "\<not> EqualFold x ''AND''" "\<not> EqualFold x ''BETWEEN''" "\<not> EqualFold x ''IN''"
    "parseCompareOp x = None" "x \<noteq> ''(''"
proof -
  have "\<forall>x \<in> set [[], '')'']. \<not> EqualFold x ''OR'' \<and> \<not> EqualFold x ''AND'' \<and> \<not> EqualFold x ''BETWEEN'' \<and> \<not> EqualFold x ''IN'' \<and>
      parseCompareOp x = None \<and> x \<noteq> ''(''" by code_simp
  with assms show "\<not> EqualFold x ''OR''" "\<not> EqualFold x ''AND''" "\<not> EqualFold x ''BETWEEN''" "\<not> EqualFold x ''IN''"
    "parseCompareOp x = None" "x \<noteq> ''(''" by auto
qed

lemma key_words:
  "EqualFold ''NOT'' ''NOT''" "EqualFold ''AND'' ''AND''" "EqualFold ''OR'' ''OR''" "\<not> EqualFold ''OR'' ''AND''"
  "\<not> EqualFold ''AND'' ''OR''" "\<not> EqualFold ''('' ''NOT''" "valid_tok ''NOT''" "valid_tok ''AND''" "valid_tok ''OR''"
  by code_simp+

lemma operators:
  "\<not> EqualFold (CompareOp_String op) ''BETWEEN''" "\<not> EqualFold (CompareOp_String op) ''IN''"
  "CompareOp_String op \<noteq> ''(''" "valid_tok (CompareOp_String op)"
proof -
  have "\<not> EqualFold (CompareOp_String op) ''BETWEEN'' \<and> \<not> EqualFold (CompareOp_String op) ''IN'' \<and> CompareOp_String op \<noteq> ''(''"
  proof -
    have "\<forall>x \<in> set (map CompareOp_String [EQ, NE, LT, LE, GT, GE]). \<not> EqualFold x ''BETWEEN'' \<and> \<not> EqualFold x ''IN'' \<and> x \<noteq> ''(''"
      by code_simp
    then show ?thesis by (cases op) simp_all
  qed
  then show "\<not> EqualFold (CompareOp_String op) ''BETWEEN''" "\<not> EqualFold (CompareOp_String op) ''IN''"
    "CompareOp_String op \<noteq> ''(''" by simp_all
  show "valid_tok (CompareOp_String op)"
    by (cases op) (simp_all add: valid_tok_def op_tok_def single_char_tok_def)
qed

text \<open>From a comparison up to the top.\<close>

lemma comparison_read:
  assumes "parseComparison j nm vs ts = Inr (n, rest)" "\<not> EqualFold (peek ts) ''NOT''" "peek rest \<in> {[], '')''}"
  shows "parseOr (Suc (Suc (Suc j))) nm vs ts = Inr (n, rest)"
  using assms closers(1,2) [OF assms(3)] by simp

lemma paren_read:
  assumes "reads_cond n ts t" "binds nm vs t" "8 * length ts < k"
  shows "parseNot (Suc (Suc k)) nm vs (''('' # ts @ '')'' # rest) = Inr (n, rest)"
  using assms key_words(6) by (simp add: reads_cond_def)

lemma operand_cond:
  assumes "operand n"
  shows "prints_cond n"
  unfolding prints_cond_def
proof (intro allI impI)
  fix t s t' assume "tr_ok t" "translateNode n t = (s, t')"
  with operand_printed [OF assms] obtain ts where ts: "grows t t'" "toks_to s ts" "reads_operand n ts t'"
    unfolding prints_operand_def by blast
  then have ne: "ts \<noteq> []" "hd ts \<noteq> ''(''" "\<not> EqualFold (hd ts) ''NOT''" by (auto simp: reads_operand_def)
  have "reads_cond n ts t'"
    unfolding reads_cond_def
  proof (intro allI impI)
    fix nm vs k rest assume b: "binds nm vs t'" "8 * length ts < k" "peek rest \<in> {[], '')''}"
    from ne(1) b(2) obtain j where k: "k = Suc (Suc (Suc (Suc j)))" "3 * length ts < j"
      by (cases ts; cases k; cases "k - 1"; cases "k - 2"; cases "k - 3") auto
    from ts(3) b(1) k(2) closers(6) [OF b(3)] have "parsePrimary j nm vs (ts @ rest) = Inr (n, rest)"
      unfolding reads_operand_def by blast
    then have "parseComparison (Suc j) nm vs (ts @ rest) = Inr (n, rest)"
      using ne closers(3-5) [OF b(3)] by (cases ts) (simp_all add: parseSuffix_def)
    with k(1) comparison_read [OF this _ b(3)] ne show "parseOr k nm vs (ts @ rest) = Inr (n, rest)"
      by (cases ts) simp_all
  qed
  with ts ne(1) show "grows t t' \<and> (\<exists>ts. ts \<noteq> [] \<and> toks_to s ts \<and> reads_cond n ts t')" by blast
qed

lemma compare_cond:
  assumes ops: "operand l" "operand r"
  shows "prints_cond (CompareNode l op r)"
  unfolding prints_cond_def
proof (intro allI impI)
  fix t s t' assume t: "tr_ok t" and "translateNode (CompareNode l op r) t = (s, t')"
  then obtain sl t1 sr where s: "translateNode l t = (sl, t1)" "translateNode r t1 = (sr, t')"
    "s = sl @ '' '' @ CompareOp_String op @ '' '' @ sr" by (auto split: prod.splits)
  from operand_printed [OF ops(1), unfolded prints_operand_def, rule_format, OF t s(1)] obtain tl where
    l: "grows t t1" "toks_to sl tl" "reads_operand l tl t1" by blast
  from operand_printed [OF ops(2), unfolded prints_operand_def, rule_format, OF grows_ok [OF l(1)] s(2)] obtain tr where
    r: "grows t1 t'" "toks_to sr tr" "reads_operand r tr t'" by blast
  note l' = reads_operand_mono [OF l(3) r(1)]
  then have ne: "tl \<noteq> []" "hd tl \<noteq> ''(''" "\<not> EqualFold (hd tl) ''NOT''" by (auto simp: reads_operand_def)
  let ?ts = "tl @ CompareOp_String op # tr"
  have "toks_to s ?ts"
    using toks_blank [OF l(2) toks_blank [OF toks_valid [OF operators(4)] r(2)]] by (simp add: s(3))
  moreover have "reads_cond (CompareNode l op r) ?ts t'"
    unfolding reads_cond_def
  proof (intro allI impI)
    fix nm vs k rest assume b: "binds nm vs t'" "8 * length ?ts < k" "peek rest \<in> {[], '')''}"
    from b(2) obtain j where k: "k = Suc (Suc (Suc (Suc j)))" "3 * length tl < j" "3 * length tr < j"
      by (cases k; cases "k - 1"; cases "k - 2"; cases "k - 3") auto
    have "parsePrimary j nm vs (tl @ CompareOp_String op # tr @ rest) = Inr (l, CompareOp_String op # tr @ rest)"
      using l' b(1) k(2) operators(3) unfolding reads_operand_def by simp
    moreover have "parsePrimary j nm vs (tr @ rest) = Inr (r, rest)"
      using r(3) b(1) k(3) closers(6) [OF b(3)] unfolding reads_operand_def by blast
    ultimately have "parseComparison (Suc j) nm vs (?ts @ rest) = Inr (CompareNode l op r, rest)"
      using ne operators by (cases tl) (simp_all add: parseSuffix_def)
    from comparison_read [OF this _ b(3)] ne k(1) show "parseOr k nm vs (?ts @ rest) = Inr (CompareNode l op r, rest)"
      by (cases tl) simp_all
  qed
  ultimately show "grows t t' \<and> (\<exists>ts. ts \<noteq> [] \<and> toks_to s ts \<and> reads_cond (CompareNode l op r) ts t')"
    using grows_trans [OF l(1) r(1)] by blast
qed

lemma not_cond:
  assumes l: "prints_cond l"
  shows "prints_cond (LogicalNode NOT l None)"
  unfolding prints_cond_def
proof (intro allI impI)
  fix t s t' assume t: "tr_ok t" and "translateNode (LogicalNode NOT l None) t = (s, t')"
  then obtain sl where s: "translateNode l t = (sl, t')" "s = ''NOT ('' @ sl @ '')''" by (auto split: prod.splits)
  from l [unfolded prints_cond_def, rule_format, OF t s(1)] obtain tl where
    tl: "grows t t'" "tl \<noteq> []" "toks_to sl tl" "reads_cond l tl t'" by blast
  let ?ts = "''NOT'' # ''('' # tl @ ['')'']"
  have "toks_to (''('' @ sl @ '')'') (''('' # tl @ ['')''])"
    using tl(3) by (simp add: toks_to_def)
  from toks_blank [OF toks_valid [OF key_words(7)] this] have "toks_to s ?ts" by (simp add: s(2))
  moreover have "reads_cond (LogicalNode NOT l None) ?ts t'"
    unfolding reads_cond_def
  proof (intro allI impI)
    fix nm vs k rest assume b: "binds nm vs t'" "8 * length ?ts < k" "peek rest \<in> {[], '')''}"
    from b(2) obtain j where k: "k = Suc (Suc (Suc (Suc (Suc j))))" "8 * length tl < j"
      by (cases k; cases "k - 1"; cases "k - 2"; cases "k - 3"; cases "k - 4") auto
    from paren_read [OF tl(4) b(1) k(2), of rest]
    have "parseNot (Suc (Suc (Suc j))) nm vs (?ts @ rest) = Inr (LogicalNode NOT l None, rest)"
      using key_words(1) by simp
    with k(1) closers(1,2) [OF b(3)] show "parseOr k nm vs (?ts @ rest) = Inr (LogicalNode NOT l None, rest)"
      by simp
  qed
  ultimately show "grows t t' \<and> (\<exists>ts. ts \<noteq> [] \<and> toks_to s ts \<and> reads_cond (LogicalNode NOT l None) ts t')"
    using tl(1) by blast
qed

lemma and_or_read:
  assumes op: "op \<noteq> NOT" and l: "reads_cond l ls t" and r: "reads_cond r rs t"
    and b: "binds nm vs t" "8 * (length ls + length rs) + 40 < k" "peek rest \<in> {[], '')''}"
  shows "parseOr k nm vs (''('' # ls @ '')'' # LogicalOp_String op # ''('' # rs @ '')'' # rest) = Inr (LogicalNode op l (Some r), rest)"
proof -
  from b(2) obtain j where k: "k = Suc (Suc (Suc (Suc (Suc j))))" "8 * length ls < j" "8 * length rs < j"
    by (cases k; cases "k - 1"; cases "k - 2"; cases "k - 3"; cases "k - 4") auto
  let ?right = "LogicalOp_String op # ''('' # rs @ '')'' # rest"
  have pl: "parseNot (Suc (Suc (Suc j))) nm vs (''('' # ls @ '')'' # ?right) = Inr (l, ?right)"
    by (rule paren_read [OF l b(1)]) (use k(2) in simp)
  have pr: "parseNot (Suc (Suc j)) nm vs (''('' # rs @ '')'' # rest) = Inr (r, rest)"
    by (rule paren_read [OF r b(1) k(3)])
  show ?thesis
  proof (cases op)
    case AND
    have "parseAndLoop (Suc (Suc (Suc j))) nm vs l ?right = Inr (LogicalNode AND l (Some r), rest)"
      using pr AND key_words(2) closers(2) [OF b(3)] by (simp del: parseNot.simps)
    with pl k(1) AND closers(1) [OF b(3)] show ?thesis by (simp del: parseNot.simps parseAndLoop.simps)
  next
    case OR
    have "parseAnd (Suc (Suc (Suc j))) nm vs (''('' # rs @ '')'' # rest) = Inr (r, rest)"
      using pr closers(2) [OF b(3)] by (simp del: parseNot.simps)
    then have "parseOrLoop (Suc (Suc (Suc (Suc j)))) nm vs l ?right = Inr (LogicalNode OR l (Some r), rest)"
      using OR key_words(3) closers(1) [OF b(3)] by (simp del: parseNot.simps parseAnd.simps)
    moreover have "parseAnd (Suc (Suc (Suc (Suc j)))) nm vs (''('' # ls @ '')'' # ?right) = Inr (l, ?right)"
      using pl OR key_words(4) by (simp del: parseNot.simps)
    ultimately show ?thesis using k(1) OR by (simp del: parseNot.simps parseAnd.simps parseOrLoop.simps)
  qed (use op in simp)
qed

lemma and_or_cond:
  assumes op: "op \<noteq> NOT" and lr: "prints_cond l" "prints_cond r"
  shows "prints_cond (LogicalNode op l (Some r))"
  unfolding prints_cond_def
proof (intro allI impI)
  fix t s t' assume t: "tr_ok t" and "translateNode (LogicalNode op l (Some r)) t = (s, t')"
  with op obtain sl t1 sr where s: "translateNode l t = (sl, t1)" "translateNode r t1 = (sr, t')"
    "s = ''('' @ sl @ '') '' @ LogicalOp_String op @ '' ('' @ sr @ '')''" by (auto split: prod.splits)
  from lr(1) [unfolded prints_cond_def, rule_format, OF t s(1)] obtain tl where
    l: "grows t t1" "tl \<noteq> []" "toks_to sl tl" "reads_cond l tl t1" by blast
  from lr(2) [unfolded prints_cond_def, rule_format, OF grows_ok [OF l(1)] s(2)] obtain tr where
    r: "grows t1 t'" "tr \<noteq> []" "toks_to sr tr" "reads_cond r tr t'" by blast
  note l' = reads_cond_mono [OF l(4) r(1)]
  let ?ts = "''('' # tl @ '')'' # LogicalOp_String op # ''('' # tr @ ['')'']"
  have word: "toks_to (LogicalOp_String op) [LogicalOp_String op]"
    using key_words(8,9) op by (cases op) (auto intro: toks_valid)
  have parens: "toks_to (''('' @ sl @ '')'') (''('' # tl @ ['')''])" "toks_to (''('' @ sr @ '')'') (''('' # tr @ ['')''])"
    using l(3) r(3) by (simp_all add: toks_to_def)
  have "toks_to s ?ts" using toks_blank [OF parens(1) toks_blank [OF word parens(2)]] by (simp add: s(3))
  moreover have "reads_cond (LogicalNode op l (Some r)) ?ts t'"
    unfolding reads_cond_def
  proof (intro allI impI)
    fix nm vs k rest assume "binds nm vs t'" "8 * length ?ts < k" "peek rest \<in> {[], '')''}"
    with and_or_read [OF op l' r(4)] show "parseOr k nm vs (?ts @ rest) = Inr (LogicalNode op l (Some r), rest)" by simp
  qed
  ultimately show "grows t t' \<and> (\<exists>ts. ts \<noteq> [] \<and> toks_to s ts \<and> reads_cond (LogicalNode op l (Some r)) ts t')"
    using grows_trans [OF l(1) r(1)] by blast
qed

lemma cond_printed: "cond_tree n \<Longrightarrow> prints_cond n"
  by (induction n rule: cond_tree.induct) (simp_all add: operand_cond compare_cond not_cond and_or_cond)

lemma ToDynamo_read:
  assumes "cond_tree n" "ToDynamo n = (e, nm, vs)"
  shows "parseExpressionToAST e nm vs = Inr n" "evalCondition e nm vs it = Eval n it"
proof -
  obtain t where t: "translateNode n newTranslator = (e, t)" "nm = tr_names t" "vs = tr_values t"
    using assms(2) by (auto simp: ToDynamo_def split: prod.splits)
  from cond_printed [OF assms(1), unfolded prints_cond_def, rule_format, OF newTranslator_ok t(1)] obtain ts where
    ts: "ts \<noteq> []" "toks_to e ts" "reads_cond n ts t" by blast
  have toks: "mem_tokenizeExpr e = ts" using ts(2) [unfolded toks_to_def, rule_format, of "[]"] by simp
  have "binds nm vs t" by (simp add: binds_def below_def t)
  from ts(3) [unfolded reads_cond_def, rule_format, OF this, of "expr_fuel ts" "[]"]
  have "parseOr (expr_fuel ts) nm vs ts = Inr (n, [])" by (simp add: expr_fuel_def)
  with toks show p: "parseExpressionToAST e nm vs = Inr n" by (simp add: parseExpressionToAST_def Let_def)
  from toks ts(1) have "e \<noteq> []" by auto
  with p show "evalCondition e nm vs it = Eval n it" by (simp add: evalCondition_def)
qed

text \<open>The dot between two aliases is no token: a path of two parts is not read back.\<close>

lemma dotted_path_not_read:
  "case ToDynamo (CompareNode (PathNode [''A'', ''B'']) EQ (ValueNode (TypeN ''1''))) of
     (e, nm, vs) \<Rightarrow> e = ''#A.#B = :v0'' \<and> \<not> is_ok (parseExpressionToAST e nm vs)"
  by code_simp

end
