(* ===== verification/Otel.thy ===== *)
theory Otel
  imports Backend GoFloat
begin

text \<open>
  The telemetry middleware (\<open>dynagotel/dynagotel.go\<close>).  Tracers and meters are OpenTelemetry's and not part of
  the repository: they are parameters, operations on a telemetry state \<open>'m\<close> with span handles \<open>'sp\<close>.  The handle
  stands for the span the context carries from \<open>Start\<close> to the callback.  As in the logging backend the clock is
  the sequence of its readings, in nanoseconds.
\<close>

type_synonym attrs = "(string \<times> string) list"

record ('m, 'sp) Tracer =
  tracer_Start :: "string \<Rightarrow> attrs \<Rightarrow> 'm \<Rightarrow> 'sp \<times> 'm"
  span_RecordError :: "'sp \<Rightarrow> error \<Rightarrow> 'm \<Rightarrow> 'm"
  span_End :: "'sp \<Rightarrow> 'm \<Rightarrow> 'm"

type_synonym 'm Int64Counter = "int \<Rightarrow> attrs \<Rightarrow> 'm \<Rightarrow> 'm"
type_synonym 'm Float64Histogram = "f64 \<Rightarrow> attrs \<Rightarrow> 'm \<Rightarrow> 'm"

record 'm Meter =
  meter_Int64Counter :: "string \<Rightarrow> 'm Int64Counter result"
  meter_Float64Histogram :: "string \<Rightarrow> 'm Float64Histogram result"

record ('m, 'sp) config =
  cf_tracer :: "('m, 'sp) Tracer option"
  cf_meter :: "'m Meter option"
  cf_counter :: "'m Int64Counter option"
  cf_latency :: "'m Float64Histogram option"

definition WithTracer :: "('m, 'sp) Tracer \<Rightarrow> ('m, 'sp) config \<Rightarrow> ('m, 'sp) config" where
  "WithTracer t c = c\<lparr>cf_tracer := Some t\<rparr>"

definition WithMeter :: "'m Meter \<Rightarrow> ('m, 'sp) config \<Rightarrow> ('m, 'sp) config" where
  "WithMeter m c = c\<lparr>cf_meter := Some m\<rparr>"

text \<open>An instrument the meter does not give is left out.\<close>

definition otel_config :: "(('m, 'sp) config \<Rightarrow> ('m, 'sp) config) list \<Rightarrow> ('m, 'sp) config" where
  "otel_config opts =
     (let cfg = fold (\<lambda>opt c. opt c) opts \<lparr>cf_tracer = None, cf_meter = None, cf_counter = None, cf_latency = None\<rparr> in
      case cf_meter cfg of
        None \<Rightarrow> cfg
      | Some m \<Rightarrow>
          cfg\<lparr>cf_counter := (case meter_Int64Counter m ''dynago.operations.total'' of Inl _ \<Rightarrow> None | Inr c \<Rightarrow> Some c),
              cf_latency := (case meter_Float64Histogram m ''dynago.latency'' of Inl _ \<Rightarrow> None | Inr h \<Rightarrow> Some h)\<rparr>)"

subsection \<open>Instrumented calls\<close>

record ('s, 'm) instrumented =
  ot_state :: 's
  ot_tel :: 'm
  ot_reads :: nat

definition otel_attrs :: "string \<Rightarrow> string \<Rightarrow> attrs" where
  "otel_attrs operation tbl =
     [(''db.system'', ''dynamodb''), (''db.operation'', operation)] @ (if tbl \<noteq> [] then [(''db.name'', tbl)] else [])"

definition instrument :: "('m, 'sp) config \<Rightarrow> string \<Rightarrow> string \<Rightarrow> 'm \<Rightarrow> 'sp option \<times> 'm" where
  "instrument cfg operation tbl m =
     (case cf_tracer cfg of
        None \<Rightarrow> (None, m)
      | Some tr \<Rightarrow> map_prod Some id (tracer_Start tr operation (otel_attrs operation tbl) m))"

text \<open>\<open>Milliseconds\<close> of a duration cuts towards zero.\<close>

definition Milliseconds :: "int \<Rightarrow> int" where
  "Milliseconds d = (if d < 0 then - (- d div 1000000) else d div 1000000)"

text \<open>The callback \<open>instrument\<close> returns.\<close>

definition instrument_done :: "('m, 'sp) config \<Rightarrow> string \<Rightarrow> string \<Rightarrow> 'sp option \<Rightarrow> int \<Rightarrow> error option \<Rightarrow> 'm \<Rightarrow> 'm" where
  "instrument_done cfg operation tbl handle dur err m =
     (let elapsed = f64_of_int (Milliseconds dur); as = otel_attrs operation tbl;
          m1 = (case (cf_tracer cfg, handle) of
                  (Some tr, Some sp) \<Rightarrow> span_End tr sp (case err of None \<Rightarrow> m | Some e \<Rightarrow> span_RecordError tr sp e m)
                | _ \<Rightarrow> m);
          m2 = (case cf_counter cfg of None \<Rightarrow> m1 | Some add \<Rightarrow> add 1 as m1)
      in case cf_latency cfg of None \<Rightarrow> m2 | Some rec \<Rightarrow> rec elapsed as m2)"

text \<open>The callback is not deferred: a call that panics leaves its span open and is not counted.\<close>

definition otel_call :: "('m, 'sp) config \<Rightarrow> (nat \<Rightarrow> int) \<Rightarrow> string \<Rightarrow> string \<Rightarrow> ('s, 'a) op \<Rightarrow> (('s, 'm) instrumented, 'a) op" where
  "otel_call cfg clock operation tbl f o1 =
     (let (handle, m) = instrument cfg operation tbl (ot_tel o1);
          start = clock (ot_reads o1);
          (r, s') = f (ot_state o1)
      in if panics r then (r, \<lparr>ot_state = s', ot_tel = m, ot_reads = ot_reads o1 + 1\<rparr>)
         else let dur = clock (Suc (ot_reads o1)) - start in
           (r, \<lparr>ot_state = s', ot_tel = instrument_done cfg operation tbl handle dur (error_of r) m, ot_reads = ot_reads o1 + 2\<rparr>))"

definition otelBackend :: "('m, 'sp) config \<Rightarrow> (nat \<Rightarrow> int) \<Rightarrow> 's Backend \<Rightarrow> ('s, 'm) instrumented Backend" where
  "otelBackend cfg clock inner =
     \<lparr>be_GetItem = (\<lambda>req. otel_call cfg clock ''GetItem'' (gi_TableName req) (be_GetItem inner req)),
      be_PutItem = (\<lambda>req. otel_call cfg clock ''PutItem'' (pi_TableName req) (be_PutItem inner req)),
      be_DeleteItem = (\<lambda>req. otel_call cfg clock ''DeleteItem'' (di_TableName req) (be_DeleteItem inner req)),
      be_UpdateItem = (\<lambda>req. otel_call cfg clock ''UpdateItem'' (ui_TableName req) (be_UpdateItem inner req)),
      be_Query = (\<lambda>req. otel_call cfg clock ''Query'' (q_TableName req) (be_Query inner req)),
      be_Scan = (\<lambda>req. otel_call cfg clock ''Scan'' (s_TableName req) (be_Scan inner req)),
      be_BatchGetItem = (\<lambda>req. otel_call cfg clock ''BatchGetItem'' [] (be_BatchGetItem inner req)),
      be_BatchWriteItem = (\<lambda>req. otel_call cfg clock ''BatchWriteItem'' [] (be_BatchWriteItem inner req)),
      be_TransactGetItems = (\<lambda>req. otel_call cfg clock ''TransactGetItems'' [] (be_TransactGetItems inner req)),
      be_TransactWriteItems = (\<lambda>req. otel_call cfg clock ''TransactWriteItems'' [] (be_TransactWriteItems inner req))\<rparr>"

definition NewMiddleware :: "(nat \<Rightarrow> int) \<Rightarrow> (('m, 'sp) config \<Rightarrow> ('m, 'sp) config) list \<Rightarrow> 's Backend \<Rightarrow> ('s, 'm) instrumented Backend" where
  "NewMiddleware clock opts inner = otelBackend (otel_config opts) clock inner"

subsection \<open>Transparency\<close>

lemma otel_call_runs: "runs_as ot_state (otel_call cfg clock operation tbl f) f"
  by (simp add: runs_as_def otel_call_def Let_def map_prod_def split: prod.split)

interpretation ot: backend_wrapper ot_state "otelBackend cfg clock be" be
  by unfold_locales (simp_all add: otelBackend_def otel_call_runs)

lemma giving_otel: "giving f (otel_call cfg clock operation tbl m) = otel_call cfg clock operation tbl (giving f m)"
  by (auto simp: fun_eq_iff giving_def otel_call_def sbind_def Let_def error_of_def panics_def split: prod.splits sum.splits)

lemma invoke_otel:
  "invoke (otelBackend cfg clock be) c = otel_call cfg clock (fst (call_label c)) (snd (call_label c)) (invoke be c)"
  by (cases c) (simp_all add: invoke_def otelBackend_def call_label_def giving_otel)

subsection \<open>A recorder\<close>

text \<open>Telemetry that remembers: the spans with their errors and whether they ended, and what the counter was given.\<close>

record recorded =
  rd_spans :: "(string \<times> attrs \<times> error list \<times> bool) list"
  rd_counts :: "(string \<times> int \<times> attrs) list"

definition recording_tracer :: "(recorded, nat) Tracer" where
  "recording_tracer =
     \<lparr>tracer_Start = (\<lambda>n as m. (length (rd_spans m), m\<lparr>rd_spans := rd_spans m @ [(n, as, [], False)]\<rparr>)),
      span_RecordError = (\<lambda>i e m. m\<lparr>rd_spans := (rd_spans m)[i := (case rd_spans m ! i of (n, as, es, d) \<Rightarrow> (n, as, es @ [e], d))]\<rparr>),
      span_End = (\<lambda>i m. m\<lparr>rd_spans := (rd_spans m)[i := (case rd_spans m ! i of (n, as, es, _) \<Rightarrow> (n, as, es, True))]\<rparr>)\<rparr>"

definition recording_meter :: "recorded Meter" where
  "recording_meter =
     \<lparr>meter_Int64Counter = (\<lambda>n. Inr (\<lambda>i as m. m\<lparr>rd_counts := rd_counts m @ [(n, i, as)]\<rparr>)),
      meter_Float64Histogram = (\<lambda>n. Inl (Errorf n))\<rparr>"

definition recorded_span :: "call \<Rightarrow> response result \<Rightarrow> string \<times> attrs \<times> error list \<times> bool" where
  "recorded_span c r = (fst (call_label c), otel_attrs (fst (call_label c)) (snd (call_label c)),
     (case error_of r of None \<Rightarrow> [] | Some e \<Rightarrow> if is_panic e then [] else [e]), \<not> panics r)"

lemma recording_config:
  "otel_config [WithTracer recording_tracer, WithMeter recording_meter] =
     \<lparr>cf_tracer = Some recording_tracer, cf_meter = Some recording_meter,
      cf_counter = Some (\<lambda>i as m. m\<lparr>rd_counts := rd_counts m @ [(''dynago.operations.total'', i, as)]\<rparr>), cf_latency = None\<rparr>"
  by (simp add: otel_config_def WithTracer_def WithMeter_def recording_meter_def)

definition recorded_count :: "call \<Rightarrow> string \<times> int \<times> attrs" where
  "recorded_count c = (''dynago.operations.total'', 1, otel_attrs (fst (call_label c)) (snd (call_label c)))"

lemma recorded_call:
  "rd_spans (ot_tel (snd (otel_call (otel_config [WithTracer recording_tracer, WithMeter recording_meter]) clock
      (fst (call_label c)) (snd (call_label c)) f t))) = rd_spans (ot_tel t) @ [recorded_span c (fst (f (ot_state t)))]"
  "rd_counts (ot_tel (snd (otel_call (otel_config [WithTracer recording_tracer, WithMeter recording_meter]) clock
      (fst (call_label c)) (snd (call_label c)) f t))) =
    rd_counts (ot_tel t) @ (if panics (fst (f (ot_state t))) then [] else [recorded_count c])"
  unfolding recording_config
  by (cases "f (ot_state t)"; cases "fst (f (ot_state t))";
      simp add: otel_call_def instrument_def instrument_done_def recording_tracer_def recorded_span_def recorded_count_def
        panics_def error_of_def list_update_append Let_def)+

lemma recorded_run:
  "rd_spans (ot_tel (snd (invoke_all (NewMiddleware clock [WithTracer recording_tracer, WithMeter recording_meter] be) cs t))) =
     rd_spans (ot_tel t) @ map2 recorded_span cs (fst (invoke_all be cs (ot_state t))) \<and>
   rd_counts (ot_tel (snd (invoke_all (NewMiddleware clock [WithTracer recording_tracer, WithMeter recording_meter] be) cs t))) =
     rd_counts (ot_tel t) @
     map (\<lambda>(c, r). recorded_count c) (filter (\<lambda>(c, r). \<not> panics r) (zip cs (fst (invoke_all be cs (ot_state t)))))"
proof (induction cs arbitrary: t)
  case (Cons c cs)
  let ?mw = "NewMiddleware clock [WithTracer recording_tracer, WithMeter recording_meter] be"
  obtain r t1 where c: "invoke ?mw c t = (r, t1)" by (cases "invoke ?mw c t")
  have call: "invoke ?mw c = otel_call (otel_config [WithTracer recording_tracer, WithMeter recording_meter]) clock
      (fst (call_label c)) (snd (call_label c)) (invoke be c)"
    by (simp add: NewMiddleware_def invoke_otel)
  have inner: "invoke be c (ot_state t) = (r, ot_state t1)"
    using ot.invoke_runs [of "otel_config [WithTracer recording_tracer, WithMeter recording_meter]" clock be c] c
    by (metis NewMiddleware_def runs_as_def map_prod_simp id_apply)
  have "rd_spans (ot_tel t1) = rd_spans (ot_tel t) @ [recorded_span c r]"
    "rd_counts (ot_tel t1) = rd_counts (ot_tel t) @ (if panics r then [] else [recorded_count c])"
    using recorded_call [of clock c "invoke be c" t] inner c by (simp_all flip: call)
  with Cons.IH [of t1] c inner show ?case by (simp add: case_prod_beta)
qed simp

end
