(* ===== verification/Dynagotest.thy ===== *)
theory Dynagotest
  imports QueryClient Client
begin

text \<open>
  The test helpers (\<open>dynagotest/seed.go\<close>, \<open>dynagotest/assert.go\<close>).  JSON is the tree \<open>encoding/json\<close> sees: reading a
  file and parsing its text are the parameter \<open>read_file\<close>, and a \<open>json.RawMessage\<close> is a subtree.  Where the code
  ranges over a map the model visits the entries in the order of the text, which matters only for which of
  several errors is returned.
\<close>

datatype json =
    JNull
  | JBool bool
  | JNumber string
  | JString string
  | JArray "json list"
  | JObject "(string \<times> json) list"

subsection \<open>What json.Unmarshal gives for the types it is called with\<close>

text \<open>Of entries with the same name the last one stays; null leaves the zero value.\<close>

fun last_entries :: "(string \<times> json) list \<Rightarrow> (string \<times> json) list" where
  "last_entries [] = []"
| "last_entries ((k, j) # es) = (if k \<in> set (map fst es) then last_entries es else (k, j) # last_entries es)"

definition json_type :: "'a result" where
  "json_type = Inl (Errorf ''json: cannot unmarshal into Go value'')"

fun as_object :: "json \<Rightarrow> (string \<times> json) list result" where
  "as_object (JObject es) = Inr (last_entries es)"
| "as_object JNull = Inr []"
| "as_object _ = json_type"

fun as_array :: "json \<Rightarrow> json list result" where
  "as_array (JArray js) = Inr js"
| "as_array JNull = Inr []"
| "as_array _ = json_type"

fun as_string :: "json \<Rightarrow> string result" where
  "as_string (JString s) = Inr s"
| "as_string JNull = Inr []"
| "as_string _ = json_type"

fun as_bool :: "json \<Rightarrow> bool result" where
  "as_bool (JBool b) = Inr b"
| "as_bool JNull = Inr False"
| "as_bool _ = json_type"

fun each :: "('a \<Rightarrow> 'b result) \<Rightarrow> 'a list \<Rightarrow> 'b list result" where
  "each f [] = Inr []"
| "each f (x # xs) = bind (f x) (\<lambda>y. bind (each f xs) (\<lambda>ys. Inr (y # ys)))"

definition as_strings :: "json \<Rightarrow> string list result" where
  "as_strings j = bind (as_array j) (each as_string)"

subsection \<open>DynamoDB JSON\<close>

text \<open>One value below its type descriptor, the elements of a list, and the attributes of an item.\<close>

lemma last_entries_size: "size_list (size_prod (\<lambda>_. 0) size) (last_entries es) \<le> size_list (size_prod (\<lambda>_. 0) size) es"
  proof (induction es)
  case (Cons e es)
  then show ?case by (cases e; cases "fst e \<in> set (map fst es)") simp_all
qed simp

lemma as_object_size: "as_object j = Inr es \<Longrightarrow> size_list (size_prod (\<lambda>_. 0) size) es \<le> size j"
  using last_entries_size by (cases j) (auto simp: json_type_def le_SucI)

lemma as_object_value: "as_object j = Inr [(k, v)] \<Longrightarrow> size v < size j"
  using as_object_size [of j "[(k, v)]"] by simp

lemma as_array_size: "as_array j = Inr js \<Longrightarrow> size_list size js \<le> size j"
  by (cases j) (auto simp: json_type_def)

function (sequential) parseDynamoDBValue :: "json \<Rightarrow> AttributeValue result"
and parse_typed :: "string \<Rightarrow> json \<Rightarrow> AttributeValue result"
and parse_list :: "json list \<Rightarrow> AttributeValue list result"
and parseDynamoDBJSON :: "(string \<times> json) list \<Rightarrow> item result"
where
  "parseDynamoDBValue raw =
     bind (on_error (ErrorfW ''expected type descriptor object'') (as_object raw)) (\<lambda>wrapper.
       case wrapper of
         [(typKey, typVal)] \<Rightarrow> parse_typed typKey typVal
       | _ \<Rightarrow> Inl (Errorf ''expected exactly one type key''))"
| "parse_typed typKey typVal =
     (if typKey = ''S'' then bind (as_string typVal) (\<lambda>s. Inr (TypeS s))
      else if typKey = ''N'' then
        bind (as_string typVal) (\<lambda>s.
          case ParseFloat s of None \<Rightarrow> Inl (ErrorfW ''invalid number'' (Errorf s)) | Some _ \<Rightarrow> Inr (TypeN s))
      else if typKey = ''BOOL'' then bind (as_bool typVal) (\<lambda>b. Inr (TypeBOOL b))
      else if typKey = ''NULL'' then Inr (TypeNULL True)
      else if typKey = ''L'' then bind (as_array typVal) (\<lambda>js. bind (parse_list js) (\<lambda>avs. Inr (TypeL avs)))
      else if typKey = ''M'' then bind (as_object typVal) (\<lambda>m. bind (parseDynamoDBJSON m) (\<lambda>r. Inr (TypeM r)))
      else if typKey = ''SS'' then bind (as_strings typVal) (\<lambda>ss. Inr (TypeSS ss))
      else if typKey = ''NS'' then bind (as_strings typVal) (\<lambda>ns. Inr (TypeNS ns))
      else Inl (Errorf ''unknown type descriptor''))"
| "parse_list [] = Inr []"
| "parse_list (j # js) =
     bind (on_error (ErrorfW ''list'') (parseDynamoDBValue j)) (\<lambda>av. bind (parse_list js) (\<lambda>avs. Inr (av # avs)))"
| "parseDynamoDBJSON [] = Inr fmempty"
| "parseDynamoDBJSON ((k, j) # es) =
     bind (on_error (ErrorfW ''attribute'') (parseDynamoDBValue j)) (\<lambda>av.
       bind (parseDynamoDBJSON es) (\<lambda>r. Inr (fmupd k av r)))"
  by pat_completeness auto
termination
  by (relation "measure (case_sum (case_sum (\<lambda>j. 3 * size j) (\<lambda>(k, j). 3 * size j + 2))
      (case_sum (\<lambda>js. 3 * size_list size js + 1) (\<lambda>es. 3 * size_list (size_prod (\<lambda>_. 0) size) es + 1)))")
    (auto simp: on_error_Inr dest: as_object_value as_object_size as_array_size)


declare parseDynamoDBValue.simps [simp del]

subsection \<open>Seeding\<close>

text \<open>\<open>fmt.Errorf\<close> with the index of the item; the seed stops at the first item that fails.\<close>

fun seed_items :: "('a \<Rightarrow> ('s, unit) op) \<Rightarrow> string \<Rightarrow> 'a list \<Rightarrow> nat \<Rightarrow> ('s, unit) op" where
  "seed_items put msg [] i s = (Inr (), s)"
| "seed_items put msg (x # xs) i s =
     (case put x s of
        (Inl e, s') \<Rightarrow> (on_error (ErrorfW (msg @ '': item '' @ show_nat i)) (Inl e), s')
      | (Inr _, s') \<Rightarrow> seed_items put msg xs (Suc i) s')"

definition Seed :: "methods \<Rightarrow> entities \<Rightarrow> 's Table \<Rightarrow> (gotype \<times> goval) option list \<Rightarrow> ('s, unit) op" where
  "Seed ms ents t items = seed_items (\<lambda>x. Table_Put ms ents t x []) ''dynagotest.Seed'' items 0"

definition put_raw :: "'s Table \<Rightarrow> (string \<times> json) list \<Rightarrow> ('s, unit) op" where
  "put_raw t raw =
     sbind (sreturn (parseDynamoDBJSON raw)) (\<lambda>it.
       be_PutItem (tb_backend t)
         \<lparr>pi_TableName = tb_name t, pi_Item = it, pi_ConditionExpression = [], pi_Names = fmempty, pi_Values = fmempty,
          pi_ReturnValues = []\<rparr>)"

definition SeedFromJSON :: "(string \<Rightarrow> json result) \<Rightarrow> 's Table \<Rightarrow> string \<Rightarrow> ('s, unit) op" where
  "SeedFromJSON read_file t path =
     sbind (sreturn (on_error (ErrorfW ''dynagotest.SeedFromJSON'')
       (bind (read_file path) (\<lambda>j. bind (as_array j) (each as_object))))) (\<lambda>rawItems.
         seed_items (put_raw t) ''dynagotest.SeedFromJSON'' rawItems 0)"

subsection \<open>Assertions\<close>

text \<open>
  A test that goes on has the texts its \<open>Errorf\<close> calls were given; \<open>Fatalf\<close> ends it with an error.
\<close>

record attrCheck =
  ac_name :: string
  ac_expected :: any

record assertConfig =
  attrChecks :: "attrCheck list"

definition HasAttribute :: "string \<Rightarrow> any \<Rightarrow> assertConfig \<Rightarrow> assertConfig" where
  "HasAttribute name v c = c\<lparr>attrChecks := attrChecks c @ [\<lparr>ac_name = name, ac_expected = v\<rparr>]\<rparr>"

fun anyToAV :: "any \<Rightarrow> AttributeValue" where
  "anyToAV (AnyString s) = TypeS s"
| "anyToAV (AnyInt k i) = (if k = KInt \<or> k = KInt64 then TypeN (show_int i) else ZeroAV)"
| "anyToAV (AnyFloat64 f) = TypeN (FormatFloat_g f)"
| "anyToAV (AnyBool b) = TypeBOOL b"
| "anyToAV (AnyAV v) = v"
| "anyToAV _ = ZeroAV"

fun avEqual :: "AttributeValue \<Rightarrow> AttributeValue \<Rightarrow> bool" where
  "avEqual (TypeS a) (TypeS b) = (a = b)"
| "avEqual (TypeN a) (TypeN b) = (a = b)"
| "avEqual (TypeBOOL a) (TypeBOOL b) = (a = b)"
| "avEqual (TypeNULL a) (TypeNULL b) = True"
| "avEqual _ _ = False"

definition check_attribute :: "item \<Rightarrow> attrCheck \<Rightarrow> string option" where
  "check_attribute it c =
     (case fmlookup it (ac_name c) of
        None \<Rightarrow> Some ''AssertItemExists: attribute not found in item''
      | Some av \<Rightarrow> if avEqual av (anyToAV (ac_expected c)) then None else Some ''AssertItemExists: attribute differs'')"

definition key_request :: "'s Table \<Rightarrow> KeyValue \<Rightarrow> GetItemRequest" where
  "key_request t key =
     \<lparr>gi_TableName = tb_name t, gi_Key = KeyValue_Map key, gi_ConsistentRead = False, gi_ProjectionExpression = [],
      gi_Names = fmempty\<rparr>"

definition AssertItemExists :: "'s Table \<Rightarrow> KeyValue \<Rightarrow> (assertConfig \<Rightarrow> assertConfig) list \<Rightarrow> ('s, string list) op" where
  "AssertItemExists t key opts s =
     (case be_GetItem (tb_backend t) (key_request t key) s of
        (Inl e, s') \<Rightarrow> (on_error (ErrorfW ''AssertItemExists: GetItem failed'') (Inl e), s')
      | (Inr None, s') \<Rightarrow> (Inl (Errorf ''AssertItemExists: item not found for key''), s')
      | (Inr (Some it), s') \<Rightarrow>
          if it = fmempty then (Inl (Errorf ''AssertItemExists: item not found for key''), s')
          else (Inr (List.map_filter (check_attribute it) (attrChecks (fold (\<lambda>opt c. opt c) opts \<lparr>attrChecks = []\<rparr>))), s'))"

definition AssertItemNotExists :: "'s Table \<Rightarrow> KeyValue \<Rightarrow> ('s, string list) op" where
  "AssertItemNotExists t key s =
     (case be_GetItem (tb_backend t) (key_request t key) s of
        (Inl e, s') \<Rightarrow> (on_error (ErrorfW ''AssertItemNotExists: GetItem failed'') (Inl e), s')
      | (Inr None, s') \<Rightarrow> (Inr [], s')
      | (Inr (Some it), s') \<Rightarrow>
          if it = fmempty then (Inr [], s') else (Inl (Errorf ''AssertItemNotExists: item unexpectedly found for key''), s'))"

definition countItem :: gotype where
  "countItem = GNamed ''countItem'' (GStruct [])"

definition AssertCount :: "nat \<Rightarrow> methods \<Rightarrow> 's Table \<Rightarrow> KeyCondition \<Rightarrow> int \<Rightarrow> ('s, string list) op" where
  "AssertCount fuel ms t key n s =
     (case Query_T fuel ms countItem t key [] s of
        (Inl e, s') \<Rightarrow> (on_error (ErrorfW ''AssertCount: Query failed'') (Inl e), s')
      | (Inr results, s') \<Rightarrow>
          if int (length results) \<noteq> n then (Inl (Errorf ''AssertCount: wrong number of items''), s') else (Inr [], s'))"

text \<open>A list, a set or binary data differs from itself.\<close>

lemma avEqual_collections:
  "\<not> avEqual (TypeL l) (TypeL l)" "\<not> avEqual (TypeM m) (TypeM m)" "\<not> avEqual (TypeSS ss) (TypeSS ss)" "\<not> avEqual (TypeB b) (TypeB b)"
  by simp_all

subsection \<open>Reading DynamoDB JSON\<close>

text \<open>
  \<open>denotes j v\<close>: \<open>j\<close> is DynamoDB JSON for \<open>v\<close>, a type descriptor above the value.  Numbers are decimal texts;
  binary data and binary sets have no descriptor here.
\<close>

inductive denotes :: "json \<Rightarrow> AttributeValue \<Rightarrow> bool" where
  S: "denotes (JObject [(''S'', JString s)]) (TypeS s)"
| N: "ParseFloat n \<noteq> None \<Longrightarrow> denotes (JObject [(''N'', JString n)]) (TypeN n)"
| BOOL: "denotes (JObject [(''BOOL'', JBool b)]) (TypeBOOL b)"
| NULL: "denotes (JObject [(''NULL'', JBool True)]) (TypeNULL True)"
| L: "list_all2 denotes js vs \<Longrightarrow> denotes (JObject [(''L'', JArray js)]) (TypeL vs)"
| M: "list_all2 (rel_prod (=) denotes) es vs \<Longrightarrow> distinct (map fst es) \<Longrightarrow>
    denotes (JObject [(''M'', JObject es)]) (TypeM (fmap_of_list vs))"
| SS: "denotes (JObject [(''SS'', JArray (map JString ss))]) (TypeSS ss)"
| NS: "denotes (JObject [(''NS'', JArray (map JString ns))]) (TypeNS ns)"

lemma last_entries_distinct: "distinct (map fst es) \<Longrightarrow> last_entries es = es"
  by (induction es rule: last_entries.induct) auto

lemma each_strings: "each as_string (map JString ss) = Inr ss"
  by (induction ss) simp_all

lemma parse_list_denotes:
  "list_all2 (\<lambda>j v. parseDynamoDBValue j = Inr v) js vs \<Longrightarrow> parse_list js = Inr vs"
  by (induction rule: list_all2_induct) (simp_all add: on_error_def)

lemma parse_entries_denotes:
  "list_all2 (rel_prod (=) (\<lambda>j v. parseDynamoDBValue j = Inr v)) es vs \<Longrightarrow> parseDynamoDBJSON es = Inr (fmap_of_list vs)"
  by (induction rule: list_all2_induct) (auto simp: on_error_def rel_prod.simps)

lemma read_denoted: "denotes j v \<Longrightarrow> parseDynamoDBValue j = Inr v"
proof (induction rule: denotes.induct)
  case (L js vs)
  then have "list_all2 (\<lambda>j v. parseDynamoDBValue j = Inr v) js vs" by (auto elim: list_all2_mono)
  then show ?case by (simp add: parseDynamoDBValue.simps on_error_def parse_list_denotes)
next
  case (M es vs)
  then have "list_all2 (rel_prod (=) (\<lambda>j v. parseDynamoDBValue j = Inr v)) es vs"
    by (auto elim!: list_all2_mono simp: rel_prod.simps)
  with M(2) show ?case by (simp add: parseDynamoDBValue.simps on_error_def parse_entries_denotes last_entries_distinct)
qed (auto simp: parseDynamoDBValue.simps on_error_def as_strings_def each_strings)


subsection \<open>What is seeded is stored\<close>

context item_backend begin

lemma put_raw_stores:
  assumes "tb_backend t = be" "put_raw t raw s = (Inr (), s')" "parseDynamoDBJSON raw = Inr it"
  obtains k where "key_in s (tb_name t) it = Inr k" "key_in s' = key_in s"
    and "\<And>j. stored s' (tb_name t) j = (if j = k then Some it else stored s (tb_name t) j)"
proof -
  from assms have "be_PutItem be \<lparr>pi_TableName = tb_name t, pi_Item = it, pi_ConditionExpression = [], pi_Names = fmempty,
      pi_Values = fmempty, pi_ReturnValues = []\<rparr> s = (Inr (), s')"
    by (simp add: put_raw_def)
  from put [OF this] that show thesis by auto
qed

lemma seed_stores:
  assumes t: "tb_backend t = be" and "seed_items (put_raw t) msg raws i s = (Inr (), s')"
    and "list_all2 (\<lambda>raw it. parseDynamoDBJSON raw = Inr it) raws its" "distinct (map (key_in s (tb_name t)) its)"
  shows "(\<forall>it \<in> set its. \<exists>k. key_in s (tb_name t) it = Inr k \<and> stored s' (tb_name t) k = Some it) \<and>
    (\<forall>k. (\<forall>it \<in> set its. key_in s (tb_name t) it \<noteq> Inr k) \<longrightarrow> stored s' (tb_name t) k = stored s (tb_name t) k)"
  using assms(2-4)
proof (induction raws arbitrary: i s its)
  case (Cons raw raws)
  from Cons.prems(2) obtain it its' where its: "its = it # its'" "parseDynamoDBJSON raw = Inr it"
    "list_all2 (\<lambda>raw it. parseDynamoDBJSON raw = Inr it) raws its'"
    by (auto simp: list_all2_Cons1)
  from Cons.prems(1) obtain s1 where s1: "put_raw t raw s = (Inr (), s1)" "seed_items (put_raw t) msg raws (Suc i) s1 = (Inr (), s')"
    by (auto simp: on_error_def split: prod.splits sum.splits)
  from put_raw_stores [OF t s1(1) its(2)] obtain k where k: "key_in s (tb_name t) it = Inr k" "key_in s1 = key_in s"
    "\<And>j. stored s1 (tb_name t) j = (if j = k then Some it else stored s (tb_name t) j)" by metis
  have dist: "distinct (map (key_in s1 (tb_name t)) its')" "\<forall>x \<in> set its'. key_in s (tb_name t) x \<noteq> Inr k"
    using Cons.prems(3) its(1) k(1,2) by (auto simp: image_iff)
  from Cons.IH [OF s1(2) its(3) dist(1)] k dist(2) its(1) show ?case by auto
qed simp

end

lemma each_Inr: "each f xs = Inr ys \<longleftrightarrow> list_all2 (\<lambda>x y. f x = Inr y) xs ys"
  by (induction xs arbitrary: ys) (auto simp: bind_Inr_iff list_all2_Cons1)

text \<open>A file of items in DynamoDB JSON: the objects and the items they are.\<close>

definition items_json :: "json \<Rightarrow> item list \<Rightarrow> bool" where
  "items_json j its \<longleftrightarrow> (\<exists>ess. j = JArray (map JObject ess) \<and>
     list_all2 (\<lambda>es it. distinct (map fst es) \<and> (\<exists>vs. list_all2 (rel_prod (=) denotes) es vs \<and> it = fmap_of_list vs)) ess its)"

lemma items_json_parsed:
  assumes "items_json j its"
  shows "\<exists>raws. bind (as_array j) (each as_object) = Inr raws \<and> list_all2 (\<lambda>raw it. parseDynamoDBJSON raw = Inr it) raws its"
proof -
  from assms obtain ess where j: "j = JArray (map JObject ess)"
    and ess: "list_all2 (\<lambda>es it. distinct (map fst es) \<and> (\<exists>vs. list_all2 (rel_prod (=) denotes) es vs \<and> it = fmap_of_list vs)) ess its"
    by (auto simp: items_json_def)
  have "list_all2 (\<lambda>es it. last_entries es = es \<and> parseDynamoDBJSON es = Inr it) ess its"
    using ess
  proof (rule list_all2_mono)
    fix es :: "(string \<times> json) list" and it :: item
    assume "distinct (map fst es) \<and> (\<exists>vs. list_all2 (rel_prod (=) denotes) es vs \<and> it = fmap_of_list vs)"
    then obtain vs where vs: "distinct (map fst es)" "list_all2 (rel_prod (=) denotes) es vs" "it = fmap_of_list vs" by blast
    from vs(2) have "list_all2 (rel_prod (=) (\<lambda>j v. parseDynamoDBValue j = Inr v)) es vs"
      by (rule list_all2_mono) (auto simp: rel_prod.simps read_denoted)
    with vs show "last_entries es = es \<and> parseDynamoDBJSON es = Inr it"
      by (simp add: parse_entries_denotes last_entries_distinct)
  qed
  then have "list_all2 (\<lambda>x y. as_object x = Inr y) (map JObject ess) ess" "list_all2 (\<lambda>raw it. parseDynamoDBJSON raw = Inr it) ess its"
    by (auto simp: list_all2_conv_all_nth)
  with j show ?thesis by (auto simp: each_Inr)
qed

end
