(* ===== verification/SeedExamples.thy ===== *)
theory SeedExamples
  imports Dynagotest ClientExamples
begin

text \<open>A file with two items for the example table.\<close>

definition ex_object :: "string \<Rightarrow> string \<Rightarrow> (string \<times> json) list" where
  "ex_object sk g = [(''PK'', JObject [(''S'', JString ''a'')]), (''SK'', JObject [(''S'', JString sk)]), (''G'', JObject [(''S'', JString g)])]"

definition ex_json :: json where
  "ex_json = JArray [JObject (ex_object ''1'' ''x''), JObject (ex_object ''2'' ''y'')]"

lemma ex_object_item: "distinct (map fst (ex_object sk g)) \<and>
    (\<exists>vs. list_all2 (rel_prod (=) denotes) (ex_object sk g) vs \<and> ex_item sk g = fmap_of_list vs)"
  by (intro conjI exI [of _ "[(''PK'', TypeS ''a''), (''SK'', TypeS sk), (''G'', TypeS g)]"])
    (simp_all add: ex_object_def ex_item_def denotes.S)

lemma ex_items_json: "items_json ex_json [ex_item ''1'' ''x'', ex_item ''2'' ''y'']"
  unfolding items_json_def
  by (rule exI [of _ "[ex_object ''1'' ''x'', ex_object ''2'' ''y'']"]) (simp add: ex_json_def ex_object_item)

end
