(* ===== verification/Aws.thy ===== *)
theory Aws
  imports Backend
begin

text \<open>
  The backend on the AWS SDK (\<open>awsbackend/\<close>).  The SDK is not part of the repository: its value, input and output types are modelled by the
  fields the code uses, with \<open>None\<close> for a nil pointer or map, and the client (\<open>DynamoDBAPI\<close>) is a parameter, a record of
  operations on the state \<open>'s\<close> of the service.  Consumed capacity is left out, as in the other backends.
\<close>

subsection \<open>Values\<close>

text \<open>\<open>MemberOther\<close> is a nil interface or a member the code does not know.\<close>

datatype aws_value =
    MemberS string
  | MemberN string
  | MemberB bytes
  | MemberBOOL bool
  | MemberNULL bool
  | MemberL "aws_value list"
  | MemberM "(string, aws_value) fmap"
  | MemberSS "string list"
  | MemberNS "string list"
  | MemberBS "bytes list"
  | MemberOther

type_synonym aws_item = "(string, aws_value) fmap"

primrec toAWSAttributeValue :: "AttributeValue \<Rightarrow> aws_value" where
  "toAWSAttributeValue (TypeS s) = MemberS s"
| "toAWSAttributeValue (TypeN n) = MemberN n"
| "toAWSAttributeValue (TypeB b) = MemberB b"
| "toAWSAttributeValue (TypeBOOL b) = MemberBOOL b"
| "toAWSAttributeValue (TypeNULL b) = MemberNULL b"
| "toAWSAttributeValue (TypeL l) = MemberL (map toAWSAttributeValue l)"
| "toAWSAttributeValue (TypeM m) = MemberM (fmmap toAWSAttributeValue m)"
| "toAWSAttributeValue (TypeSS ss) = MemberSS ss"
| "toAWSAttributeValue (TypeNS ns) = MemberNS ns"
| "toAWSAttributeValue (TypeBS bs) = MemberBS bs"
| "toAWSAttributeValue ZeroAV = MemberNULL True"

primrec fromAWSAttributeValue :: "aws_value \<Rightarrow> AttributeValue" where
  "fromAWSAttributeValue (MemberS s) = TypeS s"
| "fromAWSAttributeValue (MemberN n) = TypeN n"
| "fromAWSAttributeValue (MemberB b) = TypeB b"
| "fromAWSAttributeValue (MemberBOOL b) = TypeBOOL b"
| "fromAWSAttributeValue (MemberNULL b) = TypeNULL b"
| "fromAWSAttributeValue (MemberL l) = TypeL (map fromAWSAttributeValue l)"
| "fromAWSAttributeValue (MemberM m) = TypeM (fmmap fromAWSAttributeValue m)"
| "fromAWSAttributeValue (MemberSS ss) = TypeSS ss"
| "fromAWSAttributeValue (MemberNS ns) = TypeNS ns"
| "fromAWSAttributeValue (MemberBS bs) = TypeBS bs"
| "fromAWSAttributeValue MemberOther = TypeNULL True"

definition toAWSItem :: "item \<Rightarrow> aws_item" where
  "toAWSItem = fmmap toAWSAttributeValue"

definition fromAWSItem :: "aws_item \<Rightarrow> item" where
  "fromAWSItem = fmmap fromAWSAttributeValue"

definition toAWSKey :: "item \<Rightarrow> aws_item" where
  "toAWSKey = toAWSItem"

text \<open>A nil item is converted to nil.\<close>

definition fromAWS_nil :: "aws_item option \<Rightarrow> item" where
  "fromAWS_nil x = (case x of None \<Rightarrow> fmempty | Some it \<Rightarrow> fromAWSItem it)"

subsection \<open>Errors\<close>

text \<open>The exceptions \<open>errors.As\<close> finds in the chain of an SDK error, and the error itself.\<close>

datatype aws_exception =
    ConditionalCheckFailedException
  | TransactionCanceledException "(string option \<times> string option) list"
  | ResourceNotFoundException

record aws_error =
  ae_chain :: "aws_exception list"
  ae_error :: error

definition cancel_reason :: "string option \<times> string option \<Rightarrow> TxCancelReason" where
  "cancel_reason cr =
     \<lparr>Code = (case fst cr of None \<Rightarrow> [] | Some c \<Rightarrow> c), Message = (case snd cr of None \<Rightarrow> [] | Some m \<Rightarrow> m)\<rparr>"

fun first_cancelled :: "aws_exception list \<Rightarrow> (string option \<times> string option) list option" where
  "first_cancelled [] = None"
| "first_cancelled (TransactionCanceledException crs # es) = Some crs"
| "first_cancelled (e # es) = first_cancelled es"

definition wrapAWSError :: "aws_error \<Rightarrow> error" where
  "wrapAWSError err =
     (if ConditionalCheckFailedException \<in> set (ae_chain err) then DynErr ErrConditionFailed (Some (ae_error err)) []
      else case first_cancelled (ae_chain err) of
        Some crs \<Rightarrow> TxCancelledError (map cancel_reason crs)
      | None \<Rightarrow>
          if ResourceNotFoundException \<in> set (ae_chain err) then DynErr ErrValidation (Some (ae_error err)) ''table not found''
          else if Contains (error_text (ae_error err)) ''ValidationException'' then DynErr ErrValidation (Some (ae_error err)) []
          else ae_error err)"

subsection \<open>Inputs and outputs\<close>

record GetItemInput =
  gin_TableName :: string
  gin_Key :: aws_item
  gin_ConsistentRead :: bool
  gin_ProjectionExpression :: "string option"
  gin_Names :: "names option"

record WriteItemInput =
  win_TableName :: string
  win_Item :: aws_item
  win_UpdateExpression :: "string option"
  win_ConditionExpression :: "string option"
  win_Names :: "names option"
  win_Values :: "aws_item option"
  win_ReturnValues :: "string option"

record PageInput =
  pin_TableName :: string
  pin_IndexName :: "string option"
  pin_KeyConditionExpression :: "string option"
  pin_FilterExpression :: "string option"
  pin_ProjectionExpression :: "string option"
  pin_Names :: "names option"
  pin_Values :: "aws_item option"
  pin_Limit :: "int32 option"
  pin_ScanIndexForward :: "bool option"
  pin_ExclusiveStartKey :: "aws_item option"
  pin_ConsistentRead :: "bool option"

record PageOutput =
  pout_Items :: "aws_item list"
  pout_Count :: int32
  pout_ScannedCount :: int32
  pout_LastEvaluatedKey :: "aws_item option"

record KeysAndAttributes =
  ka_Keys :: "aws_item list"
  ka_ProjectionExpression :: "string option"
  ka_Names :: "names option"
  ka_ConsistentRead :: "bool option"

record BatchGetItemOutput =
  bgo_Responses :: "(string, aws_item list) fmap"
  bgo_UnprocessedKeys :: "(string, KeysAndAttributes) fmap"

record aws_WriteRequest =
  awr_PutRequest :: "aws_item option"
  awr_DeleteRequest :: "aws_item option"

record aws_Get =
  ag_TableName :: string
  ag_Key :: aws_item
  ag_ProjectionExpression :: "string option"
  ag_Names :: "names option"

text \<open>\<open>Put\<close>, \<open>Delete\<close>, \<open>Update\<close> and \<open>ConditionCheck\<close>: the item or key is the second field.\<close>

record aws_Write =
  aw_TableName :: string
  aw_Item :: aws_item
  aw_UpdateExpression :: "string option"
  aw_ConditionExpression :: "string option"
  aw_Names :: "names option"
  aw_Values :: "aws_item option"

record aws_TransactWriteItem =
  atw_Put :: "aws_Write option"
  atw_Delete :: "aws_Write option"
  atw_Update :: "aws_Write option"
  atw_ConditionCheck :: "aws_Write option"

type_synonym ('s, 'a) aws_op = "'s \<Rightarrow> (aws_error + 'a) \<times> 's"

text \<open>
  The client.  \<open>PutItem\<close>, \<open>DeleteItem\<close> and \<open>UpdateItem\<close> inputs share a record, as do \<open>Query\<close> and \<open>Scan\<close>; the fields an
  operation does not have are \<open>None\<close>.  Requests that are maps are listed in the order they are visited.
\<close>

record 's DynamoDBAPI =
  api_GetItem :: "GetItemInput \<Rightarrow> ('s, aws_item option) aws_op"
  api_PutItem :: "WriteItemInput \<Rightarrow> ('s, unit) aws_op"
  api_DeleteItem :: "WriteItemInput \<Rightarrow> ('s, unit) aws_op"
  api_UpdateItem :: "WriteItemInput \<Rightarrow> ('s, aws_item option) aws_op"
  api_Query :: "PageInput \<Rightarrow> ('s, PageOutput) aws_op"
  api_Scan :: "PageInput \<Rightarrow> ('s, PageOutput) aws_op"
  api_BatchGetItem :: "(string \<times> KeysAndAttributes) list \<Rightarrow> ('s, BatchGetItemOutput) aws_op"
  api_BatchWriteItem :: "(string \<times> aws_WriteRequest list) list \<Rightarrow> ('s, (string, aws_WriteRequest list) fmap) aws_op"
  api_TransactGetItems :: "aws_Get list \<Rightarrow> ('s, aws_item option list) aws_op"
  api_TransactWriteItems :: "aws_TransactWriteItem list \<Rightarrow> ('s, unit) aws_op"

subsection \<open>The operations\<close>

text \<open>A field is set where the request has something for it.\<close>

definition set_text :: "string \<Rightarrow> string option" where
  "set_text s = (if s \<noteq> [] then Some s else None)"

definition set_names :: "names \<Rightarrow> names option" where
  "set_names nm = (if nm \<noteq> fmempty then Some nm else None)"

definition set_item :: "item \<Rightarrow> aws_item option" where
  "set_item it = (if it \<noteq> fmempty then Some (toAWSItem it) else None)"

definition set_true :: "bool \<Rightarrow> bool option" where
  "set_true b = (if b then Some True else None)"

text \<open>The call and what is made of its output.\<close>

definition aws_call :: "('s, 'a) aws_op \<Rightarrow> ('a \<Rightarrow> 'b) \<Rightarrow> ('s, 'b) op" where
  "aws_call m f s = (case m s of (Inl e, s') \<Rightarrow> (Inl (wrapAWSError e), s') | (Inr x, s') \<Rightarrow> (Inr (f x), s'))"

definition aws_GetItem :: "'s DynamoDBAPI \<Rightarrow> GetItemRequest \<Rightarrow> ('s, item option) op" where
  "aws_GetItem client req =
     aws_call (api_GetItem client
       \<lparr>gin_TableName = gi_TableName req, gin_Key = toAWSKey (gi_Key req), gin_ConsistentRead = gi_ConsistentRead req,
        gin_ProjectionExpression = set_text (gi_ProjectionExpression req), gin_Names = set_names (gi_Names req)\<rparr>)
       (map_option fromAWSItem)"

definition aws_PutItem :: "'s DynamoDBAPI \<Rightarrow> PutItemRequest \<Rightarrow> ('s, unit) op" where
  "aws_PutItem client req =
     aws_call (api_PutItem client
       \<lparr>win_TableName = pi_TableName req, win_Item = toAWSItem (pi_Item req), win_UpdateExpression = None,
        win_ConditionExpression = set_text (pi_ConditionExpression req), win_Names = set_names (pi_Names req),
        win_Values = set_item (pi_Values req), win_ReturnValues = set_text (pi_ReturnValues req)\<rparr>) id"

definition aws_DeleteItem :: "'s DynamoDBAPI \<Rightarrow> DeleteItemRequest \<Rightarrow> ('s, unit) op" where
  "aws_DeleteItem client req =
     aws_call (api_DeleteItem client
       \<lparr>win_TableName = di_TableName req, win_Item = toAWSKey (di_Key req), win_UpdateExpression = None,
        win_ConditionExpression = set_text (di_ConditionExpression req), win_Names = set_names (di_Names req),
        win_Values = set_item (di_Values req), win_ReturnValues = set_text (di_ReturnValues req)\<rparr>) id"

definition aws_UpdateItem :: "'s DynamoDBAPI \<Rightarrow> UpdateItemRequest \<Rightarrow> ('s, item option) op" where
  "aws_UpdateItem client req =
     aws_call (api_UpdateItem client
       \<lparr>win_TableName = ui_TableName req, win_Item = toAWSKey (ui_Key req),
        win_UpdateExpression = set_text (ui_UpdateExpression req),
        win_ConditionExpression = set_text (ui_ConditionExpression req), win_Names = set_names (ui_Names req),
        win_Values = set_item (ui_Values req), win_ReturnValues = set_text (ui_ReturnValues req)\<rparr>)
       (map_option fromAWSItem)"

definition page_response :: "PageOutput \<Rightarrow> PageResponse" where
  "page_response out =
     \<lparr>r_Items = map fromAWSItem (pout_Items out), r_Count = pout_Count out, r_ScannedCount = pout_ScannedCount out,
      r_LastEvaluatedKey = fromAWS_nil (pout_LastEvaluatedKey out)\<rparr>"

definition aws_Query :: "'s DynamoDBAPI \<Rightarrow> QueryRequest \<Rightarrow> ('s, PageResponse) op" where
  "aws_Query client req =
     aws_call (api_Query client
       \<lparr>pin_TableName = q_TableName req, pin_IndexName = set_text (q_IndexName req),
        pin_KeyConditionExpression = set_text (q_KeyConditionExpression req),
        pin_FilterExpression = set_text (q_FilterExpression req),
        pin_ProjectionExpression = set_text (q_ProjectionExpression req),
        pin_Names = set_names (q_Names req), pin_Values = set_item (q_Values req),
        pin_Limit = (if 0 < sint (q_Limit req) then Some (q_Limit req) else None),
        pin_ScanIndexForward = q_ScanIndexForward req, pin_ExclusiveStartKey = set_item (q_ExclusiveStartKey req),
        pin_ConsistentRead = set_true (q_ConsistentRead req)\<rparr>) page_response"

definition aws_Scan :: "'s DynamoDBAPI \<Rightarrow> ScanRequest \<Rightarrow> ('s, PageResponse) op" where
  "aws_Scan client req =
     aws_call (api_Scan client
       \<lparr>pin_TableName = s_TableName req, pin_IndexName = set_text (s_IndexName req), pin_KeyConditionExpression = None,
        pin_FilterExpression = set_text (s_FilterExpression req),
        pin_ProjectionExpression = set_text (s_ProjectionExpression req),
        pin_Names = set_names (s_Names req), pin_Values = set_item (s_Values req),
        pin_Limit = (if 0 < sint (s_Limit req) then Some (s_Limit req) else None),
        pin_ScanIndexForward = None, pin_ExclusiveStartKey = set_item (s_ExclusiveStartKey req),
        pin_ConsistentRead = set_true (s_ConsistentRead req)\<rparr>) page_response"

definition keys_and_attributes :: "KeysAndProjection \<Rightarrow> KeysAndAttributes" where
  "keys_and_attributes kp =
     \<lparr>ka_Keys = map toAWSKey (kp_Keys kp), ka_ProjectionExpression = set_text (kp_ProjectionExpression kp),
      ka_Names = set_names (kp_Names kp), ka_ConsistentRead = set_true (kp_ConsistentRead kp)\<rparr>"

definition keys_and_projection :: "KeysAndAttributes \<Rightarrow> KeysAndProjection" where
  "keys_and_projection ka =
     \<lparr>kp_Keys = map fromAWSItem (ka_Keys ka),
      kp_ProjectionExpression = (case ka_ProjectionExpression ka of None \<Rightarrow> [] | Some e \<Rightarrow> e),
      kp_Names = (case ka_Names ka of None \<Rightarrow> fmempty | Some nm \<Rightarrow> nm),
      kp_ConsistentRead = (case ka_ConsistentRead ka of None \<Rightarrow> False | Some b \<Rightarrow> b)\<rparr>"

definition aws_BatchGetItem :: "'s DynamoDBAPI \<Rightarrow> (string \<times> KeysAndProjection) list \<Rightarrow> ('s, BatchGetItemResponse) op" where
  "aws_BatchGetItem client reqs =
     aws_call (api_BatchGetItem client (map (\<lambda>(tbl, kp). (tbl, keys_and_attributes kp)) reqs)) (\<lambda>out.
       \<lparr>bg_Responses = fmmap (map fromAWSItem) (bgo_Responses out),
        bg_UnprocessedKeys = fmmap keys_and_projection (bgo_UnprocessedKeys out)\<rparr>)"

text \<open>A put is taken first, in both directions.\<close>

definition to_aws_write :: "WriteRequest \<Rightarrow> aws_WriteRequest" where
  "to_aws_write wr =
     (case wr_PutItem wr of
        Some it \<Rightarrow> \<lparr>awr_PutRequest = Some (toAWSItem it), awr_DeleteRequest = None\<rparr>
      | None \<Rightarrow> \<lparr>awr_PutRequest = None, awr_DeleteRequest = map_option toAWSKey (wr_DeleteItem wr)\<rparr>)"

definition from_aws_write :: "aws_WriteRequest \<Rightarrow> WriteRequest" where
  "from_aws_write wr =
     (case awr_PutRequest wr of
        Some it \<Rightarrow> \<lparr>wr_PutItem = Some (fromAWSItem it), wr_DeleteItem = None\<rparr>
      | None \<Rightarrow> \<lparr>wr_PutItem = None, wr_DeleteItem = map_option fromAWSItem (awr_DeleteRequest wr)\<rparr>)"

definition aws_BatchWriteItem :: "'s DynamoDBAPI \<Rightarrow> (string \<times> WriteRequest list) list \<Rightarrow> ('s, BatchWriteItemResponse) op" where
  "aws_BatchWriteItem client reqs =
     aws_call (api_BatchWriteItem client (map (\<lambda>(tbl, wrs). (tbl, map to_aws_write wrs)) reqs)) (\<lambda>out.
       \<lparr>bw_UnprocessedItems = fmmap (map from_aws_write) out\<rparr>)"

definition to_aws_get :: "TransactGetItem \<Rightarrow> aws_Get" where
  "to_aws_get tgi =
     \<lparr>ag_TableName = tg_TableName tgi, ag_Key = toAWSKey (tg_Key tgi),
      ag_ProjectionExpression = set_text (tg_ProjectionExpression tgi), ag_Names = set_names (tg_Names tgi)\<rparr>"

definition aws_TransactGetItems :: "'s DynamoDBAPI \<Rightarrow> TransactGetItem list \<Rightarrow> ('s, item option list) op" where
  "aws_TransactGetItems client tgis =
     aws_call (api_TransactGetItems client (map to_aws_get tgis)) (map (map_option fromAWSItem))"

definition to_aws_twi :: "TransactWriteItem \<Rightarrow> aws_TransactWriteItem" where
  "to_aws_twi twi =
     \<lparr>atw_Put = map_option (\<lambda>p. \<lparr>aw_TableName = tp_TableName p, aw_Item = toAWSItem (tp_Item p), aw_UpdateExpression = None,
        aw_ConditionExpression = set_text (tp_ConditionExpression p), aw_Names = set_names (tp_Names p),
        aw_Values = set_item (tp_Values p)\<rparr>) (tw_Put twi),
      atw_Delete = map_option (\<lambda>d. \<lparr>aw_TableName = tdel_TableName d, aw_Item = toAWSKey (tdel_Key d), aw_UpdateExpression = None,
        aw_ConditionExpression = set_text (tdel_ConditionExpression d), aw_Names = set_names (tdel_Names d),
        aw_Values = set_item (tdel_Values d)\<rparr>) (tw_Delete twi),
      atw_Update = map_option (\<lambda>u. \<lparr>aw_TableName = tu_TableName u, aw_Item = toAWSKey (tu_Key u),
        aw_UpdateExpression = set_text (tu_UpdateExpression u),
        aw_ConditionExpression = set_text (tu_ConditionExpression u), aw_Names = set_names (tu_Names u),
        aw_Values = set_item (tu_Values u)\<rparr>) (tw_Update twi),
      atw_ConditionCheck = map_option (\<lambda>c. \<lparr>aw_TableName = tc_TableName c, aw_Item = toAWSKey (tc_Key c), aw_UpdateExpression = None,
        aw_ConditionExpression = set_text (tc_ConditionExpression c), aw_Names = set_names (tc_Names c),
        aw_Values = set_item (tc_Values c)\<rparr>) (tw_ConditionCheck twi)\<rparr>"

definition aws_TransactWriteItems :: "'s DynamoDBAPI \<Rightarrow> TransactWriteItem list \<Rightarrow> ('s, unit) op" where
  "aws_TransactWriteItems client twis = aws_call (api_TransactWriteItems client (map to_aws_twi twis)) id"

definition NewAWSBackend :: "'s DynamoDBAPI \<Rightarrow> 's Backend" where
  "NewAWSBackend client =
     \<lparr>be_GetItem = aws_GetItem client, be_PutItem = aws_PutItem client, be_DeleteItem = aws_DeleteItem client,
      be_UpdateItem = aws_UpdateItem client, be_Query = aws_Query client, be_Scan = aws_Scan client,
      be_BatchGetItem = aws_BatchGetItem client, be_BatchWriteItem = aws_BatchWriteItem client,
      be_TransactGetItems = aws_TransactGetItems client, be_TransactWriteItems = aws_TransactWriteItems client\<rparr>"

end
