(* ===== verification/AwsWire.thy ===== *)
theory AwsWire
  imports Aws
begin

text \<open>
  The conversions of \<open>awsbackend/\<close> against their inverses.  A service that reads every input back, with the default for each
  absent field, and answers from a backend \<open>be\<close> stands for any client that gives the fields of the requests their
  documented meaning: behind it the AWS backend is \<open>be\<close>, up to the classification of the errors.
\<close>

subsection \<open>Values\<close>

text \<open>A value without the zero \<open>AttributeValue\<close>, which has no type and is sent as NULL.\<close>

primrec plain_av :: "AttributeValue \<Rightarrow> bool" where
  "plain_av (TypeS s) = True"
| "plain_av (TypeN n) = True"
| "plain_av (TypeB b) = True"
| "plain_av (TypeBOOL b) = True"
| "plain_av (TypeNULL b) = True"
| "plain_av (TypeL l) = list_all id (map plain_av l)"
| "plain_av (TypeM m) = (False |\<notin>| fmran (fmmap plain_av m))"
| "plain_av (TypeSS ss) = True"
| "plain_av (TypeNS ns) = True"
| "plain_av (TypeBS bs) = True"
| "plain_av ZeroAV = False"

definition plain_item :: "item \<Rightarrow> bool" where
  "plain_item it = (\<forall>k |\<in>| fmdom it. case fmlookup it k of None \<Rightarrow> True | Some v \<Rightarrow> plain_av v)"

lemma from_to_aws: "plain_av v \<Longrightarrow> fromAWSAttributeValue (toAWSAttributeValue v) = v"
proof (induction v)
  case (TypeL l)
  then show ?case by (auto simp: list_all_iff intro!: map_idI)
next
  case (TypeM m)
  have "fromAWSAttributeValue (toAWSAttributeValue v) = v" if v: "v \<in> fmran' m" for v
  proof (rule TypeM.IH [OF v])
    from v obtain k where "fmlookup m k = Some v" by (rule fmran'E)
    then have "plain_av v |\<in>| fmran (fmmap plain_av m)" by (intro fmranI [of _ k]) simp
    with TypeM.prems show "plain_av v" by auto
  qed
  then show ?case by (simp add: fmap.map_comp fmmap_ident)
qed simp_all

lemma from_to_item: "plain_item it \<Longrightarrow> fromAWSItem (toAWSItem it) = it"
proof -
  assume p: "plain_item it"
  have "fromAWSAttributeValue (toAWSAttributeValue v) = v" if "v \<in> fmran' it" for v
  proof (rule from_to_aws)
    from that obtain k where k: "fmlookup it k = Some v" by (rule fmran'E)
    then have "k |\<in>| fmdom it" by (rule fmdomI)
    with p k show "plain_av v" by (auto simp: plain_item_def)
  qed
  then show ?thesis by (simp add: fromAWSItem_def toAWSItem_def fmap.map_comp fmmap_ident)
qed

lemma from_to_items: "list_all plain_item its \<Longrightarrow> map (fromAWSItem \<circ> toAWSItem) its = its"
  by (auto simp: list_all_iff from_to_item intro!: map_idI)

lemma plain_fmempty [simp]: "plain_item fmempty"
  by (simp add: plain_item_def)

subsection \<open>A service\<close>

text \<open>An absent field has its default.\<close>

definition text_of :: "string option \<Rightarrow> string" where
  "text_of x = (case x of None \<Rightarrow> [] | Some s \<Rightarrow> s)"

definition names_of :: "names option \<Rightarrow> names" where
  "names_of x = (case x of None \<Rightarrow> fmempty | Some nm \<Rightarrow> nm)"

definition flag_of :: "bool option \<Rightarrow> bool" where
  "flag_of x = (case x of None \<Rightarrow> False | Some b \<Rightarrow> b)"

definition limit_of :: "int32 option \<Rightarrow> int32" where
  "limit_of x = (case x of None \<Rightarrow> 0 | Some n \<Rightarrow> n)"

lemma text_of_set [simp]: "text_of (set_text s) = s"
  by (simp add: text_of_def set_text_def)

lemma names_of_set [simp]: "names_of (set_names nm) = nm"
  by (simp add: names_of_def set_names_def)

lemma flag_of_set [simp]: "flag_of (set_true b) = b" "flag_of (Some b) = b"
  by (simp_all add: flag_of_def set_true_def)

lemma limit_of_set: "0 \<le> sint n \<Longrightarrow> limit_of (if 0 < sint n then Some n else None) = n"
  by (auto simp: limit_of_def) (metis antisym not_less signed_0 signed_word_eqI)

lemma item_of_set: "plain_item it \<Longrightarrow> fromAWS_nil (set_item it) = it"
  by (simp add: fromAWS_nil_def set_item_def from_to_item)

definition reply :: "(error \<Rightarrow> aws_error) \<Rightarrow> ('a \<Rightarrow> 'b) \<Rightarrow> ('s, 'a) op \<Rightarrow> ('s, 'b) aws_op" where
  "reply enc f m s = (case m s of (Inl e, s') \<Rightarrow> (Inl (enc e), s') | (Inr x, s') \<Rightarrow> (Inr (f x), s'))"

definition page_output :: "PageResponse \<Rightarrow> PageOutput" where
  "page_output r =
     \<lparr>pout_Items = map toAWSItem (r_Items r), pout_Count = r_Count r, pout_ScannedCount = r_ScannedCount r,
      pout_LastEvaluatedKey = set_item (r_LastEvaluatedKey r)\<rparr>"

definition service_get :: "GetItemInput \<Rightarrow> GetItemRequest" where
  "service_get i = \<lparr>gi_TableName = gin_TableName i, gi_Key = fromAWSItem (gin_Key i), gi_ConsistentRead = gin_ConsistentRead i,
     gi_ProjectionExpression = text_of (gin_ProjectionExpression i), gi_Names = names_of (gin_Names i)\<rparr>"

definition service_put :: "WriteItemInput \<Rightarrow> PutItemRequest" where
  "service_put i = \<lparr>pi_TableName = win_TableName i, pi_Item = fromAWSItem (win_Item i),
     pi_ConditionExpression = text_of (win_ConditionExpression i), pi_Names = names_of (win_Names i),
     pi_Values = fromAWS_nil (win_Values i), pi_ReturnValues = text_of (win_ReturnValues i)\<rparr>"

definition service_delete :: "WriteItemInput \<Rightarrow> DeleteItemRequest" where
  "service_delete i = \<lparr>di_TableName = win_TableName i, di_Key = fromAWSItem (win_Item i),
     di_ConditionExpression = text_of (win_ConditionExpression i), di_Names = names_of (win_Names i),
     di_Values = fromAWS_nil (win_Values i), di_ReturnValues = text_of (win_ReturnValues i)\<rparr>"

definition service_update :: "WriteItemInput \<Rightarrow> UpdateItemRequest" where
  "service_update i = \<lparr>ui_TableName = win_TableName i, ui_Key = fromAWSItem (win_Item i),
     ui_UpdateExpression = text_of (win_UpdateExpression i),
     ui_ConditionExpression = text_of (win_ConditionExpression i), ui_Names = names_of (win_Names i),
     ui_Values = fromAWS_nil (win_Values i), ui_ReturnValues = text_of (win_ReturnValues i)\<rparr>"

definition service_query :: "PageInput \<Rightarrow> QueryRequest" where
  "service_query i = \<lparr>q_TableName = pin_TableName i, q_IndexName = text_of (pin_IndexName i),
     q_KeyConditionExpression = text_of (pin_KeyConditionExpression i), q_FilterExpression = text_of (pin_FilterExpression i),
     q_ProjectionExpression = text_of (pin_ProjectionExpression i), q_Names = names_of (pin_Names i),
     q_Values = fromAWS_nil (pin_Values i), q_Limit = limit_of (pin_Limit i), q_ScanIndexForward = pin_ScanIndexForward i,
     q_ExclusiveStartKey = fromAWS_nil (pin_ExclusiveStartKey i), q_ConsistentRead = flag_of (pin_ConsistentRead i)\<rparr>"

definition service_scan :: "PageInput \<Rightarrow> ScanRequest" where
  "service_scan i = \<lparr>s_TableName = pin_TableName i, s_IndexName = text_of (pin_IndexName i),
     s_FilterExpression = text_of (pin_FilterExpression i), s_ProjectionExpression = text_of (pin_ProjectionExpression i),
     s_Names = names_of (pin_Names i), s_Values = fromAWS_nil (pin_Values i), s_Limit = limit_of (pin_Limit i),
     s_ExclusiveStartKey = fromAWS_nil (pin_ExclusiveStartKey i), s_ConsistentRead = flag_of (pin_ConsistentRead i)\<rparr>"

definition service_tget :: "aws_Get \<Rightarrow> TransactGetItem" where
  "service_tget g = \<lparr>tg_TableName = ag_TableName g, tg_Key = fromAWSItem (ag_Key g),
     tg_ProjectionExpression = text_of (ag_ProjectionExpression g), tg_Names = names_of (ag_Names g)\<rparr>"

definition service_twrite :: "aws_TransactWriteItem \<Rightarrow> TransactWriteItem" where
  "service_twrite w =
     \<lparr>tw_Put = map_option (\<lambda>p. \<lparr>tp_TableName = aw_TableName p, tp_Item = fromAWSItem (aw_Item p),
        tp_ConditionExpression = text_of (aw_ConditionExpression p), tp_Names = names_of (aw_Names p),
        tp_Values = fromAWS_nil (aw_Values p)\<rparr>) (atw_Put w),
      tw_Delete = map_option (\<lambda>p. \<lparr>tdel_TableName = aw_TableName p, tdel_Key = fromAWSItem (aw_Item p),
        tdel_ConditionExpression = text_of (aw_ConditionExpression p), tdel_Names = names_of (aw_Names p),
        tdel_Values = fromAWS_nil (aw_Values p)\<rparr>) (atw_Delete w),
      tw_Update = map_option (\<lambda>p. \<lparr>tu_TableName = aw_TableName p, tu_Key = fromAWSItem (aw_Item p),
        tu_UpdateExpression = text_of (aw_UpdateExpression p),
        tu_ConditionExpression = text_of (aw_ConditionExpression p), tu_Names = names_of (aw_Names p),
        tu_Values = fromAWS_nil (aw_Values p)\<rparr>) (atw_Update w),
      tw_ConditionCheck = map_option (\<lambda>p. \<lparr>tc_TableName = aw_TableName p, tc_Key = fromAWSItem (aw_Item p),
        tc_ConditionExpression = text_of (aw_ConditionExpression p), tc_Names = names_of (aw_Names p),
        tc_Values = fromAWS_nil (aw_Values p)\<rparr>) (atw_ConditionCheck w)\<rparr>"

definition service_of :: "(error \<Rightarrow> aws_error) \<Rightarrow> 's Backend \<Rightarrow> 's DynamoDBAPI" where
  "service_of enc be =
     \<lparr>api_GetItem = (\<lambda>i. reply enc (map_option toAWSItem) (be_GetItem be (service_get i))),
      api_PutItem = (\<lambda>i. reply enc id (be_PutItem be (service_put i))),
      api_DeleteItem = (\<lambda>i. reply enc id (be_DeleteItem be (service_delete i))),
      api_UpdateItem = (\<lambda>i. reply enc (map_option toAWSItem) (be_UpdateItem be (service_update i))),
      api_Query = (\<lambda>i. reply enc page_output (be_Query be (service_query i))),
      api_Scan = (\<lambda>i. reply enc page_output (be_Scan be (service_scan i))),
      api_BatchGetItem = (\<lambda>i. reply enc
        (\<lambda>r. \<lparr>bgo_Responses = fmmap (map toAWSItem) (bg_Responses r),
              bgo_UnprocessedKeys = fmmap keys_and_attributes (bg_UnprocessedKeys r)\<rparr>)
        (be_BatchGetItem be (map (\<lambda>(tbl, ka). (tbl, keys_and_projection ka)) i))),
      api_BatchWriteItem = (\<lambda>i. reply enc (\<lambda>r. fmmap (map to_aws_write) (bw_UnprocessedItems r))
        (be_BatchWriteItem be (map (\<lambda>(tbl, wrs). (tbl, map from_aws_write wrs)) i))),
      api_TransactGetItems = (\<lambda>i. reply enc (map (map_option toAWSItem)) (be_TransactGetItems be (map service_tget i))),
      api_TransactWriteItems = (\<lambda>i. reply enc id (be_TransactWriteItems be (map service_twrite i)))\<rparr>"

subsection \<open>The contract of a service\<close>

text \<open>A client that answers each operation from \<open>be\<close>, whatever else it is.\<close>

locale aws_service =
  fixes client :: "'s DynamoDBAPI"
    and enc :: "error \<Rightarrow> aws_error"
    and be :: "'s Backend"
  assumes serves:
    "api_GetItem client = (\<lambda>i. reply enc (map_option toAWSItem) (be_GetItem be (service_get i)))"
    "api_PutItem client = (\<lambda>i. reply enc id (be_PutItem be (service_put i)))"
    "api_DeleteItem client = (\<lambda>i. reply enc id (be_DeleteItem be (service_delete i)))"
    "api_UpdateItem client = (\<lambda>i. reply enc (map_option toAWSItem) (be_UpdateItem be (service_update i)))"
    "api_Query client = (\<lambda>i. reply enc page_output (be_Query be (service_query i)))"
    "api_Scan client = (\<lambda>i. reply enc page_output (be_Scan be (service_scan i)))"
    "api_BatchGetItem client = (\<lambda>i. reply enc
        (\<lambda>r. \<lparr>bgo_Responses = fmmap (map toAWSItem) (bg_Responses r),
              bgo_UnprocessedKeys = fmmap keys_and_attributes (bg_UnprocessedKeys r)\<rparr>)
        (be_BatchGetItem be (map (\<lambda>(tbl, ka). (tbl, keys_and_projection ka)) i)))"
    "api_BatchWriteItem client = (\<lambda>i. reply enc (\<lambda>r. fmmap (map to_aws_write) (bw_UnprocessedItems r))
        (be_BatchWriteItem be (map (\<lambda>(tbl, wrs). (tbl, map from_aws_write wrs)) i)))"
    "api_TransactGetItems client = (\<lambda>i. reply enc (map (map_option toAWSItem)) (be_TransactGetItems be (map service_tget i)))"
    "api_TransactWriteItems client = (\<lambda>i. reply enc id (be_TransactWriteItems be (map service_twrite i)))"

interpretation sv: aws_service "service_of enc be" enc be
  by unfold_locales (simp_all add: service_of_def)

lemma aws_call_reply:
  assumes "\<And>x s'. m s = (Inr x, s') \<Longrightarrow> g (f x) = x"
  shows "aws_call (reply enc f m) g s = map_prod (map_sum (wrapAWSError \<circ> enc) id) id (m s)"
  using assms by (auto simp: aws_call_def reply_def split: prod.split sum.split)

subsection \<open>Plain calls\<close>

text \<open>Requests and responses whose values all have a type; write requests ask for a put or a delete, not both; limits are not negative.\<close>

definition plain_kp :: "KeysAndProjection \<Rightarrow> bool" where
  "plain_kp kp = list_all plain_item (kp_Keys kp)"

definition plain_write :: "WriteRequest \<Rightarrow> bool" where
  "plain_write wr =
     (pred_option plain_item (wr_PutItem wr) \<and> pred_option plain_item (wr_DeleteItem wr) \<and>
      (wr_PutItem wr = None \<or> wr_DeleteItem wr = None))"

definition plain_twrite :: "TransactWriteItem \<Rightarrow> bool" where
  "plain_twrite w =
     (pred_option (\<lambda>p. plain_item (tp_Item p) \<and> plain_item (tp_Values p)) (tw_Put w) \<and>
      pred_option (\<lambda>p. plain_item (tdel_Key p) \<and> plain_item (tdel_Values p)) (tw_Delete w) \<and>
      pred_option (\<lambda>p. plain_item (tu_Key p) \<and> plain_item (tu_Values p)) (tw_Update w) \<and>
      pred_option (\<lambda>p. plain_item (tc_Key p) \<and> plain_item (tc_Values p)) (tw_ConditionCheck w))"

fun plain_call :: "call \<Rightarrow> bool" where
  "plain_call (CallGet r) = plain_item (gi_Key r)"
| "plain_call (CallPut r) = (plain_item (pi_Item r) \<and> plain_item (pi_Values r))"
| "plain_call (CallDelete r) = (plain_item (di_Key r) \<and> plain_item (di_Values r))"
| "plain_call (CallUpdate r) = (plain_item (ui_Key r) \<and> plain_item (ui_Values r))"
| "plain_call (CallQuery r) = (plain_item (q_Values r) \<and> plain_item (q_ExclusiveStartKey r) \<and> 0 \<le> sint (q_Limit r))"
| "plain_call (CallScan r) = (plain_item (s_Values r) \<and> plain_item (s_ExclusiveStartKey r) \<and> 0 \<le> sint (s_Limit r))"
| "plain_call (CallBatchGet rs) = list_all (\<lambda>p. plain_kp (snd p)) rs"
| "plain_call (CallBatchWrite rs) = list_all (\<lambda>p. list_all plain_write (snd p)) rs"
| "plain_call (CallTransactGet gs) = list_all (\<lambda>g. plain_item (tg_Key g)) gs"
| "plain_call (CallTransactWrite ws) = list_all plain_twrite ws"

definition plain_page :: "PageResponse \<Rightarrow> bool" where
  "plain_page r = (list_all plain_item (r_Items r) \<and> plain_item (r_LastEvaluatedKey r))"

fun plain_response :: "response \<Rightarrow> bool" where
  "plain_response (RItem x) = pred_option plain_item x"
| "plain_response RNone = True"
| "plain_response (RPage r) = plain_page r"
| "plain_response (RBatchGet r) =
     (fmpred (\<lambda>_. list_all plain_item) (bg_Responses r) \<and> fmpred (\<lambda>_. plain_kp) (bg_UnprocessedKeys r))"
| "plain_response (RBatchWrite r) = fmpred (\<lambda>_. list_all plain_write) (bw_UnprocessedItems r)"
| "plain_response (RItems xs) = list_all (pred_option plain_item) xs"

subsection \<open>What is sent is what is read\<close>

text \<open>A request with the fields of \<open>r\<close> is \<open>r\<close>.\<close>

lemma same_fields:
  "\<lparr>gi_TableName = gi_TableName gr, gi_Key = gi_Key gr, gi_ConsistentRead = gi_ConsistentRead gr,
    gi_ProjectionExpression = gi_ProjectionExpression gr, gi_Names = gi_Names gr\<rparr> = gr"
  "\<lparr>pi_TableName = pi_TableName pr, pi_Item = pi_Item pr,
    pi_ConditionExpression = pi_ConditionExpression pr, pi_Names = pi_Names pr, pi_Values = pi_Values pr,
    pi_ReturnValues = pi_ReturnValues pr\<rparr> = pr"
  "\<lparr>di_TableName = di_TableName dr, di_Key = di_Key dr,
    di_ConditionExpression = di_ConditionExpression dr, di_Names = di_Names dr, di_Values = di_Values dr,
    di_ReturnValues = di_ReturnValues dr\<rparr> = dr"
  "\<lparr>ui_TableName = ui_TableName ur, ui_Key = ui_Key ur, ui_UpdateExpression = ui_UpdateExpression ur,
    ui_ConditionExpression = ui_ConditionExpression ur, ui_Names = ui_Names ur, ui_Values = ui_Values ur,
    ui_ReturnValues = ui_ReturnValues ur\<rparr> = ur"
  "\<lparr>q_TableName = q_TableName qr, q_IndexName = q_IndexName qr,
    q_KeyConditionExpression = q_KeyConditionExpression qr, q_FilterExpression = q_FilterExpression qr,
    q_ProjectionExpression = q_ProjectionExpression qr, q_Names = q_Names qr, q_Values = q_Values qr,
    q_Limit = q_Limit qr, q_ScanIndexForward = q_ScanIndexForward qr,
    q_ExclusiveStartKey = q_ExclusiveStartKey qr, q_ConsistentRead = q_ConsistentRead qr\<rparr> = qr"
  "\<lparr>s_TableName = s_TableName sr, s_IndexName = s_IndexName sr,
    s_FilterExpression = s_FilterExpression sr, s_ProjectionExpression = s_ProjectionExpression sr,
    s_Names = s_Names sr, s_Values = s_Values sr, s_Limit = s_Limit sr,
    s_ExclusiveStartKey = s_ExclusiveStartKey sr, s_ConsistentRead = s_ConsistentRead sr\<rparr> = sr"
  "\<lparr>tg_TableName = tg_TableName tg, tg_Key = tg_Key tg,
    tg_ProjectionExpression = tg_ProjectionExpression tg, tg_Names = tg_Names tg\<rparr> = tg"
  by simp_all

lemma option_item: "pred_option plain_item x \<Longrightarrow> map_option (fromAWSItem \<circ> toAWSItem) x = x"
  by (cases x) (simp_all add: from_to_item)

lemma option_items: "list_all (pred_option plain_item) xs \<Longrightarrow> map (map_option (fromAWSItem \<circ> toAWSItem)) xs = xs"
  by (auto simp: list_all_iff option_item intro!: map_idI)

lemma kp_read_back: "plain_kp kp \<Longrightarrow> keys_and_projection (keys_and_attributes kp) = kp"
proof -
  assume "plain_kp kp"
  then have "map (fromAWSItem \<circ> toAWSItem) (kp_Keys kp) = kp_Keys kp"
    by (simp add: plain_kp_def from_to_items)
  then show ?thesis
    using text_of_set names_of_set flag_of_set(1)
    by (simp add: keys_and_projection_def keys_and_attributes_def toAWSKey_def
        flip: text_of_def names_of_def flag_of_def)
qed

lemma write_read_back: "plain_write wr \<Longrightarrow> from_aws_write (to_aws_write wr) = wr"
  by (auto simp: plain_write_def from_aws_write_def to_aws_write_def toAWSKey_def from_to_item option.map_comp option_item split: option.split)

lemma tget_read_back: "plain_item (tg_Key g) \<Longrightarrow> service_tget (to_aws_get g) = g"
  by (simp add: service_tget_def to_aws_get_def toAWSKey_def from_to_item same_fields)

lemma twrite_read_back: "plain_twrite w \<Longrightarrow> service_twrite (to_aws_twi w) = w"
  by (auto simp: plain_twrite_def service_twrite_def to_aws_twi_def toAWSKey_def from_to_item item_of_set
      option.map_comp comp_def intro!: option.map_ident_strong TransactWriteItem.equality
      elim!: option.set_cases simp: option.pred_set)

lemma page_read_back: "plain_page r \<Longrightarrow> page_response (page_output r) = r"
  by (simp add: plain_page_def page_response_def page_output_def from_to_items item_of_set)

lemmas read_back = kp_read_back write_read_back twrite_read_back page_read_back option_item option_items from_to_item
  from_to_items item_of_set limit_of_set

lemma fmap_read_back: "fmpred (\<lambda>_. P) m \<Longrightarrow> (\<And>x. P x \<Longrightarrow> f x = x) \<Longrightarrow> fmmap f m = m"
  by (rule fmmap_ident) (auto simp: fmpred_iff elim!: fmran'E)

subsection \<open>The backend behind the service\<close>

definition wrapped :: "(error \<Rightarrow> aws_error) \<Rightarrow> ('s, 'a) op \<Rightarrow> ('s, 'a) op" where
  "wrapped enc m s = map_prod (map_sum (wrapAWSError \<circ> enc) id) id (m s)"

lemma giving_wrapped: "m' s = wrapped enc m s \<Longrightarrow> giving f m' s = wrapped enc (giving f m) s"
  by (auto simp: giving_def sbind_def wrapped_def split: prod.splits sum.splits)

lemma giving_Inr: "m s = (Inr x, s') \<Longrightarrow> giving f m s = (Inr (f x), s')"
  by (simp add: giving_def sbind_def)

lemma aws_giving:
  assumes "\<And>x. fst (giving h m s) = Inr x \<Longrightarrow> P x" and "\<And>x. P (h x) \<Longrightarrow> g (f x) = x"
  shows "giving h (aws_call (reply enc f m) g) s = wrapped enc (giving h m) s"
proof (rule giving_wrapped)
  have "g (f x) = x" if "m s = (Inr x, s')" for x s'
    using assms that by (simp add: giving_Inr)
  then show "aws_call (reply enc f m) g s = wrapped enc m s"
    unfolding wrapped_def by (rule aws_call_reply)
qed

lemma map_read_back: "list_all P xs \<Longrightarrow> (\<And>x. P x \<Longrightarrow> f x = x) \<Longrightarrow> map f xs = xs"
  by (auto simp: list_all_iff intro!: map_idI)

lemma snd_read_back: "list_all (\<lambda>p. P (snd p)) xs \<Longrightarrow> (\<And>x. P x \<Longrightarrow> f x = x) \<Longrightarrow> map (\<lambda>p. (fst p, f (snd p))) xs = xs"
  by (auto simp: list_all_iff intro!: map_idI)

context aws_service begin

lemma aws_transparent:
  assumes "plain_call c" and r: "\<And>x. fst (invoke be c s) = Inr x \<Longrightarrow> plain_response x"
  shows "invoke (NewAWSBackend client) c s = wrapped enc (invoke be c) s"
proof (cases c)
  case (CallGet req)
  with assms show ?thesis
    by (simp add: same_fields invoke_def NewAWSBackend_def aws_GetItem_def serves service_get_def toAWSKey_def from_to_item)
      (rule aws_giving [where P = plain_response], auto simp: option.map_comp option_item)
next
  case (CallPut req)
  with assms show ?thesis
    by (simp add: same_fields invoke_def NewAWSBackend_def aws_PutItem_def serves service_put_def from_to_item item_of_set)
      (rule aws_giving [where P = plain_response], auto)
next
  case (CallDelete req)
  with assms show ?thesis
    by (simp add: same_fields invoke_def NewAWSBackend_def aws_DeleteItem_def serves service_delete_def toAWSKey_def from_to_item
        item_of_set)
      (rule aws_giving [where P = plain_response], auto)
next
  case (CallUpdate req)
  with assms show ?thesis
    by (simp add: same_fields invoke_def NewAWSBackend_def aws_UpdateItem_def serves service_update_def toAWSKey_def from_to_item
        item_of_set)
      (rule aws_giving [where P = plain_response], auto simp: option.map_comp option_item)
next
  case (CallQuery req)
  with assms show ?thesis
    by (simp add: same_fields invoke_def NewAWSBackend_def aws_Query_def serves service_query_def item_of_set limit_of_set)
      (rule aws_giving [where P = plain_response], auto simp: page_read_back)
next
  case (CallScan req)
  with assms show ?thesis
    by (simp add: same_fields invoke_def NewAWSBackend_def aws_Scan_def serves service_scan_def item_of_set limit_of_set)
      (rule aws_giving [where P = plain_response], auto simp: page_read_back)
next
  case (CallBatchGet reqs)
  then have "map (\<lambda>p. (fst p, keys_and_projection (keys_and_attributes (snd p)))) reqs = reqs"
    using assms by (auto intro: snd_read_back kp_read_back)
  with CallBatchGet assms show ?thesis
    by (simp add: same_fields invoke_def NewAWSBackend_def aws_BatchGetItem_def serves comp_def case_prod_beta)
      (rule aws_giving [where P = plain_response],
        auto simp: fmap.map_comp fmap_read_back [OF _ from_to_items, unfolded comp_def] fmap_read_back [OF _ kp_read_back] comp_def)
next
  case (CallBatchWrite reqs)
  then have "map (\<lambda>p. (fst p, map (\<lambda>w. from_aws_write (to_aws_write w)) (snd p))) reqs = reqs"
    using assms by (auto intro!: snd_read_back intro: map_read_back write_read_back)
  with CallBatchWrite assms show ?thesis
    by (simp add: same_fields invoke_def NewAWSBackend_def aws_BatchWriteItem_def serves comp_def case_prod_beta)
      (rule aws_giving [where P = plain_response],
        auto simp: fmap.map_comp comp_def fmap_read_back [OF _ map_read_back [OF _ write_read_back]])
next
  case (CallTransactGet gs)
  then have "map (service_tget \<circ> to_aws_get) gs = gs"
    using assms by (auto simp: list_all_iff tget_read_back intro!: map_idI)
  with CallTransactGet assms show ?thesis
    by (simp add: invoke_def NewAWSBackend_def aws_TransactGetItems_def serves)
      (rule aws_giving [where P = plain_response], auto simp: list_all_iff option.map_comp option_item intro!: map_idI)
next
  case (CallTransactWrite ws)
  then have "map (service_twrite \<circ> to_aws_twi) ws = ws"
    using assms by (auto simp: list_all_iff twrite_read_back intro!: map_idI)
  with CallTransactWrite assms show ?thesis
    by (simp add: same_fields invoke_def NewAWSBackend_def aws_TransactWriteItems_def serves)
      (rule aws_giving [where P = plain_response], auto)
qed

end

subsection \<open>Errors\<close>

text \<open>What the library's predicates say of a wrapped SDK error that is not itself an error of the library.\<close>

lemma first_cancelled_Some: "first_cancelled es = Some crs \<Longrightarrow> TransactionCanceledException crs \<in> set es"
  by (induction es rule: first_cancelled.induct) auto

lemma first_cancelled_None: "first_cancelled es = None \<longleftrightarrow> (\<forall>crs. TransactionCanceledException crs \<notin> set es)"
  by (induction es rule: first_cancelled.induct) auto

lemma cancel_reason_Code: "Code (cancel_reason cr) = ''ConditionalCheckFailed'' \<longleftrightarrow> fst cr = Some ''ConditionalCheckFailed''"
  by (simp add: cancel_reason_def split: option.split)

lemma wrap_cond_failed:
  assumes "\<And>t. \<not> errors_Is (ae_error err) t"
  shows "IsCondCheckFailed (wrapAWSError err) \<longleftrightarrow>
     ConditionalCheckFailedException \<in> set (ae_chain err) \<or>
     (\<exists>crs. first_cancelled (ae_chain err) = Some crs \<and> Some ''ConditionalCheckFailed'' \<in> fst ` set crs)"
  using assms
  by (auto simp: wrapAWSError_def IsCondCheckFailed_def tx_error_Is_def cancel_reason_Code image_iff split: option.split)
    (metis fst_conv)+

lemma wrap_cancelled:
  assumes "\<And>t. \<not> errors_Is (ae_error err) t"
  shows "IsTxCancelled (wrapAWSError err) \<longleftrightarrow>
     ConditionalCheckFailedException \<notin> set (ae_chain err) \<and> first_cancelled (ae_chain err) \<noteq> None"
  using assms by (auto simp: wrapAWSError_def IsTxCancelled_def tx_error_Is_def split: option.split)

lemma wrap_reasons:
  assumes "TxCancelReasons (ae_error err) = None"
  shows "TxCancelReasons (wrapAWSError err) =
     (if ConditionalCheckFailedException \<in> set (ae_chain err) then None
      else map_option (map cancel_reason) (first_cancelled (ae_chain err)))"
  using assms by (simp add: wrapAWSError_def split: option.split)

end
