(* ===== verification/AwsExamples.thy ===== *)
theory AwsExamples
  imports AwsWire ClientExamples
begin

text \<open>The AWS backend in front of the example table.\<close>

definition ex_sdk :: "error \<Rightarrow> aws_error" where
  "ex_sdk e = \<lparr>ae_chain = (if IsCondCheckFailed e then [ConditionalCheckFailedException] else []), ae_error = Errorf (error_text e)\<rparr>"

definition ex_aws_get :: GetItemRequest where
  "ex_aws_get = \<lparr>gi_TableName = ''t'', gi_Key = KeyValue_Map (ex_row_key ''2''), gi_ConsistentRead = True,
     gi_ProjectionExpression = [], gi_Names = fmempty\<rparr>"

lemma ex_aws_get: "invoke memdb (CallGet ex_aws_get) ex_db2 = (Inr (RItem (Some (ex_item ''2'' ''y''))), ex_db2)"
proof -
  have "GetItem ex_aws_get ex_db2 = Inr (Some (ex_item ''2'' ''y''))" by code_simp
  then show ?thesis by (simp add: invoke_def giving_def sbind_def)
qed

lemma ex_aws_plain: "plain_item (gi_Key ex_aws_get)" "plain_item (ex_item ''2'' ''y'')"
  by code_simp+

definition ex_cancelled :: aws_error where
  "ex_cancelled = \<lparr>ae_chain = [TransactionCanceledException [(Some ''None'', None), (Some ''ConditionalCheckFailed'', Some ''no'')]],
     ae_error = Errorf ''cancelled''\<rparr>"

end
