(* ===== verification/MemLocks.thy ===== *)
theory MemLocks
  imports Backend
begin

text \<open>
  The locks of the in-memory backend (\<open>memdb/memdb.go\<close>): the mutex of the table map, taken by every \<open>table\<close> lookup, and one
  reader-writer mutex per table.  The other theories run one call after the other; here the calls are goroutines and only their
  locking is kept.  A call is the list of its critical sections, each the locks it takes in order and holds until its end.
\<close>

datatype lock_name = BackendMu | TableMu string

datatype lock_mode = RLock | Lock

type_synonym lock = "lock_mode \<times> lock_name"

subsection \<open>What a call locks\<close>

text \<open>\<open>dedup\<close> keeps the first of each table: the order is that of the request.  Tables are created once, so their names stand for them.\<close>

fun dedup_seen :: "string list \<Rightarrow> string list \<Rightarrow> string list" where
  "dedup_seen seen [] = []"
| "dedup_seen seen (t # ts) = (if t \<in> set seen then dedup_seen seen ts else t # dedup_seen (t # seen) ts)"

definition dedup :: "string list \<Rightarrow> string list" where
  "dedup = dedup_seen []"

definition table_section :: "lock list" where
  "table_section = [(RLock, BackendMu)]"

text \<open>One table after the other, up to the first that does not exist.\<close>

fun batch_sections :: "lock_mode \<Rightarrow> MemoryBackend \<Rightarrow> string list \<Rightarrow> lock list list" where
  "batch_sections mode m [] = []"
| "batch_sections mode m (t # ts) =
     table_section # (if fmlookup m t = None then [] else [(mode, TableMu t)] # batch_sections mode m ts)"

text \<open>All tables are looked up first, then locked together.\<close>

definition tx_sections :: "lock_mode \<Rightarrow> MemoryBackend \<Rightarrow> string list \<Rightarrow> lock list list" where
  "tx_sections mode m ts =
     (let found = takeWhile (\<lambda>t. fmlookup m t \<noteq> None) ts in
      map (\<lambda>_. table_section) (take (Suc (length found)) ts) @
      (if found = ts then [map (\<lambda>t. (mode, TableMu t)) (dedup ts)] else []))"

definition call_sections :: "MemoryBackend \<Rightarrow> call \<Rightarrow> lock list list" where
  "call_sections m c =
     (case c of
        CallGet r \<Rightarrow> batch_sections RLock m [gi_TableName r]
      | CallPut r \<Rightarrow> batch_sections Lock m [pi_TableName r]
      | CallDelete r \<Rightarrow> batch_sections Lock m [di_TableName r]
      | CallUpdate r \<Rightarrow> batch_sections Lock m [ui_TableName r]
      | CallQuery r \<Rightarrow> batch_sections RLock m [q_TableName r]
      | CallScan r \<Rightarrow> batch_sections RLock m [s_TableName r]
      | CallBatchGet rs \<Rightarrow>
          if sum_list (map (\<lambda>(_, kp). length (kp_Keys kp)) rs) > 100 then [] else batch_sections RLock m (map fst rs)
      | CallBatchWrite rs \<Rightarrow>
          if sum_list (map (\<lambda>(_, wrs). length wrs) rs) > 25 then [] else batch_sections Lock m (map fst rs)
      | CallTransactGet gs \<Rightarrow> if length gs > 100 then [] else tx_sections RLock m (map tg_TableName gs)
      | CallTransactWrite ws \<Rightarrow> if length ws > 100 then [] else tx_sections Lock m (map txWriteTableName ws))"

subsection \<open>Goroutines\<close>

text \<open>
  \<open>th_called\<close> says that \<open>Lock\<close> or \<open>RLock\<close> has been called for the first lock of \<open>th_wants\<close> and has not returned yet.
\<close>

record thread =
  th_held :: "lock list"
  th_wants :: "lock list"
  th_called :: bool
  th_todo :: "lock list list"

definition th_done :: "thread \<Rightarrow> bool" where
  "th_done th \<longleftrightarrow> th_held th = [] \<and> th_wants th = [] \<and> th_todo th = []"

text \<open>
  \<open>Lock\<close> waits while anyone holds the mutex and \<open>RLock\<close> while a writer does.  Go also lets readers wait behind a writer that waits, so
  that it is not starved; with \<open>queue\<close> every reader does.  The two values of \<open>queue\<close> bound what \<open>sync.RWMutex\<close> may do.
\<close>

definition holds :: "thread \<Rightarrow> lock_name \<Rightarrow> bool" where
  "holds th n \<longleftrightarrow> n \<in> snd ` set (th_held th)"

definition waiting_writer :: "lock_name \<Rightarrow> thread \<Rightarrow> bool" where
  "waiting_writer n th \<longleftrightarrow> th_called th \<and> (case th_wants th of [] \<Rightarrow> False | l # _ \<Rightarrow> l = (Lock, n))"

definition granted :: "bool \<Rightarrow> thread list \<Rightarrow> lock \<Rightarrow> bool" where
  "granted queue ths l =
     (case l of
        (Lock, n) \<Rightarrow> list_all (\<lambda>th. \<not> holds th n) ths
      | (RLock, n) \<Rightarrow> list_all (\<lambda>th. (Lock, n) \<notin> set (th_held th) \<and> (queue \<longrightarrow> \<not> waiting_writer n th)) ths)"

inductive th_step :: "bool \<Rightarrow> thread list \<Rightarrow> thread \<Rightarrow> thread \<Rightarrow> bool" for queue :: bool and ths :: "thread list" where
  call: "th_wants th \<noteq> [] \<Longrightarrow> \<not> th_called th \<Longrightarrow> th_step queue ths th (th\<lparr>th_called := True\<rparr>)"
| acquire: "th_wants th = l # ls \<Longrightarrow> th_called th \<Longrightarrow> granted queue ths l \<Longrightarrow>
    th_step queue ths th (th\<lparr>th_held := l # th_held th, th_wants := ls, th_called := False\<rparr>)"
| release: "th_wants th = [] \<Longrightarrow> l \<in> set (th_held th) \<Longrightarrow>
    th_step queue ths th (th\<lparr>th_held := remove1 l (th_held th)\<rparr>)"
| next_section: "th_wants th = [] \<Longrightarrow> th_held th = [] \<Longrightarrow> th_todo th = sec # secs \<Longrightarrow>
    th_step queue ths th (th\<lparr>th_wants := sec, th_todo := secs\<rparr>)"
| leave: "th_wants th = [] \<Longrightarrow> th_todo th \<noteq> [] \<Longrightarrow> th_step queue ths th (th\<lparr>th_todo := []\<rparr>)"

inductive lock_step :: "bool \<Rightarrow> thread list \<Rightarrow> thread list \<Rightarrow> bool" for queue :: bool where
  "i < length ths \<Longrightarrow> th_step queue ths (ths ! i) th \<Longrightarrow> lock_step queue ths (ths[i := th])"

definition start_thread :: "lock list list \<Rightarrow> thread" where
  "start_thread secs = \<lparr>th_held = [], th_wants = [], th_called = False, th_todo = secs\<rparr>"

definition start_calls :: "MemoryBackend \<Rightarrow> call list \<Rightarrow> thread list" where
  "start_calls m cs = map (start_thread \<circ> call_sections m) cs"

inductive_simps th_step_done: "th_step queue ths \<lparr>th_held = [], th_wants = [], th_called = c, th_todo = []\<rparr> th'"

subsection \<open>Every run ends\<close>

text \<open>A lock costs a call, a return and a release; a section one step to begin, and one step may drop those that are left.\<close>

definition th_cost :: "thread \<Rightarrow> nat" where
  "th_cost th = length (th_held th) + 3 * length (th_wants th) - (if th_called th \<and> th_wants th \<noteq> [] then 1 else 0) +
     sum_list (map (\<lambda>sec. 3 * length sec + 1) (th_todo th))"

definition lock_cost :: "thread list \<Rightarrow> nat" where
  "lock_cost ths = sum_list (map th_cost ths)"

lemma sum_list_upd:
  fixes f :: "'a \<Rightarrow> nat"
  shows "i < length xs \<Longrightarrow> f y < f (xs ! i) \<Longrightarrow> sum_list (map f (xs[i := y])) < sum_list (map f xs)"
  by (induction xs arbitrary: i) (auto simp: nth_Cons' split: nat.splits)

lemma th_step_cost:
  assumes "th_step queue ths th th'" "th_called th \<Longrightarrow> th_wants th \<noteq> []"
  shows "th_cost th' < th_cost th"
  using assms
proof (induction rule: th_step.induct)
  case (release th l)
  then have "th_held th \<noteq> []" by auto
  with release show ?case by (simp add: th_cost_def length_remove1)
next
  case (leave th)
  then show ?case by (cases "th_todo th") (simp_all add: th_cost_def)
qed (auto simp: th_cost_def)

subsection \<open>Invariants\<close>

text \<open>
  A thread in its section: the locks come in the order of \<open>rank\<close>, those held before those wanted, and a table is locked once.
\<close>

definition ranked :: "(lock_name \<Rightarrow> nat) \<Rightarrow> lock list \<Rightarrow> bool" where
  "ranked rank ls \<longleftrightarrow> sorted_wrt (\<lambda>a b. rank (snd a) < rank (snd b)) ls"

definition th_ok :: "(lock_name \<Rightarrow> nat) \<Rightarrow> thread \<Rightarrow> bool" where
  "th_ok rank th \<longleftrightarrow>
     ranked rank (th_wants th) \<and> list_all (ranked rank) (th_todo th) \<and> (th_called th \<longrightarrow> th_wants th \<noteq> []) \<and>
     (\<forall>h \<in> set (th_held th). \<forall>w \<in> set (th_wants th). rank (snd h) < rank (snd w))"

lemma list_all_upd: "list_all P xs \<Longrightarrow> P y \<Longrightarrow> list_all P (xs[i := y])"
  by (auto simp: list_all_iff dest: set_update_subset_insert [THEN subsetD])

lemma th_step_ok: "th_step queue ths th th' \<Longrightarrow> th_ok rank th \<Longrightarrow> th_ok rank th'"
  by (induction rule: th_step.induct) (auto simp: th_ok_def ranked_def dest: notin_set_remove1)

lemma lock_step_ok:
  assumes "lock_step queue ths ths'" "list_all (th_ok rank) ths"
  shows "list_all (th_ok rank) ths' \<and> lock_cost ths' < lock_cost ths"
  using assms
proof (cases rule: lock_step.cases)
  case (1 i th)
  then have ok: "th_ok rank (ths ! i)" using assms(2) by (simp add: list_all_length)
  then have "th_cost th < th_cost (ths ! i)" using 1(3) by (intro th_step_cost) (simp_all add: th_ok_def)
  with 1 ok assms(2) show ?thesis
    unfolding lock_cost_def by (auto intro: list_all_upd sum_list_upd th_step_ok)
qed

text \<open>A mutex held for writing is held by no other goroutine.\<close>

definition conflict :: "thread \<Rightarrow> thread \<Rightarrow> bool" where
  "conflict a b \<longleftrightarrow> (\<exists>n. (Lock, n) \<in> set (th_held a) \<and> holds b n)"

definition exclusive :: "thread list \<Rightarrow> bool" where
  "exclusive ths \<longleftrightarrow> (\<forall>i < length ths. \<forall>j < length ths. i \<noteq> j \<longrightarrow> \<not> conflict (ths ! i) (ths ! j))"

lemma exclusive_upd:
  assumes "exclusive ths" "i < length ths"
    "\<And>j. j < length ths \<Longrightarrow> j \<noteq> i \<Longrightarrow> \<not> conflict th (ths ! j) \<and> \<not> conflict (ths ! j) th"
  shows "exclusive (ths[i := th])"
  unfolding exclusive_def
proof (intro allI impI)
  fix a b assume "a < length (ths[i := th])" "b < length (ths[i := th])" "a \<noteq> b"
  with assms show "\<not> conflict (ths[i := th] ! a) (ths[i := th] ! b)"
    by (cases "a = i"; cases "b = i") (simp_all add: exclusive_def)
qed

lemma conflict_less:
  assumes "set (th_held th') \<subseteq> set (th_held th)"
  shows "conflict th' b \<Longrightarrow> conflict th b" "conflict a th' \<Longrightarrow> conflict a th"
  using assms by (auto simp: conflict_def holds_def)

lemma granted_free:
  assumes "granted queue ths l" "b \<in> set ths" "th_held th' = l # th_held th" "\<not> conflict th b" "\<not> conflict b th"
  shows "\<not> conflict th' b \<and> \<not> conflict b th'"
proof -
  obtain mode n where l: "l = (mode, n)" by (cases l)
  have "(Lock, n) \<notin> set (th_held b)" "mode = Lock \<Longrightarrow> \<not> holds b n"
    using assms(1,2) l by (cases mode; force simp: granted_def list_all_iff holds_def)+
  with assms(3-5) l show ?thesis by (auto simp: conflict_def holds_def)
qed

lemma lock_step_exclusive:
  assumes "lock_step queue ths ths'" "exclusive ths"
  shows "exclusive ths'"
  using assms(1)
proof (cases rule: lock_step.cases)
  case (1 i th)
  have free: "\<not> conflict (ths ! i) (ths ! j) \<and> \<not> conflict (ths ! j) (ths ! i)" if "j < length ths" "j \<noteq> i" for j
    using that assms(2) 1(2) by (simp add: exclusive_def)
  from 1(3) have "set (th_held th) \<subseteq> set (th_held (ths ! i)) \<or> (\<exists>l. granted queue ths l \<and> th_held th = l # th_held (ths ! i))"
    by (cases rule: th_step.cases) (auto dest: notin_set_remove1)
  then have "\<not> conflict th (ths ! j) \<and> \<not> conflict (ths ! j) th" if "j < length ths" "j \<noteq> i" for j
    using free [OF that] conflict_less [of th "ths ! i"] granted_free [of queue ths _ "ths ! j" th "ths ! i"] that(1) by auto
  with 1(1,2) assms(2) show ?thesis by (auto intro: exclusive_upd)
qed

subsection \<open>No deadlock with ordered sections\<close>

definition wanted :: "thread \<Rightarrow> lock_name" where
  "wanted th = snd (hd (th_wants th))"

text \<open>In a state without a step whoever is not done waits for a mutex someone holds.\<close>

lemma stuck_waits:
  assumes stuck: "\<not> (\<exists>ths'. lock_step queue ths ths')" and "th \<in> set ths" "\<not> th_done th"
  shows "th_wants th \<noteq> [] \<and> (\<exists>h \<in> set ths. holds h (wanted th))"
proof -
  have none: "\<not> th_step queue ths t t'" if "t \<in> set ths" for t t'
    using that stuck lock_step.intros [of _ ths queue t'] by (auto simp: in_set_conv_nth)
  have wants: "th_wants th \<noteq> []"
  proof
    assume w: "th_wants th = []"
    with none [OF assms(2)] have "th_todo th = []" using th_step.leave by blast
    with w assms(3) obtain l where "l \<in> set (th_held th)" by (cases "th_held th") (auto simp: th_done_def)
    with w none [OF assms(2)] show False using th_step.release by blast
  qed
  have refused: "\<not> granted queue ths l" if "t \<in> set ths" "th_wants t = l # ls" for t l ls
    using none [OF that(1)] that th_step.call [of t queue ths] th_step.acquire [of t l ls queue ths] by auto
  have writer: "\<exists>h \<in> set ths. holds h n" if "t \<in> set ths" "th_wants t = (Lock, n) # ls" for t n ls
    using refused [OF that] by (auto simp: granted_def list_all_iff)
  from wants obtain mode n ls where w: "th_wants th = (mode, n) # ls" by (cases "th_wants th") auto
  have "\<exists>h \<in> set ths. holds h n"
  proof (cases mode)
    case RLock
    with refused [OF assms(2) w] obtain t where t: "t \<in> set ths"
      "(Lock, n) \<in> set (th_held t) \<or> waiting_writer n t"
      by (auto simp: granted_def list_all_iff)
    from t(2) show ?thesis
    proof
      assume "(Lock, n) \<in> set (th_held t)"
      with t(1) show ?thesis by (force simp: holds_def)
    next
      assume "waiting_writer n t"
      with writer [OF t(1)] show ?thesis by (auto simp: waiting_writer_def split: list.splits)
    qed
  next
    case Lock
    with writer [OF assms(2)] w show ?thesis by simp
  qed
  with wants w show ?thesis by (simp add: wanted_def)
qed

lemma lock_progress:
  assumes "list_all (th_ok rank) ths"
  shows "list_all th_done ths \<or> (\<exists>ths'. lock_step queue ths ths')"
proof (rule ccontr)
  assume stuck: "\<not> ?thesis"
  define B where "B = {th \<in> set ths. \<not> th_done th}"
  have "finite B" "B \<noteq> {}" using stuck by (auto simp: B_def list_all_iff)
  then have "Max ((rank \<circ> wanted) ` B) \<in> (rank \<circ> wanted) ` B" by simp
  then obtain th where th: "th \<in> B" "Max ((rank \<circ> wanted) ` B) = rank (wanted th)" by auto
  have top: "rank (wanted t) \<le> rank (wanted th)" if "t \<in> B" for t
    using that \<open>finite B\<close> by (auto simp flip: th(2))
  from th stuck obtain h where h: "h \<in> set ths" "holds h (wanted th)"
    using stuck_waits [of queue ths th] by (auto simp: B_def)
  then have "h \<in> B" by (auto simp: B_def th_done_def holds_def)
  with stuck stuck_waits [of queue ths h] have "th_wants h \<noteq> []" by (auto simp: B_def)
  then have "hd (th_wants h) \<in> set (th_wants h)" by simp
  with h assms have "rank (wanted th) < rank (wanted h)"
    by (fastforce simp: list_all_iff th_ok_def holds_def wanted_def)
  with top [OF \<open>h \<in> B\<close>] show False by simp
qed

subsection \<open>Calls\<close>

text \<open>The tables a transaction locks together.\<close>

definition tx_tables :: "call \<Rightarrow> string list" where
  "tx_tables c =
     (case c of CallTransactGet gs \<Rightarrow> map tg_TableName gs | CallTransactWrite ws \<Rightarrow> map txWriteTableName ws | _ \<Rightarrow> [])"

definition locks_in_order :: "(string \<Rightarrow> nat) \<Rightarrow> call \<Rightarrow> bool" where
  "locks_in_order rank c \<longleftrightarrow> sorted_wrt (\<lambda>s t. rank s < rank t) (dedup (tx_tables c))"

definition lock_rank :: "(string \<Rightarrow> nat) \<Rightarrow> lock_name \<Rightarrow> nat" where
  "lock_rank rank n = (case n of BackendMu \<Rightarrow> 0 | TableMu t \<Rightarrow> rank t)"

lemma ranked_single [simp]: "ranked rank [l]" "ranked rank []" "ranked rank table_section"
  by (simp_all add: ranked_def table_section_def)

lemma batch_ranked: "list_all (ranked rank) (batch_sections mode m ts)"
  by (induction mode m ts rule: batch_sections.induct) simp_all

lemma tx_ranked:
  assumes "sorted_wrt (\<lambda>s t. rank s < rank t) (dedup ts)"
  shows "list_all (ranked (lock_rank rank)) (tx_sections mode m ts)"
proof -
  have "ranked (lock_rank rank) (map (\<lambda>t. (mode, TableMu t)) (dedup ts))"
    using assms by (simp add: ranked_def sorted_wrt_map lock_rank_def)
  then show ?thesis by (auto simp: tx_sections_def Let_def list_all_iff)
qed

lemma call_ranked: "locks_in_order rank c \<Longrightarrow> list_all (ranked (lock_rank rank)) (call_sections m c)"
  by (cases c) (simp_all add: call_sections_def locks_in_order_def tx_tables_def batch_ranked tx_ranked)

lemma start_ok:
  assumes "list_all (locks_in_order rank) cs"
  shows "list_all (th_ok (lock_rank rank)) (start_calls m cs)"
  using assms call_ranked [of rank _ m]
  by (auto simp: start_calls_def start_thread_def th_ok_def list_all_iff)

lemma start_exclusive: "exclusive (start_calls m cs)"
  by (simp add: exclusive_def conflict_def start_calls_def start_thread_def)

lemma lock_run:
  assumes "(lock_step queue ^^ n) ths ths'" "list_all (th_ok rank) ths" "exclusive ths"
  shows "list_all (th_ok rank) ths' \<and> exclusive ths' \<and> n + lock_cost ths' \<le> lock_cost ths"
  using assms
proof (induction n arbitrary: ths')
  case (Suc n)
  then obtain mid where "(lock_step queue ^^ n) ths mid" "lock_step queue mid ths'" by auto
  with Suc show ?case using lock_step_ok [of queue mid ths' rank] lock_step_exclusive [of queue mid ths'] by fastforce
qed simp

subsection \<open>Two transactions in opposite orders\<close>

lemma pair_steps:
  "th_step queue [a, b] a a' \<Longrightarrow> lock_step queue [a, b] [a', b]"
  "th_step queue [a, b] b b' \<Longrightarrow> lock_step queue [a, b] [a, b']"
  using lock_step.intros [of 0 "[a, b]" queue a'] lock_step.intros [of 1 "[a, b]" queue b'] by simp_all

text \<open>A goroutine between two sections, and one that holds some locks of its last section and waits for the others.\<close>

definition idle_thread :: "lock list list \<Rightarrow> thread" where
  "idle_thread secs = \<lparr>th_held = [], th_wants = [], th_called = False, th_todo = secs\<rparr>"

definition in_section :: "lock list \<Rightarrow> lock list \<Rightarrow> bool \<Rightarrow> lock list list \<Rightarrow> thread" where
  "in_section held wants called secs = \<lparr>th_held = held, th_wants = wants, th_called = called, th_todo = secs\<rparr>"

lemma section_steps:
  "th_step queue ths (idle_thread (sec # secs)) (in_section [] sec False secs)"
  "th_step queue ths (in_section held (l # ls) False secs) (in_section held (l # ls) True secs)"
  "granted queue ths l \<Longrightarrow> th_step queue ths (in_section held (l # ls) True secs) (in_section (l # held) ls False secs)"
  "th_step queue ths (in_section [l] [] False secs) (idle_thread secs)"
  by (cases l; auto simp: idle_thread_def in_section_def th_step.simps)+

definition free_for :: "lock \<Rightarrow> thread \<Rightarrow> bool" where
  "free_for l th \<longleftrightarrow> \<not> holds th (snd l) \<and> \<not> waiting_writer (snd l) th"

lemma granted_pair:
  assumes "free_for l b"
  shows "granted queue [in_section [] (l # ls) True secs, b] l" "granted queue [b, in_section [] (l # ls) True secs] l"
proof -
  obtain mode n where "l = (mode, n)" by (cases l)
  with assms show "granted queue [in_section [] (l # ls) True secs, b] l" "granted queue [b, in_section [] (l # ls) True secs] l"
    by (cases mode; force simp: granted_def free_for_def in_section_def holds_def waiting_writer_def)+
qed

lemma three_steps: "r a b \<Longrightarrow> r b c \<Longrightarrow> r c d \<Longrightarrow> r\<^sup>*\<^sup>* a d"
  by (meson converse_rtranclp_into_rtranclp r_into_rtranclp)

lemma first_lock:
  assumes "free_for l b"
  shows "(lock_step queue)\<^sup>*\<^sup>* [idle_thread ((l # ls) # secs), b] [in_section [l] ls False secs, b]"
    "(lock_step queue)\<^sup>*\<^sup>* [b, idle_thread ((l # ls) # secs)] [b, in_section [l] ls False secs]"
  by (rule three_steps, rule pair_steps(1), rule section_steps(1), rule pair_steps(1), rule section_steps(2),
      rule pair_steps(1), rule section_steps(3), rule granted_pair(1) [OF assms])
    (rule three_steps, rule pair_steps(2), rule section_steps(1), rule pair_steps(2), rule section_steps(2),
      rule pair_steps(2), rule section_steps(3), rule granted_pair(2) [OF assms])

lemma look_up:
  assumes "free_for (RLock, BackendMu) b"
  shows "(lock_step queue)\<^sup>*\<^sup>* [idle_thread (table_section # secs), b] [idle_thread secs, b]"
    "(lock_step queue)\<^sup>*\<^sup>* [b, idle_thread (table_section # secs)] [b, idle_thread secs]"
  using first_lock [OF assms, of queue "[]" secs]
  by (auto simp: table_section_def intro: rtranclp.rtrancl_into_rtrancl pair_steps section_steps(4))

text \<open>Each has locked its first table and waits for the other's.\<close>

definition crossed :: "string \<Rightarrow> string \<Rightarrow> thread list" where
  "crossed s t =
     [in_section [(Lock, TableMu s)] [(Lock, TableMu t)] True [], in_section [(Lock, TableMu t)] [(Lock, TableMu s)] True []]"

lemma two_tables:
  assumes "fmlookup m s \<noteq> None" "fmlookup m t \<noteq> None" "s \<noteq> t" "map txWriteTableName ws = [s, t]"
  shows "call_sections m (CallTransactWrite ws) =
     [table_section, table_section, [(Lock, TableMu s), (Lock, TableMu t)]]"
proof -
  have "length ws = 2" using arg_cong [OF assms(4), of length] by simp
  with assms show ?thesis by (auto simp: call_sections_def tx_sections_def dedup_def Let_def)
qed

lemma crossed_reached:
  assumes "s \<noteq> t"
  defines "secs \<equiv> \<lambda>a b. [table_section, table_section, [(Lock, TableMu a), (Lock, TableMu b)]]"
  shows "(lock_step queue)\<^sup>*\<^sup>* [idle_thread (secs s t), idle_thread (secs t s)] (crossed s t)"
proof -
  let ?S = "in_section [(Lock, TableMu s)] [(Lock, TableMu t)] False []"
  let ?T = "in_section [(Lock, TableMu t)] [(Lock, TableMu s)] False []"
  note [simp] = secs_def free_for_def holds_def waiting_writer_def idle_thread_def in_section_def
  have "(lock_step queue)\<^sup>*\<^sup>* [idle_thread (secs s t), idle_thread (secs t s)] [?S, idle_thread (secs t s)]"
    unfolding secs_def by (rule rtranclp_trans [OF look_up(1)], simp, rule rtranclp_trans [OF look_up(1)], simp, rule first_lock(1), simp)
  also have "(lock_step queue)\<^sup>*\<^sup>* \<dots> [?S, ?T]"
    unfolding secs_def by (rule rtranclp_trans [OF look_up(2)], simp, rule rtranclp_trans [OF look_up(2)], simp,
        rule first_lock(2)) (use assms(1) in simp)
  also have "lock_step queue \<dots> [in_section [(Lock, TableMu s)] [(Lock, TableMu t)] True [], ?T]"
    by (rule pair_steps(1) [OF section_steps(2)])
  also have "lock_step queue \<dots> (crossed s t)"
    unfolding crossed_def by (rule pair_steps(2) [OF section_steps(2)])
  finally show ?thesis .
qed

lemma crossed_stuck: "\<not> lock_step queue (crossed s t) ths" "\<not> list_all th_done (crossed s t)"
proof -
  have "\<not> th_step queue (crossed s t) (crossed s t ! i) th" if "i < 2" for i th
    using that
    by (auto simp: less_2_cases_iff crossed_def in_section_def th_step.simps granted_def holds_def)
  then show "\<not> lock_step queue (crossed s t) ths"
    by (auto simp: lock_step.simps crossed_def)
  show "\<not> list_all th_done (crossed s t)" by (simp add: crossed_def th_done_def in_section_def)
qed

end
