(* ===== verification/LockExamples.thy ===== *)
theory LockExamples
  imports MemLocks ClientExamples
begin

text \<open>Transactions over two tables.\<close>

definition ex_two :: MemoryBackend where
  "ex_two = fmap_of_list [(''t'', ex_td ex_db0), (''tt'', ex_td ex_db0)]"

definition ex_tput :: "string \<Rightarrow> TransactWriteItem" where
  "ex_tput t =
     \<lparr>tw_Put = Some \<lparr>tp_TableName = t, tp_Item = ex_item ''1'' ''x'', tp_ConditionExpression = [], tp_Names = fmempty, tp_Values = fmempty\<rparr>,
      tw_Delete = None, tw_Update = None, tw_ConditionCheck = None\<rparr>"

definition ex_both :: "call list" where
  "ex_both = [CallTransactWrite [ex_tput ''t'', ex_tput ''tt''], CallTransactWrite [ex_tput ''t'', ex_tput ''tt'', ex_tput ''t'']]"

lemma ex_two [simp]: "fmlookup ex_two ''t'' \<noteq> None" "fmlookup ex_two ''tt'' \<noteq> None"
  by (simp_all add: ex_two_def)

lemma ex_tput [simp]: "txWriteTableName (ex_tput t) = t"
  by (simp add: ex_tput_def txWriteTableName_def)

lemma ex_both_ordered: "list_all (locks_in_order length) ex_both"
  by (simp add: ex_both_def locks_in_order_def tx_tables_def dedup_def)

lemma ex_both_start:
  "start_calls ex_two ex_both =
     [idle_thread [table_section, table_section, [(Lock, TableMu ''t''), (Lock, TableMu ''tt'')]],
      idle_thread [table_section, table_section, table_section, [(Lock, TableMu ''t''), (Lock, TableMu ''tt'')]]]"
  by (simp add: start_calls_def ex_both_def call_sections_def tx_sections_def dedup_def Let_def start_thread_def idle_thread_def ex_two_def)

text \<open>The first transaction has locked its first table.\<close>

definition ex_locked :: "thread list" where
  "ex_locked = [in_section [(Lock, TableMu ''t'')] [(Lock, TableMu ''tt'')] False [],
      idle_thread [table_section, table_section, table_section, [(Lock, TableMu ''t''), (Lock, TableMu ''tt'')]]]"

lemma ex_both_run: "(lock_step True)\<^sup>*\<^sup>* (start_calls ex_two ex_both) ex_locked"
  unfolding ex_both_start ex_locked_def
  by (rule rtranclp_trans [OF look_up(1)], simp add: free_for_def holds_def waiting_writer_def idle_thread_def,
      rule rtranclp_trans [OF look_up(1)], simp add: free_for_def holds_def waiting_writer_def idle_thread_def,
      rule first_lock(1)) (simp add: free_for_def holds_def waiting_writer_def idle_thread_def)

end
