(* ===== verification/MemFootprint.thy ===== *)
theory MemFootprint
  imports MemLocks
begin

text \<open>
  The locks are enough: what a call of the in-memory backend reads it has locked, and what it changes it has locked for writing.
  Only the set of tables, guarded by the mutex of the map, is read beside them.  So calls whose locks do not conflict commute.
\<close>

definition call_locks :: "MemoryBackend \<Rightarrow> call \<Rightarrow> lock set" where
  "call_locks m c = (\<Union>sec \<in> set (call_sections m c). set sec)"

text \<open>\<open>f\<close> reads the tables of \<open>R\<close> and changes those of \<open>W\<close> only.\<close>

definition agree :: "string set \<Rightarrow> MemoryBackend \<Rightarrow> MemoryBackend \<Rightarrow> bool" where
  "agree R m m' \<longleftrightarrow> fmdom m' = fmdom m \<and> (\<forall>t \<in> R. fmlookup m' t = fmlookup m t)"

definition confined :: "string set \<Rightarrow> string set \<Rightarrow> (MemoryBackend, 'a) op \<Rightarrow> MemoryBackend \<Rightarrow> bool" where
  "confined R W f m \<longleftrightarrow>
     agree (- W) m (snd (f m)) \<and>
     (\<forall>m'. agree R m m' \<longrightarrow> fst (f m') = fst (f m) \<and> agree W (snd (f m)) (snd (f m')))"

lemma agree_refl [simp]: "agree R m m"
  by (simp add: agree_def)

lemma agree_mono: "agree R m m' \<Longrightarrow> S \<subseteq> R \<Longrightarrow> agree S m m'"
  by (auto simp: agree_def)

lemma agree_table: "agree R m m' \<Longrightarrow> t \<in> R \<or> t |\<notin>| fmdom m \<Longrightarrow> table t m' = table t m"
  by (auto simp: agree_def table_def fmdom_notD split: option.split)

lemma agree_upd:
  assumes "agree R m m'"
  shows "agree (insert t R) (fmupd t td m) (fmupd t td m')"
  using assms by (auto simp: agree_def)

lemma agree_inside: "t \<in> W \<Longrightarrow> t |\<in>| fmdom m \<Longrightarrow> agree (- W) m (fmupd t td m)"
  by (auto simp: agree_def)

lemma agree_trans: "agree R m m' \<Longrightarrow> agree R m' m'' \<Longrightarrow> agree R m m''"
  by (simp add: agree_def)

lemma confinedI:
  assumes "agree (- W) m (snd (f m))"
    and "\<And>m'. agree R m m' \<Longrightarrow> fst (f m') = fst (f m) \<and> agree W (snd (f m)) (snd (f m'))"
  shows "confined R W f m"
  unfolding confined_def using assms by blast

lemma confinedD:
  assumes "confined R W f m"
  shows "agree (- W) m (snd (f m))"
    "agree R m m' \<Longrightarrow> fst (f m') = fst (f m)" "agree R m m' \<Longrightarrow> agree W (snd (f m)) (snd (f m'))"
  using assms unfolding confined_def by blast+

lemma giving_eq: "giving g f m = (map_sum id g (fst (f m)), snd (f m))"
  by (simp add: giving_def sbind_def case_prod_beta split: sum.split)

lemma confined_giving:
  assumes "confined R W f m"
  shows "confined R W (giving g f) m"
proof (rule confinedI)
  show "agree (- W) m (snd (giving g f m))" using confinedD(1) [OF assms] by (simp add: giving_eq)
  fix m' assume "agree R m m'"
  from confinedD(2,3) [OF assms this]
  show "fst (giving g f m') = fst (giving g f m) \<and> agree W (snd (giving g f m)) (snd (giving g f m'))"
    by (simp add: giving_eq)
qed

lemma confined_reading:
  assumes "\<And>m'. agree R m m' \<Longrightarrow> f m' = f m"
  shows "confined R {} (reading f) m"
proof (rule confinedI)
  show "agree (- {}) m (snd (reading f m))" by (simp add: reading_def)
  fix m' assume m': "agree R m m'"
  from assms [OF m'] agree_mono [OF m', of "{}"]
  show "fst (reading f m') = fst (reading f m) \<and> agree {} (snd (reading f m)) (snd (reading f m'))"
    by (simp add: reading_def)
qed

lemma confined_writing:
  fixes g :: "tableData \<Rightarrow> ('a \<times> tableData) result" and t :: string
  defines "f \<equiv> writing (\<lambda>m. bind (table t m) (\<lambda>td. bind (g td) (\<lambda>(x, td'). Inr (x, fmupd t td' m))))"
  assumes "t \<in> R \<or> t |\<notin>| fmdom m"
  shows "confined R (if t |\<in>| fmdom m then {t} else {}) f m"
proof (cases "fmlookup m t")
  case None
  then have m: "t |\<notin>| fmdom m" by (rule fmdom_notI)
  have f: "f m' = (Inl e, m')" if "table t m' = Inl e" for m' e using that by (simp add: f_def writing_def)
  from None obtain e where e: "table t m = Inl e" by (auto simp: table_def)
  show ?thesis
  proof (rule confinedI)
    show "agree (- (if t |\<in>| fmdom m then {t} else {})) m (snd (f m))" by (simp add: f [OF e])
    fix m' assume m': "agree R m m'"
    then have "table t m' = Inl e" using agree_table [OF m'] m e by simp
    then show "fst (f m') = fst (f m) \<and> agree (if t |\<in>| fmdom m then {t} else {}) (snd (f m)) (snd (f m'))"
      using m agree_mono [OF m', of "{}"] by (simp add: f e)
  qed
next
  case (Some td)
  then have m: "t |\<in>| fmdom m" by (rule fmdomI)
  from Some have e: "table t m = Inr td" by (simp add: table_def)
  have f: "f m' = (case g td of Inl e \<Rightarrow> (Inl e, m') | Inr (x, td') \<Rightarrow> (Inr x, fmupd t td' m'))" if "table t m' = Inr td" for m'
    using that by (simp add: f_def writing_def split: sum.split prod.split)
  show ?thesis
  proof (rule confinedI)
    show "agree (- (if t |\<in>| fmdom m then {t} else {})) m (snd (f m))"
      using m by (auto simp: f [OF e] agree_inside split: sum.split)
    fix m' assume m': "agree R m m'"
    with m assms(2) have "t \<in> R" by simp
    with m' e have "table t m' = Inr td" "fmlookup m' t = fmlookup m t" "fmdom m' = fmdom m"
      using agree_table [OF m'] by (simp_all add: agree_def)
    then show "fst (f m') = fst (f m) \<and> agree (if t |\<in>| fmdom m then {t} else {}) (snd (f m)) (snd (f m'))"
      using m by (auto simp: f e agree_def split: sum.split)
  qed
qed

subsection \<open>Loops over tables\<close>

text \<open>The tables a batch gets to.\<close>

definition found :: "MemoryBackend \<Rightarrow> string list \<Rightarrow> string list" where
  "found m ts = takeWhile (\<lambda>t. t |\<in>| fmdom m) ts"

lemma found_simps [simp]: "found m [] = []" "found m (t # ts) = (if t |\<in>| fmdom m then t # found m ts else [])"
  by (simp_all add: found_def)

lemma found_cong: "fmdom m' = fmdom m \<Longrightarrow> found m' ts = found m ts"
  by (simp add: found_def)

lemma table_cases: "if t |\<in>| fmdom m then table t m = Inr (the (fmlookup m t)) else \<exists>e. table t m = Inl e \<and> (\<forall>m'. t |\<notin>| fmdom m' \<longrightarrow> table t m' = Inl e)"
  by (auto simp: table_def fmdom_notD split: option.split)

lemma batch_get_confined:
  assumes "agree (set (found m (map fst reqs))) m m'"
  shows "batch_get_tables reqs m' rs = batch_get_tables reqs m rs"
  using assms
proof (induction reqs arbitrary: rs)
  case (Cons r reqs)
  obtain t kp where r: "r = (t, kp)" by (cases r)
  show ?case
  proof (cases "t |\<in>| fmdom m")
    case True
    with Cons.prems r have "table t m' = table t m" "agree (set (found m (map fst reqs))) m m'"
      by (auto intro: agree_table agree_mono)
    with Cons.IH r show ?thesis by (auto intro!: bind_cong)
  next
    case False
    with Cons.prems table_cases [of t m] r show ?thesis by (auto simp: agree_def)
  qed
qed simp

text \<open>A write to one table followed by the rest of a loop.\<close>

lemma confined_step:
  assumes "t |\<in>| fmdom m" "t \<in> R" "W \<subseteq> R" "R \<subseteq> insert t W" and td: "fmlookup m t = Some td"
    and f: "\<And>m'. fmlookup m' t = Some td \<Longrightarrow> f m' = (if stop then (r, fmupd t td' m') else rest (fmupd t td' m'))"
    and rest: "\<And>m'. fmdom m' = fmdom m \<Longrightarrow> confined W W rest m'"
  shows "confined R R f m"
proof (rule confinedI)
  have in': "agree (- R) m (fmupd t td' m)" using assms(1,2) by (intro agree_inside)
  have dom: "fmdom (fmupd t td' m') = fmdom m" if "fmdom m' = fmdom m" for m' using that assms(1) by auto
  have frame: "agree (- W) (fmupd t td' m') (snd (rest (fmupd t td' m')))" if "fmdom m' = fmdom m" for m'
    by (rule confinedD(1) [OF rest [OF dom [OF that]]])
  show "agree (- R) m (snd (f m))"
    using agree_trans [OF in'] in' agree_mono [OF frame [of m], of "- R"] assms(3) by (auto simp: f [OF td])
  fix m' assume m': "agree R m m'"
  with assms(2) td have m't: "fmlookup m' t = Some td" "fmdom m' = fmdom m" by (simp_all add: agree_def)
  have up: "agree R (fmupd t td' m) (fmupd t td' m')" using m' by (auto simp: agree_def)
  have "fst (rest (fmupd t td' m')) = fst (rest (fmupd t td' m)) \<and> agree R (snd (rest (fmupd t td' m))) (snd (rest (fmupd t td' m')))"
  proof -
    note r = confinedD(2,3) [OF rest [OF dom [OF refl]] agree_mono [OF up assms(3)]]
    have "t \<notin> W \<Longrightarrow> fmlookup (snd (rest (fmupd t td' m'))) t = fmlookup (snd (rest (fmupd t td' m))) t"
      using frame [of m] frame [OF m't(2)] by (simp add: agree_def)
    with r assms(4) show ?thesis by (auto simp: agree_def)
  qed
  with up show "fst (f m') = fst (f m) \<and> agree R (snd (f m)) (snd (f m'))"
    by (simp add: f [OF td] f [OF m't(1)])
qed

lemma batch_write_confined:
  "ts = found m (map fst reqs) \<Longrightarrow> confined (set ts) (set ts) (batch_write_tables reqs) m"
proof (induction reqs arbitrary: m ts)
  case (Cons r reqs)
  obtain t wrs where r: "r = (t, wrs)" by (cases r)
  show ?case
  proof (cases "t |\<in>| fmdom m")
    case False
    then have f: "batch_write_tables (r # reqs) m' = (Inl e, m')" if "table t m = Inl e" "fmdom m' = fmdom m" for m' e
      using that by (simp add: r table_def fmdom_notD split: option.splits)
    from False obtain e where e: "table t m = Inl e" using table_cases [of t m] by auto
    from Cons.prems False have "ts = []" by (simp add: r)
    then show ?thesis
      by (intro confinedI) (auto simp: f [OF e] agree_def)
  next
    case True
    then obtain td where td: "fmlookup m t = Some td" by (auto elim: fmdomE)
    obtain res td' where b: "batch_writes wrs td = (res, td')" by (cases "batch_writes wrs td")
    let ?W = "set (found m (map fst reqs))"
    show ?thesis
    proof (rule confined_step [OF True _ _ _ td])
      show "t \<in> set ts" "?W \<subseteq> set ts" "set ts \<subseteq> insert t ?W" using True Cons.prems by (auto simp: r)
      show "batch_write_tables (r # reqs) m' =
          (if isl res then (Inl (projl res), fmupd t td' m') else batch_write_tables reqs (fmupd t td' m'))"
        if "fmlookup m' t = Some td" for m'
        using that b by (simp add: r table_def split: sum.split)
      show "confined ?W ?W (batch_write_tables reqs) m'" if "fmdom m' = fmdom m" for m'
        using Cons.IH [of _ m'] found_cong [OF that] by simp
    qed
  qed
qed (auto intro!: confinedI simp: agree_def)

lemma tx_applies_confined:
  "set (map txWriteTableName twis) \<subseteq> fset (fmdom m) \<Longrightarrow>
   confined (set (map txWriteTableName twis)) (set (map txWriteTableName twis)) (tx_applies twis) m"
proof (induction twis arbitrary: m)
  case (Cons w twis)
  let ?t = "txWriteTableName w" and ?W = "set (map txWriteTableName twis)"
  from Cons.prems have t: "?t |\<in>| fmdom m" by simp
  then obtain td where td: "fmlookup m ?t = Some td" by (auto elim: fmdomE)
  show ?case
  proof (cases "tx_apply1 w td")
    case (Inl e)
    then have "tx_applies (w # twis) m' = (Inl e, m')" if "fmlookup m' ?t = Some td" for m'
      using that by (simp add: table_def)
    with td show ?thesis by (intro confinedI) (auto simp: agree_def)
  next
    case (Inr td')
    show ?thesis
    proof (rule confined_step [OF t _ _ _ td])
      show "tx_applies (w # twis) m' = (if False then (Inr (), fmupd ?t td' m') else tx_applies twis (fmupd ?t td' m'))"
        if "fmlookup m' ?t = Some td" for m'
        using that Inr by (simp add: table_def)
      show "confined ?W ?W (tx_applies twis) m'" if "fmdom m' = fmdom m" for m'
        using Cons that by simp
    qed auto
  qed
qed (auto intro!: confinedI simp: agree_def)

subsection \<open>Calls\<close>

definition locked :: "lock_mode set \<Rightarrow> MemoryBackend \<Rightarrow> call \<Rightarrow> string set" where
  "locked modes m c = {t. \<exists>mode \<in> modes. (mode, TableMu t) \<in> call_locks m c}"

lemma dedup_set [simp]: "set (dedup ts) = set ts"
proof -
  have "set (dedup_seen seen ts) = set ts - set seen" for seen
    by (induction seen ts rule: dedup_seen.induct) auto
  then show ?thesis by (simp add: dedup_def)
qed

lemma lookup_None: "fmlookup m t = None \<longleftrightarrow> t |\<notin>| fmdom m"
  by (meson fmdom_notD fmdom_notI)

lemma batch_locks:
  "(mo, TableMu t) \<in> (\<Union>sec \<in> set (batch_sections mode m ts). set sec) \<longleftrightarrow> mo = mode \<and> t \<in> set (found m ts)"
  by (induction mode m ts rule: batch_sections.induct) (simp_all add: table_section_def lookup_None del: not_None_eq UN_iff, auto)

lemma tx_locks:
  "(mo, TableMu t) \<in> (\<Union>sec \<in> set (tx_sections mode m ts). set sec) \<longleftrightarrow>
   mo = mode \<and> set ts \<subseteq> fset (fmdom m) \<and> t \<in> set ts"
proof -
  have "takeWhile (\<lambda>t. fmlookup m t \<noteq> None) ts = ts \<longleftrightarrow> set ts \<subseteq> fset (fmdom m)"
    unfolding takeWhile_eq_all_conv lookup_None by auto
  then show ?thesis by (auto simp: tx_sections_def table_section_def Let_def)
qed

lemma locked_batch:
  assumes "call_sections m c = batch_sections mode m ts"
  shows "locked modes m c = (if mode \<in> modes then set (found m ts) else {})"
  unfolding locked_def call_locks_def assms batch_locks by auto

lemma locked_tx:
  assumes "call_sections m c = tx_sections mode m ts"
  shows "locked modes m c = (if mode \<in> modes \<and> set ts \<subseteq> fset (fmdom m) then set ts else {})"
  unfolding locked_def call_locks_def assms tx_locks by auto

lemma locked_none: "call_sections m c = [] \<Longrightarrow> locked modes m c = {}"
  by (simp add: locked_def call_locks_def)

lemma confined_const: "(\<And>m'. f m' = (r, m')) \<Longrightarrow> confined R {} f m"
  by (intro confinedI) (auto simp: agree_def)

lemma resolve_agree:
  "(\<forall>t \<in> set ts. t |\<in>| fmdom m) \<Longrightarrow> agree (set ts) m m' \<Longrightarrow> resolve_tables ts m' = resolve_tables ts m"
proof (induction ts)
  case (Cons t ts)
  then have "table t m' = table t m" "agree (set ts) m m'" by (auto intro: agree_table agree_mono)
  with Cons show ?case by simp
qed simp

lemma resolve_missing:
  "\<not> (\<forall>t \<in> set ts. t |\<in>| fmdom m) \<Longrightarrow> resolve_tables ts m = Inl (newError ErrValidation ''memdb: table does not exist'')"
proof (induction ts)
  case (Cons t ts)
  have t: "t |\<notin>| fmdom m \<Longrightarrow> table t m = Inl (newError ErrValidation ''memdb: table does not exist'')"
    by (simp add: table_def fmdom_notD)
  show ?case
  proof (cases "t |\<in>| fmdom m")
    case True
    then have "table t m = Inr (the (fmlookup m t))" by (auto simp: table_def elim: fmdomE)
    with Cons True show ?thesis by simp
  next
    case False
    with t show ?thesis by simp
  qed
qed simp

lemma resolve_cases:
  obtains (all) "\<forall>t \<in> set ts. t |\<in>| fmdom m" "\<And>m'. agree (set ts) m m' \<Longrightarrow> resolve_tables ts m' = resolve_tables ts m"
  | (missing) e where "\<not> set ts \<subseteq> fset (fmdom m)" "\<And>m'. fmdom m' = fmdom m \<Longrightarrow> resolve_tables ts m' = Inl e"
proof (cases "\<forall>t \<in> set ts. t |\<in>| fmdom m")
  case True
  with all resolve_agree show ?thesis by blast
next
  case False
  with resolve_missing [of ts] show ?thesis by (intro missing) auto
qed

lemma read_confined:
  assumes "\<And>m. g m = bind (table t m) h" "call_sections m c = batch_sections mode m [t]" "RLock \<in> modes" "mode = RLock"
  shows "confined (locked modes m c) {} (reading g) m"
proof (rule confined_reading)
  fix m' assume "agree (locked modes m c) m m'"
  then have "table t m' = table t m"
    unfolding locked_batch [OF assms(2)] using assms(3,4) by (intro agree_table) (auto split: if_splits)
  then show "g m' = g m" by (simp add: assms(1))
qed

lemma write_confined:
  assumes "\<And>m. g m = bind (table t m) (\<lambda>td. bind (h td) (\<lambda>(x, td'). Inr (x, fmupd t td' m)))"
    "call_sections m c = batch_sections Lock m [t]"
  shows "confined (locked UNIV m c) (locked {Lock} m c) (writing g) m"
proof -
  have "g = (\<lambda>m. bind (table t m) (\<lambda>td. bind (h td) (\<lambda>(x, td'). Inr (x, fmupd t td' m))))"
    using assms(1) by (simp add: fun_eq_iff)
  moreover have "locked UNIV m c = (if t |\<in>| fmdom m then {t} else {})" "locked {Lock} m c = (if t |\<in>| fmdom m then {t} else {})"
    unfolding locked_batch [OF assms(2)] by simp_all
  ultimately show ?thesis using confined_writing [of t _ m h] by simp
qed

lemma writes_lock: "locked {Lock} m c \<subseteq> locked UNIV m c"
  by (auto simp: locked_def)

lemma TransactGet_confined:
  "confined (locked UNIV m (CallTransactGet gs)) {} (reading (TransactGetItems gs)) m"
proof (rule confined_reading)
  let ?ts = "map tg_TableName gs"
  fix m' assume m': "agree (locked UNIV m (CallTransactGet gs)) m m'"
  show "TransactGetItems gs m' = TransactGetItems gs m"
  proof (cases "length gs > 100")
    case False
    then have "call_sections m (CallTransactGet gs) = tx_sections RLock m ?ts" by (simp add: call_sections_def)
    note l = locked_tx [OF this, of UNIV]
    show ?thesis
    proof (cases rule: resolve_cases [of ?ts m])
      case all
      then have "locked UNIV m (CallTransactGet gs) = set ?ts" unfolding l by auto
      with m' all(2) [of m'] show ?thesis by (simp add: TransactGetItems_def)
    next
      case (missing e)
      with m' have "resolve_tables ?ts m' = Inl e" "resolve_tables ?ts m = Inl e" by (simp_all add: agree_def)
      then show ?thesis by (simp add: TransactGetItems_def)
    qed
  qed (simp add: TransactGetItems_def)
qed

lemma TransactWrite_confined:
  "confined (locked UNIV m (CallTransactWrite ws)) (locked {Lock} m (CallTransactWrite ws)) (TransactWriteItems ws) m"
proof (cases "length ws > 100")
  case True
  then have "call_sections m (CallTransactWrite ws) = []" by (simp add: call_sections_def)
  with True show ?thesis by (auto simp: locked_none TransactWriteItems_def intro!: confined_const)
next
  case False
  let ?ts = "map txWriteTableName ws"
  from False have "call_sections m (CallTransactWrite ws) = tx_sections Lock m ?ts" by (simp add: call_sections_def)
  note l = locked_tx [OF this]
  show ?thesis
  proof (cases rule: resolve_cases [of ?ts m])
    case all
    then have L: "locked modes m (CallTransactWrite ws) = (if Lock \<in> modes then set ?ts else {})" for modes
      unfolding l by auto
    obtain c where c: "bind (resolve_tables ?ts m) (\<lambda>tds. tx_checks (zip ws tds)) = c" by simp
    have f: "TransactWriteItems ws m' = (case c of Inl e \<Rightarrow> (Inl e, m')
        | Inr (reasons, failed) \<Rightarrow> if failed then (Inl (TxCancelledError reasons), m') else tx_applies ws m')"
      if "agree (set ?ts) m m'" for m'
      using all(2) [OF that] False c by (simp add: TransactWriteItems_def)
    note ap = confinedD [OF tx_applies_confined [of ws m]]
    have sub: "set ?ts \<subseteq> fset (fmdom m)" using all(1) by auto
    have "confined (set ?ts) (set ?ts) (TransactWriteItems ws) m"
    proof (rule confinedI)
      show "agree (- set ?ts) m (snd (TransactWriteItems ws m))"
        using ap(1) [OF sub] by (auto simp: f [OF agree_refl] split: sum.split)
      fix m' assume m': "agree (set ?ts) m m'"
      show "fst (TransactWriteItems ws m') = fst (TransactWriteItems ws m) \<and>
          agree (set ?ts) (snd (TransactWriteItems ws m)) (snd (TransactWriteItems ws m'))"
        using m' ap(2) [OF sub m'] ap(3) [OF sub m']
        by (auto simp: f [OF agree_refl] f [OF m'] simp del: set_map split: sum.split)
    qed
    then show ?thesis by (simp add: L)
  next
    case (missing e)
    then have L: "locked modes m (CallTransactWrite ws) = {}" for modes
      unfolding l by auto
    have "TransactWriteItems ws m' = (Inl e, m')" if "fmdom m' = fmdom m" for m'
      using missing(2) [OF that] False by (simp add: TransactWriteItems_def)
    then show ?thesis unfolding L by (intro confinedI) (auto simp: agree_def)
  qed
qed

lemma BatchGet_confined:
  "confined (locked UNIV m (CallBatchGet rs)) {} (be_BatchGetItem memdb rs) m"
proof -
  have "BatchGetItem rs m' = BatchGetItem rs m" if "agree (locked UNIV m (CallBatchGet rs)) m m'" for m'
  proof (cases "sum_list (map (\<lambda>(_, kp). length (kp_Keys kp)) rs) > 100")
    case False
    then have "call_sections m (CallBatchGet rs) = batch_sections RLock m (map fst rs)" by (simp add: call_sections_def)
    from that [unfolded locked_batch [OF this]] False batch_get_confined [of m rs m'] show ?thesis
      by (simp add: BatchGetItem_def)
  qed (simp add: BatchGetItem_def)
  moreover have "be_BatchGetItem memdb rs = reading (\<lambda>m. bind (BatchGetItem rs m) (\<lambda>rs. Inr \<lparr>bg_Responses = rs, bg_UnprocessedKeys = fmempty\<rparr>))"
    by (simp add: memdb_def)
  ultimately show ?thesis by (auto intro!: confined_reading bind_cong)
qed

lemma BatchWrite_confined:
  "confined (locked UNIV m (CallBatchWrite rs)) (locked {Lock} m (CallBatchWrite rs)) (BatchWriteItem rs) m"
proof (cases "sum_list (map (\<lambda>(_, wrs). length wrs) rs) > 25")
  case True
  then have "call_sections m (CallBatchWrite rs) = []" by (simp add: call_sections_def)
  with True show ?thesis by (auto simp: locked_none BatchWriteItem_def intro!: confined_const)
next
  case False
  then have "call_sections m (CallBatchWrite rs) = batch_sections Lock m (map fst rs)" by (simp add: call_sections_def)
  note l = locked_batch [OF this]
  from False have "BatchWriteItem rs = batch_write_tables rs" by (auto simp: BatchWriteItem_def fun_eq_iff)
  with batch_write_confined [OF refl, of m rs] show ?thesis unfolding l by simp
qed

lemma batch_write_giving: "be_BatchWriteItem memdb rs = giving (\<lambda>_. \<lparr>bw_UnprocessedItems = fmempty\<rparr>) (BatchWriteItem rs)"
  by (simp add: fun_eq_iff memdb_def giving_def sbind_def split: prod.split sum.split)

lemma only_reads:
  "\<forall>sec \<in> set (batch_sections RLock m ts). \<forall>l \<in> set sec. fst l = RLock"
  "\<forall>sec \<in> set (tx_sections RLock m ts). \<forall>l \<in> set sec. fst l = RLock"
  by (induction RLock m ts rule: batch_sections.induct) (auto simp: table_section_def tx_sections_def Let_def)

lemma no_writes: "locked {Lock} m (CallGet r1) = {}" "locked {Lock} m (CallQuery r2) = {}" "locked {Lock} m (CallScan r3) = {}"
  "locked {Lock} m (CallBatchGet r4) = {}" "locked {Lock} m (CallTransactGet r5) = {}"
  using only_reads(1) [of m "[gi_TableName r1]"] only_reads(1) [of m "[q_TableName r2]"] only_reads(1) [of m "[s_TableName r3]"]
    only_reads(1) [of m "map fst r4"] only_reads(2) [of m "map tg_TableName r5"]
  unfolding locked_def call_locks_def call_sections_def call.case by (fastforce split: if_splits)+

lemma call_confined: "confined (locked UNIV m c) (locked {Lock} m c) (invoke memdb c) m"
proof (cases c)
  case (CallGet r)
  then show ?thesis
    by (simp add: no_writes invoke_def memdb_def)
      (intro confined_giving read_confined [where mode = RLock], auto simp: GetItem_def call_sections_def)
next
  case (CallPut r)
  have "bind (PutItem r m) (\<lambda>m'. Inr ((), m')) =
      bind (table (pi_TableName r) m) (\<lambda>td. bind (bind (put_table r td) (\<lambda>td'. Inr ((), td'))) (\<lambda>(x, td'). Inr (x, fmupd (pi_TableName r) td' m)))" for m
    by (simp add: PutItem_def bind_assoc)
  with CallPut show ?thesis
    by (simp add: invoke_def memdb_def)
      (intro confined_giving write_confined, auto simp: call_sections_def)
next
  case (CallDelete r)
  have "bind (DeleteItem r m) (\<lambda>m'. Inr ((), m')) =
      bind (table (di_TableName r) m) (\<lambda>td. bind (bind (delete_table r td) (\<lambda>td'. Inr ((), td'))) (\<lambda>(x, td'). Inr (x, fmupd (di_TableName r) td' m)))" for m
    by (simp add: DeleteItem_def bind_assoc)
  with CallDelete show ?thesis
    by (simp add: invoke_def memdb_def)
      (intro confined_giving write_confined, auto simp: call_sections_def)
next
  case (CallUpdate r)
  then show ?thesis
    by (simp add: invoke_def memdb_def)
      (intro confined_giving write_confined, auto simp: UpdateItem_def call_sections_def)
next
  case (CallQuery r)
  then show ?thesis
    by (simp add: no_writes invoke_def memdb_def)
      (intro confined_giving read_confined [where mode = RLock], auto simp: Query_def call_sections_def)
next
  case (CallScan r)
  then show ?thesis
    by (simp add: no_writes invoke_def memdb_def)
      (intro confined_giving read_confined [where mode = RLock], auto simp: Scan_def call_sections_def)
next
  case (CallBatchGet rs)
  with BatchGet_confined show ?thesis by (simp add: no_writes invoke_def confined_giving)
next
  case (CallBatchWrite rs)
  with BatchWrite_confined show ?thesis by (simp add: batch_write_giving invoke_def confined_giving)
next
  case (CallTransactGet gs)
  with TransactGet_confined show ?thesis by (simp add: no_writes invoke_def memdb_def confined_giving)
next
  case (CallTransactWrite ws)
  with TransactWrite_confined show ?thesis by (simp add: invoke_def memdb_def confined_giving)
qed

subsection \<open>Calls without conflict\<close>

text \<open>What a call locks depends on which tables there are only.\<close>

lemma sections_dom: "fmdom m' = fmdom m \<Longrightarrow> call_sections m' c = call_sections m c"
proof -
  assume d: "fmdom m' = fmdom m"
  have l: "fmlookup m' t = None \<longleftrightarrow> fmlookup m t = None" for t by (simp add: lookup_None d)
  have b: "batch_sections mode m' ts = batch_sections mode m ts" for mode ts
    by (induction ts) (simp_all add: l del: not_None_eq)
  have "tx_sections mode m' ts = tx_sections mode m ts" for mode ts by (simp only: tx_sections_def l)
  with b show ?thesis by (cases c) (simp_all only: call_sections_def call.case)
qed

lemma locked_dom: "fmdom m' = fmdom m \<Longrightarrow> locked modes m' c = locked modes m c"
  by (simp only: locked_def call_locks_def sections_dom [of m' m])

definition no_conflict :: "MemoryBackend \<Rightarrow> call \<Rightarrow> call \<Rightarrow> bool" where
  "no_conflict m c c' \<longleftrightarrow> locked {Lock} m c \<inter> locked UNIV m c' = {} \<and> locked {Lock} m c' \<inter> locked UNIV m c = {}"

lemma after_unconflicting:
  assumes "no_conflict m c c'"
  shows "fst (invoke memdb c' (snd (invoke memdb c m))) = fst (invoke memdb c' m)"
    "agree (locked {Lock} m c') (snd (invoke memdb c' m)) (snd (invoke memdb c' (snd (invoke memdb c m))))"
    "agree (- locked {Lock} m c') (snd (invoke memdb c m)) (snd (invoke memdb c' (snd (invoke memdb c m))))"
proof -
  let ?m1 = "snd (invoke memdb c m)"
  have a: "agree (locked UNIV m c') m ?m1"
    by (rule agree_mono [OF confinedD(1) [OF call_confined]]) (use assms in \<open>auto simp: no_conflict_def\<close>)
  from confinedD(2,3) [OF call_confined a]
  show "fst (invoke memdb c' ?m1) = fst (invoke memdb c' m)"
    "agree (locked {Lock} m c') (snd (invoke memdb c' m)) (snd (invoke memdb c' ?m1))" .
  have "locked {Lock} ?m1 c' = locked {Lock} m c'" using a by (intro locked_dom) (simp add: agree_def)
  with confinedD(1) [OF call_confined, of ?m1 c']
  show "agree (- locked {Lock} m c') ?m1 (snd (invoke memdb c' ?m1))" by simp
qed

lemma unconflicting_states:
  assumes "no_conflict m c c'"
  shows "snd (invoke memdb c' (snd (invoke memdb c m))) = snd (invoke memdb c (snd (invoke memdb c' m)))"
proof (rule fmap_ext)
  have sym: "no_conflict m c' c" using assms by (auto simp: no_conflict_def)
  have disj: "locked {Lock} m c \<inter> locked {Lock} m c' = {}" using assms writes_lock by (auto simp: no_conflict_def)
  note 1 = after_unconflicting(2,3) [OF assms] and 2 = after_unconflicting(2,3) [OF sym]
  note f = confinedD(1) [OF call_confined, of m c] confinedD(1) [OF call_confined, of m c']
  fix t
  show "fmlookup (snd (invoke memdb c' (snd (invoke memdb c m)))) t = fmlookup (snd (invoke memdb c (snd (invoke memdb c' m)))) t"
    using 1 2 f disj by (cases "t \<in> locked {Lock} m c"; cases "t \<in> locked {Lock} m c'") (auto simp: agree_def)
qed

end
