(* ===== verification/ClientRuns.thy ===== *)
theory ClientRuns
  imports Rmw Transaction Batch Dynagotest Otel
begin

text \<open>
  Client operations on a wrapped backend.  A client reaches its backend only through the ten operations, so that behind a wrapper
  it gives what it gives on the wrapped backend: proved once for every \<open>backend_wrapper\<close>, by following the code of each operation.
\<close>

definition over :: "'t Backend \<Rightarrow> 's Table \<Rightarrow> 't Table" where
  "over be t = \<lparr>tb_name = tb_name t, tb_backend = be, tb_registry = tb_registry t\<rparr>"

lemma over_sel [simp]: "tb_name (over be t) = tb_name t" "tb_backend (over be t) = be" "tb_registry (over be t) = tb_registry t"
  by (simp_all add: over_def)

subsection \<open>Combinators\<close>

text \<open>What the operations are built from, apart from \<open>sbind\<close> and \<open>sreturn\<close>: a call whose error is handled.\<close>

lemma runs_as_iff: "runs_as view m' m \<longleftrightarrow> (\<forall>t r t'. m' t = (r, t') \<longrightarrow> m (view t) = (r, view t'))"
  by (simp add: runs_as_def prod_eq_iff) (metis prod.collapse)

lemma runs_as_handle:
  assumes "runs_as view m' m" "\<And>e. runs_as view (h' e) (h e)" "\<And>x. runs_as view (f' x) (f x)"
  shows "runs_as view (\<lambda>t. case m' t of (Inl e, t') \<Rightarrow> h' e t' | (Inr x, t') \<Rightarrow> f' x t')
    (\<lambda>s. case m s of (Inl e, s') \<Rightarrow> h e s' | (Inr x, s') \<Rightarrow> f x s')"
  using assms by (force simp: runs_as_iff split: prod.split sum.split)

lemma runs_as_if: "(b \<Longrightarrow> runs_as view m' m) \<Longrightarrow> (\<not> b \<Longrightarrow> runs_as view k' k) \<Longrightarrow> runs_as view (if b then m' else k') (if b then m else k)"
  by simp

lemma runs_as_pair: "runs_as view (\<lambda>t. (r, t)) (\<lambda>s. (r, s))"
  by (simp add: runs_as_iff)

lemmas runs_intros = runs_as_bind runs_as_return runs_as_if runs_as_pair

lemma iter_pages_runs:
  assumes "\<And>k. runs_as view (get' k) (get k)"
  shows "runs_as view (iter_pages n get' items fail k c) (iter_pages n get items fail k c)"
proof (induction n arbitrary: k c)
  case (Suc n)
  then show ?case
    using assms by (force simp: runs_as_iff split: prod.splits sum.splits)
qed (simp add: runs_as_iff)

lemma collection_loop_runs:
  assumes "\<And>k. runs_as view (get' k) (get k)"
  shows "runs_as view (collection_loop n get' conv L k acc) (collection_loop n get conv L k acc)"
  by (induction n arbitrary: k acc) (auto intro!: runs_intros assms split: prod.split)

lemma seed_items_runs:
  assumes "\<And>x. runs_as view (put' x) (put x)"
  shows "runs_as view (seed_items put' msg xs i) (seed_items put msg xs i)"
  by (induction xs arbitrary: i) (use assms in \<open>force simp: runs_as_iff split: prod.splits sum.splits\<close>)+

text \<open>An attempt of the read, modify, write loop, by its two calls.\<close>

lemma rmw_loop_Suc:
  "rmw_loop (Suc n) ms ents T t key fn cfg = (\<lambda>s. case rmw_prepare ms T t key fn cfg s of (Inl e, s1) \<Rightarrow> (Inl e, s1)
     | (Inr x, s1) \<Rightarrow> (\<lambda>s1. case Table_Put ms ents t (Some (T, fst x)) (snd x) s1 of
         (Inl e, s2) \<Rightarrow> (if errors_Is e ErrConditionFailed \<and> rc_versionAttr cfg \<noteq> [] \<and> 0 < n
              then rmw_loop n ms ents T t key fn cfg else (\<lambda>s. (Inl e, s))) s2
       | (Inr u, s2) \<Rightarrow> (Inr (), s2)) s1)"
  by (auto simp: fun_eq_iff split: prod.split sum.split)

subsection \<open>The operations\<close>

context backend_wrapper begin

lemmas backend_runs = GetItem PutItem DeleteItem UpdateItem Query Scan BatchGetItem BatchWriteItem TransactGetItems
  TransactWriteItems

lemma query_loop_runs: "runs_as view (query_loop n outer conv L req acc) (query_loop n inner conv L req acc)"
  by (induction n arbitrary: req acc) (auto intro!: runs_intros backend_runs split: prod.split)

lemma scan_loop_runs: "runs_as view (scan_loop n outer conv L req acc) (scan_loop n inner conv L req acc)"
  by (induction n arbitrary: req acc) (auto intro!: runs_intros backend_runs split: prod.split)

lemma Get_runs: "runs_as view (Get ms T (over outer t) key opts) (Get ms T (over inner t) key opts)"
  by (auto simp: Get_def intro!: runs_intros backend_runs)

lemma Table_Put_runs: "runs_as view (Table_Put ms ents (over outer t) x opts) (Table_Put ms ents (over inner t) x opts)"
  by (auto simp: Table_Put_def intro!: runs_intros backend_runs)

lemma Table_Delete_runs: "runs_as view (Table_Delete (over outer t) key opts) (Table_Delete (over inner t) key opts)"
  by (auto simp: Table_Delete_def intro!: runs_intros backend_runs)

lemma Table_Update_runs: "runs_as view (Table_Update (over outer t) key opts) (Table_Update (over inner t) key opts)"
  by (auto simp: Table_Update_def intro!: runs_intros backend_runs)

lemma UpdateReturning_runs:
  "runs_as view (UpdateReturning ms T (over outer t) key opts) (UpdateReturning ms T (over inner t) key opts)"
  by (auto simp: UpdateReturning_def intro!: runs_intros backend_runs)

lemma Query_runs: "runs_as view (Query_T n ms T (over outer t) kc opts) (Query_T n ms T (over inner t) kc opts)"
  by (auto simp: Query_T_def intro!: runs_intros query_loop_runs)

lemma Scan_runs: "runs_as view (Scan_T n ms T (over outer t) opts) (Scan_T n ms T (over inner t) opts)"
  by (auto simp: Scan_T_def intro!: runs_intros scan_loop_runs)

lemma QueryIter_runs:
  "runs_as view (QueryIter n ms T (over outer t) kc opts yield c) (QueryIter n ms T (over inner t) kc opts yield c)"
  by (auto simp: QueryIter_def intro!: runs_intros iter_pages_runs backend_runs)

lemma ScanIter_runs:
  "runs_as view (ScanIter n ms T (over outer t) opts yield c) (ScanIter n ms T (over inner t) opts yield c)"
  by (auto simp: ScanIter_def intro!: runs_intros iter_pages_runs backend_runs)

lemma QueryCollection_runs:
  "runs_as view (QueryCollection n ms (over outer t) kc opts) (QueryCollection n ms (over inner t) kc opts)"
  by (auto simp: QueryCollection_def intro!: runs_intros collection_loop_runs backend_runs split: option.split)

lemma CollectionIter_runs:
  "runs_as view (CollectionIter n ms (over outer t) kc opts yield c) (CollectionIter n ms (over inner t) kc opts yield c)"
  by (auto simp: CollectionIter_def intro!: runs_intros iter_pages_runs backend_runs split: option.split)

lemma Tx_Run_runs:
  "runs_as view (Tx_Run \<lparr>wb_db = \<lparr>db_backend = outer\<rparr>, wb_items = ws, wb_err = e\<rparr>)
     (Tx_Run \<lparr>wb_db = \<lparr>db_backend = inner\<rparr>, wb_items = ws, wb_err = e\<rparr>)"
  by (auto simp: Tx_Run_def intro!: runs_intros backend_runs split: option.split)

lemma ReadTx_Run_runs:
  "runs_as view (ReadTx_Run \<lparr>rb_db = \<lparr>db_backend = outer\<rparr>, rb_items = gs\<rparr>)
     (ReadTx_Run \<lparr>rb_db = \<lparr>db_backend = inner\<rparr>, rb_items = gs\<rparr>)"
  by (auto simp: ReadTx_Run_def intro!: runs_intros backend_runs)

lemma send_gets_runs:
  "runs_as view (send_gets n (over outer t) ctx e nm all ks) (send_gets n (over inner t) ctx e nm all ks)"
proof (induction n arbitrary: all ks)
  case 0
  then show ?case by (auto simp: send_gets.simps [of 0] Let_def intro!: runs_intros backend_runs)
next
  case (Suc n)
  then show ?case by (auto simp: send_gets.simps [of "Suc n"] Let_def intro!: runs_intros backend_runs)
qed

lemma get_chunks_runs:
  "runs_as view (get_chunks ms T (over outer t) ctx e nm i ks vs) (get_chunks ms T (over inner t) ctx e nm i ks vs)"
  by (induction ks arbitrary: i vs) (auto simp: sendBatchGet_def intro!: runs_intros send_gets_runs)

lemma BatchGet_runs: "runs_as view (BatchGet ms T (over outer t) ctx keys opts) (BatchGet ms T (over inner t) ctx keys opts)"
  by (auto simp: BatchGet_def Let_def intro!: runs_intros get_chunks_runs split: prod.split)

lemma Seed_runs: "runs_as view (Seed ms ents (over outer t) items) (Seed ms ents (over inner t) items)"
  by (auto simp: Seed_def intro!: seed_items_runs Table_Put_runs)

lemma rmw_prepare_runs:
  "(\<And>v. runs_as view (fn' v) (fn v)) \<Longrightarrow>
   runs_as view (rmw_prepare ms T (over outer t) key fn' cfg) (rmw_prepare ms T (over inner t) key fn cfg)"
  by (auto simp: rmw_prepare_def intro!: runs_intros Get_runs)

lemma rmw_loop_runs:
  assumes "\<And>v. runs_as view (fn' v) (fn v)"
  shows "runs_as view (rmw_loop n ms ents T (over outer t) key fn' cfg) (rmw_loop n ms ents T (over inner t) key fn cfg)"
proof (induction n)
  case (Suc n)
  show ?case
    unfolding rmw_loop_Suc
    by (intro runs_as_handle runs_as_pair runs_as_if Table_Put_runs rmw_prepare_runs Suc assms)
qed (simp add: runs_as_iff)

lemma ReadModifyWrite_runs:
  "(\<And>v. runs_as view (fn' v) (fn v)) \<Longrightarrow>
   runs_as view (ReadModifyWrite ms ents T (over outer t) key fn' opts) (ReadModifyWrite ms ents T (over inner t) key fn opts)"
  by (auto simp: ReadModifyWrite_def Let_def intro!: rmw_loop_runs)

end

subsection \<open>Client programs\<close>

text \<open>What a program does with its table, and what it is given back; \<open>run_clients\<close> goes on after errors.\<close>

datatype client_op =
    DoGet gotype KeyValue "(getConfig \<Rightarrow> getConfig) list"
  | DoPut "(gotype \<times> goval) option" "(putConfig \<Rightarrow> putConfig result) list"
  | DoDelete KeyValue "(deleteConfig \<Rightarrow> deleteConfig result) list"
  | DoUpdate KeyValue "(updateConfig \<Rightarrow> updateConfig result) list"
  | DoUpdateReturning gotype KeyValue "(updateConfig \<Rightarrow> updateConfig result) list"
  | DoQuery nat gotype KeyCondition "(queryConfig \<Rightarrow> queryConfig result) list"
  | DoScan nat gotype "(scanConfig \<Rightarrow> scanConfig result) list"
  | DoCollection nat KeyCondition "(queryConfig \<Rightarrow> queryConfig result) list"
  | DoModify gotype KeyValue "goval \<Rightarrow> goval result" "(rmwConfig \<Rightarrow> rmwConfig) list"
  | DoBatchGet gotype "nat \<Rightarrow> ctx" "KeyValue list" "(batchGetConfig \<Rightarrow> batchGetConfig) list"
  | DoWrites "TransactWriteItem list"
  | DoReads "TransactGetItem list"
  | DoSeed "(gotype \<times> goval) option list"

datatype client_result = CUnit | CVal goval | CVals "goval list" | CCollection Collection | CItems "item option list"

definition do_client :: "methods \<Rightarrow> entities \<Rightarrow> 's Table \<Rightarrow> client_op \<Rightarrow> ('s, client_result) op" where
  "do_client ms ents t p =
     (case p of
        DoGet T key opts \<Rightarrow> giving CVal (Get ms T t key opts)
      | DoPut x opts \<Rightarrow> giving (\<lambda>_. CUnit) (Table_Put ms ents t x opts)
      | DoDelete key opts \<Rightarrow> giving (\<lambda>_. CUnit) (Table_Delete t key opts)
      | DoUpdate key opts \<Rightarrow> giving (\<lambda>_. CUnit) (Table_Update t key opts)
      | DoUpdateReturning T key opts \<Rightarrow> giving CVal (UpdateReturning ms T t key opts)
      | DoQuery n T kc opts \<Rightarrow> giving CVals (Query_T n ms T t kc opts)
      | DoScan n T opts \<Rightarrow> giving CVals (Scan_T n ms T t opts)
      | DoCollection n kc opts \<Rightarrow> giving CCollection (QueryCollection n ms t kc opts)
      | DoModify T key f opts \<Rightarrow> giving (\<lambda>_. CUnit) (ReadModifyWrite ms ents T t key (\<lambda>v. sreturn (f v)) opts)
      | DoBatchGet T ctx keys opts \<Rightarrow> giving CVals (BatchGet ms T t ctx keys opts)
      | DoWrites ws \<Rightarrow> giving (\<lambda>_. CUnit) (Tx_Run \<lparr>wb_db = \<lparr>db_backend = tb_backend t\<rparr>, wb_items = ws, wb_err = None\<rparr>)
      | DoReads gs \<Rightarrow> giving CItems (ReadTx_Run \<lparr>rb_db = \<lparr>db_backend = tb_backend t\<rparr>, rb_items = gs\<rparr>)
      | DoSeed xs \<Rightarrow> giving (\<lambda>_. CUnit) (Seed ms ents t xs))"

fun run_clients :: "methods \<Rightarrow> entities \<Rightarrow> 's Table \<Rightarrow> client_op list \<Rightarrow> 's \<Rightarrow> client_result result list \<times> 's" where
  "run_clients ms ents t [] s = ([], s)"
| "run_clients ms ents t (p # ps) s =
     (let (r, s1) = do_client ms ents t p s; (rs, s2) = run_clients ms ents t ps s1 in (r # rs, s2))"

context backend_wrapper begin

lemma do_client_runs: "runs_as view (do_client ms ents (over outer t) p) (do_client ms ents (over inner t) p)"
  by (cases p)
    (simp_all add: do_client_def giving_runs Get_runs Table_Put_runs Table_Delete_runs Table_Update_runs UpdateReturning_runs
      Query_runs Scan_runs QueryCollection_runs ReadModifyWrite_runs runs_as_return BatchGet_runs Tx_Run_runs ReadTx_Run_runs
      Seed_runs)

lemma run_clients_runs:
  "map_prod id view (run_clients ms ents (over outer t) ps s) = run_clients ms ents (over inner t) ps (view s)"
proof (induction ps arbitrary: s)
  case (Cons p ps)
  obtain r s1 where p: "do_client ms ents (over outer t) p s = (r, s1)" by (cases "do_client ms ents (over outer t) p s")
  with do_client_runs [of ms ents t p] have "do_client ms ents (over inner t) p (view s) = (r, view s1)"
    by (auto simp: runs_as_iff)
  with p Cons.IH [of s1] show ?case
    by (auto simp: map_prod_def split: prod.splits)
qed simp

end

end
