(* ===== verification/BatchOrder.thy ===== *)
theory BatchOrder
  imports BatchMem "HOL-Library.Multiset"
begin

text \<open>
  Batch writes whose chunks run at the same time, on the in-memory backend.  There a task is one call of the
  backend, which holds the lock of the table from its first read to its last write; so what several tasks do at the same time
  is what they do one after the other in some order.
\<close>

subsection \<open>Groups that run their tasks in any order\<close>

definition some_order :: "'s group \<Rightarrow> bool" where
  "some_order g \<longleftrightarrow>
     (\<forall>n ctx tasks st. \<exists>ctx' ts. mset ts = mset tasks \<and> g n ctx tasks st = in_order ctx' 0 ts st)"

lemma some_order_in_order: "some_order (\<lambda>_ ctx. in_order ctx 0)"
  unfolding some_order_def by blast

lemma some_order_rev: "some_order (\<lambda>_ ctx tasks. in_order ctx 0 (rev tasks))"
  unfolding some_order_def by (metis mset_rev)

lemma mset_eq_map:
  assumes "mset ys = mset (map f xs)"
  obtains xs' where "ys = map f xs'" "mset xs' = mset xs"
proof -
  have "list_all2 (\<lambda>y x. y = f x) (map f xs) xs" by (simp add: list_all2_map1 list.rel_refl)
  with assms obtain xs' where "list_all2 (\<lambda>y x. y = f x) ys xs'" "mset xs' = mset xs"
    by (metis list_all2_reorder_left_invariance)
  then show thesis
    by (intro that [of xs']) (auto simp: list_all2_conv_all_nth intro: nth_equalityI)
qed

lemma mset_concat_cong: "mset xss = mset yss \<Longrightarrow> mset (concat xss) = mset (concat yss)"
  by (metis mset_concat mset_map sum_mset_sum_list)

subsection \<open>Puts\<close>

abbreviation put_request :: "item \<Rightarrow> WriteRequest" where
  "put_request av \<equiv> \<lparr>wr_PutItem = Some av, wr_DeleteItem = None\<rparr>"

lemma puts_succeed:
  "\<forall>av \<in> set avs. \<exists>k. extractKey (td_schema td) av = Inr k \<Longrightarrow> \<exists>td'. batch_writes (map put_request avs) td = (Inr (), td')"
proof (induction avs arbitrary: td)
  case (Cons av avs)
  then obtain h r where "extractKey (td_schema td) av = Inr (h, r)" by fastforce
  with Cons.IH [of "put_at h r av td"] Cons.prems show ?case by (simp add: batch_write1_def)
qed simp

lemma put_requests_all2:
  "list_all2 (\<lambda>x av. Marshal ms x = Inr av) xs avs \<Longrightarrow> put_requests ms xs = Inr (map put_request avs)"
  by (induction rule: list_all2_induct) (simp_all add: on_error_def)

lemma progress_silent: "bc_onProgress cfg = None \<Longrightarrow> progress cfg n cp chunks = cp"
  by (induction chunks) simp_all

text \<open>Every order of the chunks is a permutation of the items, cut differently.\<close>

lemma some_order_writes:
  assumes g: "some_order g" and t: "tb_backend t = memdb" "fmlookup m (tb_name t) = Some td"
    and silent: "bc_onProgress cfg = None"
    and ok: "\<And>avs'. mset avs' = mset avs \<Longrightarrow> \<exists>td'. batch_writes (map put_request avs') td = (Inr (), td')"
  shows "\<exists>avs' td'. mset avs' = mset avs \<and> batch_writes (map put_request avs') td = (Inr (), td') \<and>
    executeBatchWrite g t ctx (map put_request avs) cfg (m, p) = (Inr (), (fmupd (tb_name t) td' m, p))"
proof -
  let ?wrs = "map put_request avs"
  let ?chunks = "chunkWriteRequests maxBatchWriteItems ?wrs" and ?task = "write_task t cfg (length ?wrs)"
  from g obtain ctx' ts where ts: "mset ts = mset (map ?task ?chunks)"
    and run: "g (bc_maxConcurrency cfg) ctx (map ?task ?chunks) (m, 0, p) = in_order ctx' 0 ts (m, 0, p)"
    unfolding some_order_def by blast
  from ts obtain chunks where chunks: "ts = map ?task chunks" "mset chunks = mset ?chunks" by (rule mset_eq_map)
  have "concat ?chunks = ?wrs" by (simp add: concat_chunks maxBatchWriteItems_def)
  with mset_concat_cong [OF chunks(2)] have "mset (concat chunks) = mset ?wrs" by simp
  then obtain avs' where avs': "concat chunks = map put_request avs'" "mset avs' = mset avs" by (rule mset_eq_map)
  from ok [OF avs'(2)] obtain td' where td': "batch_writes (map put_request avs') td = (Inr (), td')" by blast
  from mset_eq_setD [OF chunks(2)] have "\<forall>c \<in> set chunks. length c \<le> 25"
    using chunk_size by (fastforce simp: maxBatchWriteItems_def)
  from write_tasks_memdb [OF t(1) this t(2) td' [folded avs'(1)], of ctx' 0 cfg "length ?wrs" "(0, p)"]
  have "in_order ctx' 0 ts (m, 0, p) = (Inr (), (fmupd (tb_name t) td' m, 0, p))"
    by (simp add: chunks(1) progress_silent [OF silent])
  with run have "executeBatchWrite g t ctx ?wrs cfg (m, p) = (Inr (), (fmupd (tb_name t) td' m, p))"
    by (simp add: executeBatchWrite_def)
  with avs'(2) td' show ?thesis by blast
qed

text \<open>With different keys the order does not show.\<close>

lemma lookup_puts:
  assumes w: "batch_writes (map put_request avs') td = (Inr (), td')" and perm: "mset avs' = mset avs"
    and keys: "list_all2 (\<lambda>av k. extractKey (td_schema td) av = Inr k) avs ks" "distinct ks"
  shows "kget k (td_items td') = (case map_of (zip ks avs) k of Some av \<Rightarrow> Some av | None \<Rightarrow> kget k (td_items td))"
proof -
  from keys(1) have map_keys: "map (extractKey (td_schema td)) avs = map Inr ks" and len: "length ks = length avs"
    by (auto simp: list_eq_iff_nth_eq list_all2_conv_all_nth)
  from map_keys keys(2) have "distinct (map (extractKey (td_schema td)) avs)" by (simp add: distinct_map)
  then have dist: "distinct (map (extractKey (td_schema td)) avs')"
    by (metis mset_eq_imp_distinct_iff mset_map perm)
  from perm have same: "set avs' = set avs" by (rule mset_eq_setD)
  show ?thesis
  proof (cases "map_of (zip ks avs) k")
    case None
    with len have "k \<notin> set ks" by (simp add: map_of_zip_is_None)
    then have "Inr k \<notin> set (map (extractKey (td_schema td)) avs)" unfolding map_keys by auto
    then have "\<forall>av \<in> set avs'. extractKey (td_schema td) av \<noteq> Inr k" unfolding same by force
    with None batch_puts_stored [OF w] show ?thesis by (cases k) simp
  next
    case (Some av)
    then have "(k, av) \<in> set (zip ks avs)" by (rule map_of_SomeD)
    with keys(1) have av: "av \<in> set avs" "extractKey (td_schema td) av = Inr k"
      by (auto simp: list_all2_conv_all_nth in_set_zip)
    with dist batch_puts_stored [OF w] same Some show ?thesis by fastforce
  qed
qed

end
