(* ===== verification/QueryOrder.thy ===== *)
theory QueryOrder
  imports MemRead MemWrite
begin

text \<open>
  What a table query returns, said without the functions that compute it: which items, in which order, with which
  attributes.
\<close>

subsection \<open>The order of key values\<close>

text \<open>Text and binary keys are ordered by their bytes, numbers by their value; values of different types are not ordered.\<close>

fun key_less :: "AttributeValue \<Rightarrow> AttributeValue \<Rightarrow> bool" where
  "key_less (TypeS s) (TypeS t) \<longleftrightarrow> s < t"
| "key_less (TypeB s) (TypeB t) \<longleftrightarrow> s < t"
| "key_less (TypeN m) (TypeN n) \<longleftrightarrow> f64_less (key_float m) (key_float n)"
| "key_less _ _ \<longleftrightarrow> False"

fun key_prefix :: "AttributeValue \<Rightarrow> AttributeValue \<Rightarrow> bool" where
  "key_prefix (TypeS s) (TypeS t) \<longleftrightarrow> prefix s t"
| "key_prefix (TypeB s) (TypeB t) \<longleftrightarrow> prefix s t"
| "key_prefix _ _ \<longleftrightarrow> False"

definition key_relation :: "string \<Rightarrow> AttributeValue \<Rightarrow> AttributeValue \<Rightarrow> AttributeValue \<Rightarrow> bool" where
  "key_relation op v x y \<longleftrightarrow>
     op = ''='' \<and> v = x \<or>
     op = ''<'' \<and> key_less v x \<or> op = ''<='' \<and> \<not> key_less x v \<or>
     op = ''>'' \<and> key_less x v \<or> op = ''>='' \<and> \<not> key_less v x \<or>
     op = ''BETWEEN'' \<and> \<not> key_less v x \<and> \<not> key_less y v \<or>
     op = ''begins_with'' \<and> key_prefix x v"

text \<open>A sort condition on a table without a range key is not looked at.\<close>

definition sort_key_holds :: "KeyDef option \<Rightarrow> sortKeyCondition option \<Rightarrow> item \<Rightarrow> bool" where
  "sort_key_holds rangeDef sk it \<longleftrightarrow>
     (case sk of
        None \<Rightarrow> True
      | Some c \<Rightarrow> rangeDef = None \<or>
          (case fmlookup it (sk_attr c) of
             None \<Rightarrow> False
           | Some v \<Rightarrow> key_relation (sk_op c) v (sk_value c) (sk_value2 c)))"

lemma f64_less_asym: "f64_less a b \<Longrightarrow> \<not> f64_less b a"
  by (cases a; cases b) auto

lemma compare_key_less:
  "compareKeyValues a b < 0 \<longleftrightarrow> key_less a b" "compareKeyValues a b > 0 \<longleftrightarrow> key_less b a"
  by (cases a; cases b; auto simp: compareKeyValues_def str_compare_def f64_cmp_def f64_less_asym split: if_splits)+

lemma compare_key_not_less:
  "compareKeyValues a b \<le> 0 \<longleftrightarrow> \<not> key_less b a" "compareKeyValues a b \<ge> 0 \<longleftrightarrow> \<not> key_less a b"
  using compare_key_less [of a b] by linarith+

lemma begins_with_key_prefix: "begins_with_key a p \<longleftrightarrow> key_prefix p a"
  by (cases a; cases p) (simp_all add: begins_with_key_iff, simp_all add: begins_with_key_def)

text \<open>The parser asks for equality only of the range key.\<close>

lemma parseKeyPart_equal:
  assumes "parseKeyPart nm vs pk rd part acc = Inr (p, Some c)" "sk_op c = ''=''"
  shows "snd acc = Some c \<or> (\<exists>r. rd = Some r \<and> sk_attr c = KeyDef_Name r)"
  using assms
  by (auto simp: parseKeyPart_def Let_def bind_Inr_iff parseBeginsWith_def parseBetween_def vError_def
      split: if_splits option.splits)

lemma parseKeyCondition_equal:
  assumes "parseKeyCondition e nm vs pk rd = Inr (v, Some c)" "sk_op c = ''=''"
  obtains r where "rd = Some r" "sk_attr c = KeyDef_Name r"
proof -
  have "parseKeyParts nm vs pk rd parts acc = Inr (p, Some c) \<Longrightarrow> snd acc = Some c \<or> (\<exists>r. rd = Some r \<and> sk_attr c = KeyDef_Name r)"
    for parts acc p
  proof (induction parts arbitrary: acc)
    case (Cons part parts)
    then obtain acc' where acc': "parseKeyPart nm vs pk rd part acc = Inr acc'" "parseKeyParts nm vs pk rd parts acc' = Inr (p, Some c)"
      by (auto simp: bind_Inr_iff)
    from Cons.IH [OF acc'(2)] parseKeyPart_equal [of nm vs pk rd part acc "fst acc'" c] acc'(1) assms(2) show ?case
      by (metis prod.collapse)
  qed simp
  moreover from assms(1) obtain parts p where "parseKeyParts nm vs pk rd parts (None, None) = Inr (p, Some c)"
    by (auto simp: parseKeyCondition_def Let_def bind_Inr_iff vError_def split: if_splits option.splits)
  ultimately have "\<exists>r. rd = Some r \<and> sk_attr c = KeyDef_Name r" by fastforce
  with that show thesis by blast
qed

lemma sort_key_spec:
  assumes "parseKeyCondition e nm vs pk (RangeKey sch) = Inr (v, sk)" "extractKey sch it = Inr k"
  shows "sk_matches sk (RangeKey sch) it \<longleftrightarrow> sort_key_holds (RangeKey sch) sk it"
proof (cases sk)
  case (Some c)
  have equal: "keyString av = keyString (sk_value c) \<longleftrightarrow> av = sk_value c"
    if "sk_op c = ''=''" "fmlookup it (sk_attr c) = Some av" for av
  proof -
    from assms(1) Some that(1) obtain r where r: "RangeKey sch = Some r" "sk_attr c = KeyDef_Name r"
      using parseKeyCondition_equal by blast
    from assms(2) r that(2) have "keyString av \<noteq> []"
      by (auto simp: extractKey_def split: option.splits if_splits)
    then show ?thesis using keyString_inj by metis
  qed
  show ?thesis
    unfolding sk_matches_def sort_key_holds_def Some option.case
  proof (cases "RangeKey sch = None \<or> fmlookup it (sk_attr c) = None")
    case True
    then show "matchesSortKeyCondition it c (RangeKey sch) \<longleftrightarrow> RangeKey sch = None \<or>
        (case fmlookup it (sk_attr c) of None \<Rightarrow> False | Some v \<Rightarrow> key_relation (sk_op c) v (sk_value c) (sk_value2 c))"
      by (auto simp: matchesSortKeyCondition_def)
  next
    case False
    then obtain av where av: "fmlookup it (sk_attr c) = Some av" and rd: "RangeKey sch \<noteq> None" by auto
    from equal [OF _ av] show "matchesSortKeyCondition it c (RangeKey sch) \<longleftrightarrow> RangeKey sch = None \<or>
        (case fmlookup it (sk_attr c) of None \<Rightarrow> False | Some v \<Rightarrow> key_relation (sk_op c) v (sk_value c) (sk_value2 c))"
      using av rd by (auto simp: matchesSortKeyCondition_def key_relation_def begins_with_key_prefix
          compare_key_less compare_key_not_less)
  qed
qed (simp add: sk_matches_def sort_key_holds_def)

subsection \<open>The items of a query\<close>

lemma query_page_items:
  assumes "Query req m = Inr resp" "fmlookup m (q_TableName req) = Some td" "q_IndexName req = []"
    and "q_ExclusiveStartKey req = fmempty" "q_Limit req = 0"
    and "parseKeyCondition (q_KeyConditionExpression req) (q_Names req) (q_Values req)
      (KeyDef_Name (HashKey (td_schema td))) (RangeKey (td_schema td)) = Inr (pk, sk)"
  shows "r_Items resp =
    map (\<lambda>it. projectItem it (q_ProjectionExpression req) (q_Names req))
      (filter (\<lambda>it. sk_matches sk (RangeKey (td_schema td)) it \<and> passes (q_FilterExpression req) (q_Names req) (q_Values req) it)
        (map (\<lambda>r. the (fmlookup (part_of td (keyString pk)) r))
          (range_keys (q_ScanIndexForward req) (part_of td (keyString pk)))))"
proof (cases "fmlookup (td_items td) (keyString pk)")
  case None
  then have "part_of td (keyString pk) = fmempty" "r_Items resp = []"
    using assms by (auto simp: part_of_def Query_def table_def read_source_def empty_page_def)
  then show ?thesis by (simp add: range_keys_def sorted_keys_def sorted_list_of_fset.rep_eq)
next
  case (Some part)
  then have part: "part_of td (keyString pk) = part" by (simp add: part_of_def)
  have "make_page 0 (q_FilterExpression req) (q_ProjectionExpression req) (q_Names req) (q_Values req)
      (HashKey (td_schema td)) (RangeKey (td_schema td)) (query_candidates req sk (RangeKey (td_schema td)) part) = Inr resp"
    using assms Some by (simp add: Query_def table_def read_source_def)
  then have "r_Items resp = map (\<lambda>c. projectItem c (q_ProjectionExpression req) (q_Names req))
      (filter (passes (q_FilterExpression req) (q_Names req) (q_Values req))
        (query_candidates req sk (RangeKey (td_schema td)) part))"
    by (auto simp: make_page_def cut_page_def bind_Inr_iff dest: filter_page_Inr)
  also have "query_candidates req sk (RangeKey (td_schema td)) part =
      filter (sk_matches sk (RangeKey (td_schema td)))
        (map (\<lambda>r. the (fmlookup (part_of td (keyString pk)) r)) (range_keys (q_ScanIndexForward req) part))"
    using assms(4) by (simp add: query_candidates_def query_keys_def part)
  finally show ?thesis by (simp add: part conj_commute)
qed

subsection \<open>Projections\<close>

definition named_parts :: "string list \<Rightarrow> string" where
  "named_parts ws = Join (map (\<lambda>w. CHR ''#'' # w) ws) '', ''"

lemma parse_named:
  assumes "\<forall>w \<in> set ws. attr_text w \<and> fmlookup nm (CHR ''#'' # w) \<noteq> None"
  shows "parseProjection_loop nm (map (\<lambda>w. CHR '' '' # CHR ''#'' # w) ws) = map (\<lambda>w. the (fmlookup nm (CHR ''#'' # w))) ws"
    "parseProjection_loop nm (map (\<lambda>w. CHR ''#'' # w) ws) = map (\<lambda>w. the (fmlookup nm (CHR ''#'' # w))) ws"
  using assms by (induction ws) (auto simp: Let_def is_blank_def)

lemma split_blank_parts:
  "ps \<noteq> [] \<Longrightarrow> \<forall>p \<in> set ps. CHR '','' \<notin> set p \<Longrightarrow>
   SplitChar CHR '','' (CHR '' '' # Join ps '', '') = map (\<lambda>p. CHR '' '' # p) ps"
proof (induction ps rule: induct_list012)
  case (3 p q ps)
  have "CHR '' '' # Join (p # q # ps) '', '' = (CHR '' '' # p) @ CHR '','' # CHR '' '' # Join (q # ps) '', ''" by simp
  moreover have "CHR '','' \<notin> set (CHR '' '' # p)" using 3 by simp
  note SplitChar_append [OF this, of "CHR '' '' # Join (q # ps) '', ''"]
  moreover have "SplitChar CHR '','' (CHR '' '' # Join (q # ps) '', '') = map (\<lambda>p. CHR '' '' # p) (q # ps)"
    using 3 by simp
  ultimately show ?case by (simp only: list.map)
qed (auto simp: SplitChar_no_sep)

lemma split_parts:
  assumes "\<forall>p \<in> set (p0 # ps). CHR '','' \<notin> set p"
  shows "SplitChar CHR '','' (Join (p0 # ps) '', '') = p0 # map (\<lambda>p. CHR '' '' # p) ps"
proof (cases "ps = []")
  case False
  then have "Join (p0 # ps) '', '' = p0 @ CHR '','' # CHR '' '' # Join ps '', ''" by (simp add: Join_Cons)
  with assms False show ?thesis by (simp add: SplitChar_append split_blank_parts del: SplitChar.simps)
qed (use assms in \<open>simp add: SplitChar_no_sep\<close>)

lemma project_named:
  assumes "\<forall>w \<in> set ws. attr_text w \<and> fmlookup nm (CHR ''#'' # w) \<noteq> None"
  shows "projectItem it (named_parts ws) nm =
    fmfilter (\<lambda>a. ws = [] \<or> (\<exists>w \<in> set ws. fmlookup nm (CHR ''#'' # w) = Some a)) it"
proof (cases ws)
  case Nil
  then show ?thesis by (simp add: named_parts_def projectItem_def)
next
  case (Cons w ws')
  let ?name = "\<lambda>w. the (fmlookup nm (CHR ''#'' # w))"
  have "\<forall>p \<in> set (map (\<lambda>w. CHR ''#'' # w) ws). CHR '','' \<notin> set p" using assms by (auto simp: attr_text_def)
  with split_parts [of "CHR ''#'' # w" "map (\<lambda>w. CHR ''#'' # w) ws'"] Cons
  have "splitCSV (named_parts ws) = (CHR ''#'' # w) # map (\<lambda>w. CHR '' '' # CHR ''#'' # w) ws'"
    by (simp add: splitCSV_eq named_parts_def comp_def)
  then have "parseProjectionAttrs (named_parts ws) nm = map ?name ws"
    using assms Cons parse_named(1) [of ws' nm] by (simp add: parseProjectionAttrs_def Let_def)
  moreover have "named_parts ws \<noteq> []" using Cons by (cases ws') (simp_all add: named_parts_def)
  ultimately show ?thesis
    using assms Cons by (intro fmap_ext) (force simp: fmlookup_projectItem image_iff)
qed

end
