(* ===== verification/TxOrder.thy ===== *)
theory TxOrder
  imports Transaction
begin

text \<open>
  The second pass of a write transaction, updates included: when it cannot fail, and what is left behind when
  it does.
\<close>

lemma set_map_filter: "y \<in> set (List.map_filter f xs) \<longleftrightarrow> (\<exists>x \<in> set xs. f x = Some y)"
  by (force simp: List.map_filter_def)

lemma distinct_targets_Cons:
  assumes "distinct (List.map_filter f (x # xs))"
  shows "distinct (List.map_filter f xs)" "f x = Some y \<Longrightarrow> z \<in> set xs \<Longrightarrow> f z \<noteq> Some y"
proof -
  from assms show "distinct (List.map_filter f xs)" by (simp add: List.map_filter_def split: if_splits)
  show "f z \<noteq> Some y" if "f x = Some y" "z \<in> set xs"
  proof -
    from assms that(1) have "y \<notin> set (List.map_filter f xs)" by (simp add: List.map_filter_def)
    with that(2) show ?thesis unfolding set_map_filter by blast
  qed
qed

subsection \<open>A second pass that cannot fail\<close>

text \<open>The table and key an operation writes, and whether the write succeeds on the item that is there.\<close>

definition tx_target :: "MemoryBackend \<Rightarrow> TransactWriteItem \<Rightarrow> (string \<times> string \<times> string) option" where
  "tx_target m twi =
     (let target = (\<lambda>tn it. case item_key m tn it of Inr k \<Rightarrow> Some (tn, k) | Inl _ \<Rightarrow> None) in
      case tw_Put twi of
        Some p \<Rightarrow> target (tp_TableName p) (tp_Item p)
      | None \<Rightarrow> (case tw_Delete twi of
        Some d \<Rightarrow> target (tdel_TableName d) (tdel_Key d)
      | None \<Rightarrow> (case tw_Update twi of
        Some u \<Rightarrow> target (tu_TableName u) (tu_Key u)
      | None \<Rightarrow> None)))"

definition tx_ready :: "MemoryBackend \<Rightarrow> TransactWriteItem \<Rightarrow> bool" where
  "tx_ready m twi \<longleftrightarrow>
     (case tw_Put twi of
        Some p \<Rightarrow> is_ok (item_key m (tp_TableName p) (tp_Item p))
      | None \<Rightarrow> (case tw_Delete twi of
        Some d \<Rightarrow> is_ok (item_key m (tdel_TableName d) (tdel_Key d))
      | None \<Rightarrow> (case tw_Update twi of
        Some u \<Rightarrow>
          (case item_key m (tu_TableName u) (tu_Key u) of
             Inl _ \<Rightarrow> False
           | Inr k \<Rightarrow> is_ok (updated_item (tu_UpdateExpression u) (tu_Names u) (tu_Values u) (tu_Key u)
                        (lookup_item m (tu_TableName u) k)))
      | None \<Rightarrow> True)))"

text \<open>Each operation can write, and no two write the same item; or there are no update expressions at all.\<close>

definition tx_cannot_fail :: "MemoryBackend \<Rightarrow> TransactWriteItem list \<Rightarrow> bool" where
  "tx_cannot_fail m twis \<longleftrightarrow>
     list_all (tx_sure m) twis \<or> list_all (tx_ready m) twis \<and> distinct (List.map_filter (tx_target m) twis)"

lemma tx_apply1_ready:
  assumes "tx_ready m twi" "fmlookup m (txWriteTableName twi) = Some td"
  shows "is_ok (tx_apply1 twi td)"
  using assms
  by (auto simp: tx_ready_def tx_apply1_def item_key_def lookup_item_def table_def txWriteTableName_def is_ok_bind
      getItem_kget bind_Inr_iff split: option.splits sum.splits elim!: is_okE)

text \<open>An operation changes the item it writes and no other.\<close>

lemma tx_apply1_frame:
  assumes "tx_apply1 twi td = Inr td'" "fmlookup m (txWriteTableName twi) = Some td" "tx_target m twi \<noteq> Some (u, k)"
  shows "lookup_item (fmupd (txWriteTableName twi) td' m) u k = lookup_item m u k"
proof (cases "u = txWriteTableName twi")
  case True
  with assms have "kget k (td_items td') = kget k (td_items td)"
    by (cases k) (auto simp: tx_target_def tx_apply1_def item_key_def table_def txWriteTableName_def bind_Inr_iff
        kget_put_at kget_delete_at split: option.splits sum.splits if_splits)
  with True assms(2) show ?thesis by (simp add: lookup_item_def)
qed (simp add: lookup_item_def)

lemma tx_target_same: "same_schemas m m' \<Longrightarrow> tx_target m' twi = tx_target m twi"
  by (simp add: tx_target_def item_key_same [of m m'])

lemma tx_ready_same:
  assumes same: "same_schemas m m'" and frame: "\<And>u k. tx_target m twi = Some (u, k) \<Longrightarrow> lookup_item m' u k = lookup_item m u k"
    and "tx_ready m twi"
  shows "tx_ready m' twi"
proof -
  have key: "item_key m' t it = item_key m t it" for t it using item_key_same [OF same] by simp
  show ?thesis
    using assms(3) frame by (auto simp: tx_ready_def tx_target_def key split: option.splits sum.splits)
qed

lemma tx_applies_ready:
  assumes "list_all (tx_ready m) twis" "distinct (List.map_filter (tx_target m) twis)"
    and "\<forall>twi \<in> set twis. fmlookup m (txWriteTableName twi) \<noteq> None"
  shows "fst (tx_applies twis m) = Inr ()"
  using assms
proof (induction twis arbitrary: m)
  case (Cons twi twis)
  then obtain td where td: "fmlookup m (txWriteTableName twi) = Some td" by auto
  with Cons.prems tx_apply1_ready [of m twi td] obtain td' where app: "tx_apply1 twi td = Inr td'"
    by (auto simp: is_ok_iff)
  let ?m = "fmupd (txWriteTableName twi) td' m"
  have same: "same_schemas m ?m" using td tx_apply1_schema [OF app] by (rule same_schemas_upd)
  have targets: "List.map_filter (tx_target ?m) twis = List.map_filter (tx_target m) twis"
    by (rule arg_cong [where f = "\<lambda>f. List.map_filter f twis"]) (simp add: fun_eq_iff tx_target_same [OF same])
  have other: "tx_target m twi \<noteq> Some (u, k)" if "x \<in> set twis" "tx_target m x = Some (u, k)" for x u k
    using distinct_targets_Cons(2) [OF Cons.prems(2)] that by metis
  have "list_all (tx_ready ?m) twis"
    unfolding list_all_iff
  proof
    fix x assume x: "x \<in> set twis"
    show "tx_ready ?m x"
      using tx_ready_same [OF same] tx_apply1_frame [OF app td] other [OF x] Cons.prems(1) x by (simp add: list_all_iff)
  qed
  moreover have "distinct (List.map_filter (tx_target ?m) twis)"
    unfolding targets by (rule distinct_targets_Cons(1) [OF Cons.prems(2)])
  ultimately have "fst (tx_applies twis ?m) = Inr ()"
    using Cons.prems(3) by (intro Cons.IH) auto
  with td app show ?case by (simp add: table_def)
qed simp

subsection \<open>What the second pass does\<close>

text \<open>The item an operation leaves under its target, from the item that was there.\<close>

definition tx_result :: "MemoryBackend \<Rightarrow> TransactWriteItem \<Rightarrow> string \<Rightarrow> string \<times> string \<Rightarrow> item option" where
  "tx_result m twi u k =
     (case tw_Put twi of
        Some p \<Rightarrow> Some (tp_Item p)
      | None \<Rightarrow> (case tw_Delete twi of
        Some d \<Rightarrow> None
      | None \<Rightarrow> (case tw_Update twi of
        Some up \<Rightarrow>
          (case updated_item (tu_UpdateExpression up) (tu_Names up) (tu_Values up) (tu_Key up) (lookup_item m u k) of
             Inr it \<Rightarrow> Some it | Inl _ \<Rightarrow> lookup_item m u k)
      | None \<Rightarrow> lookup_item m u k)))"

text \<open>All operations together, if no two have the same target.\<close>

definition tx_effect :: "MemoryBackend \<Rightarrow> TransactWriteItem list \<Rightarrow> string \<Rightarrow> string \<times> string \<Rightarrow> item option" where
  "tx_effect m twis u k =
     (case find (\<lambda>twi. tx_target m twi = Some (u, k)) twis of
        Some twi \<Rightarrow> tx_result m twi u k
      | None \<Rightarrow> lookup_item m u k)"

lemma tx_apply1_target:
  assumes "tx_apply1 twi td = Inr td'" "fmlookup m (txWriteTableName twi) = Some td" "tx_target m twi = Some (u, k)"
  shows "lookup_item (fmupd (txWriteTableName twi) td' m) u k = tx_result m twi u k"
  using assms
  by (cases k) (auto simp: tx_target_def tx_result_def tx_apply1_def item_key_def table_def txWriteTableName_def bind_Inr_iff
      lookup_item_def getItem_kget kget_put_at kget_delete_at Let_def split: option.splits sum.splits if_splits)

lemma tx_applies_effect:
  assumes "tx_applies twis m = (Inr (), m')" "distinct (List.map_filter (tx_target m) twis)"
  shows "lookup_item m' u k = tx_effect m twis u k"
  using assms
proof (induction twis arbitrary: m)
  case (Cons twi twis)
  from Cons.prems(1) obtain td td' where td: "fmlookup m (txWriteTableName twi) = Some td" and app: "tx_apply1 twi td = Inr td'"
    and rest: "tx_applies twis (fmupd (txWriteTableName twi) td' m) = (Inr (), m')"
    by (auto simp: bind_Inr_iff table_Inr split: sum.splits)
  let ?m = "fmupd (txWriteTableName twi) td' m"
  have same: "same_schemas m ?m" using td tx_apply1_schema [OF app] by (rule same_schemas_upd)
  have targets: "tx_target ?m = tx_target m" by (simp add: fun_eq_iff tx_target_same [OF same])
  have "distinct (List.map_filter (tx_target ?m) twis)"
    unfolding targets by (rule distinct_targets_Cons(1) [OF Cons.prems(2)])
  with Cons.IH [OF rest] have IH: "lookup_item m' u k = tx_effect ?m twis u k" .
  show ?case
  proof (cases "tx_target m twi = Some (u, k)")
    case True
    with Cons.prems(2) have "find (\<lambda>x. tx_target m x = Some (u, k)) twis = None"
      using distinct_targets_Cons(2) [OF Cons.prems(2)] by (auto simp: find_None_iff)
    with True IH tx_apply1_target [OF app td True] show ?thesis by (simp add: tx_effect_def targets)
  next
    case False
    note frame = tx_apply1_frame [OF app td False]
    then have "tx_result ?m x u k = tx_result m x u k" for x by (simp only: tx_result_def)
    with IH frame False show ?thesis by (simp only: tx_effect_def targets find.simps if_False)
  qed
qed (simp add: tx_effect_def)

text \<open>The first pass decides: nothing is changed, or all conditions hold and the operations are applied in order.\<close>

lemma transact_checks_first:
  assumes "TransactWriteItems twis m = (res, m')"
  shows "(\<exists>e. res = Inl e) \<and> m' = m \<or>
    list_all (\<lambda>twi. tx_check_on m twi = Inr True) twis \<and> (res, m') = tx_applies twis m \<and>
    (tx_cannot_fail m twis \<longrightarrow> res = Inr ()) \<and>
    (res = Inr () \<longrightarrow> distinct (List.map_filter (tx_target m) twis) \<longrightarrow> (\<forall>u k. lookup_item m' u k = tx_effect m twis u k))"
proof (cases "length twis \<le> 100 \<and> (\<exists>tds rs. resolve_tables (map txWriteTableName twis) m = Inr tds \<and>
    tx_checks (zip twis tds) = Inr (rs, False))")
  case True
  then obtain tds rs where res: "resolve_tables (map txWriteTableName twis) m = Inr tds"
    "tx_checks (zip twis tds) = Inr (rs, False)" by blast
  then have tables: "\<forall>twi \<in> set twis. fmlookup m (txWriteTableName twi) \<noteq> None"
    by (auto simp: resolve_tables_Inr list_all2_conv_all_nth in_set_conv_nth)
  have "tx_cannot_fail m twis \<longrightarrow> fst (tx_applies twis m) = Inr ()"
    unfolding tx_cannot_fail_def using tx_applies_sure tx_applies_ready tables by blast
  moreover have "tx_applies twis m = (res, m')" using res True assms by (simp add: TransactWriteItems_def)
  ultimately show ?thesis using tx_checks_all [OF res] tx_applies_effect [of twis m m'] by auto
next
  case False
  with assms show ?thesis
    by (auto simp: TransactWriteItems_def bind_def split: if_splits sum.splits prod.splits)
qed

end
