(* ===== verification/OrderExamples.thy ===== *)
theory OrderExamples
  imports QueryOrder TxOrder BatchExamples
begin

text \<open>A query with a sort condition, backwards and projected, and transactions with updates, on the example table.\<close>

definition ex_ranged :: QueryRequest where
  "ex_ranged = (ex_query 0)\<lparr>q_KeyConditionExpression := ''#PK = :pk0 AND #SK BETWEEN :sk0 AND :sk1'',
     q_ProjectionExpression := ''#SK'', q_Names := fmap_of_list [(''#PK'', ''PK''), (''#SK'', ''SK'')],
     q_Values := fmap_of_list [('':pk0'', TypeS ''a''), ('':sk0'', TypeS ''1''), ('':sk1'', TypeS ''2'')],
     q_ScanIndexForward := Some False\<rparr>"

definition ex_between :: sortKeyCondition where
  "ex_between = \<lparr>sk_op = ''BETWEEN'', sk_value = TypeS ''1'', sk_value2 = TypeS ''2'', sk_attr = ''SK''\<rparr>"

lemma ex_ranged_parse:
  "parseKeyCondition (q_KeyConditionExpression ex_ranged) (q_Names ex_ranged) (q_Values ex_ranged)
     (KeyDef_Name (HashKey ex_schema)) (RangeKey ex_schema) = Inr (TypeS ''a'', Some ex_between)"
  by code_simp

lemma ex_ranged_facts:
  "q_TableName ex_ranged = ''t''" "q_IndexName ex_ranged = []" "q_ExclusiveStartKey ex_ranged = fmempty" "q_Limit ex_ranged = 0"
  "q_ProjectionExpression ex_ranged = named_parts [''SK'']" "q_FilterExpression ex_ranged = []"
  "q_ScanIndexForward ex_ranged = Some False" "fmlookup (q_Names ex_ranged) ''#SK'' = Some ''SK''" "attr_text ''SK''"
  "td_schema (ex_td ex_db2) = ex_schema" "keyString (TypeS ''a'') = ''S:a''" "is_ok (Query ex_ranged ex_db2)"
  by code_simp+

lemma ex_ranged_items:
  "lookup_item ex_db2 ''t'' (''S:a'', ''S:1'') = Some (ex_item ''1'' ''x'')"
  "lookup_item ex_db2 ''t'' (''S:a'', ''S:2'') = Some (ex_item ''2'' ''y'')"
  "sort_key_holds (RangeKey ex_schema) (Some ex_between) (ex_item ''1'' ''x'')"
  "sort_key_holds (RangeKey ex_schema) (Some ex_between) (ex_item ''2'' ''y'')"
  by code_simp+

text \<open>A transaction of a put, an update and a delete.\<close>

definition ex_mixed_steps :: "MemoryBackend tx_step list" where
  "ex_mixed_steps = [StepPut ex_table (Some (ex_row, ex_row_value ''3'' ''z'')) [IfNotExists ''PK''],
     StepUpdate ex_table (ex_row_key ''2'') [opt_Set ''H'' (AnyString ''new'')], StepDelete ex_table (ex_row_key ''1'') []]"

definition ex_mixed :: "MemoryBackend WriteTxBuilder" where
  "ex_mixed = (case tx_build no_methods ex_mixed_steps (WriteTx ex_tx_db) of Inr b \<Rightarrow> b | Inl _ \<Rightarrow> WriteTx ex_tx_db)"

lemma ex_mixed: "tx_build no_methods ex_mixed_steps (WriteTx ex_tx_db) = Inr ex_mixed"
proof -
  have "is_ok (tx_build no_methods ex_mixed_steps (WriteTx ex_tx_db))" by code_simp
  then show ?thesis by (auto simp: ex_mixed_def)
qed

lemma ex_mixed_ready:
  "list_all (tx_ready ex_db2) (wb_items ex_mixed)" "distinct (List.map_filter (tx_target ex_db2) (wb_items ex_mixed))"
  by code_simp+

lemma ex_mixed_effect:
  "tx_effect ex_db2 (wb_items ex_mixed) ''t'' (''S:a'', ''S:1'') = None"
  "tx_effect ex_db2 (wb_items ex_mixed) ''t'' (''S:a'', ''S:2'') = Some (fmupd ''H'' (TypeS ''new'') (ex_item ''2'' ''y''))"
  "tx_effect ex_db2 (wb_items ex_mixed) ''t'' (''S:a'', ''S:3'') = Some (ex_item ''3'' ''z'')"
  by code_simp+

text \<open>
  A transaction whose update fails, adding a number to a text: it returns an error, and the put before it stays.
\<close>

definition ex_partial :: "MemoryBackend WriteTxBuilder" where
  "ex_partial = (case tx_build no_methods [StepPut ex_table (Some (ex_row, ex_row_value ''3'' ''z'')) [],
     StepUpdate ex_table (ex_row_key ''2'') [opt_Add ''G'' (AnyInt KInt 1)]] (WriteTx ex_tx_db) of
     Inr b \<Rightarrow> b | Inl _ \<Rightarrow> WriteTx ex_tx_db)"

lemma failed_update_keeps_put:
  "\<not> is_ok (fst (Tx_Run ex_partial ex_db2))"
  "lookup_item ex_db2 ''t'' (''S:a'', ''S:3'') = None"
  "lookup_item (snd (Tx_Run ex_partial ex_db2)) ''t'' (''S:a'', ''S:3'') = Some (ex_item ''3'' ''z'')"
  by code_simp+

end
