(* ===== verification/Spec2Isabelle.thy ===== *)
theory Spec2Isabelle
  imports ClientExamples RmwExamples BatchExamples TranslateRead Otel SeedExamples AwsExamples LockExamples MemFootprint ClientRuns BatchOrder OrderExamples
begin

text \<open>
  A model of dynago, a DynamoDB client library for Go, with the theorems that say its parts do what they are for.

  The program has three layers.  The client (package \<open>dynago\<close>: \<open>put.go\<close>, \<open>get.go\<close>, \<open>query.go\<close>, ...) encodes Go values into attribute
  values, writes expressions with placeholders and sends requests.  A \<open>Backend\<close> (\<open>backend.go\<close>) answers them: the in-memory backend
  \<open>memdb\<close>, which parses the expressions again and keeps tables and indexes, or the AWS backend \<open>awsbackend\<close>, which hands the requests to
  the SDK; logging (\<open>logging.go\<close>) and telemetry (\<open>dynagotel\<close>) wrap a backend.  \<open>internal/expr\<close> holds the expression tree, its builder,
  evaluators and printer.  \<open>dynagotest\<close> loads test data and asserts on tables.

  \<^bold>\<open>Shared.\<close>  \<open>Prelude\<close>: results, strings, finite maps.  \<open>Errors\<close>: the error chains of \<open>errors.go\<close> and \<open>tx_errors.go\<close>; every error, panic and
  early return is a value \<open>Inl\<close>, and a panic skips what would run after a call that returned.  \<open>GoFloat\<close>, \<open>GoTime\<close>: the parts of Go's float64, \<open>strconv\<close>, \<open>fmt\<close> and \<open>time\<close> the code uses.
  \<open>Attribute\<close>: \<open>attribute.go\<close>, \<open>key.go\<close>.

  \<^bold>\<open>Codec.\<close>  \<open>Codec\<close>, \<open>Marshalling\<close>, \<open>Unmarshalling\<close> model \<open>codec.go\<close>, \<open>marshal.go\<close>, \<open>unmarshal.go\<close> over types and values as \<open>reflect\<close>
  shows them; \<open>RoundTrip\<close> proves that decoding inverts encoding and that decoded values have their types.

  \<^bold>\<open>Expressions.\<close>  \<open>Ast\<close>, \<open>Eval\<close>, \<open>EvalUpdate\<close>, \<open>Builder\<close>, \<open>Translate\<close> model \<open>internal/expr\<close>, \<open>Reserved\<close> the word list of
  \<open>internal/reserved.go\<close>.  \<open>MemTokens\<close> says how the tokenizer of the in-memory backend reads printed text, and \<open>TranslateRead\<close> that the
  printed tree is parsed back.  \<open>Condition\<close> models \<open>condition.go\<close>, and \<open>CondEquiv\<close> proves that the text route through a backend and the
  direct route through \<open>ParseCondition\<close> evaluate alike.

  \<^bold>\<open>In-memory backend.\<close>  \<open>MemExpr\<close> and \<open>MemUpdate\<close>: \<open>memdb/expression.go\<close>.  \<open>MemTable\<close>, \<open>KeyCond\<close>, \<open>MemRead\<close>, \<open>MemWrite\<close>:
  \<open>memdb/memdb.go\<close>.  The state \<open>MemoryBackend\<close> maps table names to \<open>tableData\<close> with items by hash and range key, as in the code.
  \<open>lookup_item\<close> is its abstraction to a map from table and key to item; each write is proved to refine a change of that map, with the
  storage invariant \<open>backend_ok\<close> kept along the relation \<open>reachable\<close>.  \<open>QueryOrder\<close> says which items a query returns, and in which
  order, apart from the functions that compute them.  \<open>MemLocks\<close> models the mutexes as a step relation on
  goroutines, and \<open>MemFootprint\<close> proves that each call has locked what it reads and changes.

  \<^bold>\<open>Backends.\<close>  \<open>Backend\<close> has the interface as a record of state passing operations, the in-memory backend as an instance, and two
  contracts as locales: \<open>item_backend\<close>, what the client relies on for single items, interpreted on the in-memory backend, and
  \<open>backend_wrapper\<close>, a wrapper that no client can tell from what it wraps, interpreted on the logging backend there and on telemetry in
  \<open>Otel\<close>.  \<open>Aws\<close> models \<open>awsbackend\<close>, and \<open>AwsWire\<close> reads its inputs
  back: the locale \<open>aws_service\<close> is the contract of the SDK client it needs.

  \<^bold>\<open>Client.\<close>  \<open>Client\<close>: \<open>dynago.go\<close>, \<open>get.go\<close>, \<open>put.go\<close>, \<open>delete.go\<close>, \<open>registry.go\<close>, \<open>polymorphic.go\<close>.  \<open>UpdateClient\<close> and
  \<open>UpdateRequest\<close>: \<open>update.go\<close>.  \<open>QueryKeys\<close>, \<open>QueryClient\<close>, \<open>QueryPages\<close>: \<open>query.go\<close>, \<open>scan.go\<close>, \<open>iter.go\<close>, \<open>collection.go\<close>.  \<open>Rmw\<close>: \<open>rmw.go\<close>.
  \<open>Transaction\<close>: \<open>transaction.go\<close>, with \<open>TxOrder\<close> on the second pass of the in-memory backend: when it cannot fail and what it
  does to each item.  \<open>Batch\<close>, \<open>BatchMem\<close> and \<open>BatchOrder\<close>: \<open>batch.go\<close>.  \<open>Dynagotest\<close>: \<open>dynagotest\<close>.  \<open>ClientRuns\<close> carries the client operations
  through every \<open>backend_wrapper\<close>.  The theories named \<open>Examples\<close> at the end
  hold the inputs of the witnesses.

  \<^bold>\<open>Bounds.\<close>  The recursive descent parsers take fuel, the number of tokens left; \<open>expression_parsers_terminate\<close> says that it is never used
  up.  The page loops of the client take fuel for the number of pages; one page more than there are items is enough on the
  in-memory backend, and the theorems on them are stated with that.  The loops of \<open>rmw.go\<close> and \<open>batch.go\<close> are bounded by their own retry limits.

  \<^bold>\<open>Parameters.\<close>  Methods of user types (\<open>Marshaler\<close>, \<open>Entity\<close>, text methods), registered types, the clock, tracer and meter, the AWS
  client, the contents of files, and the scheduling of \<open>errgroup\<close>, of which the batch theorems use what it documents for a limit
  of one, or, where the order of the items cannot matter, only that every task runs; on the in-memory backend a task is one call
  under the lock of its table, so that tasks at the same time have the effect of some order.

  \<^bold>\<open>Not modelled.\<close>  The calls of the in-memory backend are functions of its state, one after the other, as under its locks; the locks
  themselves are modelled apart from the data.  Chunks of a batch that run at the same time are tasks in any order; with a backend other
  than the in-memory one their retries may interleave too, which is not modelled.  A context matters only where
  the code looks at it between attempts; deadlines inside a backend and the length of the waits do not occur.  Consumed capacity is left out, since
  nothing in the library reads it.  Error messages keep their constant text, not their arguments.  \<open>ParseFloat\<close> covers decimal notation.  Maps are visited in the order
  of their keys where the code's order is random and can be seen.  The AWS and OpenTelemetry libraries, \<open>awsbackend.NewFromConfig\<close>, which only calls the SDK, the codec cache,
  tests and benchmarks are left out.
\<close>

subsection \<open>The in-memory backend\<close>

text \<open>
  C1. In every state reachable by the operations of the in-memory backend each item is stored under its own key, each index entry is an item of the table under its own index key, and no partition is empty. Updates are restricted to those that leave the key attributes alone.
\<close>

theorem reachable_storage:
  assumes "reachable m" "fmlookup m t = Some td"
  shows "(\<forall>k it. kget k (td_items td) = Some it \<longrightarrow> extractKey (td_schema td) it = Inr k) \<and>
    (\<forall>n g gk it. fmlookup (td_gsis td) n = Some g \<and> kget gk (gsi_items g) = Some it \<longrightarrow>
       gsi_key (gsi_schema g) it = Some gk \<and> (\<exists>k. kget k (td_items td) = Some it)) \<and>
    (\<forall>h. fmlookup (td_items td) h \<noteq> Some fmempty)"
proof -
  from assms have ok: "table_ok td" by (blast intro: backend_okD reachable_ok)
  then have "keys_ok td" and "store_ok (td_items td)"
    and gsis: "\<And>n g. fmlookup (td_gsis td) n = Some g \<Longrightarrow> gsi_sound (td_items td) g"
    by (auto simp: table_ok_def fmlookup_ran'_iff)
  then show ?thesis
    unfolding gsi_sound_def keys_ok_def store_ok_lookup by blast
qed

theorem reachable_storage_witness:
  "extractKey (td_schema (ex_td ex_db2)) (ex_item ''1'' ''x'') = Inr (''S:a'', ''S:1'')"
proof -
  have "kget (''S:a'', ''S:1'') (td_items (ex_td ex_db2)) = Some (ex_item ''1'' ''x'')" by code_simp
  with reachable_storage [OF ex_reachable(3) ex_tables(3)] show ?thesis by blast
qed

text \<open>
  C2. A put, delete or update leaves what a get of any other key or table returns unchanged.
\<close>

theorem write_frame:
  assumes "point_write m t k m'"
    and "gi_TableName greq \<noteq> t \<or> item_key m (gi_TableName greq) (gi_Key greq) \<noteq> Inr k"
  shows "GetItem greq m' = GetItem greq m"
proof -
  have "item_key m' (gi_TableName greq) (gi_Key greq) = item_key m (gi_TableName greq) (gi_Key greq)"
    using item_key_same [OF point_write_frame(1) [OF assms(1)]] by simp
  with assms(2) point_write_frame(2) [OF assms(1)] show ?thesis
    by (cases "item_key m (gi_TableName greq) (gi_Key greq)") (auto simp: GetItem_lookup)
qed

theorem write_frame_witness: "GetItem (ex_get ''1'') ex_db2 = GetItem (ex_get ''1'') ex_db1"
proof -
  have "item_key ex_db1 (pi_TableName (ex_put ''2'' ''y'')) (pi_Item (ex_put ''2'' ''y'')) = Inr (''S:a'', ''S:2'')"
    "item_key ex_db1 (gi_TableName (ex_get ''1'')) (gi_Key (ex_get ''1'')) \<noteq> Inr (''S:a'', ''S:2'')"
    by code_simp+
  with write_frame [OF point_write.put [OF ex_put2]] show ?thesis by blast
qed

text \<open>
  C3. If an index holds every item that has an index key and the index keys are unique after a put, the index holds every such item after the put.
\<close>

theorem index_stays_complete:
  assumes "reachable m" "PutItem req m = Inr m'" "fmlookup m (pi_TableName req) = Some td"
    and "fmlookup m' (pi_TableName req) = Some td'"
    and "fmlookup (td_gsis td) n = Some g" "fmlookup (td_gsis td') n = Some g'"
    and "gsi_complete (td_items td) g" "gsi_unique (td_items td') (gsi_schema g)"
  shows "gsi_complete (td_items td') g'"
proof -
  have "table_ok td" using assms(1,3) by (blast intro: backend_okD reachable_ok)
  then have keys: "keys_ok td" by (simp add: table_ok_def)
  from assms(2,3,4) obtain h r where td': "td' = put_at h r (pi_Item req) td"
    by (auto simp: PutItem_def put_table_def bind_Inr_iff table_Inr)
  with assms(5,6) have "g' = gsi_write (kget (h, r) (td_items td)) (Some (pi_Item req)) g"
    by (auto simp: gsis_put_at)
  with gsi_complete_put_at [OF keys assms(7)] assms(8) td' show ?thesis by simp
qed

theorem index_stays_complete_witness:
  "gsi_complete (td_items (ex_td ex_db2)) (the (fmlookup (td_gsis (ex_td ex_db2)) ''by_g''))"
proof (rule index_stays_complete [OF ex_reachable(2) ex_put2])
  let ?g = "the (fmlookup (td_gsis (ex_td ex_db1)) ''by_g'')"
  show "fmlookup ex_db1 (pi_TableName (ex_put ''2'' ''y'')) = Some (ex_td ex_db1)" by code_simp
  show "fmlookup ex_db2 (pi_TableName (ex_put ''2'' ''y'')) = Some (ex_td ex_db2)" by code_simp
  show "fmlookup (td_gsis (ex_td ex_db1)) ''by_g'' = Some ?g" by code_simp
  show "fmlookup (td_gsis (ex_td ex_db2)) ''by_g'' = Some (the (fmlookup (td_gsis (ex_td ex_db2)) ''by_g''))"
    by code_simp
  show "gsi_complete (td_items (ex_td ex_db1)) ?g" by (rule gsi_completeI) code_simp
  show "gsi_unique (td_items (ex_td ex_db2)) (gsi_schema ?g)" by (rule gsi_uniqueI) code_simp
qed

subsection \<open>Queries and scans\<close>

text \<open>
  C4. Following the start keys of a limited table query gives the items of the same query without a limit, in order and with none twice; more fuel than items suffices.
\<close>

theorem query_pages_are_complete:
  assumes "reachable m" "fmlookup m (q_TableName req) = Some td" "q_IndexName req = []"
    and "item_count td < fuel"
  shows "read_pages fuel (\<lambda>start. Query (req\<lparr>q_ExclusiveStartKey := start\<rparr>) m) fmempty =
    bind (Query (req\<lparr>q_ExclusiveStartKey := fmempty, q_Limit := 0\<rparr>) m) (\<lambda>resp. Inr (r_Items resp))"
  using assms by (intro query_pages) (auto simp: table_ok_def dest!: reachable_ok backend_okD)

theorem query_pages_are_complete_witness:
  "read_pages 3 (\<lambda>start. Query ((ex_query 1)\<lparr>q_ExclusiveStartKey := start\<rparr>) ex_db2) fmempty =
     Inr [ex_item ''1'' ''x'', ex_item ''2'' ''y'']"
proof -
  have facts: "q_TableName (ex_query 1) = ''t''" "q_IndexName (ex_query 1) = []" "item_count (ex_td ex_db2) < 3"
    "bind (Query ((ex_query 1)\<lparr>q_ExclusiveStartKey := fmempty, q_Limit := 0\<rparr>) ex_db2) (\<lambda>resp. Inr (r_Items resp)) =
      Inr [ex_item ''1'' ''x'', ex_item ''2'' ''y'']"
    by code_simp+
  from query_pages_are_complete [OF ex_reachable(3), of "ex_query 1" "ex_td ex_db2" 3] facts show ?thesis
    by (simp add: ex_tables)
qed



subsection \<open>Transactions and batches\<close>

text \<open>
  C6. A write transaction whose second pass cannot fail (puts, deletes, checks with valid keys) applies all its writes, all its conditions being true before, or changes nothing.
\<close>

theorem transactions_are_atomic:
  assumes "list_all (tx_sure m) twis" "TransactWriteItems twis m = (res, m')"
  shows "(\<exists>e. res = Inl e) \<and> m' = m \<or>
    res = Inr () \<and> m' = snd (tx_applies twis m) \<and> list_all (\<lambda>twi. tx_check_on m twi = Inr True) twis"
  using transact_atomic [OF assms] transact_commits [of twis m m'] assms(2)
  by (cases "tx_applies twis m") auto

theorem transactions_are_atomic_witness:
  "\<exists>e. TransactWriteItems [ex_tx_put ''3'' ''z'', ex_tx_put ''1'' ''z''] ex_db2 = (Inl e, ex_db2)"
proof -
  let ?txs = "[ex_tx_put ''3'' ''z'', ex_tx_put ''1'' ''z'']"
  have sure: "list_all (tx_sure ex_db2) ?txs" and fail: "\<not> is_ok (fst (TransactWriteItems ?txs ex_db2))"
    by code_simp+
  obtain res m' where run: "TransactWriteItems ?txs ex_db2 = (res, m')" by (cases "TransactWriteItems ?txs ex_db2")
  from transactions_are_atomic [OF sure run] fail run show ?thesis by auto
qed

text \<open>
  C7. A transaction with a false condition changes nothing and fails with one reason per operation, in order, which marks exactly the operations whose condition is false; the error is recognised as cancelled and as a failed condition.
\<close>

theorem cancelled_transactions_explain:
  assumes "length twis \<le> 100" "resolve_tables (map txWriteTableName twis) m = Inr tds"
    and "list_all2 (\<lambda>twi ok. tx_check_on m twi = Inr ok) twis oks" "False \<in> set oks"
  shows "\<exists>rs. TransactWriteItems twis m = (Inl (TxCancelledError rs), m) \<and> length rs = length twis \<and>
    (\<forall>i < length twis. Code (rs ! i) = ''ConditionalCheckFailed'' \<longleftrightarrow> \<not> oks ! i) \<and>
    IsTxCancelled (TxCancelledError rs) \<and> IsCondCheckFailed (TxCancelledError rs)"
proof -
  let ?rs = "map (\<lambda>ok. if ok then no_reason else failed_reason) oks"
  have len: "length oks = length twis" using assms(3) by (simp add: list_all2_lengthD)
  have "Code (?rs ! i) = ''ConditionalCheckFailed'' \<longleftrightarrow> \<not> oks ! i" if "i < length twis" for i
    using that len by (simp add: no_reason_def failed_reason_def)
  moreover have "failed_reason \<in> set ?rs" using assms(4) by force
  then have "\<exists>r \<in> set ?rs. Code r = ''ConditionalCheckFailed''"
    by (rule rev_bexI) (simp add: failed_reason_def)
  then have "IsCondCheckFailed (TxCancelledError ?rs)"
    by (simp only: IsCondCheckFailed_def errors_Is.simps tx_error_Is_def simp_thms)
  ultimately show ?thesis
    using transact_cancelled [OF assms] len by (auto simp: IsTxCancelled_def tx_error_Is_def)
qed

theorem cancelled_transactions_explain_witness:
  "\<exists>rs. TransactWriteItems [ex_tx_put ''3'' ''z'', ex_tx_put ''1'' ''z''] ex_db2 = (Inl (TxCancelledError rs), ex_db2) \<and>
     length rs = 2"
proof -
  let ?txs = "[ex_tx_put ''3'' ''z'', ex_tx_put ''1'' ''z'']"
  have checks: "map (tx_check_on ex_db2) ?txs = [Inr True, Inr False]"
    and names: "map txWriteTableName ?txs = [''t'', ''t'']"
    by code_simp+
  have "resolve_tables [''t'', ''t''] ex_db2 = Inr [ex_td ex_db2, ex_td ex_db2]"
    by (simp add: table_def ex_tables)
  with cancelled_transactions_explain [of ?txs ex_db2 "[ex_td ex_db2, ex_td ex_db2]" "[True, False]"] checks names
  show ?thesis by auto
qed

subsection \<open>Expressions and numbers\<close>

text \<open>
  C8. Where the update evaluator of internal/expr succeeds on literal and path values, the update engine of the in-memory backend computes the same item, as long as no binary set is involved and numeric sums print alike.
\<close>

theorem memdb_updates_refine_client_semantics:
  assumes "EvalUpdate (map node_of_op ops) it = Inr it'" "comparable_run ops it"
  shows "evalUpdateNodes ops it = Inr it'"
  using assms by (rule evalUpdateNodes_refines)

theorem memdb_updates_refine_client_semantics_witness:
  "let ops = [\<lparr>uop_action = SET, uop_path = [''a'', ''b''], uop_value = Some (literalValue (TypeS ''x''))\<rparr>,
              \<lparr>uop_action = DELETE, uop_path = [''s''], uop_value = Some (literalValue (TypeSS [''q'']))\<rparr>];
       it = fmap_of_list [(''s'', TypeSS [''p'', ''q''])] in
   evalUpdateNodes ops it = Inr (fmap_of_list [(''s'', TypeSS [''p'']), (''a'', TypeM (fmap_of_list [(''b'', TypeS ''x'')]))])"
  unfolding Let_def by (rule memdb_updates_refine_client_semantics) code_simp+

text \<open>
  C9. The parsers of condition and update expressions return on every input: the fuel that bounds their recursion is never used up.
\<close>

theorem expression_parsers_terminate:
  "parseExpressionToAST e nm vs \<noteq> Inl OutOfFuel \<and> parseUpdateExpression e nm vs \<noteq> Inl OutOfFuel \<and>
   (\<forall>f. parseExpressionToAST e nm vs \<noteq> Inl (ErrorfW f OutOfFuel))"
  using parseUpdateExpression_fuel [of e nm vs] parseOr_fuel [of "mem_tokenizeExpr e" nm vs]
  by (auto simp: parseExpressionToAST_def Let_def split: sum.split prod.split)

text \<open>
  C10. ADD on integer attributes is exact as long as the operands and the sum are at most 2^53 in size.
\<close>

theorem counters_are_exact:
  assumes "\<bar>a\<bar> \<le> 2 ^ 53" "\<bar>b\<bar> \<le> 2 ^ 53" "\<bar>a + b\<bar> \<le> 2 ^ 53"
    and "uop_action op = ADD" "uop_value op = Some (literalValue (TypeN (show_int b)))"
    and "resolvePathValue (uop_path op) it = Some (TypeN (show_int a))"
  shows "apply_updateOp op it = Inr (mem_setNestedPath (uop_path op) it (TypeN (show_int (a + b))))"
  using assms by (simp add: apply_updateOp_def op_value_def mem_resolvePathValue_eq mem_add_values_def addNumbers_int)

theorem counters_are_exact_witness:
  "apply_updateOp \<lparr>uop_action = ADD, uop_path = [''n''], uop_value = Some (literalValue (TypeN (show_int 5)))\<rparr>
     (fmap_of_list [(''n'', TypeN (show_int 37))]) = Inr (fmap_of_list [(''n'', TypeN ''42'')])"
proof -
  have "show_int (37 + 5) = ''42''" by code_simp
  moreover have "fmupd ''n'' v (fmap_of_list [(''n'', w)]) = fmap_of_list [(''n'', v)]" for v w :: AttributeValue
    by (rule fmap_ext) simp
  ultimately show ?thesis
    by (subst counters_are_exact [where a = 37 and b = 5]) simp_all
qed

text \<open>
  C11. Setting a nested path makes the path resolve to the value, and every path that forks off it keeps its value.
\<close>

theorem nested_set_and_frame:
  assumes "setNestedPath ps it v = Inr it'"
  shows "resolvePathValue ps it' = Some v \<and>
    (\<forall>pre a b as bs. ps = pre @ b # bs \<and> a \<noteq> b \<longrightarrow>
       resolvePathValue (pre @ a # as) it' = resolvePathValue (pre @ a # as) it)"
  using assms resolve_setNestedPath setNestedPath_frame by blast

theorem nested_set_and_frame_witness:
  "\<exists>it'. setNestedPath [''a'', ''b''] (fmap_of_list [(''a'', TypeM (fmap_of_list [(''c'', TypeBOOL True)]))]) (TypeS ''v'') = Inr it' \<and>
     resolvePathValue [''a'', ''b''] it' = Some (TypeS ''v'') \<and>
     resolvePathValue [''a'', ''c''] it' = Some (TypeBOOL True)"
proof -
  let ?it = "fmap_of_list [(''a'', TypeM (fmap_of_list [(''c'', TypeBOOL True)]))]"
  have "is_ok (setNestedPath [''a'', ''b''] ?it (TypeS ''v''))" by code_simp
  then obtain it' where set: "setNestedPath [''a'', ''b''] ?it (TypeS ''v'') = Inr it'" by blast
  have "resolvePathValue [''a'', ''c''] ?it = Some (TypeBOOL True)" by code_simp
  moreover note n = nested_set_and_frame [OF set]
  have "resolvePathValue [''a'', ''c''] it' = resolvePathValue [''a'', ''c''] ?it"
    using n [THEN conjunct2, rule_format, of "[''a'']" "''b''" "[]" "''c''" "[]"] by simp
  ultimately show ?thesis using n [THEN conjunct1] set by simp
qed

subsection \<open>Encoding and decoding\<close>



text \<open>
  C13. Decoding into a value of a type gives a value of that type, whatever the item holds, if the methods the program supplies respect their types.
\<close>

theorem unmarshalled_values_are_typed:
  assumes "methods_typed ms" "has_type t cur" "Unmarshal ms it t cur = Inr v"
  shows "has_type t v"
proof (cases "strip t")
  case (GStruct fs)
  with assms(2) has_type_strip [of t cur] obtain curs where
    cur: "cur = VStruct curs" "list_all2 (\<lambda>(m, t) w. has_type t w) fs curs" by (auto split: goval.splits)
  from assms(3) cur(1) GStruct obtain vs where
    "v = VStruct vs" "unmarshalFields ms fs it curs = Inr vs"
    by (auto simp: Unmarshal_def struct_values_def bind_Inr_iff)
  with unmarshal_typed(3) [OF assms(1) _ cur(2)] GStruct show ?thesis by (simp add: has_type_strip [of t])
qed (use assms in \<open>auto simp: Unmarshal_def\<close>)

theorem unmarshalled_values_are_typed_witness:
  "has_type ex_type (projr (Unmarshal no_methods ex_wire ex_type (zero_value ex_type)))"
proof -
  have "Unmarshal no_methods ex_wire ex_type (zero_value ex_type) =
      Inr (projr (Unmarshal no_methods ex_wire ex_type (zero_value ex_type)))"
    by code_simp
  from unmarshalled_values_are_typed [OF methods_typed_none zero_value_has_type this] show ?thesis .
qed

text \<open>
  C14. An integer field receives a decoded number exactly or the decoder fails with an overflow, but an element of a number set keeps the low bits of the number.
\<close>

theorem integers_are_checked_except_in_sets:
  assumes "int_in_range (if is_signed k then KInt64 else KUint64) i"
  shows "unmarshalValue no_methods (GInt k) (TypeN (show_int i)) cur opts =
      (if int_in_range k i then Inr (VInt i) else Inl (Errorf ''value overflows'')) \<and>
    unmarshalSet (TypeNS [show_int i]) (GInt k) = Inr (VSlice (Some [VInt (wrap_int k i)]))"
proof -
  have "is_signed k \<Longrightarrow> ParseInt (show_int i) = Some i"
    using assms by (intro ParseInt_show_int) (simp_all add: int_in_range_def is_signed_def)
  moreover have "\<not> is_signed k \<Longrightarrow> ParseUint (show_int i) = Some i"
    using assms by (intro ParseUint_show_int) (simp_all add: int_in_range_def is_signed_def)
  ultimately show ?thesis
    by (cases "is_signed k")
      (simp_all add: unmarshalValue.simps unmarshalInto.simps unmarshalInt_def unmarshalSet_def unmarshal_ns_def)
qed

theorem integers_are_checked_except_in_sets_witness:
  "(\<exists>e. unmarshalValue no_methods (GInt KInt8) (TypeN ''300'') (VInt 0) no_options = Inl e) \<and>
   unmarshalSet (TypeNS [''300'']) (GInt KInt8) = Inr (VSlice (Some [VInt 44]))"
proof -
  have r: "int_in_range (if is_signed KInt8 then KInt64 else KUint64) 300" "\<not> int_in_range KInt8 300"
    "wrap_int KInt8 300 = 44" "show_int 300 = ''300''" by code_simp+
  from integers_are_checked_except_in_sets [OF r(1)] show ?thesis by (simp add: r(2-4))
qed

subsection \<open>Conditions of the client\<close>

text \<open>
  C15. A condition translated by buildCondition and evaluated by the in-memory backend gives what evaluating the node ParseCondition builds from the same text and arguments gives, errors included, for texts of comparisons and functions under AND, OR, NOT and parentheses in which no word has a dot or a # and the functions are the ones the backend knows, in lower case; IN and BETWEEN are left out. With #age or CONTAINS the two routes differ (outside_the_scope).
\<close>

theorem built_conditions_evaluate:
  assumes "buildCondition e args = Inr ce" "ParseCondition e args = Inr node"
    and "supported node" "cond_toks (tokenize e)"
  shows "evalCondition (ce_expression ce) (ce_names ce) (ce_values ce) it = Eval node it"
  using built_condition_parses [OF assms] by (simp add: evalCondition_def)

theorem built_conditions_evaluate_witness:
  "\<exists>ce node. buildCondition ''age >= ? AND (NOT attribute_exists(gone) OR name = ?)'' [AnyInt KInt 30, AnyString ''bo''] = Inr ce \<and>
     ParseCondition ''age >= ? AND (NOT attribute_exists(gone) OR name = ?)'' [AnyInt KInt 30, AnyString ''bo''] = Inr node \<and>
     (\<forall>it. evalCondition (ce_expression ce) (ce_names ce) (ce_values ce) it = Eval node it)"
proof -
  let ?e = "''age >= ? AND (NOT attribute_exists(gone) OR name = ?)''" and ?as = "[AnyInt KInt 30, AnyString ''bo'']"
  define ce where "ce = projr (buildCondition ?e ?as)"
  define node where "node = projr (ParseCondition ?e ?as)"
  have 1: "buildCondition ?e ?as = Inr ce" unfolding ce_def by code_simp
  have 2: "ParseCondition ?e ?as = Inr node" unfolding node_def by code_simp
  have 3: "supported node" unfolding node_def by code_simp
  have 4: "cond_toks (tokenize ?e)" by code_simp
  from built_conditions_evaluate [OF 1 2 3 4] 1 2 show ?thesis by blast
qed

subsection \<open>The client\<close>

text \<open>
  C16. A struct put through the client into a table of the in-memory backend without a registry comes back equal, marshalling included, from a get of its key without a projection, if the value survives encoding: no nil slices or maps, no floats, no pointers to pointers, no named byte slices, times of whole seconds, no two fields of one name and no types with methods of their own (rt).
\<close>

theorem client_put_then_get:
  assumes "tb_backend t = memdb" "tb_registry t = None"
    and "Table_Put no_methods ents t (Some (T, VStruct vs)) opts m = (Inr (), m')"
    and "rt T no_options (VStruct vs)"
    and "\<forall>av. Marshal no_methods (Some (T, VStruct vs)) = Inr av \<longrightarrow>
      item_key m (tb_name t) (KeyValue_Map key) = item_key m (tb_name t) av"
    and "gc_projection (get_config gopts) = []"
  shows "Get no_methods T t key gopts m' = (Inr (VStruct vs), m')"
  using mb.put_get [where key = key and T = T, OF assms(1-3) _ assms(6)] marshal_unmarshal [OF assms(4)] assms(5)
  by force

theorem client_put_then_get_witness:
  "Get no_methods ex_row ex_table (ex_row_key ''2'') [ConsistentRead] ex_db2 = (Inr (ex_row_value ''2'' ''y''), ex_db2)"
proof -
  have "rt ex_row no_options (VStruct [VString ''a'', VString ''2'', VString ''y''])"
    using ex_row_rt [of "''2''" "''y''"] by (simp add: ex_row_value_def)
  moreover have "item_key ex_db1 (tb_name ex_table) (KeyValue_Map (ex_row_key ''2'')) =
      item_key ex_db1 (tb_name ex_table) (ex_item ''2'' ''y'')"
    by code_simp
  moreover have "gc_projection (get_config [ConsistentRead]) = []" by code_simp
  ultimately show ?thesis
    using client_put_then_get [of ex_table "\<lambda>_. None" ex_row "[VString ''a'', VString ''2'', VString ''y'']"
        "[IfNotExists ''PK'']" ex_db1 ex_db2 "ex_row_key ''2''" "[ConsistentRead]"] ex_row_put ex_row_marshal
    by (simp add: ex_row_value_def)
qed

text \<open>
  C17. A put, delete or update of the client that returns an error left the in-memory backend as it was, wherever the error arose.
\<close>

theorem client_errors_change_nothing:
  assumes "tb_backend t = memdb"
    and "Table_Put ms ents t x popts m = (Inl e, m') \<or> Table_Delete t key dopts m = (Inl e, m') \<or>
      Table_Update t key uopts m = (Inl e, m')"
  shows "m' = m"
  using assms(2)
proof (elim disjE)
  assume "Table_Update t key uopts m = (Inl e, m')"
  with assms(1) show ?thesis
    by (auto simp: Table_Update_def sbind_def memdb_UpdateItem split: prod.splits sum.splits if_splits)
qed (auto dest: mb.failed_writes_change_nothing [OF assms(1)])

theorem client_errors_change_nothing_witness:
  "snd (Table_Put no_methods (\<lambda>_. None) ex_table (Some (ex_row, ex_row_value ''2'' ''z'')) [IfNotExists ''PK''] ex_db2) = ex_db2"
proof -
  let ?put = "Table_Put no_methods (\<lambda>_. None) ex_table (Some (ex_row, ex_row_value ''2'' ''z'')) [IfNotExists ''PK''] ex_db2"
  have "fst ?put = Inl condition_failed" by code_simp
  then have "?put = (Inl condition_failed, snd ?put)" by (simp add: prod_eq_iff)
  with client_errors_change_nothing [of ex_table no_methods "\<lambda>_. None" "Some (ex_row, ex_row_value ''2'' ''z'')"
      "[IfNotExists ''PK'']" ex_db2 condition_failed "snd ?put"]
  show ?thesis by simp
qed

text \<open>
  C18. The update expression built from the clauses parses, in the in-memory backend, to exactly the operations the clauses ask for, grouped by action, when the condition binds no placeholder and the attribute names are identifiers.
\<close>

theorem update_requests_mean_their_clauses:
  assumes "buildUpdateRequest tn key cfg = Inr req" "\<forall>c \<in> set (uc_clauses cfg). attr_name (uc_attr c)"
    and "no_clash (uc_condition cfg)"
  shows "\<exists>ops. parseUpdateExpression (ui_UpdateExpression req) (ui_Names req) (ui_Values req) = Inr ops \<and>
    list_all2 clause_op (by_action (uc_clauses cfg)) ops"
  using assms by (rule update_clauses_parse)

theorem update_requests_mean_their_clauses_witness:
  "\<exists>ops. parseUpdateExpression ''SET #G = :v0, #H = :v2 ADD #N :v1''
      (fmap_of_list [(''#G'', ''G''), (''#N'', ''N''), (''#H'', ''H'')])
      (fmap_of_list [('':v0'', TypeS ''x''), ('':v1'', TypeN ''1''), ('':v2'', TypeS ''y'')]) = Inr ops \<and>
    list_all2 clause_op (by_action (uc_clauses ex_update_cfg)) ops"
proof -
  have req: "buildUpdateRequest ''t'' (ex_row_key ''2'') ex_update_cfg = Inr (ex_run_update ex_update_cfg)"
    and names: "\<forall>c \<in> set (uc_clauses ex_update_cfg). attr_name (uc_attr c)"
    and parts: "ui_UpdateExpression (ex_run_update ex_update_cfg) = ''SET #G = :v0, #H = :v2 ADD #N :v1''"
      "ui_Names (ex_run_update ex_update_cfg) = fmap_of_list [(''#G'', ''G''), (''#N'', ''N''), (''#H'', ''H'')]"
      "ui_Values (ex_run_update ex_update_cfg) = fmap_of_list [('':v0'', TypeS ''x''), ('':v1'', TypeN ''1''), ('':v2'', TypeS ''y'')]"
    by code_simp+
  have "no_clash (uc_condition ex_update_cfg)" by (simp add: no_clash_def ex_update_cfg_def)
  from update_requests_mean_their_clauses [OF req names this] show ?thesis unfolding parts .
qed

text \<open>
  C19. A SET of an attribute whose name is an identifier, with a condition that has an argument, assigns the argument of the condition to the attribute, not the value given: both are bound to :v0.
\<close>

theorem condition_argument_replaces_set_value:
  assumes "update_config [opt_Set a v, IfCondition e (w # ws)] = Inr cfg" "attr_name a"
    and "buildUpdateRequest tn key cfg = Inr req"
  shows "\<exists>wv. anyToAttributeValue w = Inr wv \<and>
    parseUpdateExpression (ui_UpdateExpression req) (ui_Names req) (ui_Values req) =
      Inr [\<lparr>uop_action = to_UpdateAction actionSET, uop_path = [a], uop_value = Some (literalValue wv)\<rparr>]"
  using assms by (rule clashing_set)

theorem condition_argument_replaces_set_value_witness:
  "\<exists>cfg req. update_config [opt_Set ''Name'' (AnyString ''Alice''), IfCondition ''Version = ?'' [AnyInt KInt 5]] = Inr cfg \<and>
    buildUpdateRequest ''t'' (ex_row_key ''2'') cfg = Inr req \<and>
    parseUpdateExpression (ui_UpdateExpression req) (ui_Names req) (ui_Values req) =
      Inr [\<lparr>uop_action = to_UpdateAction actionSET, uop_path = [''Name''], uop_value = Some (literalValue (TypeN ''5''))\<rparr>]"
proof -
  have cfg: "update_config [opt_Set ''Name'' (AnyString ''Alice''), IfCondition ''Version = ?'' [AnyInt KInt 5]] = Inr ex_clash_cfg"
    and a: "attr_name ''Name''" and v: "anyToAttributeValue (AnyInt KInt 5) = Inr (TypeN ''5'')"
    and req: "buildUpdateRequest ''t'' (ex_row_key ''2'') ex_clash_cfg = Inr (ex_run_update ex_clash_cfg)"
    by code_simp+
  from condition_argument_replaces_set_value [OF cfg a req] v cfg req show ?thesis by auto
qed

text \<open>
  C20. A query of a table on the in-memory backend returns, decoded and in order, the first items of the whole result up to the limit, or all of them without one; one more page than the table has items suffices for the loop to return.
\<close>

theorem query_returns_the_first:
  assumes "query_config opts = Inr cfg" "tb_backend t = memdb" "qc_indexName cfg = []"
    and "reachable m" "fmlookup m (tb_name t) = Some td" "item_count td < fuel"
    and "query_all m (buildQueryRequest (tb_name t) key cfg fmempty) = Inr its" "traverse (decode ms T) its = Inr ws"
  shows "Query_T fuel ms T t key opts m =
    (Inr (if 0 < sint (qc_limit cfg) then take (nat (sint (qc_limit cfg))) ws else ws), m)"
proof -
  have "keys_ok td" using assms(4,5) by (auto simp: table_ok_def dest!: reachable_ok backend_okD)
  from Query_T_first [OF assms(1-3,5) this assms(6-8)] show ?thesis by (simp add: limited_def)
qed

theorem query_returns_the_first_witness:
  "Query_T 3 no_methods ex_row ex_table ex_kc [QueryLimit 1] ex_db2 = (Inr [ex_row_value ''1'' ''x''], ex_db2)"
proof -
  have cfg: "query_config [QueryLimit 1] = Inr ex_limit_cfg" "qc_indexName ex_limit_cfg = []" "item_count (ex_td ex_db2) < 3"
    and all: "query_all ex_db2 (buildQueryRequest ''t'' ex_kc ex_limit_cfg fmempty) = Inr [ex_item ''1'' ''x'', ex_item ''2'' ''y'']"
    and rows: "traverse (decode no_methods ex_row) [ex_item ''1'' ''x'', ex_item ''2'' ''y''] =
      Inr [ex_row_value ''1'' ''x'', ex_row_value ''2'' ''y'']"
    and limit: "qc_limit ex_limit_cfg = 1"
    by code_simp+
  from query_returns_the_first [OF cfg(1) _ cfg(2) ex_reachable(3) _ cfg(3) _ rows, of ex_table ex_kc] all ex_tables(3) limit
  show ?thesis by simp
qed



subsection \<open>Read, modify, write; transactions and batches of the client\<close>

text \<open>
  C22. A ReadModifyWrite with OptimisticLock that succeeds on the in-memory backend, with a function that leaves the version field alone, replaced an item whose version attribute still held the version it had read; what it stored is the encoding of the modified value with the version one higher (exactly one higher when the integer field can hold it), under the key of that item, and nothing else changed.
\<close>

theorem locked_updates_are_not_lost:
  assumes "tb_backend t = memdb" "rc_versionAttr (rmw_config opts) = a" "version_attr a"
    and "\<forall>item s item' s'. fn item s = (Inr item', s') \<longrightarrow> getVersionField T item' a = getVersionField T item a"
    and "ReadModifyWrite ms ents T t key fn opts m = (Inr (), m')"
  shows "\<exists>m0 item m1 item' m2 v out av it k. Get ms T t key [] m0 = (Inr item, m1) \<and> fn item m1 = (Inr item', m2) \<and>
    getVersionField T item a = Inr v \<and> has_version a v (lookup_item m2 (tb_name t) k) \<and>
    setVersionField T item' a (wrap_int KInt64 (v + 1)) = Inr out \<and>
    (version_fits T item' a (v + 1) \<longrightarrow> getVersionField T out a = Inr (v + 1)) \<and>
    Marshal ms (Some (T, out)) = Inr av \<and> it = set_discriminator (tb_registry t) (as_entity ents (Some (T, out))) av \<and>
    item_key m2 (tb_name t) it = Inr k \<and>
    (\<forall>u j. lookup_item m' u j = (if u = tb_name t \<and> j = k then Some it else lookup_item m2 u j))"
proof -
  have "rmw_loop (nat (rc_maxRetries (rmw_config opts) + 1)) ms ents T t key fn (rmw_config opts) m = (Inr (), m')"
    using assms(5) by (simp add: ReadModifyWrite_def Let_def)
  with assms(1-3) show ?thesis
  proof (rule mb.locked_update)
    fix m0 item m1 item' m2 v out av it k
    assume a: "Get ms T t key [] m0 = (Inr item, m1)" "fn item m1 = (Inr item', m2)" "getVersionField T item' a = Inr v"
      "setVersionField T item' a (wrap_int KInt64 (v + 1)) = Inr out" "Marshal ms (Some (T, out)) = Inr av"
      "it = set_discriminator (tb_registry t) (as_entity ents (Some (T, out))) av" "item_key m2 (tb_name t) it = Inr k"
      "has_version a v (lookup_item m2 (tb_name t) k)"
      "\<And>u j. lookup_item m' u j = (if u = tb_name t \<and> j = k then Some it else lookup_item m2 u j)"
    from a(2,3) assms(4) have "getVersionField T item a = Inr v" by metis
    moreover have "version_fits T item' a (v + 1) \<longrightarrow> getVersionField T out a = Inr (v + 1)"
      using set_then_get_version [OF _ a(4)] by blast
    ultimately show ?thesis using a by (intro exI conjI allI)
  qed
qed

theorem locked_updates_are_not_lost_witness:
  "\<exists>m0 item m1 item' m2 v out av k. Get no_methods ex_counter ex_table ex_counter_key [] m0 = (Inr item, m1) \<and>
    ex_disturbed item m1 = (Inr item', m2) \<and>
    getVersionField ex_counter item ''Version'' = Inr v \<and> has_version ''Version'' v (lookup_item m2 ''t'' k) \<and>
    (version_fits ex_counter item' ''Version'' (v + 1) \<longrightarrow> getVersionField ex_counter out ''Version'' = Inr (v + 1)) \<and>
    Marshal no_methods (Some (ex_counter, out)) = Inr av \<and>
    (\<forall>u j. lookup_item (ex_counter_db 110 3) u j = (if u = ''t'' \<and> j = k then Some av else lookup_item m2 u j))"
proof -
  have "version_name (ex_field ''PK'' []) \<noteq> ''Version''" "version_name (ex_field ''SK'' []) \<noteq> ''Version''"
    "version_name (ex_field ''N'' []) \<noteq> ''Version''" by code_simp+
  then have "\<forall>item s item' s'. ex_disturbed item s = (Inr item', s') \<longrightarrow>
      getVersionField ex_counter item' ''Version'' = getVersionField ex_counter item ''Version''"
    by (auto simp: ex_disturbed_def ex_add_ten_def getVersionField_def ex_counter_def struct_values_def Let_def)
  moreover have "ReadModifyWrite no_methods (\<lambda>_. None) ex_counter ex_table ex_counter_key ex_disturbed ex_lock (ex_counter_db 7 1) =
      (Inr (), ex_counter_db 110 3)"
    using rmw_loop_conflicts [OF ex_first_attempt, of 1] rmw_loop_writes [OF ex_second_attempt, of 0]
    by (simp add: ReadModifyWrite_def ex_lock_config numeral_2_eq_2 del: rmw_loop.simps)
  ultimately have "\<exists>m0 item m1 item' m2 v out av it k. Get no_methods ex_counter ex_table ex_counter_key [] m0 = (Inr item, m1) \<and>
      ex_disturbed item m1 = (Inr item', m2) \<and>
      getVersionField ex_counter item ''Version'' = Inr v \<and> has_version ''Version'' v (lookup_item m2 (tb_name ex_table) k) \<and>
      setVersionField ex_counter item' ''Version'' (wrap_int KInt64 (v + 1)) = Inr out \<and>
      (version_fits ex_counter item' ''Version'' (v + 1) \<longrightarrow> getVersionField ex_counter out ''Version'' = Inr (v + 1)) \<and>
      Marshal no_methods (Some (ex_counter, out)) = Inr av \<and>
      it = set_discriminator (tb_registry ex_table) (as_entity (\<lambda>_. None) (Some (ex_counter, out))) av \<and>
      item_key m2 (tb_name ex_table) it = Inr k \<and>
      (\<forall>u j. lookup_item (ex_counter_db 110 3) u j = (if u = tb_name ex_table \<and> j = k then Some it else lookup_item m2 u j))"
    by (rule locked_updates_are_not_lost [OF ex_table_sel(2) ex_lock_config(1) ex_version])
  moreover have plain: "set_discriminator None e av = av" for e av by (simp add: set_discriminator_def split: option.split)
  ultimately show ?thesis
    unfolding ex_table_sel plain by (elim exE conjE) (intro exI conjI, assumption+, simp)
qed

text \<open>
  C23. A ReadModifyWrite with a lock whose first attempts meet a failed condition goes on until the attempt that writes, or returns the error of the last attempt MaxRetries allows.
\<close>

theorem conflicts_are_retried:
  assumes "rc_versionAttr (rmw_config opts) \<noteq> []" "0 \<le> rc_maxRetries (rmw_config opts)"
    and "\<forall>i < j. attempt_conflicts ms ents T t key fn (rmw_config opts) (st i) (e i) (st (Suc i))"
    and "attempt_writes ms ents T t key fn (rmw_config opts) (st j) s'"
  shows "ReadModifyWrite ms ents T t key fn opts (st 0) =
    (if int j \<le> rc_maxRetries (rmw_config opts) then (Inr (), s')
     else (Inl (e (nat (rc_maxRetries (rmw_config opts)))), st (Suc (nat (rc_maxRetries (rmw_config opts))))))"
  using retries [OF assms(1,3,4), of "nat (rc_maxRetries (rmw_config opts) + 1)"] assms(2)
  by (auto simp: ReadModifyWrite_def Let_def nat_add_distrib)

theorem conflicts_are_retried_witness:
  "ReadModifyWrite no_methods (\<lambda>_. None) ex_counter ex_table ex_counter_key ex_disturbed ex_lock (ex_counter_db 7 1) =
    (Inr (), ex_counter_db 110 3)"
proof -
  define st where "st i = (if i = 0 then ex_counter_db 7 1 else ex_counter_db 100 2)" for i :: nat
  have "rc_versionAttr (rmw_config ex_lock) \<noteq> []" by (simp add: ex_lock_config)
  from conflicts_are_retried [OF this, of 1 no_methods "\<lambda>_. None" ex_counter ex_table ex_counter_key ex_disturbed st
      "\<lambda>_. condition_failed" "ex_counter_db 110 3"] ex_first_attempt ex_second_attempt
  show ?thesis by (simp add: st_def ex_lock_config)
qed

text \<open>
  C24. A write transaction built by any chain of client steps on the in-memory backend fails and changes nothing, or all its conditions held before and its 1 to 100 operations, one per step, are applied in order. It then succeeds when no operation can fail: only puts, deletes and checks with valid keys, or updates too, each of which succeeds on the item that is there, on pairwise different items; and each target then holds what its operation makes of the old item, all other items being as before. Otherwise an update that fails, such as ADD on a text, returns its error and leaves the writes before it (failed_update_keeps_put).
\<close>

theorem write_transactions_check_then_apply:
  assumes "tx_build ms sts (WriteTx db) = Inr b" "db_backend db = memdb" "Tx_Run b m = (r, m')"
  shows "(\<exists>e. r = Inl e) \<and> m' = m \<or>
    list_all (\<lambda>twi. tx_check_on m twi = Inr True) (wb_items b) \<and> (r, m') = tx_applies (wb_items b) m \<and>
    length (wb_items b) = length sts \<and> 1 \<le> length sts \<and> length sts \<le> 100 \<and>
    (tx_cannot_fail m (wb_items b) \<longrightarrow> r = Inr ()) \<and>
    (r = Inr () \<longrightarrow> distinct (List.map_filter (tx_target m) (wb_items b)) \<longrightarrow>
      (\<forall>u k. lookup_item m' u k = tx_effect m (wb_items b) u k))"
proof (cases "wb_err b")
  case None
  then have "length (wb_items b) = length sts" using tx_build_Inr [OF assms(1)] by (simp add: WriteTx_def)
  then show ?thesis
    using tx_run_sends [OF assms(1) None, of m] assms(2,3) transact_checks_first [of "wb_items b" m r m']
    by (cases sts) (auto split: if_splits)
qed (use assms(3) in \<open>auto simp: Tx_Run_def\<close>)

theorem write_transactions_check_then_apply_witness:
  "fst (Tx_Run ex_mixed ex_db2) = Inr () \<and>
   lookup_item (snd (Tx_Run ex_mixed ex_db2)) ''t'' (''S:a'', ''S:1'') = None \<and>
   lookup_item (snd (Tx_Run ex_mixed ex_db2)) ''t'' (''S:a'', ''S:2'') = Some (fmupd ''H'' (TypeS ''new'') (ex_item ''2'' ''y'')) \<and>
   lookup_item (snd (Tx_Run ex_mixed ex_db2)) ''t'' (''S:a'', ''S:3'') = Some (ex_item ''3'' ''z'')"
proof -
  have "fst (Tx_Run ex_mixed ex_db2) = Inr ()" by code_simp
  then obtain m' where run: "Tx_Run ex_mixed ex_db2 = (Inr (), m')" by (cases "Tx_Run ex_mixed ex_db2") simp
  have "db_backend ex_tx_db = memdb" by (simp add: ex_tx_db_def)
  from write_transactions_check_then_apply [OF ex_mixed this run] ex_mixed_ready(2)
  have "lookup_item m' u k = tx_effect ex_db2 (wb_items ex_mixed) u k" for u k by blast
  then show ?thesis by (simp add: run ex_mixed_effect)
qed

text \<open>
  C25. GetAs of the result of a read transaction gives, for each get of the builder, what a get of its own gives on the in-memory backend.
\<close>

theorem read_transactions_are_gets:
  assumes "ReadTx_Run (tx_gets gs (ReadTx db)) m = (Inr rs, m')" "db_backend db = memdb"
    and "i < length gs" "gs ! i = (t, key, opts)" "tb_backend t = memdb"
  shows "Get ms T t key opts m = (GetAs ms T rs (int i), m)"
  by (rule read_tx_is_gets [OF assms])

theorem read_transactions_are_gets_witness:
  "Get no_methods ex_row ex_table (ex_row_key ''9'') [] ex_db2 =
    (GetAs no_methods ex_row [Some (ex_item ''2'' ''y''), None] 1, ex_db2)"
proof -
  let ?gs = "[(ex_table, ex_row_key ''2'', []), (ex_table, ex_row_key ''9'', [])]"
  have "ReadTx_Run (tx_gets ?gs (ReadTx ex_tx_db)) ex_db2 = (Inr [Some (ex_item ''2'' ''y''), None], ex_db2)"
    by code_simp
  from read_transactions_are_gets [OF this, of 1] show ?thesis by (simp add: ex_tx_db_def)
qed

text \<open>
  C26. On the in-memory backend a batch put of items with valid keys, run one chunk at a time, writes all its items in order, however many there are, and tells the callback after each chunk how many of them are done.
\<close>

theorem batch_put_writes_all:
  assumes "sequential_group g" "tb_backend t = memdb" "fmlookup m (tb_name t) = Some td" "items \<noteq> []"
    and "bc_maxConcurrency (fold (\<lambda>opt c. opt c) opts defaultBatchConfig) = 1"
    and "bc_onProgress (fold (\<lambda>opt c. opt c) opts defaultBatchConfig) = Some fn"
    and "put_requests ms items = Inr wrs" "batch_writes wrs td = (Inr (), td')"
  shows "BatchPut g ms t ctx items opts (m, p) =
    (Inr (), (fmupd (tb_name t) td' m,
      fold (\<lambda>i. fn (min (25 * Suc i) (length items)) (length items)) [0..<(length items + 24) div 25] p))"
proof -
  let ?cfg = "fold (\<lambda>opt c. opt c) opts defaultBatchConfig"
  from put_requests_Inr [OF assms(7)] have len: "length wrs = length items" by (auto simp: list_all2_lengthD)
  have "snd (progress ?cfg (length wrs) (0, p) (chunkWriteRequests maxBatchWriteItems wrs)) =
      fold (\<lambda>i. fn (min (25 * Suc i) (length items)) (length items)) [0..<(length items + 24) div 25] p"
    using progress_counts [OF assms(6), of 25 "length items" 0 p wrs] len by (simp add: maxBatchWriteItems_def)
  with executeBatchWrite_memdb [OF assms(1,5,2,3,8), of ctx p]
  have "executeBatchWrite g t ctx wrs ?cfg (m, p) = (Inr (), (fmupd (tb_name t) td' m,
      fold (\<lambda>i. fn (min (25 * Suc i) (length items)) (length items)) [0..<(length items + 24) div 25] p))"
    by auto
  with assms(4,7) show ?thesis by (simp add: BatchPut_def)
qed

theorem batch_put_writes_all_witness:
  "BatchPut (\<lambda>_ ctx. in_order ctx 0) no_methods ex_table (\<lambda>_ _. False) ex_rows ex_told (ex_db0, []) =
   (Inr (), (fmupd ''t'' ex_rows_td ex_db0, [(25, 26), (26, 26)]))"
  using batch_put_writes_all [OF sequential_in_order ex_table_sel(2) _ ex_rows_length(2) ex_told ex_wrs ex_batch,
      of ex_db0 "\<lambda>_ _. False" "[]"] ex_tables(1)
  by (simp add: ex_rows_length upt_rec)

text \<open>
  C27. On the in-memory backend a batch put of items with different keys stores all of them and changes nothing else, whatever the concurrency limit and in whatever order its chunks run, without a progress callback.
\<close>

theorem concurrent_batch_puts_store_all:
  assumes "some_order g" "tb_backend t = memdb" "fmlookup m (tb_name t) = Some td"
    and "bc_onProgress (fold (\<lambda>opt c. opt c) opts defaultBatchConfig) = None"
    and "list_all2 (\<lambda>x av. Marshal ms x = Inr av) items avs"
    and "list_all2 (\<lambda>av k. item_key m (tb_name t) av = Inr k) avs ks" "distinct ks"
  shows "\<exists>m'. BatchPut g ms t ctx items opts (m, p) = (Inr (), (m', p)) \<and>
    (\<forall>u k. lookup_item m' u k =
      (if u = tb_name t \<and> k \<in> set ks then map_of (zip ks avs) k else lookup_item m u k))"
proof (cases "items = []")
  case True
  with assms(5,6) show ?thesis by (intro exI [of _ m]) (simp add: BatchPut_def)
next
  case False
  let ?cfg = "fold (\<lambda>opt c. opt c) opts defaultBatchConfig"
  have keys: "list_all2 (\<lambda>av k. extractKey (td_schema td) av = Inr k) avs ks"
    using assms(6) by (simp add: extract_item_key [OF assms(3)])
  have "\<exists>td'. batch_writes (map put_request avs') td = (Inr (), td')" if "mset avs' = mset avs" for avs'
    using keys mset_eq_setD [OF that] by (intro puts_succeed) (force simp: list_all2_conv_all_nth in_set_conv_nth)
  from some_order_writes [OF assms(1-4) this, where ctx = ctx and p = p] obtain avs' td' where perm: "mset avs' = mset avs"
    and w: "batch_writes (map put_request avs') td = (Inr (), td')"
    and run: "executeBatchWrite g t ctx (map put_request avs) ?cfg (m, p) = (Inr (), (fmupd (tb_name t) td' m, p))"
    by blast
  from run False have "BatchPut g ms t ctx items opts (m, p) = (Inr (), (fmupd (tb_name t) td' m, p))"
    by (simp add: BatchPut_def put_requests_all2 [OF assms(5)])
  moreover from keys have "length ks = length avs" by (simp add: list_all2_lengthD)
  then have "(k \<in> set ks) = (map_of (zip ks avs) k \<noteq> None)" for k
    by (metis map_of_zip_is_None)
  ultimately show ?thesis
    using lookup_puts [OF w perm keys assms(7)] assms(3)
    by (intro exI [of _ "fmupd (tb_name t) td' m"]) (auto simp: lookup_upd lookup_item_def split: option.split)
qed

theorem concurrent_batch_puts_store_all_witness:
  "\<exists>m'. BatchPut (\<lambda>_ ctx tasks. in_order ctx 0 (rev tasks)) no_methods ex_table (\<lambda>_ _. False) ex_rows [MaxConcurrency 4] (ex_db0, ()) =
      (Inr (), (m', ())) \<and> lookup_item m' ''t'' (''S:a'', ''S:z'') = Some (ex_item ''z'' ''x'')"
proof -
  let ?avs = "map (\<lambda>c. ex_item [c] ''x'') ''abcdefghijklmnopqrstuvwxyz''" and ?ks = "map (\<lambda>c. (''S:a'', ''S:'' @ [c])) ''abcdefghijklmnopqrstuvwxyz''"
  have "list_all (\<lambda>c. Marshal no_methods (Some (ex_row, ex_row_value [c] ''x'')) = Inr (ex_item [c] ''x'') \<and>
      item_key ex_db0 ''t'' (ex_item [c] ''x'') = Inr (''S:a'', ''S:'' @ [c])) ''abcdefghijklmnopqrstuvwxyz''"
    by code_simp
  then have marshalled: "list_all2 (\<lambda>x av. Marshal no_methods x = Inr av) ex_rows ?avs"
    and keys: "list_all2 (\<lambda>av k. item_key ex_db0 (tb_name ex_table) av = Inr k) ?avs ?ks"
    unfolding ex_rows_def list_all2_map1 list_all2_map2 list_all_iff by (auto intro!: list.rel_refl_strong)
  have dist: "distinct ?ks" by (simp add: distinct_map inj_on_def)
  have silent: "bc_onProgress (fold (\<lambda>opt c. opt c) [MaxConcurrency 4] defaultBatchConfig) = None"
    by (simp add: MaxConcurrency_def defaultBatchConfig_def)
  have table: "fmlookup ex_db0 (tb_name ex_table) = Some (ex_td ex_db0)" by (simp add: ex_tables)
  obtain m' where put: "BatchPut (\<lambda>_ ctx tasks. in_order ctx 0 (rev tasks)) no_methods ex_table (\<lambda>_ _. False) ex_rows
      [MaxConcurrency 4] (ex_db0, ()) = (Inr (), (m', ()))"
    and stored: "\<forall>u k. lookup_item m' u k =
      (if u = tb_name ex_table \<and> k \<in> set ?ks then map_of (zip ?ks ?avs) k else lookup_item ex_db0 u k)"
    using concurrent_batch_puts_store_all [OF some_order_rev ex_table_sel(2) table silent marshalled keys dist] by metis
  from stored [THEN spec, THEN spec, of "''t''" "(''S:a'', ''S:z'')"] have
    "lookup_item m' ''t'' (''S:a'', ''S:z'') = Some (ex_item ''z'' ''x'')" by simp
  with put show ?thesis by blast
qed

text \<open>
  C28. On the in-memory backend a batch get without projection returns, in the order of the keys, what a get of each key returns, without the keys there is no item for.
\<close>

theorem batch_get_is_gets:
  assumes "reachable m" "tb_backend t = memdb"
    and "bgc_projection (fold (\<lambda>opt c. opt c) opts \<lparr>bgc_projection = []\<rparr>) = []"
    and "\<forall>key \<in> set keys. is_ok (item_key m (tb_name t) (KeyValue_Map key))"
  shows "BatchGet ms T t ctx keys opts m =
    (traverse (\<lambda>key. fst (Get ms T t key [] m))
      (filter (\<lambda>key. stored_under m (tb_name t) (KeyValue_Map key) \<noteq> None) keys), m)"
proof -
  have "traverse (\<lambda>key. fst (Get ms T t key [] m)) (filter (\<lambda>key. stored_under m (tb_name t) (KeyValue_Map key) \<noteq> None) keys) =
      traverse (\<lambda>key. Unmarshal ms (the (stored_under m (tb_name t) (KeyValue_Map key))) T (zero_value T))
        (filter (\<lambda>key. stored_under m (tb_name t) (KeyValue_Map key) \<noteq> None) keys)"
  proof (rule traverse_cong)
    fix key assume "key \<in> set (filter (\<lambda>key. stored_under m (tb_name t) (KeyValue_Map key) \<noteq> None) keys)"
    then obtain k it where k: "item_key m (tb_name t) (KeyValue_Map key) = Inr k" "lookup_item m (tb_name t) k = Some it"
      by (auto simp: stored_under_def split: sum.splits)
    from stored_not_empty [OF assms(1) k(2)] mb.Get_stored [OF assms(2) _ k(1), of "[]" ms T] k(2)
    show "fst (Get ms T t key [] m) = Unmarshal ms (the (stored_under m (tb_name t) (KeyValue_Map key))) T (zero_value T)"
      by (simp add: stored_under_def k get_config_def)
  qed
  with BatchGet_stored [OF assms(2,3), of keys m ms T ctx] assms(4) show ?thesis
    by (simp add: traverse_map_filter is_ok_iff)
qed

theorem batch_get_is_gets_witness:
  "BatchGet no_methods ex_row ex_table (\<lambda>_ _. False) [ex_row_key ''1'', ex_row_key ''9'', ex_row_key ''2''] [] ex_db2 =
    (Inr [ex_row_value ''1'' ''x'', ex_row_value ''2'' ''y''], ex_db2)"
proof -
  have "\<forall>key \<in> set [ex_row_key ''1'', ex_row_key ''9'', ex_row_key ''2'']. is_ok (item_key ex_db2 (tb_name ex_table) (KeyValue_Map key))"
    by code_simp
  note gets = batch_get_is_gets [OF ex_reachable(3) ex_table_sel(2) _ this, of "[]" no_methods ex_row "\<lambda>_ _. False"]
  have "filter (\<lambda>key. stored_under ex_db2 (tb_name ex_table) (KeyValue_Map key) \<noteq> None) [ex_row_key ''1'', ex_row_key ''9'', ex_row_key ''2''] =
      [ex_row_key ''1'', ex_row_key ''2'']" by code_simp
  moreover have "fst (Get no_methods ex_row ex_table (ex_row_key ''1'') [] ex_db2) = Inr (ex_row_value ''1'' ''x'')"
    "fst (Get no_methods ex_row ex_table (ex_row_key ''2'') [] ex_db2) = Inr (ex_row_value ''2'' ''y'')"
    by code_simp+
  ultimately show ?thesis using gets by simp
qed

text \<open>
  C29. Structs put in a batch with concurrency 1 under pairwise different keys into a table of the in-memory backend come back equal and in order from a batch get of the keys without a projection, through encoding, chunks and decoding, if each value survives encoding: no nil slices or maps, no floats, no pointers to pointers, no named byte slices, times of whole seconds, no two fields of one name and no types with methods of their own (rt).
\<close>

theorem batch_put_then_batch_get:
  assumes "sequential_group g" "bc_maxConcurrency (fold (\<lambda>opt c. opt c) opts defaultBatchConfig) = 1"
    and "tb_backend t = memdb"
    and "BatchPut g no_methods t ctx (map (\<lambda>vs. Some (T, VStruct vs)) vss) opts (m, p) = (Inr (), (m', p'))"
    and "bgc_projection (fold (\<lambda>opt c. opt c) gopts \<lparr>bgc_projection = []\<rparr>) = []"
    and "list_all2 (\<lambda>key vs. \<exists>av. Marshal no_methods (Some (T, VStruct vs)) = Inr av \<and>
      item_key m (tb_name t) (KeyValue_Map key) = item_key m (tb_name t) av) keys vss"
    and "distinct (map (\<lambda>key. item_key m (tb_name t) (KeyValue_Map key)) keys)"
    and "\<forall>vs \<in> set vss. rt T no_options (VStruct vs)"
  shows "BatchGet no_methods T t ctx' keys gopts m' = (Inr (map VStruct vss), m')"
proof -
  obtain avs where avs: "list_all2 (\<lambda>vs av. Marshal no_methods (Some (T, VStruct vs)) = Inr av) vss avs"
    and get: "BatchGet no_methods T t ctx' keys gopts m' = (traverse (\<lambda>it. Unmarshal no_methods it T (zero_value T)) avs, m')"
    using batch_put_get [OF assms(1-5) _ assms(7), of T ctx'] assms(6) by (auto simp: list_all2_map1 list_all2_map2)
  have "list_all2 (\<lambda>av v. Unmarshal no_methods av T (zero_value T) = Inr v) avs (map VStruct vss)"
    unfolding list_all2_conv_all_nth
  proof (intro conjI allI impI)
    fix i assume "i < length avs"
    with avs assms(8) have "Marshal no_methods (Some (T, VStruct (vss ! i))) = Inr (avs ! i)" "rt T no_options (VStruct (vss ! i))"
      by (simp_all add: list_all2_conv_all_nth)
    with marshal_unmarshal [of T "vss ! i"] avs \<open>i < length avs\<close>
    show "Unmarshal no_methods (avs ! i) T (zero_value T) = Inr (map VStruct vss ! i)"
      by (simp add: list_all2_conv_all_nth)
  qed (use avs in \<open>simp add: list_all2_lengthD\<close>)
  then show ?thesis unfolding get by (simp add: traverse_all2)
qed

theorem batch_put_then_batch_get_witness:
  "BatchGet no_methods ex_row ex_table (\<lambda>_ _. False) (map (\<lambda>c. ex_row_key [c]) ''abcdefghijklmnopqrstuvwxyz'') []
     (fmupd ''t'' ex_rows_td ex_db0) =
   (Inr (map (\<lambda>c. ex_row_value [c] ''x'') ''abcdefghijklmnopqrstuvwxyz''), fmupd ''t'' ex_rows_td ex_db0)"
proof -
  let ?vss = "map (\<lambda>c. [VString ''a'', VString [c], VString ''x'']) ''abcdefghijklmnopqrstuvwxyz''"
  let ?keys = "map (\<lambda>c. ex_row_key [c]) ''abcdefghijklmnopqrstuvwxyz''"
  have "map (\<lambda>vs. Some (ex_row, VStruct vs)) ?vss = ex_rows" by (simp add: ex_rows_def ex_row_value_def)
  then have put: "BatchPut (\<lambda>_ ctx. in_order ctx 0) no_methods ex_table (\<lambda>_ _. False)
      (map (\<lambda>vs. Some (ex_row, VStruct vs)) ?vss) ex_told (ex_db0, []) = (Inr (), (fmupd ''t'' ex_rows_td ex_db0, [(25, 26), (26, 26)]))"
    using ex_rows_put by simp
  have keys: "list_all2 (\<lambda>key vs. \<exists>av. Marshal no_methods (Some (ex_row, VStruct vs)) = Inr av \<and>
      item_key ex_db0 (tb_name ex_table) (KeyValue_Map key) = item_key ex_db0 (tb_name ex_table) av) ?keys ?vss"
    by (rule ex_rows_keys)
  have "distinct (map (\<lambda>key. item_key ex_db0 (tb_name ex_table) (KeyValue_Map key)) ?keys)" by code_simp
  moreover have "\<forall>vs \<in> set ?vss. rt ex_row no_options (VStruct vs)"
    using ex_row_rt by (simp add: ex_row_value_def)
  ultimately show ?thesis
    using batch_put_then_batch_get [OF sequential_in_order ex_told(1) ex_table_sel(2) put _ keys, of "[]" "\<lambda>_ _. False"]
    by (simp add: ex_row_value_def comp_def)
qed

text \<open>
  C30. A batch get calls its backend at most six times for every hundred keys or part of them, whatever the backend leaves unprocessed; the calls are counted by the clock readings of the logging backend.
\<close>

theorem batch_calls_are_bounded:
  assumes "tb_backend t = loggingBackend lc clock be"
  shows "lg_reads (snd (BatchGet ms T t ctx keys opts l)) \<le> lg_reads l + 2 * (6 * ((length keys + 99) div 100))"
  by (rule batch_get_calls [OF assms])

theorem batch_calls_are_bounded_witness:
  "lg_reads (snd (BatchGet no_methods ex_row ex_logged_table (\<lambda>_ _. False) [ex_row_key ''1'', ex_row_key ''9'', ex_row_key ''2''] []
     \<lparr>lg_state = ex_db2, lg_records = [], lg_reads = 0\<rparr>)) \<le> 12"
proof -
  have "tb_backend ex_logged_table = loggingBackend \<lparr>slowThreshold = 0\<rparr> (\<lambda>_. 0) memdb" by (simp add: ex_logged_table_def)
  from batch_calls_are_bounded [OF this, of no_methods ex_row "\<lambda>_ _. False" "[ex_row_key ''1'', ex_row_key ''9'', ex_row_key ''2'']" "[]"
      "\<lparr>lg_state = ex_db2, lg_records = [], lg_reads = 0\<rparr>"]
  show ?thesis by simp
qed

subsection \<open>Translation, telemetry, test data and the AWS backend\<close>

text \<open>
  C31. The text and maps ToDynamo makes of a condition tree (comparisons and functions of one-part attributes and values, under AND, OR and NOT, with identifiers as names and the functions the backend knows, in lower case) are parsed by the in-memory backend to the same tree, and evaluate as it does.
\<close>

theorem translated_conditions_are_read_back:
  assumes "cond_tree n" "ToDynamo n = (e, nm, vs)"
  shows "parseExpressionToAST e nm vs = Inr n \<and> evalCondition e nm vs it = Eval n it"
  using ToDynamo_read [OF assms] by blast

theorem translated_conditions_are_read_back_witness:
  "parseExpressionToAST ''(#Size >= :v0) OR (NOT (contains(#Tags, :v1)))''
     (fmap_of_list [(''#Size'', ''Size''), (''#Tags'', ''Tags'')]) (fmap_of_list [('':v0'', TypeN ''5''), ('':v1'', TypeS ''x'')]) =
   Inr (LogicalNode OR (CompareNode (PathNode [''Size'']) GE (ValueNode (TypeN ''5'')))
     (Some (LogicalNode NOT (FuncNode ''contains'' [PathNode [''Tags''], ValueNode (TypeS ''x'')]) None)))"
proof -
  let ?n = "LogicalNode OR (CompareNode (PathNode [''Size'']) GE (ValueNode (TypeN ''5'')))
     (Some (LogicalNode NOT (FuncNode ''contains'' [PathNode [''Tags''], ValueNode (TypeS ''x'')]) None))"
  have "cond_tree ?n" by code_simp
  moreover have "ToDynamo ?n = (''(#Size >= :v0) OR (NOT (contains(#Tags, :v1)))'',
      fmap_of_list [(''#Size'', ''Size''), (''#Tags'', ''Tags'')], fmap_of_list [('':v0'', TypeN ''5''), ('':v1'', TypeS ''x'')])"
    by code_simp
  ultimately show ?thesis by (rule translated_conditions_are_read_back [THEN conjunct1])
qed

text \<open>
  C32. Behind the telemetry middleware every sequence of calls returns the same results and changes the wrapped backend in the same way, whatever tracer and meter it has. A recording tracer and meter see, in order, one span per call; the span of a call that returns is ended and has the error the call returned, and the call is counted once; a call that panics leaves its span open, without an error, and is not counted.
\<close>

theorem telemetry_is_transparent:
  "map_prod id ot_state (invoke_all (NewMiddleware clock opts be) cs t) = invoke_all be cs (ot_state t) \<and>
   rd_spans (ot_tel (snd (invoke_all (NewMiddleware clock [WithTracer recording_tracer, WithMeter recording_meter] be) cs u))) =
     rd_spans (ot_tel u) @ map2 recorded_span cs (fst (invoke_all be cs (ot_state u))) \<and>
   rd_counts (ot_tel (snd (invoke_all (NewMiddleware clock [WithTracer recording_tracer, WithMeter recording_meter] be) cs u))) =
     rd_counts (ot_tel u) @
     map (\<lambda>(c, r). recorded_count c) (filter (\<lambda>(c, r). \<not> panics r) (zip cs (fst (invoke_all be cs (ot_state u)))))"
  using ot.invoke_all_runs recorded_run unfolding NewMiddleware_def by blast

text \<open>
  C33. A file of items in DynamoDB JSON with different keys that SeedFromJSON loads without error is stored item by item in the in-memory backend; nested lists and maps included.
\<close>

theorem seeded_items_are_stored:
  assumes "items_json j its" "read_file path = Inr j" "tb_backend t = memdb"
    and "SeedFromJSON read_file t path m = (Inr (), m')" "distinct (map (item_key m (tb_name t)) its)"
  shows "\<forall>it \<in> set its. \<exists>k. item_key m (tb_name t) it = Inr k \<and> lookup_item m' (tb_name t) k = Some it"
proof -
  from items_json_parsed [OF assms(1)] obtain raws where raws: "bind (as_array j) (each as_object) = Inr raws"
    "list_all2 (\<lambda>raw it. parseDynamoDBJSON raw = Inr it) raws its" by blast
  with assms(2,4) have "seed_items (put_raw t) ''dynagotest.SeedFromJSON'' raws 0 m = (Inr (), m')"
    by (simp add: SeedFromJSON_def on_error_def)
  from mb.seed_stores [OF assms(3) this raws(2) assms(5)] show ?thesis by blast
qed

theorem seeded_items_are_stored_witness:
  "lookup_item (snd (SeedFromJSON (\<lambda>_. Inr ex_json) ex_table ''items.json'' ex_db0)) ''t'' (''S:a'', ''S:2'') = Some (ex_item ''2'' ''y'')"
proof -
  have "fst (SeedFromJSON (\<lambda>_. Inr ex_json) ex_table ''items.json'' ex_db0) = Inr ()" by code_simp
  then have run: "SeedFromJSON (\<lambda>_. Inr ex_json) ex_table ''items.json'' ex_db0 =
      (Inr (), snd (SeedFromJSON (\<lambda>_. Inr ex_json) ex_table ''items.json'' ex_db0))" by (simp add: prod_eq_iff)
  have keys: "item_key ex_db0 ''t'' (ex_item ''1'' ''x'') = Inr (''S:a'', ''S:1'')" "item_key ex_db0 ''t'' (ex_item ''2'' ''y'') = Inr (''S:a'', ''S:2'')"
    by code_simp+
  then have "distinct (map (item_key ex_db0 (tb_name ex_table)) [ex_item ''1'' ''x'', ex_item ''2'' ''y''])" by simp
  from seeded_items_are_stored [OF ex_items_json refl ex_table_sel(2) run this] keys show ?thesis by simp
qed

text \<open>
  C34. Behind a client that reads the inputs back and answers from a backend, each of the ten operations of the AWS backend gives the result of that backend and changes its state in the same way, its errors classified by wrapAWSError: no field of a request or response is lost or changed, if its values have a type, its limits are not negative and no write request asks for both a put and a delete.
\<close>

theorem aws_backend_is_transparent:
  assumes "plain_call c" and "\<And>x. fst (invoke be c s) = Inr x \<Longrightarrow> plain_response x"
  shows "invoke (NewAWSBackend (service_of enc be)) c s =
     (case invoke be c s of (Inl e, s') \<Rightarrow> (Inl (wrapAWSError (enc e)), s') | (Inr x, s') \<Rightarrow> (Inr x, s'))"
  using sv.aws_transparent [of c be s enc, OF assms] by (simp add: wrapped_def split: prod.split sum.split)

theorem aws_backend_is_transparent_witness:
  "invoke (NewAWSBackend (service_of ex_sdk memdb)) (CallGet ex_aws_get) ex_db2 =
     (Inr (RItem (Some (ex_item ''2'' ''y''))), ex_db2)"
proof -
  have "fst (invoke memdb (CallGet ex_aws_get) ex_db2) = Inr x \<Longrightarrow> plain_response x" for x
    using ex_aws_plain(2) by (auto simp: ex_aws_get)
  from aws_backend_is_transparent [of "CallGet ex_aws_get" memdb ex_db2 ex_sdk, OF _ this] ex_aws_plain(1) show ?thesis
    by (simp add: ex_aws_get)
qed

text \<open>
  C35. A wrapped SDK error is recognised as a failed condition exactly for the exception or for a cancelled transaction with such a reason, and as cancelled with the reasons of the exception, in order, if no failed condition takes precedence.
\<close>

theorem aws_errors_are_classified:
  assumes "\<And>t. \<not> errors_Is (ae_error err) t" and "TxCancelReasons (ae_error err) = None"
  shows "(IsCondCheckFailed (wrapAWSError err) \<longleftrightarrow>
       ConditionalCheckFailedException \<in> set (ae_chain err) \<or>
       (\<exists>crs. first_cancelled (ae_chain err) = Some crs \<and> Some ''ConditionalCheckFailed'' \<in> fst ` set crs)) \<and>
     (IsTxCancelled (wrapAWSError err) \<longleftrightarrow>
       ConditionalCheckFailedException \<notin> set (ae_chain err) \<and> (\<exists>crs. TransactionCanceledException crs \<in> set (ae_chain err))) \<and>
     TxCancelReasons (wrapAWSError err) =
       (if ConditionalCheckFailedException \<in> set (ae_chain err) then None
        else map_option (map cancel_reason) (first_cancelled (ae_chain err)))"
  using wrap_cond_failed [OF assms(1)] wrap_cancelled [OF assms(1), unfolded first_cancelled_None] wrap_reasons [OF assms(2)]
  by simp

theorem aws_errors_are_classified_witness:
  "IsTxCancelled (wrapAWSError ex_cancelled) \<and> IsCondCheckFailed (wrapAWSError ex_cancelled) \<and>
   TxCancelReasons (wrapAWSError ex_cancelled) =
     Some [\<lparr>Code = ''None'', Message = []\<rparr>, \<lparr>Code = ''ConditionalCheckFailed'', Message = ''no''\<rparr>]"
  using aws_errors_are_classified [of ex_cancelled]
  by (simp add: ex_cancelled_def cancel_reason_def)

subsection \<open>Locks\<close>

text \<open>
  C36. Concurrent calls of the in-memory backend whose transactions list their tables in a common order cannot block each other for ever: every schedule ends within a bound and stops only when all calls have returned, whether readers queue behind waiting writers or not, and no table is ever held for writing with another holder.
\<close>

theorem ordered_calls_do_not_deadlock:
  assumes "list_all (locks_in_order rank) cs" and "(lock_step queue ^^ n) (start_calls m cs) ths"
  shows "n + lock_cost ths \<le> lock_cost (start_calls m cs) \<and> exclusive ths \<and>
     (list_all th_done ths \<or> (\<exists>ths'. lock_step queue ths ths'))"
  using lock_run [OF assms(2) start_ok [OF assms(1)] start_exclusive] lock_progress by blast

theorem ordered_calls_do_not_deadlock_witness:
  "\<exists>n. (lock_step True ^^ n) (start_calls ex_two ex_both) ex_locked \<and> n + 4 + 14 \<le> lock_cost (start_calls ex_two ex_both) \<and>
     exclusive ex_locked \<and> (list_all th_done ex_locked \<or> (\<exists>ths'. lock_step True ex_locked ths'))"
proof -
  from ex_both_run obtain n where n: "(lock_step True ^^ n) (start_calls ex_two ex_both) ex_locked"
    by (auto dest: rtranclp_imp_relpowp)
  have "lock_cost ex_locked = 4 + 19"
    by (simp add: ex_locked_def lock_cost_def th_cost_def in_section_def idle_thread_def table_section_def)
  with ordered_calls_do_not_deadlock [OF ex_both_ordered n] n show ?thesis by auto
qed

text \<open>
  C37. Two write transactions over the same two tables in opposite orders can reach a state in which each holds the table the other waits for and no step is possible: the tables are locked in the order of the request.
\<close>

theorem crossed_transactions_deadlock:
  assumes "fmlookup m s \<noteq> None" "fmlookup m t \<noteq> None" "s \<noteq> t"
    and "map txWriteTableName ws = [s, t]" "map txWriteTableName ws' = [t, s]"
  shows "\<exists>ths. (lock_step queue)\<^sup>*\<^sup>* (start_calls m [CallTransactWrite ws, CallTransactWrite ws']) ths \<and>
     \<not> list_all th_done ths \<and> (\<forall>queue' ths'. \<not> lock_step queue' ths ths')"
  using crossed_reached [OF assms(3), of queue] crossed_stuck
    two_tables [OF assms(1-4)] two_tables [OF assms(2,1) assms(3) [symmetric] assms(5)]
  by (intro exI [of _ "crossed s t"]) (simp add: start_calls_def start_thread_def idle_thread_def)

theorem crossed_transactions_deadlock_witness:
  "\<exists>ths. (lock_step False)\<^sup>*\<^sup>* (start_calls ex_two
       [CallTransactWrite [ex_tput ''t'', ex_tput ''tt''], CallTransactWrite [ex_tput ''tt'', ex_tput ''t'']]) ths \<and>
     \<not> list_all th_done ths \<and> (\<forall>queue' ths'. \<not> lock_step queue' ths ths')"
  by (rule crossed_transactions_deadlock [of _ "''t''" "''tt''"]) simp_all

text \<open>
  C38. A call of the in-memory backend changes only tables it has locked for writing, and what it returns and makes of them depends only on the tables it has locked and on which tables there are.
\<close>

theorem locks_cover_calls:
  "agree (- locked {Lock} m c) m (snd (invoke memdb c m)) \<and>
   (agree (locked UNIV m c) m m' \<longrightarrow>
      fst (invoke memdb c m') = fst (invoke memdb c m) \<and>
      agree (locked {Lock} m c) (snd (invoke memdb c m)) (snd (invoke memdb c m')))"
  using confinedD [OF call_confined] by blast

theorem locks_cover_calls_witness:
  "agree (- locked {Lock} ex_two (CallTransactWrite [ex_tput ''t''])) ex_two (snd (invoke memdb (CallTransactWrite [ex_tput ''t'']) ex_two)) \<and>
   fst (invoke memdb (CallTransactWrite [ex_tput ''t'']) (fmupd ''tt'' (ex_td ex_db2) ex_two)) =
     fst (invoke memdb (CallTransactWrite [ex_tput ''t'']) ex_two)"
proof -
  have "locked UNIV ex_two (CallTransactWrite [ex_tput ''t'']) \<subseteq> {''t''}"
    by (subst locked_tx [of _ _ Lock "[''t'']"]) (simp_all add: call_sections_def)
  then have "agree (locked UNIV ex_two (CallTransactWrite [ex_tput ''t''])) ex_two (fmupd ''tt'' (ex_td ex_db2) ex_two)"
    by (auto simp: agree_def ex_two_def)
  with locks_cover_calls [of ex_two "CallTransactWrite [ex_tput ''t'']" "fmupd ''tt'' (ex_td ex_db2) ex_two"]
  show ?thesis by blast
qed

text \<open>
  C39. Two calls of the in-memory backend that lock no table in conflict return the same results and end in the same state in either order: what the mutexes let overlap cannot be told from running one after the other.
\<close>

theorem unconflicting_calls_commute:
  assumes "no_conflict m c c'"
  shows "fst (invoke memdb c' (snd (invoke memdb c m))) = fst (invoke memdb c' m) \<and>
     fst (invoke memdb c (snd (invoke memdb c' m))) = fst (invoke memdb c m) \<and>
     snd (invoke memdb c' (snd (invoke memdb c m))) = snd (invoke memdb c (snd (invoke memdb c' m)))"
proof -
  have "no_conflict m c' c" using assms by (auto simp: no_conflict_def)
  with after_unconflicting(1) unconflicting_states assms show ?thesis by blast
qed

theorem unconflicting_calls_commute_witness:
  "snd (invoke memdb (CallTransactWrite [ex_tput ''tt'']) (snd (invoke memdb (CallTransactWrite [ex_tput ''t'']) ex_two))) =
   snd (invoke memdb (CallTransactWrite [ex_tput ''t'']) (snd (invoke memdb (CallTransactWrite [ex_tput ''tt'']) ex_two)))"
proof -
  have l: "locked modes ex_two (CallTransactWrite [ex_tput t]) \<subseteq> {t}" for modes t
    by (subst locked_tx [of _ _ Lock "[t]"]) (simp_all add: call_sections_def)
  have "A \<inter> B = {}" if "A \<subseteq> {''t''}" "B \<subseteq> {''tt''}" for A B
    using that by auto
  then have "no_conflict ex_two (CallTransactWrite [ex_tput ''t'']) (CallTransactWrite [ex_tput ''tt''])"
    unfolding no_conflict_def using l by (metis Int_commute)
  from unconflicting_calls_commute [OF this] show ?thesis by simp
qed

text \<open>
  C40. A client program (gets, puts, deletes, updates, queries, scans, collections, read-modify-writes, batch gets, transactions, seeds, in any order and going on after errors) gives the same results behind logging and telemetry as without them, and changes the wrapped backend in the same way.
\<close>

theorem clients_cannot_see_middleware:
  "map_prod id (ot_state \<circ> lg_state)
     (run_clients ms ents (over (LoggingMiddleware clock lopts (NewMiddleware clock' oopts be)) t) ps s) =
   run_clients ms ents (over be t) ps (ot_state (lg_state s))"
proof -
  have "map_prod id (ot_state \<circ> lg_state) x = map_prod id ot_state (map_prod id lg_state x)" for x :: "client_result result list \<times> ('a, 'b) instrumented logged"
    by (simp add: prod.map_comp)
  then show ?thesis
    unfolding LoggingMiddleware_def NewMiddleware_def by (simp only: lg.run_clients_runs ot.run_clients_runs)
qed

subsection \<open>Further facts\<close>

text \<open>
  A get of the key of an item just put returns that item.
\<close>

theorem put_then_get:
  assumes "PutItem preq m = Inr m'" "gi_TableName greq = pi_TableName preq" "gi_ProjectionExpression greq = []"
    and "item_key m (gi_TableName greq) (gi_Key greq) = item_key m (pi_TableName preq) (pi_Item preq)"
  shows "GetItem greq m' = Inr (Some (pi_Item preq))"
  using assms(1)
proof (rule PutItem_refines)
  fix k
  assume "item_key m (pi_TableName preq) (pi_Item preq) = Inr k"
    and "\<And>t j. lookup_item m' t j = (if t = pi_TableName preq \<and> j = k then Some (pi_Item preq) else lookup_item m t j)"
    and "same_schemas m m'"
  with assms show ?thesis
    using item_key_same [of m m'] by (simp add: GetItem_lookup projectItem_def)
qed

theorem put_then_get_witness: "GetItem (ex_get ''2'') ex_db2 = Inr (Some (ex_item ''2'' ''y''))"
proof -
  have "gi_TableName (ex_get ''2'') = pi_TableName (ex_put ''2'' ''y'')"
    "gi_ProjectionExpression (ex_get ''2'') = []" "pi_Item (ex_put ''2'' ''y'') = ex_item ''2'' ''y''"
    "item_key ex_db1 (gi_TableName (ex_get ''2'')) (gi_Key (ex_get ''2'')) =
     item_key ex_db1 (pi_TableName (ex_put ''2'' ''y'')) (pi_Item (ex_put ''2'' ''y''))"
    by code_simp+
  with put_then_get [OF ex_put2, of "ex_get ''2''"] show ?thesis by simp
qed

text \<open>
  A get of a key just deleted finds nothing.
\<close>

theorem delete_then_get:
  assumes "DeleteItem dreq m = Inr m'" "gi_TableName greq = di_TableName dreq"
    and "item_key m (gi_TableName greq) (gi_Key greq) = item_key m (di_TableName dreq) (di_Key dreq)"
  shows "GetItem greq m' = Inr None"
  using assms(1)
proof (rule DeleteItem_refines)
  fix k
  assume "item_key m (di_TableName dreq) (di_Key dreq) = Inr k"
    and "\<And>t j. lookup_item m' t j = (if t = di_TableName dreq \<and> j = k then None else lookup_item m t j)"
    and "same_schemas m m'"
  with assms show ?thesis
    using item_key_same [of m m'] by (simp add: GetItem_lookup)
qed

theorem delete_then_get_witness:
  "\<exists>m'. DeleteItem (ex_delete ''1'') ex_db2 = Inr m' \<and> GetItem (ex_get ''1'') m' = Inr None"
proof -
  have "is_ok (DeleteItem (ex_delete ''1'') ex_db2)" by code_simp
  then obtain m' where del: "DeleteItem (ex_delete ''1'') ex_db2 = Inr m'" by blast
  have "gi_TableName (ex_get ''1'') = di_TableName (ex_delete ''1'')"
    "item_key ex_db2 (gi_TableName (ex_get ''1'')) (gi_Key (ex_get ''1'')) =
     item_key ex_db2 (di_TableName (ex_delete ''1'')) (di_Key (ex_delete ''1''))"
    by code_simp+
  from delete_then_get [OF del this] del show ?thesis by blast
qed

text \<open>
  A put whose condition is false for the existing item, or for the empty item where there is none, fails with an error that IsCondCheckFailed recognises.
\<close>

theorem failed_condition_stops_put:
  assumes "pi_ConditionExpression req \<noteq> []" "item_key m (pi_TableName req) (pi_Item req) = Inr k"
    and "evalCondition (pi_ConditionExpression req) (pi_Names req) (pi_Values req)
      (existing_or_empty (lookup_item m (pi_TableName req) k)) = Inr False"
  shows "\<exists>e. PutItem req m = Inl e \<and> IsCondCheckFailed e"
  using assms
  by (simp add: PutItem_eq check_condition_def condition_failed_def IsCondCheckFailed_def)

theorem failed_condition_stops_put_witness:
  "\<exists>e. PutItem (ex_put_new ''1'' ''z'') ex_db2 = Inl e \<and> IsCondCheckFailed e"
  by (rule failed_condition_stops_put [where k = "(''S:a'', ''S:1'')"]) code_simp+

text \<open>
  An update with ALL_NEW returns the item it stores, and the attributes its actions do not start at are those of the old item, or of the key for a new one.
\<close>

theorem update_frame:
  assumes "UpdateItem req m = Inr (attrs, m')" "ui_ReturnValues req = ''ALL_NEW''"
    and "item_key m (ui_TableName req) (ui_Key req) = Inr k"
    and "parseUpdateExpression (ui_UpdateExpression req) (ui_Names req) (ui_Values req) = Inr ops"
  shows "\<exists>new. attrs = Some new \<and> lookup_item m' (ui_TableName req) k = Some new \<and>
    (\<forall>a. \<not> list_ex (op_touches {a}) ops \<longrightarrow>
       fmlookup new a = fmlookup (case lookup_item m (ui_TableName req) k of Some old \<Rightarrow> old | None \<Rightarrow> ui_Key req) a)"
  using assms(1)
proof (rule UpdateItem_refines)
  fix j it
  assume j: "item_key m (ui_TableName req) (ui_Key req) = Inr j"
    and it: "updated_item (ui_UpdateExpression req) (ui_Names req) (ui_Values req) (ui_Key req)
      (lookup_item m (ui_TableName req) j) = Inr it"
    and look: "\<And>t i. lookup_item m' t i = (if t = ui_TableName req \<and> i = j then Some it else lookup_item m t i)"
    and attrs: "attrs = (if ui_ReturnValues req = ''ALL_NEW'' then Some it
      else if ui_ReturnValues req = ''ALL_OLD'' then lookup_item m (ui_TableName req) j else None)"
  have "fmlookup it a = fmlookup (case lookup_item m (ui_TableName req) k of Some old \<Rightarrow> old | None \<Rightarrow> ui_Key req) a"
    if "\<not> list_ex (op_touches {a}) ops" for a
  proof (rule updated_item_frame)
    show "updated_item (ui_UpdateExpression req) (ui_Names req) (ui_Values req) (ui_Key req)
        (lookup_item m (ui_TableName req) k) = Inr it"
      using it j assms(3) by simp
    fix ops' op ps
    assume "parseUpdateExpression (ui_UpdateExpression req) (ui_Names req) (ui_Values req) = Inr ops'" "op \<in> set ops'"
    with that assms(4) have "\<not> op_touches {a} op" by (auto simp: list_ex_iff)
    then show "uop_path op \<noteq> a # ps" by (auto simp: op_touches_def)
  qed
  with j attrs look assms(2,3) show ?thesis by simp
qed

theorem update_frame_witness:
  "\<exists>new. lookup_item (snd (case UpdateItem (ex_update ''1'' ''SET #H = :v0'') ex_db2 of Inr r \<Rightarrow> r)) ''t'' (''S:a'', ''S:1'') = Some new \<and>
     fmlookup new ''G'' = Some (TypeS ''x'')"
proof -
  let ?req = "ex_update ''1'' ''SET #H = :v0''"
  have "is_ok (UpdateItem ?req ex_db2)" by code_simp
  then obtain attrs m' where up: "UpdateItem ?req ex_db2 = Inr (attrs, m')" by (auto elim!: is_okE)
  have "is_ok (parseUpdateExpression (ui_UpdateExpression ?req) (ui_Names ?req) (ui_Values ?req))" by code_simp
  then obtain ops where ops: "parseUpdateExpression (ui_UpdateExpression ?req) (ui_Names ?req) (ui_Values ?req) = Inr ops"
    by (auto elim!: is_okE)
  have "(case parseUpdateExpression (ui_UpdateExpression ?req) (ui_Names ?req) (ui_Values ?req) of
      Inr ops \<Rightarrow> \<not> list_ex (op_touches {''G''}) ops)" by code_simp
  with ops have touch: "\<not> list_ex (op_touches {''G''}) ops" by simp
  have facts: "ui_ReturnValues ?req = ''ALL_NEW''" "item_key ex_db2 (ui_TableName ?req) (ui_Key ?req) = Inr (''S:a'', ''S:1'')"
    "ui_TableName ?req = ''t''" "lookup_item ex_db2 ''t'' (''S:a'', ''S:1'') = Some (ex_item ''1'' ''x'')"
    "fmlookup (ex_item ''1'' ''x'') ''G'' = Some (TypeS ''x'')"
    by code_simp+
  from update_frame [OF up facts(1,2) ops] facts touch up show ?thesis by auto
qed

text \<open>
  Following the start keys of a limited table scan gives the items of the scan without a limit.
\<close>

theorem scan_pages_are_complete:
  assumes "reachable m" "fmlookup m (s_TableName req) = Some td" "s_IndexName req = []"
    and "item_count td < fuel"
  shows "read_pages fuel (\<lambda>start. Scan (req\<lparr>s_ExclusiveStartKey := start\<rparr>) m) fmempty =
    bind (Scan (req\<lparr>s_ExclusiveStartKey := fmempty, s_Limit := 0\<rparr>) m) (\<lambda>resp. Inr (r_Items resp))"
  using assms by (intro scan_pages) (auto simp: table_ok_def dest!: reachable_ok backend_okD)

theorem scan_pages_are_complete_witness:
  "read_pages 3 (\<lambda>start. Scan ((ex_scan 1)\<lparr>s_ExclusiveStartKey := start\<rparr>) ex_db2) fmempty =
     Inr [ex_item ''1'' ''x'', ex_item ''2'' ''y'']"
proof -
  have facts: "s_TableName (ex_scan 1) = ''t''" "s_IndexName (ex_scan 1) = []" "item_count (ex_td ex_db2) < 3"
    "bind (Scan ((ex_scan 1)\<lparr>s_ExclusiveStartKey := fmempty, s_Limit := 0\<rparr>) ex_db2) (\<lambda>resp. Inr (r_Items resp)) =
      Inr [ex_item ''1'' ''x'', ex_item ''2'' ''y'']"
    by code_simp+
  from scan_pages_are_complete [OF ex_reachable(3), of "ex_scan 1" "ex_td ex_db2" 3] facts show ?thesis
    by (simp add: ex_tables)
qed

text \<open>
  After a batch of puts and deletes on a table every key holds what the last write to it says, and its old item where there is none.
\<close>

theorem batch_last_write_wins:
  assumes "batch_writes wrs td = (Inr (), td')" "table_ok td"
  shows "kget k (td_items td') =
    (case map_of (rev (concat (map (write_of (td_schema td)) wrs))) k of
       Some w \<Rightarrow> w
     | None \<Rightarrow> kget k (td_items td))"
  using assms by (simp add: batch_writes_items table_ok_def ks.get_writes)

theorem batch_last_write_wins_witness:
  "kget (''S:a'', ''S:1'') (td_items (snd (batch_writes
     [\<lparr>wr_PutItem = Some (ex_item ''1'' ''u''), wr_DeleteItem = None\<rparr>,
      \<lparr>wr_PutItem = Some (ex_item ''1'' ''v''), wr_DeleteItem = None\<rparr>,
      \<lparr>wr_PutItem = None, wr_DeleteItem = Some (ex_key ''2'')\<rparr>] (ex_td ex_db2)))) = Some (ex_item ''1'' ''v'')"
proof -
  let ?wrs = "[\<lparr>wr_PutItem = Some (ex_item ''1'' ''u''), wr_DeleteItem = None\<rparr>,
      \<lparr>wr_PutItem = Some (ex_item ''1'' ''v''), wr_DeleteItem = None\<rparr>,
      \<lparr>wr_PutItem = None, wr_DeleteItem = Some (ex_key ''2'')\<rparr>]"
  have ok: "table_ok (ex_td ex_db2)" by (rule backend_okD [OF reachable_ok [OF ex_reachable(3)] ex_tables(3)])
  have "fst (batch_writes ?wrs (ex_td ex_db2)) = Inr ()" by code_simp
  then have run: "batch_writes ?wrs (ex_td ex_db2) = (Inr (), snd (batch_writes ?wrs (ex_td ex_db2)))"
    by (simp add: prod_eq_iff)
  have "map_of (rev (concat (map (write_of (td_schema (ex_td ex_db2))) ?wrs))) (''S:a'', ''S:1'') = Some (Some (ex_item ''1'' ''v''))"
    by code_simp
  with batch_last_write_wins [OF run ok, of "(''S:a'', ''S:1'')"] show ?thesis
    by (simp del: batch_writes.simps)
qed

text \<open>
  Every error of Marshal is recognised as a validation error where no type encodes itself.
\<close>

theorem marshal_errors_are_validation:
  assumes "Marshal no_methods x = Inl e"
  shows "IsValidation e"
proof (cases x)
  case (Some tv)
  obtain t v where tv: "tv = (t, v)" by (cases tv)
  show ?thesis
  proof (cases "deref_value False t v")
    case (Inl err)
    with assms Some tv deref_errors show ?thesis by (auto simp: Marshal_def)
  next
    case (Inr r)
    obtain a u w where "r = (a, u, w)" by (cases r)
    with assms Some tv Inr marshal_errors(4) [OF refl] show ?thesis
      by (cases w) (auto simp: Marshal_def)
  qed
qed (use assms in \<open>auto simp: Marshal_def\<close>)

theorem marshal_errors_are_validation_witness:
  "\<exists>e. Marshal no_methods (Some (GStruct [(\<lparr>fm_Name = ''F'', fm_exported = True, fm_tag = []\<rparr>, GOther ''chan'')],
     VStruct [VOther False])) = Inl e \<and> IsValidation e"
proof -
  let ?x = "Some (GStruct [(\<lparr>fm_Name = ''F'', fm_exported = True, fm_tag = []\<rparr>, GOther ''chan'')], VStruct [VOther False])"
  have "Marshal no_methods ?x = Inl (projl (Marshal no_methods ?x))" by code_simp
  with marshal_errors_are_validation [OF this] show ?thesis by blast
qed

text \<open>
  A nil slice is encoded as NULL, which the decoder rejects for a slice.
\<close>

theorem nil_slices_do_not_return:
  assumes "strip e \<noteq> GInt KUint8"
  shows "marshalValue no_methods addr (GSlice e) (VSlice None) opts = Inr (TypeNULL True) \<and>
    (\<exists>err. unmarshalValue no_methods (GSlice e) (TypeNULL True) cur opts = Inl err)"
  using assms
  by (auto simp: marshalValue.simps unmarshalValue.simps unmarshalInto.simps unmarshalSet_def expected_def)

theorem nil_slices_do_not_return_witness:
  "marshalValue no_methods False (GSlice GString) (VSlice None) no_options = Inr (TypeNULL True) \<and>
    (\<exists>err. unmarshalValue no_methods (GSlice GString) (TypeNULL True) (VSlice None) no_options = Inl err)"
  by (rule nil_slices_do_not_return) simp

text \<open>
  Behind the logging middleware every sequence of calls returns the same results and changes the wrapped backend in the same way, and the debug log gains exactly one record per call that does not panic, in order, with its operation, table and error.
\<close>

theorem logging_is_transparent:
  "map_prod id lg_state (invoke_all (LoggingMiddleware clock opts be) cs l) = invoke_all be cs (lg_state l) \<and>
   logged_calls LevelDebug (lg_records (snd (invoke_all (LoggingMiddleware clock opts be) cs l))) =
     logged_calls LevelDebug (lg_records l) @
     map (\<lambda>(c, r). (call_label c, map_option error_text (error_of r)))
       (filter (\<lambda>(c, r). \<not> panics r) (zip cs (fst (invoke_all be cs (lg_state l)))))"
  unfolding LoggingMiddleware_def using lg.invoke_all_runs logged_run by blast

text \<open>
  After a delete through the client a get of the key fails with ErrNotFound.
\<close>

theorem client_delete_then_get:
  assumes "tb_backend t = memdb" "Table_Delete t key opts m = (Inr (), m')" "gc_projection (get_config gopts) = []"
  shows "Get ms T t key gopts m' = (Inl (Sentinel ErrNotFound), m')"
  by (rule mb.delete_get [OF assms])

theorem client_delete_then_get_witness:
  "Get no_methods ex_row ex_table (ex_row_key ''2'') [] (snd (Table_Delete ex_table (ex_row_key ''2'') [] ex_db2)) =
     (Inl (Sentinel ErrNotFound), snd (Table_Delete ex_table (ex_row_key ''2'') [] ex_db2))"
proof (rule client_delete_then_get)
  show "Table_Delete ex_table (ex_row_key ''2'') [] ex_db2 = (Inr (), snd (Table_Delete ex_table (ex_row_key ''2'') [] ex_db2))"
    "gc_projection (get_config []) = []"
    by code_simp+
qed simp

text \<open>
  A put with IfNotExists that succeeds stored its item where there was none with that attribute.
\<close>

theorem if_not_exists_creates:
  assumes "tb_backend t = memdb" "Table_Put ms ents t x [IfNotExists a] m = (Inr (), m')" "attr_name a"
  shows "\<exists>it k. item_key m (tb_name t) it = Inr k \<and> lookup_item m' (tb_name t) k = Some it \<and>
    (\<forall>old. lookup_item m (tb_name t) k = Some old \<longrightarrow> fmlookup old a = None)"
  using mb.put_if_not_exists [OF assms] by blast

theorem if_not_exists_creates_witness:
  "\<exists>it k. item_key ex_db1 ''t'' it = Inr k \<and> lookup_item ex_db2 ''t'' k = Some it \<and>
    (\<forall>old. lookup_item ex_db1 ''t'' k = Some old \<longrightarrow> fmlookup old ''PK'' = None)"
proof -
  have "attr_name ''PK''" by code_simp
  from if_not_exists_creates [OF _ ex_row_put this] show ?thesis by simp
qed

text \<open>
  A scan of a table on the in-memory backend returns, decoded and in order, the first items of the whole scan up to the limit.
\<close>

theorem scan_returns_the_first:
  assumes "scan_config opts = Inr cfg" "tb_backend t = memdb" "sc_indexName cfg = []"
    and "reachable m" "fmlookup m (tb_name t) = Some td" "item_count td < fuel"
    and "scan_all m (buildScanRequest (tb_name t) cfg fmempty) = Inr its" "traverse (decode ms T) its = Inr ws"
  shows "Scan_T fuel ms T t opts m =
    (Inr (if 0 < sint (sc_limit cfg) then take (nat (sint (sc_limit cfg))) ws else ws), m)"
proof -
  have "keys_ok td" using assms(4,5) by (auto simp: table_ok_def dest!: reachable_ok backend_okD)
  from Scan_T_first [OF assms(1-3,5) this assms(6-8)] show ?thesis by (simp add: limited_def)
qed

theorem scan_returns_the_first_witness:
  "Scan_T 3 no_methods ex_row ex_table [ScanFilter ''G = ?'' [AnyString ''y''], ScanLimit 5] ex_db2 =
    (Inr [ex_row_value ''2'' ''y''], ex_db2)"
proof -
  have cfg: "scan_config [ScanFilter ''G = ?'' [AnyString ''y''], ScanLimit 5] = Inr ex_scan_cfg" "sc_indexName ex_scan_cfg = []"
      "item_count (ex_td ex_db2) < 3"
    and all: "scan_all ex_db2 (buildScanRequest ''t'' ex_scan_cfg fmempty) = Inr [ex_item ''2'' ''y'']"
    and rows: "traverse (decode no_methods ex_row) [ex_item ''2'' ''y''] = Inr [ex_row_value ''2'' ''y'']"
    and limit: "sc_limit ex_scan_cfg = 5"
    by code_simp+
  from scan_returns_the_first [OF cfg(1) _ cfg(2) ex_reachable(3) _ cfg(3) _ rows, of ex_table] all ex_tables(3) limit
  show ?thesis by simp
qed

text \<open>
  A query iterator whose consumer never stops yields every item of the result, whatever the limit: the limit only sizes the pages.
\<close>

theorem iterators_ignore_the_limit:
  assumes "query_config opts = Inr cfg" "tb_backend t = memdb" "qc_indexName cfg = []"
    and "reachable m" "fmlookup m (tb_name t) = Some td" "item_count td < fuel"
    and "query_all m (buildQueryRequest (tb_name t) key cfg fmempty) = Inr its" "traverse (decode ms T) its = Inr ws"
  shows "QueryIter fuel ms T t key opts take_all [] m = (Inr (map Inr ws), m)"
proof -
  have "keys_ok td" using assms(4,5) by (auto simp: table_ok_def dest!: reachable_ok backend_okD)
  from QueryIter_take_all [OF assms(1,2,5) this assms(3,6-8)] show ?thesis .
qed

theorem iterators_ignore_the_limit_witness:
  "QueryIter 3 no_methods ex_row ex_table ex_kc [QueryLimit 1] take_all [] ex_db2 =
    (Inr [Inr (ex_row_value ''1'' ''x''), Inr (ex_row_value ''2'' ''y'')], ex_db2)"
proof -
  have cfg: "query_config [QueryLimit 1] = Inr ex_limit_cfg" "qc_indexName ex_limit_cfg = []" "item_count (ex_td ex_db2) < 3"
    and all: "query_all ex_db2 (buildQueryRequest ''t'' ex_kc ex_limit_cfg fmempty) = Inr [ex_item ''1'' ''x'', ex_item ''2'' ''y'']"
    and rows: "traverse (decode no_methods ex_row) [ex_item ''1'' ''x'', ex_item ''2'' ''y''] =
      Inr [ex_row_value ''1'' ''x'', ex_row_value ''2'' ''y'']"
    by code_simp+
  from iterators_ignore_the_limit [OF cfg(1) _ cfg(2) ex_reachable(3) _ cfg(3) _ rows, of ex_table ex_kc] all ex_tables(3)
  show ?thesis by simp
qed

text \<open>
  A ReadModifyWrite with a lock on an item nobody else writes succeeds at its first attempt: the item read is the modified value with the next version.
\<close>

theorem undisturbed_updates_succeed:
  assumes "tb_backend t = memdb" "tb_registry t = None" "rc_versionAttr (rmw_config opts) = a" "version_attr a"
    and "0 \<le> rc_maxRetries (rmw_config opts)"
    and "item_key m (tb_name t) (KeyValue_Map key) = Inr k" "lookup_item m (tb_name t) k = Some it"
    and "Unmarshal ms it T (zero_value T) = Inr item" "fn item m = (Inr item', m)"
    and "getVersionField T item' a = Inr v" "has_version a v (Some it)"
    and "setVersionField T item' a (wrap_int KInt64 (v + 1)) = Inr out" "Marshal ms (Some (T, out)) = Inr av"
    and "item_key m (tb_name t) av = Inr k"
  shows "\<exists>m'. ReadModifyWrite ms ents T t key fn opts m = (Inr (), m') \<and>
    (\<forall>u j. lookup_item m' u j = (if u = tb_name t \<and> j = k then Some av else lookup_item m u j))"
proof -
  have "0 < nat (rc_maxRetries (rmw_config opts) + 1)" using assms(5) by simp
  from undisturbed_update [where item = item and item' = item' and k = k and cfg = "rmw_config opts" and fn = fn and ents = ents,
      OF assms(1-4,6-8) assms(9) assms(10-14) this] show ?thesis
    by (simp add: ReadModifyWrite_def Let_def)
qed

theorem undisturbed_updates_succeed_witness:
  "\<exists>m'. ReadModifyWrite no_methods (\<lambda>_. None) ex_counter ex_table ex_counter_key ex_add_ten ex_lock (ex_counter_db 7 1) = (Inr (), m') \<and>
    lookup_item m' ''t'' (''S:a'', ''S:c'') = Some (ex_count_item 17 2)"
proof -
  have version: "has_version ''Version'' 1 (Some (ex_count_item 7 1))"
    using ex_count_version compare_version_self [of 1] by (auto simp: has_version_def)
  have fields: "getVersionField ex_counter (ex_count 17 1) ''Version'' = Inr 1"
    "setVersionField ex_counter (ex_count 17 1) ''Version'' (wrap_int KInt64 (1 + 1)) = Inr (ex_count 17 2)"
    by code_simp+
  have retries: "0 \<le> rc_maxRetries (rmw_config ex_lock)" by (simp add: ex_lock_config)
  have add: "ex_add_ten (ex_count 7 1) (ex_counter_db 7 1) = (Inr (ex_count 17 1), ex_counter_db 7 1)"
    by (simp add: ex_counter_steps)
  have key: "item_key (ex_counter_db 7 1) (tb_name ex_table) (KeyValue_Map ex_counter_key) = Inr (''S:a'', ''S:c'')"
    "lookup_item (ex_counter_db 7 1) (tb_name ex_table) (''S:a'', ''S:c'') = Some (ex_count_item 7 1)"
    "item_key (ex_counter_db 7 1) (tb_name ex_table) (ex_count_item 17 2) = Inr (''S:a'', ''S:c'')"
    using ex_counter_stored by simp_all
  from undisturbed_updates_succeed [where fn = ex_add_ten and item = "ex_count 7 1" and item' = "ex_count 17 1",
      OF ex_table_sel(2,3) ex_lock_config(1) ex_version retries key(1,2) ex_counter_marshal(3) add fields(1) version fields(2)
        ex_counter_marshal(1) key(3), of "\<lambda>_. None"]
  show ?thesis by auto
qed

end
